(* ===== verification/Prelude.thy ===== *)
theory Prelude
  imports Complex_Main "HOL-Library.Multiset" "HOL-Library.List_Lexorder" "HOL-Library.Char_ord"
begin

text \<open>
  Shared vocabulary of the development: results as sums, the JavaScript string operations
  the sources use (\<open>trim\<close>, \<open>split\<close>, \<open>join\<close>, \<open>startsWith\<close>, \<open>toLowerCase\<close>, \<open>padStart\<close>),
  decimal and hexadecimal printing, and generic lemmas on lists. A JavaScript string is a
  list of code units; the model keeps the code units below 256 (\<^typ>\<open>char\<close>), which is all
  the modelled code ever tests for.
\<close>

named_theorems result_simps \<open>equations of the result combinators\<close>
named_theorems string_simps \<open>equations of the string operations\<close>

type_synonym ('e, 'a) result = "'e + 'a"

section \<open>Results: a thrown error is Inl, a returned value Inr\<close>

fun res_bind :: "('e, 'a) result \<Rightarrow> ('a \<Rightarrow> ('e, 'b) result) \<Rightarrow> ('e, 'b) result" where
  "res_bind (Inl e) f = Inl e"
| "res_bind (Inr a) f = f a"

definition res_guard :: "bool \<Rightarrow> 'e \<Rightarrow> ('e, unit) result" where
  "res_guard bad e = (if bad then Inl e else Inr ())"

lemma res_bind_case: "res_bind r f = (case r of Inl e \<Rightarrow> Inl e | Inr a \<Rightarrow> f a)"
  by (cases r) auto

lemma res_bind_Inr_iff [result_simps]:
  "res_bind r f = Inr b \<longleftrightarrow> (\<exists>a. r = Inr a \<and> f a = Inr b)"
  by (cases r) auto

lemma res_bind_Inl_iff [result_simps]:
  "res_bind r f = Inl e \<longleftrightarrow> r = Inl e \<or> (\<exists>a. r = Inr a \<and> f a = Inl e)"
  by (cases r) auto

lemma res_guard_Inr [result_simps]: "res_guard bad e = Inr u \<longleftrightarrow> \<not> bad"
  by (simp add: res_guard_def)

lemma res_guard_Inl [result_simps]: "res_guard bad e = Inl e' \<longleftrightarrow> bad \<and> e' = e"
  by (auto simp: res_guard_def)

definition is_ok :: "('e, 'a) result \<Rightarrow> bool" where
  "is_ok r = (case r of Inl _ \<Rightarrow> False | Inr _ \<Rightarrow> True)"

lemma is_ok_simps [simp]: "is_ok (Inr a)" "\<not> is_ok (Inl e)"
  by (simp_all add: is_ok_def)

section \<open>Strings\<close>

text \<open>White space as \<open>String.prototype.trim\<close> strips it, below code unit 256.\<close>

definition is_ws :: "char \<Rightarrow> bool" where
  "is_ws c = (c \<in> {CHR '' '', CHR 0x09, CHR 0x0A, CHR 0x0B, CHR 0x0C, CHR 0x0D, CHR 0xA0})"

definition js_trim :: "string \<Rightarrow> string" where
  "js_trim s = rev (dropWhile is_ws (rev (dropWhile is_ws s)))"

fun split_on :: "char \<Rightarrow> string \<Rightarrow> string list" where
  "split_on c [] = [[]]"
| "split_on c (x # xs) =
     (if x = c then [] # split_on c xs
      else (case split_on c xs of [] \<Rightarrow> [[x]] | y # ys \<Rightarrow> (x # y) # ys))"

fun js_join :: "string \<Rightarrow> string list \<Rightarrow> string" where
  "js_join sep [] = []"
| "js_join sep [x] = x"
| "js_join sep (x # y # ys) = x @ sep @ js_join sep (y # ys)"

definition starts_with :: "string \<Rightarrow> string \<Rightarrow> bool" where
  "starts_with p s = (take (length p) s = p)"

definition ends_with :: "string \<Rightarrow> string \<Rightarrow> bool" where
  "ends_with p s = (length p \<le> length s \<and> drop (length s - length p) s = p)"

definition ch_range :: "char \<Rightarrow> char \<Rightarrow> char \<Rightarrow> bool" where
  "ch_range lo hi c = (of_char lo \<le> (of_char c :: nat) \<and> of_char c \<le> (of_char hi :: nat))"

definition is_digit :: "char \<Rightarrow> bool" where
  "is_digit = ch_range (CHR ''0'') (CHR ''9'')"

definition is_upper :: "char \<Rightarrow> bool" where
  "is_upper = ch_range (CHR ''A'') (CHR ''Z'')"

definition is_lower :: "char \<Rightarrow> bool" where
  "is_lower = ch_range (CHR ''a'') (CHR ''z'')"

definition is_hex :: "char \<Rightarrow> bool" where
  "is_hex c = (is_digit c \<or> ch_range (CHR ''a'') (CHR ''f'') c \<or> ch_range (CHR ''A'') (CHR ''F'') c)"

definition to_lower :: "char \<Rightarrow> char" where
  "to_lower c = (if is_upper c then char_of (of_char c + 32 :: nat) else c)"

definition js_lower :: "string \<Rightarrow> string" where
  "js_lower s = map to_lower s"

lemma split_on_not_Nil [simp]: "split_on c s \<noteq> []"
  by (induction s) (auto split: list.splits)

lemma js_join_split_on [string_simps]: "js_join [c] (split_on c s) = s"
proof (induction s)
  case Nil
  show ?case by simp
next
  case (Cons x xs)
  obtain y ys where eq: "split_on c xs = y # ys"
    using split_on_not_Nil by (metis list.exhaust)
  with Cons.IH show ?case by (cases ys) auto
qed

lemma split_on_no_sep [string_simps]: "p \<in> set (split_on c s) \<Longrightarrow> c \<notin> set p"
proof (induction s arbitrary: p)
  case Nil
  then show ?case by simp
next
  case (Cons x xs)
  obtain y ys where eq: "split_on c xs = y # ys"
    using split_on_not_Nil by (metis list.exhaust)
  with Cons show ?case by (auto split: if_splits)
qed

lemma split_on_none: "c \<notin> set p \<Longrightarrow> split_on c p = [p]"
  by (induction p) auto

lemma split_on_first: "c \<notin> set p \<Longrightarrow> split_on c (p @ c # s) = p # split_on c s"
  by (induction p) auto

lemma js_trim_empty [simp]: "js_trim [] = []"
  by (simp add: js_trim_def)

lemma dropWhile_rev_hd:
  "xs \<noteq> [] \<Longrightarrow> \<not> P (hd xs) \<Longrightarrow> rev (dropWhile P (rev xs)) \<noteq> [] \<and> hd (rev (dropWhile P (rev xs))) = hd xs"
  by (cases xs) (auto simp: dropWhile_append)

text \<open>Trimming leaves nothing to trim at either end, so it is idempotent.\<close>

lemma js_trim_ends:
  assumes "js_trim s \<noteq> []"
  shows "\<not> is_ws (hd (js_trim s))" and "\<not> is_ws (last (js_trim s))"
proof -
  let ?t = "dropWhile is_ws s"
  have nonempty: "?t \<noteq> []" using assms by (metis dropWhile.simps(1) js_trim_def rev.simps(1))
  then have h: "\<not> is_ws (hd ?t)" by (rule hd_dropWhile)
  show "\<not> is_ws (hd (js_trim s))"
    using dropWhile_rev_hd [of ?t is_ws, OF nonempty h] h by (simp add: js_trim_def)
  have "dropWhile is_ws (rev ?t) \<noteq> []" using assms by (simp add: js_trim_def)
  then show "\<not> is_ws (last (js_trim s))"
    using hd_dropWhile [of is_ws "rev ?t"] by (simp add: js_trim_def last_rev)
qed

lemma js_trim_idem [simp]: "js_trim (js_trim s) = js_trim s"
proof (cases "js_trim s = []")
  case True
  then show ?thesis by simp
next
  case False
  let ?u = "js_trim s"
  have "dropWhile is_ws ?u = ?u"
    using js_trim_ends(1) [OF False] by (cases ?u) auto
  moreover have "dropWhile is_ws (rev ?u) = rev ?u"
    using js_trim_ends(2) [OF False] False by (cases "rev ?u") (auto simp: last_rev dest: arg_cong [where f = rev])
  ultimately show ?thesis by (subst js_trim_def) simp
qed

section \<open>Numbers as text\<close>

definition digit_char :: "nat \<Rightarrow> char" where
  "digit_char d = (if d < 10 then char_of (48 + d) else char_of (87 + d))"

fun show_base :: "nat \<Rightarrow> nat \<Rightarrow> string" where
  "show_base b n = (if b < 2 \<or> n < b then [digit_char n] else show_base b (n div b) @ [digit_char (n mod b)])"

declare show_base.simps [simp del]

definition show_nat :: "nat \<Rightarrow> string" where
  "show_nat n = show_base 10 n"

definition show_int :: "int \<Rightarrow> string" where
  "show_int i = (if i < 0 then CHR ''-'' # show_nat (nat (- i)) else show_nat (nat i))"

definition pad_start :: "nat \<Rightarrow> char \<Rightarrow> string \<Rightarrow> string" where
  "pad_start n c s = replicate (n - length s) c @ s"

definition show_hex8 :: "nat \<Rightarrow> string" where
  "show_hex8 n = pad_start 8 (CHR ''0'') (show_base 16 n)"

definition digit_val :: "char \<Rightarrow> nat" where
  "digit_val c = (if is_digit c then of_char c - 48
     else if is_lower c then of_char c - 87 else of_char c - 55)"

definition read_base :: "nat \<Rightarrow> string \<Rightarrow> nat" where
  "read_base b s = foldl (\<lambda>n c. n * b + digit_val c) 0 s"

lemma digit_val_digit_char: "d < 16 \<Longrightarrow> digit_val (digit_char d) = d"
  by (auto simp: digit_val_def digit_char_def is_digit_def is_lower_def ch_range_def)

lemma read_base_snoc: "read_base b (s @ [c]) = read_base b s * b + digit_val c"
  by (simp add: read_base_def)

lemma read_show_base: "2 \<le> b \<Longrightarrow> b \<le> 16 \<Longrightarrow> read_base b (show_base b n) = n"
proof (induction b n rule: show_base.induct)
  case (1 b n)
  show ?case
  proof (cases "b < 2 \<or> n < b")
    case True
    with "1.prems" show ?thesis
      by (subst show_base.simps) (simp add: read_base_def digit_val_digit_char)
  next
    case False
    then have "n mod b < 16" using "1.prems" by (meson linorder_not_less mod_less_divisor order_less_le_trans zero_less_iff_neq_zero zero_neq_numeral less_le_trans pos2)
    with False "1" show ?thesis
      by (subst show_base.simps) (simp add: read_base_snoc digit_val_digit_char)
  qed
qed

lemma show_base_not_Nil [simp]: "show_base b n \<noteq> []"
  by (subst show_base.simps) simp

lemma read_show_nat [string_simps]: "read_base 10 (show_nat n) = n"
  by (simp add: show_nat_def read_show_base)

lemma show_nat_inject [simp]: "show_nat m = show_nat n \<longleftrightarrow> m = n"
  by (metis read_show_nat)

lemma digit_char_is_digit: "d < 10 \<Longrightarrow> is_digit (digit_char d)"
  by (auto simp: digit_char_def is_digit_def ch_range_def)

lemma show_nat_digits: "c \<in> set (show_nat n) \<Longrightarrow> is_digit c"
proof -
  have "\<forall>c \<in> set (show_base 10 n). is_digit c"
  proof (induction "10::nat" n rule: show_base.induct)
    case (1 n)
    then show ?case by (subst show_base.simps) (auto simp: digit_char_is_digit)
  qed
  then show "c \<in> set (show_nat n) \<Longrightarrow> is_digit c" by (simp add: show_nat_def)
qed

section \<open>Lists\<close>

text \<open>A JavaScript \<open>Set\<close> built from a list keeps first occurrences, in order.\<close>

definition js_set :: "'a list \<Rightarrow> 'a list" where
  "js_set xs = rev (remdups (rev xs))"

lemma set_js_set [simp]: "set (js_set xs) = set xs"
  by (simp add: js_set_def)

lemma distinct_js_set [simp]: "distinct (js_set xs)"
  by (simp add: js_set_def)

lemma js_set_distinct: "distinct xs \<Longrightarrow> js_set xs = xs"
  by (simp add: js_set_def distinct_remdups_id)

lemma js_set_snoc: "js_set (xs @ [x]) = (if x \<in> set xs then js_set xs else js_set xs @ [x])"
  by (simp add: js_set_def)

text \<open>
  \<open>Array.prototype.sort\<close> with a comparator is stable; for a comparator that is a total
  preorder its result is the one of insertion from the right.
\<close>

fun cmp_insert :: "('a \<Rightarrow> 'a \<Rightarrow> int) \<Rightarrow> 'a \<Rightarrow> 'a list \<Rightarrow> 'a list" where
  "cmp_insert cmp x [] = [x]"
| "cmp_insert cmp x (y # ys) = (if cmp x y \<le> 0 then x # y # ys else y # cmp_insert cmp x ys)"

definition js_sort :: "('a \<Rightarrow> 'a \<Rightarrow> int) \<Rightarrow> 'a list \<Rightarrow> 'a list" where
  "js_sort cmp xs = foldr (cmp_insert cmp) xs []"

lemma mset_cmp_insert [simp]: "mset (cmp_insert cmp x ys) = add_mset x (mset ys)"
  by (induction ys) auto

lemma mset_js_sort [simp]: "mset (js_sort cmp xs) = mset xs"
  unfolding js_sort_def by (induction xs) auto

lemma set_js_sort [simp]: "set (js_sort cmp xs) = set xs"
  by (metis mset_js_sort set_mset_mset)

lemma set_cmp_insert [simp]: "set (cmp_insert cmp x ys) = insert x (set ys)"
  by (induction ys) auto

lemma sorted_cmp_insert:
  assumes "\<And>x y. cmp x y \<le> 0 \<or> cmp y x \<le> 0" and "\<And>x y z. cmp x y \<le> 0 \<Longrightarrow> cmp y z \<le> 0 \<Longrightarrow> cmp x z \<le> 0"
  shows "sorted_wrt (\<lambda>x y. cmp x y \<le> 0) ys \<Longrightarrow> sorted_wrt (\<lambda>x y. cmp x y \<le> 0) (cmp_insert cmp x ys)"
proof (induction ys)
  case (Cons y ys)
  show ?case
  proof (cases "cmp x y \<le> 0")
    case True
    with Cons.prems assms(2) [OF True] show ?thesis by auto
  next
    case False
    with Cons assms(1) [of x y] show ?thesis by auto
  qed
qed simp

lemma sorted_js_sort:
  assumes "\<And>x y. cmp x y \<le> 0 \<or> cmp y x \<le> 0" and "\<And>x y z. cmp x y \<le> 0 \<Longrightarrow> cmp y z \<le> 0 \<Longrightarrow> cmp x z \<le> 0"
  shows "sorted_wrt (\<lambda>x y. cmp x y \<le> 0) (js_sort cmp xs)"
  unfolding js_sort_def by (induction xs) (simp_all add: sorted_cmp_insert [of cmp, OF assms])

lemma sum_list_map_const_le: "(\<And>x. x \<in> set xs \<Longrightarrow> f x \<le> (c::nat)) \<Longrightarrow> sum_list (map f xs) \<le> c * length xs"
  by (induction xs) (auto simp: add_mono)

lemma filter_take_sorted:
  fixes xs :: "'a::linorder list"
  assumes "sorted xs" "distinct xs" "k < length xs"
  shows "filter (\<lambda>x. xs ! k < x) xs = drop (Suc k) xs"
  using assms
proof (induction xs arbitrary: k)
  case Nil
  then show ?case by simp
next
  case (Cons a xs)
  show ?case
  proof (cases k)
    case 0
    with Cons.prems show ?thesis by (force simp: filter_id_conv less_le)
  next
    case (Suc j)
    with Cons.prems have "a < xs ! j" by (auto simp: le_less)
    with Suc Cons show ?thesis by auto
  qed
qed

section \<open>Defaults, and maps in insertion order\<close>

definition or_else :: "'a option \<Rightarrow> 'a \<Rightarrow> 'a" where
  "or_else v d = (case v of None \<Rightarrow> d | Some x \<Rightarrow> x)"

lemma or_else_simps [simp]: "or_else None d = d" "or_else (Some x) d = x"
  by (simp_all add: or_else_def)

fun map_set :: "'k \<Rightarrow> 'v \<Rightarrow> ('k \<times> 'v) list \<Rightarrow> ('k \<times> 'v) list" where
  "map_set k v [] = [(k, v)]"
| "map_set k v ((k', v') # m) = (if k = k' then (k, v) # m else (k', v') # map_set k v m)"

lemma map_of_map_set [simp]: "map_of (map_set k v m) = (map_of m)(k \<mapsto> v)"
  by (induction m) (auto simp: fun_eq_iff)

lemma keys_map_set:
  "map fst (map_set k v m) = (if k \<in> fst ` set m then map fst m else map fst m @ [k])"
  by (induction m) (auto simp: image_iff Bex_def)

lemma length_map_set: "length (map_set k v m) = (if k \<in> fst ` set m then length m else Suc (length m))"
  by (metis keys_map_set length_map length_append_singleton)

lemma distinct_map_set: "distinct (map fst m) \<Longrightarrow> distinct (map fst (map_set k v m))"
  by (auto simp: keys_map_set)

lemma sum_map_set_add:
  "distinct (map fst m) \<Longrightarrow>
     sum_list (map snd (map_set k (or_else (map_of m k) 0 + c) m)) = sum_list (map snd m) + (c::nat)"
  by (induction m) auto

lemma keys_set_map_set: "fst ` set (map_set k v m) = insert k (fst ` set m)"
proof -
  have "set (map fst (map_set k v m)) = insert k (set (map fst m))"
    unfolding keys_map_set by auto
  then show ?thesis by simp
qed

lemma three_steps: "R a b \<Longrightarrow> R b c \<Longrightarrow> R c d \<Longrightarrow> R\<^sup>*\<^sup>* a d"
  by (rule rtranclp.rtrancl_into_rtrancl [OF rtranclp.rtrancl_into_rtrancl [OF r_into_rtranclp]])

end
