(* ===== verification/Js_Values.thy ===== *)
theory Js_Values
  imports Prelude
begin

text \<open>
  The JavaScript values the sources exchange: JSON values (\<open>JsonValue\<close> of the store's
  types, and what \<open>JSON.parse\<close> returns), and numbers read from text with \<open>Number(...)\<close>.
  A number is an exact rational: rounding to binary64 is not modelled, so statements about
  numbers are exact for the integers below 2^53 that ledgers, limits and delays are.
\<close>

section \<open>JSON values\<close>

datatype json =
    JNull
  | JBool bool
  | JNum rat
  | JStr string
  | JArr "json list"
  | JObj "(string \<times> json) list"

text \<open>Reading a property: \<open>undefined\<close> (None) where the object has no such key.\<close>

fun json_get :: "json \<Rightarrow> string \<Rightarrow> json option" where
  "json_get (JObj kvs) k = map_of kvs k"
| "json_get _ k = None"

definition rat_is_int :: "rat \<Rightarrow> bool" where
  "rat_is_int r = (of_int \<lfloor>r\<rfloor> = r)"

lemma rat_is_int_of_int [simp]: "rat_is_int (of_int i)"
  by (simp add: rat_is_int_def)

text \<open>
  A plain object inherits from \<open>Object.prototype\<close>: \<open>name in {}\<close> holds for its names, and an
  assignment to \<open>__proto__\<close> adds no key.
\<close>

definition PROTO_NAMES :: "string list" where
  "PROTO_NAMES = [''constructor'', ''__defineGetter__'', ''__defineSetter__'', ''hasOwnProperty'', ''__lookupGetter__'',
     ''__lookupSetter__'', ''isPrototypeOf'', ''propertyIsEnumerable'', ''toString'', ''valueOf'', ''__proto__'',
     ''toLocaleString'']"

definition in_record :: "string \<Rightarrow> (string \<times> 'a) list \<Rightarrow> bool" where
  "in_record name m = (name \<in> fst ` set m \<or> name \<in> set PROTO_NAMES)"

section \<open>Number(text)\<close>

datatype js_num = JsNaN | JsInf bool | JsNum rat

definition is_sign :: "char \<Rightarrow> bool" where
  "is_sign c = (c = CHR ''+'' \<or> c = CHR ''-'')"

definition split_sign :: "string \<Rightarrow> bool \<times> string" where
  "split_sign s = (case s of [] \<Rightarrow> (False, [])
     | c # r \<Rightarrow> if is_sign c then (c = CHR ''-'', r) else (False, s))"

text \<open>An exponent part \<open>e[+-]digits\<close>; None where the text is not one.\<close>

definition parse_exponent :: "string \<Rightarrow> rat option" where
  "parse_exponent s = (case s of [] \<Rightarrow> Some 1
     | c # r \<Rightarrow> if c = CHR ''e'' \<or> c = CHR ''E'' then
         (let (neg, ds) = split_sign r in
           if ds \<noteq> [] \<and> list_all is_digit ds then
             Some (if neg then 1 / 10 ^ read_base 10 ds else 10 ^ read_base 10 ds)
           else None)
       else None)"

definition parse_unsigned :: "string \<Rightarrow> rat option" where
  "parse_unsigned s =
     (let ip = takeWhile is_digit s; r1 = dropWhile is_digit s;
          dot = (case r1 of [] \<Rightarrow> False | c # _ \<Rightarrow> c = CHR ''.'');
          fp = (if dot then takeWhile is_digit (tl r1) else []);
          r2 = (if dot then dropWhile is_digit (tl r1) else r1)
      in if ip = [] \<and> fp = [] then None
         else map_option (\<lambda>e. of_nat (read_base 10 (ip @ fp)) / 10 ^ length fp * e) (parse_exponent r2))"

definition radix_digits :: "char \<Rightarrow> string \<Rightarrow> rat option" where
  "radix_digits x ds =
     (if ds = [] then None
      else if to_lower x = CHR ''x'' then
        (if list_all is_hex ds then Some (of_nat (read_base 16 ds)) else None)
      else if to_lower x = CHR ''o'' then
        (if list_all (\<lambda>c. is_digit c \<and> digit_val c < 8) ds then Some (of_nat (read_base 8 ds)) else None)
      else if to_lower x = CHR ''b'' then
        (if list_all (\<lambda>c. is_digit c \<and> digit_val c < 2) ds then Some (of_nat (read_base 2 ds)) else None)
      else None)"

definition parse_radix :: "string \<Rightarrow> rat option" where
  "parse_radix s = (case s of [] \<Rightarrow> None | z # r \<Rightarrow>
     if z \<noteq> CHR ''0'' then None else (case r of [] \<Rightarrow> None | x # ds \<Rightarrow> radix_digits x ds))"

definition js_Number :: "string \<Rightarrow> js_num" where
  "js_Number raw =
     (let s = js_trim raw in
      if s = [] then JsNum 0
      else case parse_radix s of Some r \<Rightarrow> JsNum r
      | None \<Rightarrow>
        (let (neg, body) = split_sign s in
         if body = ''Infinity'' then JsInf neg
         else case parse_unsigned body of
             None \<Rightarrow> JsNaN
           | Some r \<Rightarrow> JsNum (if neg then - r else r)))"

text \<open>\<open>Number(text)\<close> reads back what \<open>String(n)\<close> prints for an integer.\<close>

lemma takeWhile_all: "list_all P xs \<Longrightarrow> takeWhile P xs = xs"
  by (simp add: list_all_iff)

lemma dropWhile_all: "list_all P xs \<Longrightarrow> dropWhile P xs = []"
  by (simp add: list_all_iff)

lemma show_nat_all_digits [simp]: "list_all is_digit (show_nat n)"
  by (auto simp: list_all_iff dest: show_nat_digits)

lemma show_nat_not_Nil [simp]: "show_nat n \<noteq> []"
  by (simp add: show_nat_def)

lemma parse_unsigned_show_nat: "parse_unsigned (show_nat n) = Some (of_nat n)"
  by (simp add: parse_unsigned_def takeWhile_all dropWhile_all parse_exponent_def read_show_nat
    del: takeWhile_eq_all_conv dropWhile_eq_Nil_conv)

lemma digit_not_ws: "is_digit c \<Longrightarrow> \<not> is_ws c"
  by (auto simp: is_digit_def ch_range_def is_ws_def)

lemma js_trim_no_ws: "\<forall>c \<in> set s. \<not> is_ws c \<Longrightarrow> js_trim s = s"
proof -
  assume a: "\<forall>c \<in> set s. \<not> is_ws c"
  then have "dropWhile is_ws s = s" by (cases s) auto
  moreover have "dropWhile is_ws (rev s) = rev s" using a by (cases "rev s") (auto dest: arg_cong [where f = rev])
  ultimately show ?thesis by (simp add: js_trim_def)
qed

lemma radix_digits_digit: "is_digit x \<Longrightarrow> radix_digits x ds = None"
proof -
  assume d: "is_digit x"
  then have "to_lower x = x"
    by (auto simp: to_lower_def is_digit_def is_upper_def ch_range_def)
  moreover have "x \<noteq> CHR ''x''" "x \<noteq> CHR ''o''" "x \<noteq> CHR ''b''"
    using d by (auto simp: is_digit_def ch_range_def)
  ultimately show ?thesis by (simp add: radix_digits_def)
qed

lemma parse_radix_digits: "list_all is_digit s \<Longrightarrow> parse_radix s = None"
  by (auto simp: parse_radix_def radix_digits_digit split: list.splits)

lemma js_Number_show_nat: "js_Number (show_nat n) = JsNum (of_nat n)"
proof -
  have t: "js_trim (show_nat n) = show_nat n"
    by (rule js_trim_no_ws) (auto dest: show_nat_digits digit_not_ws)
  obtain c r where cr: "show_nat n = c # r" by (cases "show_nat n") auto
  then have "is_digit c" using show_nat_digits [of c n] by simp
  then have s: "split_sign (show_nat n) = (False, show_nat n)"
    by (auto simp: split_sign_def cr is_digit_def ch_range_def is_sign_def)
  have "show_nat n \<noteq> ''Infinity''"
  proof
    assume "show_nat n = ''Infinity''"
    then have "list_all is_digit ''Infinity''" by (metis show_nat_all_digits)
    then show False by (simp add: is_digit_def ch_range_def)
  qed
  then show ?thesis
    by (simp add: js_Number_def t parse_radix_digits s parse_unsigned_show_nat Let_def)
qed

lemma js_Number_show_int: "js_Number (show_int i) = JsNum (of_int i)"
proof (cases "i < 0")
  case True
  let ?d = "show_nat (nat (- i))"
  have t: "js_trim (CHR ''-'' # ?d) = CHR ''-'' # ?d"
    by (rule js_trim_no_ws) (auto simp: is_ws_def dest!: show_nat_digits digit_not_ws)
  have "parse_radix (CHR ''-'' # ?d) = None" by (simp add: parse_radix_def)
  moreover have "?d \<noteq> ''Infinity''"
    using show_nat_all_digits [of "nat (- i)"] by (auto simp: is_digit_def ch_range_def)
  ultimately show ?thesis
    using True by (simp add: show_int_def js_Number_def t split_sign_def is_sign_def parse_unsigned_show_nat Let_def)
qed (simp add: show_int_def js_Number_show_nat)

lemma show_int_chars: "c \<in> set (show_int i) \<Longrightarrow> is_digit c \<or> c = CHR ''-''"
  by (auto simp: show_int_def split: if_splits dest: show_nat_digits)

section \<open>Math.round, Math.trunc\<close>

definition js_round :: "rat \<Rightarrow> int" where
  "js_round r = \<lfloor>r + 1 / 2\<rfloor>"

definition js_trunc :: "rat \<Rightarrow> int" where
  "js_trunc r = (if r < 0 then \<lceil>r\<rceil> else \<lfloor>r\<rfloor>)"

end
