(* ===== verification/Retention.thy ===== *)
theory Retention
  imports Js_Values
begin

text \<open>
  Startup diagnostics of the ingest package: the retention window of a node against a saved
  position (\<open>retention.ts\<close>), the local clock against the ledger close time
  (\<open>clock-skew.ts\<close>) and the network presets (\<open>networks.ts\<close>). \<open>Date.toISOString\<close> is the
  parameter \<open>to_iso\<close>, which returns the error text for a time out of range.
\<close>

section \<open>Retention\<close>

record retention_state =
  rs_latestLedger :: int
  rs_oldestLedger :: int

record retention_comparison =
  checkpointLedger :: int
  cmp_oldestLedger :: int
  pastWindow :: bool
  lostLedgers :: int
  windowShiftLedgers :: "int option"

definition compareRetention :: "int \<Rightarrow> retention_state option \<Rightarrow> retention_state \<Rightarrow> retention_comparison" where
  "compareRetention ledger snapshot current =
     (let past = (ledger > 0 \<and> ledger < rs_oldestLedger current)
      in \<lparr>checkpointLedger = ledger, cmp_oldestLedger = rs_oldestLedger current, pastWindow = past,
          lostLedgers = (if past then rs_oldestLedger current - ledger else 0),
          windowShiftLedgers = map_option (\<lambda>s. max 0 (rs_oldestLedger current - rs_oldestLedger s)) snapshot\<rparr>)"

definition describeRetentionGap :: "retention_comparison \<Rightarrow> string option \<Rightarrow> string option" where
  "describeRetentionGap c savedAt =
     (if \<not> pastWindow c then None
      else let when = (case savedAt of Some s \<Rightarrow> if s = [] then [] else '' (last saved '' @ s @ '')'' | None \<Rightarrow> []);
               shift = (case windowShiftLedgers c of Some n \<Rightarrow>
                   if n > 0 then '' The window has advanced '' @ show_int n @ '' ledgers since then.'' else []
                 | None \<Rightarrow> [])
           in Some (''WARNING: the node's retention window has moved past this stream's saved position. '' @
                ''It retains from ledger '' @ show_int (cmp_oldestLedger c) @ '', but the stream stopped at ledger '' @
                show_int (checkpointLedger c) @ when @ ''.'' @ shift @ '' '' @
                show_int (lostLedgers c) @ '' ledger(s) of events in between are unrecoverable from this node; '' @
                ''indexing will restart from ledger '' @ show_int (cmp_oldestLedger c) @
                '' once the saved cursor is rejected.''))"

lemma describeRetentionGap_None: "describeRetentionGap c s = None \<longleftrightarrow> \<not> pastWindow c"
  by (simp add: describeRetentionGap_def Let_def)

section \<open>Clock skew\<close>

definition DEFAULT_CLOCK_SKEW_THRESHOLD_SECONDS :: rat where
  "DEFAULT_CLOCK_SKEW_THRESHOLD_SECONDS = 60"

record clock_skew =
  skew_latestLedger :: int
  ledgerCloseTime :: string
  localTime :: string
  skewSeconds :: int
  thresholdSeconds :: rat
  exceedsThreshold :: bool

datatype close_time = CloseText string | CloseNumber js_num

datatype skew_error = UnusableCloseTime close_time | InvalidTime string

definition measureClockSkew ::
    "(rat \<Rightarrow> string + string) \<Rightarrow> int \<Rightarrow> close_time \<Rightarrow> rat \<Rightarrow> rat option \<Rightarrow> (skew_error, clock_skew) result" where
  "measureClockSkew to_iso latest closeTime nowMs threshold =
     (let closeSeconds = (case closeTime of CloseNumber n \<Rightarrow> n | CloseText s \<Rightarrow> js_Number s);
          t = (case threshold of None \<Rightarrow> DEFAULT_CLOCK_SKEW_THRESHOLD_SECONDS | Some t \<Rightarrow> t)
      in case closeSeconds of
           JsNum cs \<Rightarrow>
             if closeTime = CloseText [] \<or> cs \<le> 0 then Inl (UnusableCloseTime closeTime)
             else let skew = js_round (nowMs / 1000 - cs)
                  in case to_iso (cs * 1000) of Inl e \<Rightarrow> Inl (InvalidTime e) | Inr close \<Rightarrow>
                     (case to_iso nowMs of Inl e \<Rightarrow> Inl (InvalidTime e) | Inr now \<Rightarrow>
                      Inr \<lparr>skew_latestLedger = latest, ledgerCloseTime = close, localTime = now,
                           skewSeconds = skew, thresholdSeconds = t,
                           exceedsThreshold = (of_int \<bar>skew\<bar> > t)\<rparr>)
         | _ \<Rightarrow> Inl (UnusableCloseTime closeTime))"

definition resolveClockSkewThreshold :: "string option \<Rightarrow> rat" where
  "resolveClockSkewThreshold raw =
     (case raw of None \<Rightarrow> DEFAULT_CLOCK_SKEW_THRESHOLD_SECONDS
      | Some s \<Rightarrow> if js_trim s = [] then DEFAULT_CLOCK_SKEW_THRESHOLD_SECONDS
         else case js_Number s of JsNum v \<Rightarrow> if v \<ge> 0 then v else DEFAULT_CLOCK_SKEW_THRESHOLD_SECONDS
              | _ \<Rightarrow> DEFAULT_CLOCK_SKEW_THRESHOLD_SECONDS)"

definition describeClockSkew :: "clock_skew \<Rightarrow> string" where
  "describeClockSkew s =
     (let direction = (if skewSeconds s \<ge> 0 then ''ahead of'' else ''behind'')
      in ''local clock is '' @ show_int \<bar>skewSeconds s\<bar> @ ''s '' @ direction @ '' ledger '' @
         show_int (skew_latestLedger s) @ '''s close time ('' @ ledgerCloseTime s @ ''; local '' @ localTime s @ '')'')"

lemma resolveClockSkewThreshold_nonneg: "0 \<le> resolveClockSkewThreshold raw"
  by (auto simp: resolveClockSkewThreshold_def DEFAULT_CLOCK_SKEW_THRESHOLD_SECONDS_def
    split: option.splits js_num.splits)

section \<open>Network presets\<close>

record network_config =
  net_name :: string
  net_rpcUrl :: string
  networkPassphrase :: string
  horizonUrl :: string

definition NETWORKS :: "(string \<times> network_config) list" where
  "NETWORKS =
     [(''testnet'', \<lparr>net_name = ''testnet'', net_rpcUrl = ''https://soroban-testnet.stellar.org'',
         networkPassphrase = ''Test SDF Network ; September 2015'', horizonUrl = ''https://horizon-testnet.stellar.org''\<rparr>),
      (''mainnet'', \<lparr>net_name = ''mainnet'', net_rpcUrl = ''https://mainnet.sorobanrpc.com'',
         networkPassphrase = ''Public Global Stellar Network ; September 2015'', horizonUrl = ''https://horizon.stellar.org''\<rparr>),
      (''futurenet'', \<lparr>net_name = ''futurenet'', net_rpcUrl = ''https://rpc-futurenet.stellar.org'',
         networkPassphrase = ''Test SDF Future Network ; October 2022'', horizonUrl = ''https://horizon-futurenet.stellar.org''\<rparr>)]"

definition isNetworkName :: "string \<Rightarrow> bool" where
  "isNetworkName v = (map_of NETWORKS v \<noteq> None)"

definition resolveNetwork :: "string \<Rightarrow> string option \<Rightarrow> (string, network_config) result" where
  "resolveNetwork network url =
     (case map_of NETWORKS network of
        None \<Rightarrow> Inl (''Unknown network \"'' @ network @ ''\". Expected one of: '' @ js_join '', '' (map fst NETWORKS) @ ''.'')
      | Some preset \<Rightarrow> Inr (case url of Some u \<Rightarrow> if u = [] then preset else preset\<lparr>net_rpcUrl := u\<rparr> | None \<Rightarrow> preset))"

end
