(* ===== verification/Cursor.thy ===== *)
theory Cursor
  imports Js_Values Retention
begin

text \<open>
  Where a stream remembers its position: the \<open>CursorStore\<close> interface of
  \<open>packages/ingest/src/cursor.ts\<close> as the locale \<open>cursor_store\<close>, with its in-memory and its
  file implementation, and \<open>StoreBackedCursors\<close> of \<open>packages/cli/src/indexer.ts\<close>. Each is
  an interpretation of the locale. The file store keeps a directory as a map from file names
  to contents (None for text that is not JSON); the JSON text itself is the value it denotes.
\<close>

record cursor_state =
  cs_cursor :: string
  cs_ledger :: int
  cs_updatedAt :: json
  cs_retention :: "retention_state option"

datatype cursor_error = SyntaxErr | TypeErr

type_synonym cursor_result = "(cursor_error, cursor_state option) result"

section \<open>The interface\<close>

text \<open>
  \<open>slot\<close> is what two keys must differ in to be independent streams, \<open>view\<close> what a saved
  state reads back as (None for a state that carries no position).
\<close>

locale cursor_store =
  fixes load :: "'s \<Rightarrow> string \<Rightarrow> cursor_result"
    and save :: "'s \<Rightarrow> string \<Rightarrow> cursor_state \<Rightarrow> 's"
    and clear :: "'s \<Rightarrow> string \<Rightarrow> 's"
    and slot :: "string \<Rightarrow> 'k"
    and view :: "cursor_state \<Rightarrow> cursor_state option"
  assumes load_save: "slot k' = slot k \<Longrightarrow> load (save s k c) k' = Inr (view c)"
    and load_save_other: "slot k' \<noteq> slot k \<Longrightarrow> load (save s k c) k' = load s k'"
    and load_clear: "slot k' = slot k \<Longrightarrow> load (clear s k) k' = Inr None"
    and load_clear_other: "slot k' \<noteq> slot k \<Longrightarrow> load (clear s k) k' = load s k'"

datatype cursor_op = SaveOp string cursor_state | ClearOp string

fun op_key :: "cursor_op \<Rightarrow> string" where
  "op_key (SaveOp k c) = k"
| "op_key (ClearOp k) = k"

context cursor_store
begin

fun apply_op :: "'s \<Rightarrow> cursor_op \<Rightarrow> 's" where
  "apply_op s (SaveOp k c) = save s k c"
| "apply_op s (ClearOp k) = clear s k"

fun op_view :: "cursor_op \<Rightarrow> cursor_state option" where
  "op_view (SaveOp k c) = view c"
| "op_view (ClearOp k) = None"

lemma load_apply_op:
  "load (apply_op s oper) k = (if slot k = slot (op_key oper) then Inr (op_view oper) else load s k)"
  by (cases oper) (auto simp: load_save load_save_other load_clear load_clear_other)

text \<open>A restart finds exactly what the last operation on its slot left behind.\<close>

lemma resume:
  "load (foldl apply_op s ops) k =
     (case filter (\<lambda>oper. slot (op_key oper) = slot k) (rev ops) of
        [] \<Rightarrow> load s k | oper # _ \<Rightarrow> Inr (op_view oper))"
  by (induction ops rule: rev_induct) (auto simp: load_apply_op)

end

section \<open>MemoryCursorStore\<close>

type_synonym memory_cursors = "string \<Rightarrow> cursor_state option"

definition mem_load :: "memory_cursors \<Rightarrow> string \<Rightarrow> cursor_result" where
  "mem_load s k = Inr (s k)"

definition mem_save :: "memory_cursors \<Rightarrow> string \<Rightarrow> cursor_state \<Rightarrow> memory_cursors" where
  "mem_save s k c = s(k \<mapsto> c)"

definition mem_clear :: "memory_cursors \<Rightarrow> string \<Rightarrow> memory_cursors" where
  "mem_clear s k = s(k := None)"

interpretation memc: cursor_store mem_load mem_save mem_clear "\<lambda>k. k" Some
  by unfold_locales (auto simp: mem_load_def mem_save_def mem_clear_def)

section \<open>FileCursorStore\<close>

text \<open>A directory: the files that exist, each with its content.\<close>

type_synonym cursor_dir = "string \<Rightarrow> json option option"

definition safe_char :: "char \<Rightarrow> char" where
  "safe_char c = (if is_upper c \<or> is_lower c \<or> is_digit c \<or> c = CHR ''.'' \<or> c = CHR ''_'' \<or> c = CHR ''-''
     then c else CHR ''_'')"

definition cursor_file :: "string \<Rightarrow> string" where
  "cursor_file key = map safe_char key @ ''.cursor.json''"

definition isLedger :: "json option \<Rightarrow> int option" where
  "isLedger v = (case v of Some (JNum r) \<Rightarrow> if rat_is_int r \<and> r > 0 then Some \<lfloor>r\<rfloor> else None | _ \<Rightarrow> None)"

definition parseRetention :: "json option \<Rightarrow> retention_state option" where
  "parseRetention v =
     (case v of
        Some (JObj kvs) \<Rightarrow>
          (case isLedger (map_of kvs ''latestLedger'') of None \<Rightarrow> None | Some latest \<Rightarrow>
           (case isLedger (map_of kvs ''oldestLedger'') of None \<Rightarrow> None | Some oldest \<Rightarrow>
             if oldest > latest then None
             else Some \<lparr>rs_latestLedger = latest, rs_oldestLedger = oldest\<rparr>))
      | _ \<Rightarrow> None)"

definition EPOCH :: string where
  "EPOCH = ''1970-01-01T00:00:00.000Z''"

text \<open>
  \<open>JSON.parse\<close> and the property reads: text that is not JSON throws, so does reading a
  property of \<open>null\<close>; any other value without a usable \<open>cursor\<close> is "no position".
\<close>

definition parse_cursor :: "json option \<Rightarrow> cursor_result" where
  "parse_cursor content =
     (case content of
        None \<Rightarrow> Inl SyntaxErr
      | Some JNull \<Rightarrow> Inl TypeErr
      | Some v \<Rightarrow>
         (case json_get v ''cursor'' of
            Some (JStr cur) \<Rightarrow>
              if cur = [] then Inr None
              else Inr (Some
                \<lparr>cs_cursor = cur,
                 cs_ledger = (case json_get v ''ledger'' of Some (JNum r) \<Rightarrow> \<lfloor>r\<rfloor> | _ \<Rightarrow> 0),
                 cs_updatedAt = (case json_get v ''updatedAt'' of
                     None \<Rightarrow> JStr EPOCH | Some JNull \<Rightarrow> JStr EPOCH | Some u \<Rightarrow> u),
                 cs_retention = parseRetention (json_get v ''retention'')\<rparr>)
          | _ \<Rightarrow> Inr None))"

definition file_load :: "cursor_dir \<Rightarrow> string \<Rightarrow> cursor_result" where
  "file_load dir key = (case dir (cursor_file key) of None \<Rightarrow> Inr None | Some content \<Rightarrow> parse_cursor content)"

definition retention_json :: "retention_state \<Rightarrow> json" where
  "retention_json r = JObj [(''latestLedger'', JNum (of_int (rs_latestLedger r))),
     (''oldestLedger'', JNum (of_int (rs_oldestLedger r)))]"

definition cursor_json :: "cursor_state \<Rightarrow> json" where
  "cursor_json c = JObj ([(''cursor'', JStr (cs_cursor c)), (''ledger'', JNum (of_int (cs_ledger c))),
      (''updatedAt'', cs_updatedAt c)] @
      (case cs_retention c of None \<Rightarrow> [] | Some r \<Rightarrow> [(''retention'', retention_json r)]))"

definition temp_file :: "string \<Rightarrow> string \<Rightarrow> string \<Rightarrow> string \<Rightarrow> string" where
  "temp_file path pid now rand = path @ ''.'' @ pid @ ''.'' @ now @ ''.'' @ rand @ ''.tmp''"

text \<open>
  \<open>save\<close> writes a temporary file and renames it; the two file-system steps are separate so
  that a crash between them is a state of the model.
\<close>

definition write_temp :: "cursor_dir \<Rightarrow> string \<Rightarrow> cursor_state \<Rightarrow> cursor_dir" where
  "write_temp dir tmp c = dir(tmp \<mapsto> Some (cursor_json c))"

definition rename_file :: "cursor_dir \<Rightarrow> string \<Rightarrow> string \<Rightarrow> cursor_dir" where
  "rename_file dir src dst = (dir(dst := dir src))(src := None)"

definition file_save :: "string \<Rightarrow> string \<Rightarrow> string \<Rightarrow> cursor_dir \<Rightarrow> string \<Rightarrow> cursor_state \<Rightarrow> cursor_dir" where
  "file_save pid now rand dir key c =
     (let path = cursor_file key; tmp = temp_file path pid now rand
      in rename_file (write_temp dir tmp c) tmp path)"

definition file_clear :: "cursor_dir \<Rightarrow> string \<Rightarrow> cursor_dir" where
  "file_clear dir key = dir(cursor_file key := None)"

definition file_view :: "cursor_state \<Rightarrow> cursor_state option" where
  "file_view c = (if cs_cursor c = [] then None
     else Some (c\<lparr>cs_updatedAt := (if cs_updatedAt c = JNull then JStr EPOCH else cs_updatedAt c),
       cs_retention := (case cs_retention c of None \<Rightarrow> None | Some r \<Rightarrow>
         if 0 < rs_oldestLedger r \<and> rs_oldestLedger r \<le> rs_latestLedger r then Some r else None)\<rparr>))"

lemma isLedger_of_int: "isLedger (Some (JNum (of_int i))) = (if 0 < i then Some i else None)"
  by (simp add: isLedger_def)

lemma parse_cursor_json: "parse_cursor (Some (cursor_json c)) = Inr (file_view c)"
proof -
  have r: "parseRetention (Some (retention_json r)) =
      (if 0 < rs_oldestLedger r \<and> rs_oldestLedger r \<le> rs_latestLedger r then Some r else None)" for r
    by (auto simp: parseRetention_def retention_json_def isLedger_of_int)
  have n: "parseRetention None = None" by (simp add: parseRetention_def)
  show ?thesis
    by (cases c) (auto simp: parse_cursor_def cursor_json_def file_view_def r n
      split: option.splits json.splits)
qed

text \<open>Every temporary file name ends in \<open>.tmp\<close>, every cursor file in \<open>.json\<close>.\<close>

lemma temp_file_not_cursor: "temp_file path pid now rand \<noteq> cursor_file key"
proof
  assume "temp_file path pid now rand = cursor_file key"
  then have "last (temp_file path pid now rand) = last (cursor_file key)" by simp
  then show False by (simp add: temp_file_def cursor_file_def)
qed

interpretation filec: cursor_store file_load "file_save pid now rand" file_clear cursor_file file_view
  for pid now rand
proof unfold_locales
  fix k k' :: string and s :: cursor_dir and c
  show "cursor_file k' = cursor_file k \<Longrightarrow> file_load (file_save pid now rand s k c) k' = Inr (file_view c)"
    using temp_file_not_cursor [of "cursor_file k" pid now rand k]
    by (simp add: file_load_def file_save_def Let_def rename_file_def write_temp_def parse_cursor_json)
  show "cursor_file k' \<noteq> cursor_file k \<Longrightarrow> file_load (file_save pid now rand s k c) k' = file_load s k'"
    using temp_file_not_cursor [of "cursor_file k" pid now rand k']
    by (auto simp: file_load_def file_save_def Let_def rename_file_def write_temp_def)
  show "cursor_file k' = cursor_file k \<Longrightarrow> file_load (file_clear s k) k' = Inr None"
    by (simp add: file_load_def file_clear_def)
  show "cursor_file k' \<noteq> cursor_file k \<Longrightarrow> file_load (file_clear s k) k' = file_load s k'"
    by (simp add: file_load_def file_clear_def)
qed

section \<open>Removing orphaned temporary files\<close>

text \<open>
  The match of \<open>/^.+\.cursor\.json\.(\d+)\.tmp$/\<close> and its group: the digits before
  \<open>.tmp\<close> are maximal, because the character before them has to be the dot.
\<close>

definition orphan_pid :: "string \<Rightarrow> string option" where
  "orphan_pid f =
     (if \<not> ends_with ''.tmp'' f then None
      else let base = take (length f - 4) f;
               ds = rev (takeWhile is_digit (rev base));
               pre = take (length base - length ds) base
           in if ds \<noteq> [] \<and> ends_with ''.cursor.json.'' pre \<and> length pre > 13
                 \<and> list_all (\<lambda>c. c \<noteq> CHR 0x0A \<and> c \<noteq> CHR 0x0D) pre
              then Some ds else None)"

definition removeOrphanedTemps :: "(nat \<Rightarrow> bool) \<Rightarrow> cursor_dir \<Rightarrow> cursor_dir" where
  "removeOrphanedTemps alive dir = (\<lambda>f.
     case orphan_pid f of
       None \<Rightarrow> dir f
     | Some ds \<Rightarrow> (let pid = read_base 10 ds in
         if pid < 2 ^ 53 \<and> pid > 0 \<and> alive pid then dir f else None))"

section \<open>Chunk keys\<close>

definition chunkCursorKey :: "string \<Rightarrow> nat \<Rightarrow> nat \<Rightarrow> string" where
  "chunkCursorKey baseKey i n =
     (if n \<le> 1 then baseKey else baseKey @ ''#chunk-'' @ show_nat i @ ''-of-'' @ show_nat n)"

lemma append_cancel_digits:
  assumes "list_all is_digit xs" "list_all is_digit ys" "\<not> is_digit (hd r)" "r \<noteq> []" "xs @ r = ys @ r"
  shows "xs = ys"
  using assms(5) by simp

lemma chunkCursorKey_inject: "1 < n \<Longrightarrow> chunkCursorKey b i n = chunkCursorKey b j n \<Longrightarrow> i = j"
  by (simp add: chunkCursorKey_def)

section \<open>StoreBackedCursors\<close>

text \<open>
  \<open>packages/cli/src/indexer.ts\<close>: the position lives in the event store's \<open>stream_state\<close>
  table. Only cursor, ledger and time are columns; \<open>clear\<close> leaves a row with an empty
  cursor, which \<open>load\<close> reads as "no position". \<open>now\<close> is the time \<open>clear\<close> stamps.
\<close>

record stream_state =
  ss_key :: string
  ss_cursor :: string
  ss_ledger :: int
  ss_updatedAt :: json

type_synonym stream_table = "string \<Rightarrow> stream_state option"

definition saveStreamState :: "stream_table \<Rightarrow> stream_state \<Rightarrow> stream_table" where
  "saveStreamState t s = t(ss_key s \<mapsto> s)"

definition loadStreamState :: "stream_table \<Rightarrow> string \<Rightarrow> stream_state option" where
  "loadStreamState t k = t k"

definition backed_load :: "stream_table \<Rightarrow> string \<Rightarrow> cursor_result" where
  "backed_load t k = (case loadStreamState t k of
       None \<Rightarrow> Inr None
     | Some s \<Rightarrow> if ss_cursor s = [] then Inr None
         else Inr (Some \<lparr>cs_cursor = ss_cursor s, cs_ledger = ss_ledger s, cs_updatedAt = ss_updatedAt s,
                cs_retention = None\<rparr>))"

definition backed_save :: "stream_table \<Rightarrow> string \<Rightarrow> cursor_state \<Rightarrow> stream_table" where
  "backed_save t k c = saveStreamState t
     \<lparr>ss_key = k, ss_cursor = cs_cursor c, ss_ledger = cs_ledger c, ss_updatedAt = cs_updatedAt c\<rparr>"

definition backed_clear :: "json \<Rightarrow> stream_table \<Rightarrow> string \<Rightarrow> stream_table" where
  "backed_clear now t k = saveStreamState t \<lparr>ss_key = k, ss_cursor = [], ss_ledger = 0, ss_updatedAt = now\<rparr>"

definition backed_view :: "cursor_state \<Rightarrow> cursor_state option" where
  "backed_view c = (if cs_cursor c = [] then None else Some (c\<lparr>cs_retention := None\<rparr>))"

interpretation backedc: cursor_store backed_load backed_save "backed_clear now" "\<lambda>k. k" backed_view for now
  by unfold_locales
    (auto simp: backed_load_def backed_save_def backed_clear_def backed_view_def saveStreamState_def loadStreamState_def)

section \<open>Properties\<close>

text \<open>
  A process killed between the temporary write and the rename resumes every stream from the
  position that was there before: the directory it finds reads the same for every key.
\<close>

lemma write_temp_crash_safe: "file_load (write_temp dir (temp_file path pid now rand) c) k = file_load dir k"
  using temp_file_not_cursor [of path pid now rand k] by (simp add: file_load_def write_temp_def)

lemma ends_with_append: "ends_with p (s @ p)"
  by (simp add: ends_with_def)

lemma takeWhile_rev_digits:
  assumes "\<not> is_digit c"
  shows "takeWhile is_digit (rev (xs @ c # ys)) = takeWhile is_digit (rev ys)"
  using assms by (cases "\<forall>x \<in> set ys. is_digit x") (auto simp: takeWhile_append takeWhile_eq_all_conv [THEN iffD2])

lemma orphan_pid_shape:
  assumes "\<not> is_digit c" and "ds \<noteq> []" and "\<forall>d \<in> set ds. is_digit d"
  shows "orphan_pid (pre @ [c] @ ds @ ''.tmp'') =
     (if ends_with ''.cursor.json.'' (pre @ [c]) \<and> length (pre @ [c]) > 13
         \<and> list_all (\<lambda>c. c \<noteq> CHR 0x0A \<and> c \<noteq> CHR 0x0D) (pre @ [c]) then Some ds else None)"
proof -
  let ?f = "pre @ [c] @ ds @ ''.tmp''"
  have b: "take (length ?f - 4) ?f = pre @ c # ds" by simp
  have t: "ends_with ''.tmp'' ?f" using ends_with_append [of "''.tmp''" "pre @ [c] @ ds"] by simp
  have w: "takeWhile is_digit (rev (pre @ c # ds)) = rev ds"
    using takeWhile_rev_digits [OF assms(1), of pre ds] takeWhile_eq_all_conv [of is_digit "rev ds"] assms(3) by simp
  show ?thesis unfolding orphan_pid_def Let_def b w using t assms(2) by simp
qed

text \<open>
  The name \<open>save\<close> gives its temporary file carries a time and a random part after the
  process id, which the pattern of the clean-up does not admit: a random part with a letter
  in it, or digits only, never leaves \<open>.cursor.json.\<close> right before the last number.
\<close>

lemma ends_with_iff: "ends_with p s \<longleftrightarrow> (\<exists>q. s = q @ p)"
  unfolding ends_with_def by (metis append_take_drop_id append_eq_conv_conj diff_add_inverse2 length_append le_add2)

lemma temp_name_not_orphan:
  assumes "now \<noteq> []" and "\<forall>d \<in> set now. is_digit d" and "CHR ''.'' \<notin> set rand"
  shows "orphan_pid (temp_file path pid now rand) = None"
proof -
  let ?base = "path @ ''.'' @ pid @ ''.'' @ now @ ''.'' @ rand"
  let ?ds = "rev (takeWhile is_digit (rev ?base))"
  let ?pre = "take (length ?base - length ?ds) ?base"
  have f: "temp_file path pid now rand = ?base @ ''.tmp''" by (simp add: temp_file_def)
  have w: "takeWhile is_digit (rev ?base) = takeWhile is_digit (rev rand)"
    using takeWhile_rev_digits [of "CHR ''.''" "path @ ''.'' @ pid @ ''.'' @ now" rand]
    by (simp add: is_digit_def ch_range_def)
  let ?k = "length (takeWhile is_digit (rev rand))"
  have k: "?k \<le> length rand" by (metis length_rev length_takeWhile_le)
  have p: "?pre = (path @ ''.'' @ pid @ ''.'' @ now @ ''.'') @ take (length rand - ?k) rand"
  proof -
    have "length ?base - length ?ds = length (path @ ''.'' @ pid @ ''.'' @ now @ ''.'') + (length rand - ?k)"
      unfolding w using k by simp
    then show ?thesis by (simp only: append_assoc [symmetric] take_append) simp
  qed
  have "\<not> ends_with ''.cursor.json.'' ?pre"
  proof
    assume e: "ends_with ''.cursor.json.'' ?pre"
    then obtain q where q: "?pre = (q @ ''.cursor.json'') @ ''.''"
      by (auto simp: ends_with_iff)
    show False
    proof (cases "take (length rand - ?k) rand" rule: rev_exhaust)
      case Nil
      have "?pre = (path @ ''.'' @ pid @ ''.'' @ now) @ ''.''" unfolding p Nil by simp
      then have "path @ ''.'' @ pid @ ''.'' @ now = q @ ''.cursor.json''"
        unfolding q by (simp only: append_same_eq)
      then have "last (path @ ''.'' @ pid @ ''.'' @ now) = CHR ''n''" by simp
      then have "last now = CHR ''n''" using assms(1) by simp
      then have "is_digit (CHR ''n'')" using assms(1,2) by (metis last_in_set)
      then show False by (simp add: is_digit_def ch_range_def)
    next
      case (snoc u x)
      have "?pre = ((path @ ''.'' @ pid @ ''.'' @ now @ ''.'') @ u) @ [x]" unfolding p snoc by simp
      then have "x = CHR ''.''" unfolding q by (simp only: append1_eq_conv)
      moreover have "x \<in> set rand" using snoc by (metis in_set_conv_decomp in_set_takeD)
      ultimately show False using assms(3) by simp
    qed
  qed
  moreover have b: "take (length (?base @ ''.tmp'') - 4) (?base @ ''.tmp'') = ?base"
    by (simp only: length_append take_append) simp
  ultimately show ?thesis unfolding f orphan_pid_def Let_def b by simp
qed

end
