(* ===== verification/Contract_Id.thy ===== *)
theory Contract_Id
  imports Prelude
begin

text \<open>
  Contract ids (\<open>packages/ingest/src/contract-id.ts\<close>): the StrKey pattern, the checks made
  before any network call, and the contracts file. The checksum test
  \<open>StrKey.isValidContract\<close> belongs to \<open>@stellar/stellar-sdk\<close>; it is the parameter
  \<open>valid_contract\<close> of every definition that uses it.
\<close>

definition is_base32 :: "char \<Rightarrow> bool" where
  "is_base32 c = (is_upper c \<or> ch_range (CHR ''2'') (CHR ''7'') c)"

definition strkey_shape :: "char \<Rightarrow> string \<Rightarrow> bool" where
  "strkey_shape p s = (case s of [] \<Rightarrow> False | c # r \<Rightarrow> c = p \<and> length r = 55 \<and> list_all is_base32 r)"

definition CONTRACT_ID_PATTERN :: "string \<Rightarrow> bool" where
  "CONTRACT_ID_PATTERN s = strkey_shape (CHR ''C'') s"

definition isContractId :: "(string \<Rightarrow> bool) \<Rightarrow> string \<Rightarrow> bool" where
  "isContractId valid_contract v = (CONTRACT_ID_PATTERN v \<and> valid_contract v)"

datatype contract_error =
    InvalidContractIds "string list"
  | ContractFileUnreadable string
  | ContractFileLine nat string

definition assertContractIds :: "(string \<Rightarrow> bool) \<Rightarrow> string list \<Rightarrow> (contract_error, unit) result" where
  "assertContractIds valid_contract ids =
     (let invalid = filter (\<lambda>i. \<not> isContractId valid_contract i) ids
      in if length invalid > 0 then Inl (InvalidContractIds invalid) else Inr ())"

text \<open>
  The loop over the lines of a contracts file: \<open>i\<close> is the zero-based line index, \<open>seen\<close> the
  JavaScript \<open>Set\<close> and \<open>ids\<close> the result list.
\<close>

fun load_lines ::
    "(string \<Rightarrow> bool) \<Rightarrow> nat \<Rightarrow> string set \<Rightarrow> string list \<Rightarrow> string list \<Rightarrow> (contract_error, string list) result"
where
  "load_lines v i seen ids [] = Inr ids"
| "load_lines v i seen ids (l # ls) =
     (let line = js_trim l in
      if line = [] \<or> starts_with ''#'' line then load_lines v (i + 1) seen ids ls
      else if \<not> isContractId v line then Inl (ContractFileLine (i + 1) line)
      else if line \<notin> seen then load_lines v (i + 1) (insert line seen) (ids @ [line]) ls
      else load_lines v (i + 1) seen ids ls)"

text \<open>The file read is the argument: \<open>Inl\<close> the I/O error message, \<open>Inr\<close> the content.\<close>

definition loadContractIdsFromFile ::
    "(string \<Rightarrow> bool) \<Rightarrow> string + string \<Rightarrow> (contract_error, string list) result" where
  "loadContractIdsFromFile v file =
     (case file of
        Inl msg \<Rightarrow> Inl (ContractFileUnreadable msg)
      | Inr content \<Rightarrow> load_lines v 0 {} [] (split_on (CHR 0x0A) content))"

section \<open>Properties\<close>

definition significant :: "string \<Rightarrow> bool" where
  "significant l = (js_trim l \<noteq> [] \<and> \<not> starts_with ''#'' (js_trim l))"

definition wanted_ids :: "string list \<Rightarrow> string list" where
  "wanted_ids ls = js_set (map js_trim (filter significant ls))"

lemma load_lines_ok:
  assumes "\<forall>l \<in> set ls. significant l \<longrightarrow> isContractId v (js_trim l)"
    and "seen = set (map js_trim (filter significant done))"
  shows "load_lines v i seen (wanted_ids done) ls = Inr (wanted_ids (done @ ls))"
  using assms
proof (induction ls arbitrary: i seen "done")
  case Nil
  then show ?case by simp
next
  case (Cons l ls)
  have IH: "load_lines v (i + 1) (set (map js_trim (filter significant (done @ [l])))) (wanted_ids (done @ [l])) ls
      = Inr (wanted_ids ((done @ [l]) @ ls))"
    using Cons.prems by (intro Cons.IH) auto
  show ?case
  proof (cases "significant l")
    case False
    then have "wanted_ids (done @ [l]) = wanted_ids done" by (simp add: wanted_ids_def)
    with IH False Cons.prems(2) show ?thesis by (auto simp: significant_def Let_def)
  next
    case True
    then have w: "wanted_ids (done @ [l]) =
        (if js_trim l \<in> seen then wanted_ids done else wanted_ids done @ [js_trim l])"
      using Cons.prems(2) by (auto simp: wanted_ids_def js_set_snoc)
    have "isContractId v (js_trim l)" using Cons.prems(1) True by simp
    with IH True w Cons.prems(2) show ?thesis
      by (auto simp: significant_def Let_def insert_absorb)
  qed
qed

lemma load_lines_first_bad:
  assumes "\<forall>l \<in> set pre. significant l \<longrightarrow> isContractId v (js_trim l)"
    and "significant bad" and "\<not> isContractId v (js_trim bad)"
  shows "load_lines v i seen ids (pre @ bad # post) = Inl (ContractFileLine (i + length pre + 1) (js_trim bad))"
  using assms
  by (induction pre arbitrary: i seen ids) (auto simp: significant_def Let_def)

lemma first_bad_line:
  assumes "\<not> (\<forall>l \<in> set ls. significant l \<longrightarrow> isContractId v (js_trim l))"
  obtains pre bad post where "ls = pre @ bad # post" "significant bad" "\<not> isContractId v (js_trim bad)"
    "\<forall>l \<in> set pre. significant l \<longrightarrow> isContractId v (js_trim l)"
  using assms split_list_first_prop [of ls "\<lambda>l. \<not> (significant l \<longrightarrow> isContractId v (js_trim l))"]
  by blast

lemma wanted_ids_Nil [simp]: "wanted_ids [] = []"
  by (simp add: wanted_ids_def js_set_def)

lemma load_lines_cases:
  "load_lines v 0 {} [] ls = Inr ids \<longleftrightarrow>
     (\<forall>l \<in> set ls. significant l \<longrightarrow> isContractId v (js_trim l)) \<and> ids = wanted_ids ls"
proof (cases "\<forall>l \<in> set ls. significant l \<longrightarrow> isContractId v (js_trim l)")
  case True
  then show ?thesis using load_lines_ok [of ls v "{}" "[]" 0] by auto
next
  case False
  then obtain pre bad post where "ls = pre @ bad # post" "significant bad" "\<not> isContractId v (js_trim bad)"
    "\<forall>l \<in> set pre. significant l \<longrightarrow> isContractId v (js_trim l)"
    by (rule first_bad_line)
  then show ?thesis using load_lines_first_bad [of pre v bad 0 "{}" "[]" post] False by simp
qed

end
