(* ===== verification/Retry.thy ===== *)
theory Retry
  imports Js_Values
begin

text \<open>
  Retries (\<open>packages/ingest/src/retry.ts\<close>): the classification of an RPC rejection, the
  wait a rate limiter asked for, full-jitter backoff and the retry loop. A rejection is the
  record of what the code reads of it; a field is None where \<open>typeof\<close> is not number.
  \<open>Date.parse\<close> is the parameter \<open>date_parse\<close> (milliseconds, None for \<open>NaN\<close>), the
  random source and the clock are functions of the attempt.
\<close>

section \<open>Rejections\<close>

datatype header_value = HStr string | HNum int | HArr "header_value list" | HOther

datatype headers = HeadersGet "string \<Rightarrow> header_value option" | HeadersObj "(string \<times> header_value) list"

datatype js_code = CodeNum int | CodeStr string | CodeNone

record rpc_error =
  e_response_status :: "int option"
  e_status :: "int option"
  e_statusCode :: "int option"
  e_code :: js_code
  e_response_headers :: "headers option"
  e_error_headers :: "headers option"
  e_message :: string

datatype rpc_error_kind = Rate_limit | Http | Timeout | Json_rpc | Transport

record rpc_error_class =
  ec_kind :: rpc_error_kind
  ec_retryable :: bool

definition JSONRPC_REQUEST_ERRORS :: "int list" where
  "JSONRPC_REQUEST_ERRORS = [-32700, -32600, -32601, -32602]"

definition statusOf :: "rpc_error \<Rightarrow> int option" where
  "statusOf e = (case e_response_status e of Some s \<Rightarrow> Some s
     | None \<Rightarrow> (case e_status e of Some s \<Rightarrow> Some s | None \<Rightarrow> e_statusCode e))"

definition classifyRpcError :: "rpc_error \<Rightarrow> rpc_error_class" where
  "classifyRpcError e =
     (case statusOf e of
        Some s \<Rightarrow> if s = 429 then \<lparr>ec_kind = Rate_limit, ec_retryable = True\<rparr>
                  else \<lparr>ec_kind = Http, ec_retryable = (s \<ge> 500 \<or> s = 408)\<rparr>
      | None \<Rightarrow>
         (case e_code e of
            CodeStr c \<Rightarrow> if c = ''ETIMEDOUT'' \<or> c = ''ECONNABORTED''
                         then \<lparr>ec_kind = Timeout, ec_retryable = True\<rparr>
                         else \<lparr>ec_kind = Transport, ec_retryable = True\<rparr>
          | CodeNum c \<Rightarrow> \<lparr>ec_kind = Json_rpc, ec_retryable = (c \<notin> set JSONRPC_REQUEST_ERRORS)\<rparr>
          | CodeNone \<Rightarrow> \<lparr>ec_kind = Transport, ec_retryable = True\<rparr>))"

section \<open>Retry-After\<close>

fun header_entries :: "string \<Rightarrow> (string \<times> header_value) list \<Rightarrow> string option" where
  "header_entries name [] = None"
| "header_entries name ((key, value) # rest) =
     (if js_lower key \<noteq> name then header_entries name rest
      else case value of
          HStr s \<Rightarrow> Some s
        | HNum n \<Rightarrow> Some (show_int n)
        | HArr (HStr s # _) \<Rightarrow> Some s
        | _ \<Rightarrow> header_entries name rest)"

fun header_in :: "string \<Rightarrow> headers option list \<Rightarrow> string option" where
  "header_in name [] = None"
| "header_in name (None # rest) = header_in name rest"
| "header_in name (Some (HeadersGet get) # rest) =
     (case get name of Some (HStr s) \<Rightarrow> Some s | _ \<Rightarrow> header_in name rest)"
| "header_in name (Some (HeadersObj kvs) # rest) =
     (case header_entries name kvs of Some s \<Rightarrow> Some s | None \<Rightarrow> header_in name rest)"

definition headerOf :: "rpc_error \<Rightarrow> string \<Rightarrow> string option" where
  "headerOf e name = header_in name [e_response_headers e, e_error_headers e]"

definition MAX_RETRY_AFTER_MS :: int where
  "MAX_RETRY_AFTER_MS = 300000"

definition clampRetryAfter :: "rat \<Rightarrow> int" where
  "clampRetryAfter ms = min (max 0 (js_round ms)) MAX_RETRY_AFTER_MS"

definition retryAfterMs :: "(string \<Rightarrow> int option) \<Rightarrow> rpc_error \<Rightarrow> int \<Rightarrow> int option" where
  "retryAfterMs date_parse e now =
     (if statusOf e \<noteq> Some 429 then None
      else case headerOf e ''retry-after'' of
          None \<Rightarrow> None
        | Some raw \<Rightarrow>
            (let value = js_trim raw in
             if value = [] then None
             else case js_Number value of
                 JsNum seconds \<Rightarrow> if seconds < 0 then None else Some (clampRetryAfter (seconds * 1000))
               | _ \<Rightarrow> (case date_parse value of
                          None \<Rightarrow> None
                        | Some when \<Rightarrow> Some (clampRetryAfter (of_int (when - now))))))"

section \<open>Backoff and the retry loop\<close>

record retry_options =
  ro_attempts :: "nat option"
  ro_baseDelayMs :: "rat option"
  ro_maxDelayMs :: "rat option"
  ro_shouldRetry :: "(rpc_error \<Rightarrow> bool) option"

definition backoffDelay :: "nat \<Rightarrow> rat \<Rightarrow> retry_options \<Rightarrow> int" where
  "backoffDelay attempt random opts =
     (let base = or_else (ro_baseDelayMs opts) 250; mx = or_else (ro_maxDelayMs opts) 30000;
          ceiling = min mx (base * 2 ^ attempt)
      in \<lfloor>random * ceiling\<rfloor>)"

datatype 'a retry_outcome =
    Resolved 'a
  | Rethrown rpc_error
  | RetryExhausted nat "rpc_error option"

text \<open>
  What one run of \<open>withRetry\<close> does: the outcome, the delays slept and how often \<open>fn\<close> was
  called. \<open>fn n\<close> is the settled promise of attempt \<open>n\<close>.
\<close>

record env =
  env_date_parse :: "string \<Rightarrow> int option"
  env_clock :: "nat \<Rightarrow> int"
  env_random :: "nat \<Rightarrow> rat"

record 'a retry_run =
  rr_outcome :: "'a retry_outcome"
  rr_delays :: "int list"
  rr_calls :: nat

definition retry_delay :: "env \<Rightarrow> retry_options \<Rightarrow> nat \<Rightarrow> rpc_error \<Rightarrow> int" where
  "retry_delay w opts attempt e =
     or_else (retryAfterMs (env_date_parse w) e (env_clock w attempt)) (backoffDelay attempt (env_random w attempt) opts)"

function retry_loop ::
    "env \<Rightarrow> retry_options \<Rightarrow> (nat \<Rightarrow> (rpc_error, 'a) result) \<Rightarrow> nat \<Rightarrow> nat \<Rightarrow> rpc_error option \<Rightarrow> int list \<Rightarrow> 'a retry_run"
where
  "retry_loop w opts fn n attempt lastError slept =
     (if attempt < n then
        (case fn attempt of
           Inr v \<Rightarrow> \<lparr>rr_outcome = Resolved v, rr_delays = slept, rr_calls = attempt + 1\<rparr>
         | Inl e \<Rightarrow>
            if \<not> or_else (ro_shouldRetry opts) (\<lambda>e. ec_retryable (classifyRpcError e)) e
            then \<lparr>rr_outcome = Rethrown e, rr_delays = slept, rr_calls = attempt + 1\<rparr>
            else if attempt + 1 = n
            then \<lparr>rr_outcome = RetryExhausted n (Some e), rr_delays = slept, rr_calls = n\<rparr>
            else retry_loop w opts fn n (attempt + 1) (Some e) (slept @ [retry_delay w opts attempt e]))
      else \<lparr>rr_outcome = RetryExhausted n lastError, rr_delays = slept, rr_calls = attempt\<rparr>)"
  by pat_completeness auto
termination
  by (relation "measure (\<lambda>(w, opts, fn, n, attempt, lastError, slept). n - attempt)") auto

declare retry_loop.simps [simp del]

definition withRetry :: "env \<Rightarrow> (nat \<Rightarrow> (rpc_error, 'a) result) \<Rightarrow> retry_options \<Rightarrow> 'a retry_run" where
  "withRetry w fn opts = retry_loop w opts fn (or_else (ro_attempts opts) 5) 0 None []"

section \<open>Lemmas\<close>

definition wants_retry :: "retry_options \<Rightarrow> (rpc_error, 'a) result \<Rightarrow> bool" where
  "wants_retry opts r = (case r of Inr _ \<Rightarrow> False
     | Inl e \<Rightarrow> or_else (ro_shouldRetry opts) (\<lambda>e. ec_retryable (classifyRpcError e)) e)"

definition settled :: "(rpc_error, 'a) result \<Rightarrow> 'a retry_outcome" where
  "settled r = (case r of Inr v \<Rightarrow> Resolved v | Inl e \<Rightarrow> Rethrown e)"

lemma retry_loop_stop:
  "i < n \<Longrightarrow> \<not> wants_retry opts (fn i) \<Longrightarrow>
   retry_loop w opts fn n i le slept = \<lparr>rr_outcome = settled (fn i), rr_delays = slept, rr_calls = i + 1\<rparr>"
  by (subst retry_loop.simps) (auto simp: wants_retry_def settled_def split: sum.splits)

lemma retry_loop_last:
  "i < n \<Longrightarrow> i + 1 = n \<Longrightarrow> fn i = Inl e \<Longrightarrow> wants_retry opts (fn i) \<Longrightarrow>
   retry_loop w opts fn n i le slept = \<lparr>rr_outcome = RetryExhausted n (Some e), rr_delays = slept, rr_calls = n\<rparr>"
  by (subst retry_loop.simps) (simp add: wants_retry_def)

lemma retry_loop_next:
  "i + 1 < n \<Longrightarrow> fn i = Inl e \<Longrightarrow> wants_retry opts (fn i) \<Longrightarrow>
   retry_loop w opts fn n i le slept =
     retry_loop w opts fn n (i + 1) (Some e) (slept @ [retry_delay w opts i e])"
  by (subst retry_loop.simps) (simp add: wants_retry_def)

lemma wants_retry_Inl: "wants_retry opts r \<Longrightarrow> \<exists>e. r = Inl e"
  by (cases r) (auto simp: wants_retry_def)

lemma retry_loop_stops:
  assumes "k < n" and "\<not> wants_retry opts (fn k)" and "\<forall>j. i \<le> j \<and> j < k \<longrightarrow> wants_retry opts (fn j)" and "i \<le> k"
  shows "rr_outcome (retry_loop w opts fn n i le slept) = settled (fn k)
    \<and> rr_calls (retry_loop w opts fn n i le slept) = k + 1
    \<and> length (rr_delays (retry_loop w opts fn n i le slept)) = length slept + (k - i)"
  using assms
proof (induction "k - i" arbitrary: i le slept)
  case 0
  then have "i = k" by simp
  with "0.prems" show ?case by (simp add: retry_loop_stop)
next
  case (Suc d)
  then have ik: "i < k" by simp
  with Suc.prems obtain e where e: "fn i = Inl e" using wants_retry_Inl by blast
  have d: "d = k - (i + 1)" "i + 1 \<le> k" using Suc.hyps(2) by simp_all
  have nx: "retry_loop w opts fn n i le slept =
     retry_loop w opts fn n (i + 1) (Some e) (slept @ [retry_delay w opts i e])"
    using ik Suc.prems e by (intro retry_loop_next) auto
  show ?case
    using Suc.hyps(1) [of "i + 1" "Some e" "slept @ [retry_delay w opts i e]"] d Suc.prems ik
    unfolding nx by auto
qed

lemma retry_loop_exhausts:
  assumes "\<forall>j. i \<le> j \<and> j < n \<longrightarrow> wants_retry opts (fn j)" and "i < n"
  shows "\<exists>e. fn (n - 1) = Inl e \<and> rr_outcome (retry_loop w opts fn n i le slept) = RetryExhausted n (Some e)
    \<and> rr_calls (retry_loop w opts fn n i le slept) = n
    \<and> length (rr_delays (retry_loop w opts fn n i le slept)) = length slept + (n - 1 - i)"
  using assms
proof (induction "n - 1 - i" arbitrary: i le slept)
  case 0
  then have i: "i + 1 = n" "i = n - 1" by auto
  obtain e where e: "fn i = Inl e" using "0.prems" wants_retry_Inl by blast
  have "retry_loop w opts fn n i le slept = \<lparr>rr_outcome = RetryExhausted n (Some e), rr_delays = slept, rr_calls = n\<rparr>"
    using "0.prems" i(1) e by (intro retry_loop_last) auto
  then show ?case using e i by auto
next
  case (Suc d)
  obtain e where e: "fn i = Inl e" using Suc.prems wants_retry_Inl by blast
  have d: "d = n - 1 - (i + 1)" "i + 1 < n" using Suc.hyps(2) by simp_all
  have nx: "retry_loop w opts fn n i le slept =
     retry_loop w opts fn n (i + 1) (Some e) (slept @ [retry_delay w opts i e])"
    using Suc.prems d(2) e by (intro retry_loop_next) auto
  show ?case
    using Suc.hyps(1) [of "i + 1" "Some e" "slept @ [retry_delay w opts i e]"] d Suc.prems
    unfolding nx by auto
qed

lemma clampRetryAfter_bounds: "0 \<le> clampRetryAfter ms" "clampRetryAfter ms \<le> 300000"
  by (auto simp: clampRetryAfter_def MAX_RETRY_AFTER_MS_def)

lemma retryAfterMs_bounds:
  assumes "retryAfterMs dp e now = Some d"
  shows "0 \<le> d \<and> d \<le> 300000"
  using assms clampRetryAfter_bounds
  by (auto simp: retryAfterMs_def Let_def split: if_splits option.splits js_num.splits)

lemma backoffDelay_bounds:
  assumes "0 \<le> r" "r < 1" "0 \<le> or_else (ro_baseDelayMs opts) 250" "0 \<le> or_else (ro_maxDelayMs opts) 30000"
  shows "0 \<le> backoffDelay k r opts"
    and "of_int (backoffDelay k r opts) \<le> or_else (ro_maxDelayMs opts) 30000"
    and "of_int (backoffDelay k r opts) \<le> or_else (ro_baseDelayMs opts) 250 * 2 ^ k"
proof -
  let ?c = "min (or_else (ro_maxDelayMs opts) 30000) (or_else (ro_baseDelayMs opts) 250 * 2 ^ k)"
  have c: "0 \<le> ?c" using assms by simp
  have le: "r * ?c \<le> ?c" using assms(1,2) by (intro mult_left_le_one_le c) simp_all
  have f: "of_int (backoffDelay k r opts) \<le> r * ?c"
    by (simp add: backoffDelay_def Let_def of_int_floor_le)
  show "0 \<le> backoffDelay k r opts" using assms(1) c by (simp add: backoffDelay_def Let_def)
  show "of_int (backoffDelay k r opts) \<le> or_else (ro_maxDelayMs opts) 30000" using f le by linarith
  show "of_int (backoffDelay k r opts) \<le> or_else (ro_baseDelayMs opts) 250 * 2 ^ k" using f le by linarith
qed

lemma retry_loop_delays:
  assumes "\<forall>d \<in> set slept. P d" and "\<And>k e. P (retry_delay w opts k e)"
  shows "\<forall>d \<in> set (rr_delays (retry_loop w opts fn n i le slept)). P d"
  using assms
proof (induction "n - i" arbitrary: i le slept)
  case 0
  then show ?case by (subst retry_loop.simps) simp
next
  case (Suc d)
  then have i: "i < n" by simp
  show ?case
  proof (cases "wants_retry opts (fn i)")
    case False
    with i Suc.prems show ?thesis by (simp add: retry_loop_stop)
  next
    case True
    then obtain e where e: "fn i = Inl e" using wants_retry_Inl by blast
    show ?thesis
    proof (cases "i + 1 = n")
      case last: True
      have "retry_loop w opts fn n i le slept = \<lparr>rr_outcome = RetryExhausted n (Some e), rr_delays = slept, rr_calls = n\<rparr>"
        by (rule retry_loop_last [where fn = fn]) (use i last e True in auto)
      then show ?thesis using Suc.prems by simp
    next
      case more: False
      have nx: "retry_loop w opts fn n i le slept =
         retry_loop w opts fn n (i + 1) (Some e) (slept @ [retry_delay w opts i e])"
        using i more e True by (intro retry_loop_next) auto
      have "d = n - (i + 1)" using Suc.hyps(2) by simp
      moreover have "\<forall>d \<in> set (slept @ [retry_delay w opts i e]). P d" using Suc.prems by simp
      ultimately show ?thesis unfolding nx using Suc.hyps(1) Suc.prems(2) by blast
    qed
  qed
qed

end
