(* ===== verification/Rpc_Client.thy ===== *)
theory Rpc_Client
  imports Retry Retention
begin

text \<open>
  The RPC wrapper (\<open>packages/ingest/src/rpc-client.ts\<close>, with the data contract of
  \<open>types.ts\<close>): requests, filters and the chunked fetch. The node is a parameter: a function
  from the request and the attempt number to the settled reply.
\<close>

section \<open>The data contract\<close>

datatype event_type = ContractEvent | SystemEvent | DiagnosticEvent

record raw_event =
  re_id :: string
  re_type :: event_type
  re_ledger :: int
  re_ledgerClosedAt :: string
  re_contractId :: string
  re_topic :: "string list"
  re_value :: string
  re_txHash :: string
  re_transactionIndex :: int
  re_operationIndex :: int
  re_inSuccessfulContractCall :: bool

record event_batch =
  eb_events :: "raw_event list"
  eb_cursor :: string
  eb_latestLedger :: int
  eb_oldestLedger :: int

record event_filter =
  ef_type :: "event_type option"
  ef_contractIds :: "string list option"
  ef_topics :: "string list list option"

text \<open>One entry of the SDK's reply: \<open>topic\<close> may be absent.\<close>

record rpc_event =
  rpc_id :: string
  rpc_type :: event_type
  rpc_ledger :: int
  rpc_ledgerClosedAt :: string
  rpc_contractId :: string
  rpc_topic :: "string list option"
  rpc_value :: string
  rpc_txHash :: string
  rpc_transactionIndex :: int
  rpc_operationIndex :: int
  rpc_inSuccessfulContractCall :: bool

record rpc_reply =
  rr_events :: "rpc_event list"
  rr_cursor :: string
  rr_latestLedger :: int
  rr_oldestLedger :: int

definition toRawEvent :: "rpc_event \<Rightarrow> raw_event" where
  "toRawEvent e =
     \<lparr>re_id = rpc_id e, re_type = rpc_type e, re_ledger = rpc_ledger e, re_ledgerClosedAt = rpc_ledgerClosedAt e,
      re_contractId = rpc_contractId e, re_topic = or_else (rpc_topic e) [], re_value = rpc_value e,
      re_txHash = rpc_txHash e, re_transactionIndex = rpc_transactionIndex e,
      re_operationIndex = rpc_operationIndex e, re_inSuccessfulContractCall = rpc_inSuccessfulContractCall e\<rparr>"

section \<open>Filters\<close>

definition MAX_CONTRACT_IDS_PER_FILTER :: nat where
  "MAX_CONTRACT_IDS_PER_FILTER = 5"

function filter_loop :: "event_filter \<Rightarrow> string list \<Rightarrow> nat \<Rightarrow> event_filter list" where
  "filter_loop base ids i =
     (if i < length ids
      then base\<lparr>ef_contractIds := Some (take MAX_CONTRACT_IDS_PER_FILTER (drop i ids))\<rparr>
           # filter_loop base ids (i + MAX_CONTRACT_IDS_PER_FILTER)
      else [])"
  by pat_completeness auto
termination
  by (relation "measure (\<lambda>(base, ids, i). length ids - i)") (auto simp: MAX_CONTRACT_IDS_PER_FILTER_def)

declare filter_loop.simps [simp del]

definition buildFilters :: "string list \<Rightarrow> string list list option \<Rightarrow> event_type option \<Rightarrow> event_filter list" where
  "buildFilters contractIds topics eventType =
     (let base = \<lparr>ef_type = Some (or_else eventType ContractEvent), ef_contractIds = None,
            ef_topics = (case topics of Some ts \<Rightarrow> if length ts > 0 then Some ts else None | None \<Rightarrow> None)\<rparr>
      in if length contractIds = 0 then [base] else filter_loop base contractIds 0)"

lemma filter_loop_ids:
  "concat (map (\<lambda>f. or_else (ef_contractIds f) []) (filter_loop base ids i)) = drop i ids"
proof (induction base ids i rule: filter_loop.induct)
  case (1 base ids i)
  show ?case
  proof (cases "i < length ids")
    case True
    have "take 5 (drop i ids) @ drop (i + 5) ids = drop i ids"
      by (metis append_take_drop_id drop_drop add.commute)
    with 1 True show ?thesis by (subst filter_loop.simps) (simp add: MAX_CONTRACT_IDS_PER_FILTER_def)
  qed (subst filter_loop.simps, simp)
qed

lemma filter_loop_each:
  "f \<in> set (filter_loop base ids i) \<Longrightarrow>
     \<exists>c. f = base\<lparr>ef_contractIds := Some c\<rparr> \<and> c \<noteq> [] \<and> length c \<le> 5"
proof (induction base ids i rule: filter_loop.induct)
  case (1 base ids i)
  have "i < length ids" using "1.prems" by (subst (asm) filter_loop.simps) (simp split: if_splits)
  moreover have "f = base\<lparr>ef_contractIds := Some (take 5 (drop i ids))\<rparr> \<or> f \<in> set (filter_loop base ids (i + 5))"
    using "1.prems" by (subst (asm) filter_loop.simps) (simp add: MAX_CONTRACT_IDS_PER_FILTER_def split: if_splits)
  ultimately consider "f = base\<lparr>ef_contractIds := Some (take 5 (drop i ids))\<rparr>" "i < length ids"
      | "f \<in> set (filter_loop base ids (i + MAX_CONTRACT_IDS_PER_FILTER))" "i < length ids"
    by (auto simp: MAX_CONTRACT_IDS_PER_FILTER_def)
  then show ?case
    by cases (use "1.IH" in \<open>auto intro!: exI [of _ "take 5 (drop i ids)"]\<close>)
qed

lemma filter_loop_length: "5 * length (filter_loop base ids i) < length ids - i + 5"
proof (induction base ids i rule: filter_loop.induct)
  case (1 base ids i)
  then have "i < length ids \<Longrightarrow> 5 + 5 * length (filter_loop base ids (i + 5)) < length ids - i + 5"
    unfolding MAX_CONTRACT_IDS_PER_FILTER_def by presburger
  then show ?case
    by (subst filter_loop.simps) (simp add: MAX_CONTRACT_IDS_PER_FILTER_def)
qed

section \<open>One page\<close>

record get_events_args =
  ga_filters :: "event_filter list"
  ga_startLedger :: "int option"
  ga_endLedger :: "int option"
  ga_cursor :: "string option"
  ga_limit :: "int option"

datatype get_events_request =
    ByCursor "event_filter list" string int
  | ByLedger "event_filter list" int "int option" int

datatype rpc_failure =
    BothCursorAndLedger
  | NeitherCursorNorLedger
  | NoFilters
  | CursorCount
  | Failed rpc_error
  | Exhausted nat "rpc_error option"
  | FailedOver string string rpc_failure

definition MAX_PAGE_SIZE :: int where
  "MAX_PAGE_SIZE = 10000"

text \<open>A cursor that is absent or empty is falsy.\<close>

definition truthy :: "string option \<Rightarrow> bool" where
  "truthy v = (case v of None \<Rightarrow> False | Some s \<Rightarrow> s \<noteq> [])"

definition build_request :: "get_events_args \<Rightarrow> (rpc_failure, get_events_request) result" where
  "build_request args =
     (if truthy (ga_cursor args) \<and> ga_startLedger args \<noteq> None then Inl BothCursorAndLedger
      else if \<not> truthy (ga_cursor args) \<and> ga_startLedger args = None then Inl NeitherCursorNorLedger
      else let limit = min (or_else (ga_limit args) 200) MAX_PAGE_SIZE
           in Inr (if truthy (ga_cursor args) then ByCursor (ga_filters args) (the (ga_cursor args)) limit
                   else ByLedger (ga_filters args) (the (ga_startLedger args)) (ga_endLedger args) limit))"

definition to_batch :: "rpc_reply \<Rightarrow> event_batch" where
  "to_batch r = \<lparr>eb_events = map toRawEvent (rr_events r), eb_cursor = rr_cursor r,
     eb_latestLedger = rr_latestLedger r, eb_oldestLedger = rr_oldestLedger r\<rparr>"

type_synonym rpc_node = "get_events_request \<Rightarrow> nat \<Rightarrow> (rpc_error, rpc_reply) result"

definition outcome_result :: "'a retry_outcome \<Rightarrow> (rpc_failure, 'a) result" where
  "outcome_result oc = (case oc of Resolved a \<Rightarrow> Inr a | Rethrown e \<Rightarrow> Inl (Failed e)
     | RetryExhausted n e \<Rightarrow> Inl (Exhausted n e))"

definition getEvents :: "env \<Rightarrow> retry_options \<Rightarrow> rpc_node \<Rightarrow> get_events_args \<Rightarrow> (rpc_failure, event_batch) result" where
  "getEvents w opts node args = res_bind (build_request args) (\<lambda>request.
     res_bind (outcome_result (rr_outcome (withRetry w (node request) opts))) (\<lambda>raw. Inr (to_batch raw)))"

definition health :: "env \<Rightarrow> retry_options \<Rightarrow> (nat \<Rightarrow> (rpc_error, 'a) result) \<Rightarrow> (rpc_failure, 'a) result" where
  "health w opts getHealth = outcome_result (rr_outcome (withRetry w getHealth opts))"

definition latestLedger :: "env \<Rightarrow> retry_options \<Rightarrow> (nat \<Rightarrow> (rpc_error, int) result) \<Rightarrow> (rpc_failure, int) result" where
  "latestLedger w opts getLatestLedger = outcome_result (rr_outcome (withRetry w getLatestLedger opts))"

section \<open>Chunks\<close>

definition compareRawEvents :: "raw_event \<Rightarrow> raw_event \<Rightarrow> int" where
  "compareRawEvents a b =
     (if re_ledger a \<noteq> re_ledger b then re_ledger a - re_ledger b
      else if re_transactionIndex a \<noteq> re_transactionIndex b then re_transactionIndex a - re_transactionIndex b
      else if re_operationIndex a \<noteq> re_operationIndex b then re_operationIndex a - re_operationIndex b
      else if re_id a < re_id b then -1 else if re_id a > re_id b then 1 else 0)"

text \<open>
  The worker pool of \<open>getEventsChunked\<close>: the shared counter \<open>next\<close>, what each worker is
  doing and the results array. A step is what runs between two awaits of one worker.
\<close>

datatype worker = Ready | Fetching nat | Returned

record 'r pool =
  pl_next :: nat
  pl_workers :: "worker list"
  pl_results :: "nat \<Rightarrow> 'r option"

definition pool_init :: "nat \<Rightarrow> 'r pool" where
  "pool_init k = \<lparr>pl_next = 0, pl_workers = replicate k Ready, pl_results = (\<lambda>_. None)\<rparr>"

inductive pool_step :: "nat \<Rightarrow> (nat \<Rightarrow> 'r) \<Rightarrow> 'r pool \<Rightarrow> 'r pool \<Rightarrow> bool"
  for n :: nat and fetch :: "nat \<Rightarrow> 'r"
where
  claim: "w < length (pl_workers s) \<Longrightarrow> pl_workers s ! w = Ready \<Longrightarrow> pl_next s < n \<Longrightarrow>
     pool_step n fetch s (s\<lparr>pl_next := pl_next s + 1, pl_workers := (pl_workers s)[w := Fetching (pl_next s)]\<rparr>)"
| settle: "w < length (pl_workers s) \<Longrightarrow> pl_workers s ! w = Fetching i \<Longrightarrow>
     pool_step n fetch s (s\<lparr>pl_workers := (pl_workers s)[w := Ready], pl_results := (pl_results s)(i \<mapsto> fetch i)\<rparr>)"
| finish: "w < length (pl_workers s) \<Longrightarrow> pl_workers s ! w = Ready \<Longrightarrow> \<not> pl_next s < n \<Longrightarrow>
     pool_step n fetch s (s\<lparr>pl_next := pl_next s + 1, pl_workers := (pl_workers s)[w := Returned]\<rparr>)"

inductive_cases pool_stepE: "pool_step n fetch s t"

definition pool_inv :: "nat \<Rightarrow> (nat \<Rightarrow> 'r) \<Rightarrow> 'r pool \<Rightarrow> bool" where
  "pool_inv n fetch s =
     ((\<forall>i. pl_results s i \<noteq> None \<longrightarrow> pl_results s i = Some (fetch i)) \<and>
      (\<forall>i < n. i < pl_next s \<longrightarrow> pl_results s i \<noteq> None \<or> Fetching i \<in> set (pl_workers s)) \<and>
      (Returned \<in> set (pl_workers s) \<longrightarrow> n \<le> pl_next s))"

lemma pool_inv_init: "pool_inv n fetch (pool_init k)"
  by (auto simp: pool_inv_def pool_init_def)

lemma in_set_update_other: "x \<in> set xs \<Longrightarrow> w < length xs \<Longrightarrow> xs ! w \<noteq> x \<Longrightarrow> x \<in> set (xs[w := y])"
  by (metis in_set_conv_nth length_list_update nth_list_update_neq)

lemma pool_inv_step: "pool_step n fetch s t \<Longrightarrow> pool_inv n fetch s \<Longrightarrow> pool_inv n fetch t"
proof (erule pool_stepE, goal_cases)
  case (1 w)
  then show ?case
    by (auto simp: pool_inv_def less_Suc_eq set_update_memI intro: in_set_update_other
        dest!: subsetD [OF set_update_subset_insert])
next
  case (2 w i)
  show ?case
    unfolding pool_inv_def
  proof (intro conjI allI impI)
    fix j assume j: "j < n" "j < pl_next t"
    show "pl_results t j \<noteq> None \<or> Fetching j \<in> set (pl_workers t)"
    proof (cases "j = i")
      case False
      with 2 j have "pl_results s j \<noteq> None \<or> Fetching j \<in> set (pl_workers s)" by (auto simp: pool_inv_def)
      with 2 False show ?thesis by (auto intro: in_set_update_other)
    qed (use 2 in auto)
  qed (use 2 in \<open>auto simp: pool_inv_def dest!: subsetD [OF set_update_subset_insert]\<close>)
next
  case (3 w)
  then show ?case
    by (auto simp: pool_inv_def intro: in_set_update_other dest!: subsetD [OF set_update_subset_insert])
qed

lemma pool_inv_reachable: "(pool_step n fetch)\<^sup>*\<^sup>* (pool_init k) s \<Longrightarrow> pool_inv n fetch s"
  by (induction rule: rtranclp_induct) (auto intro: pool_inv_init pool_inv_step)

text \<open>Whatever the schedule, the results array of a finished pool is the one of a sequential loop.\<close>

lemma pool_finished:
  assumes "(pool_step n fetch)\<^sup>*\<^sup>* (pool_init k) s" and "set (pl_workers s) \<subseteq> {Returned}" and "i < n"
    and "pl_workers s \<noteq> []"
  shows "pl_results s i = Some (fetch i)"
proof -
  note inv = pool_inv_reachable [OF assms(1), unfolded pool_inv_def]
  have "Returned \<in> set (pl_workers s)" using assms(2,4) by (cases "pl_workers s") auto
  then have "i < pl_next s" using inv assms(3) by auto
  then have "pl_results s i \<noteq> None \<or> Fetching i \<in> set (pl_workers s)" using inv assms(3) by blast
  with assms(2) inv show ?thesis by auto
qed

record chunked_args =
  ca_filters :: "event_filter list"
  ca_cursors :: "string list option"
  ca_startLedger :: "int option"
  ca_endLedger :: "int option"
  ca_limit :: "int option"
  ca_concurrency :: "int option"

record chunked_batch =
  cb_events :: "raw_event list"
  cb_cursors :: "string list"
  cb_latestLedger :: int
  cb_oldestLedger :: int

definition pool_size :: "chunked_args \<Rightarrow> int" where
  "pool_size args = (let n = int (length (ca_filters args))
     in max 1 (min (or_else (ca_concurrency args) n) n))"

text \<open>
  The arguments of chunk \<open>i\<close>. An empty cursor is falsy: the chunk then starts at
  \<open>startLedger\<close>, which is the key \<open>startLedger\<close> even when its value is undefined.
\<close>

definition chunk_args :: "chunked_args \<Rightarrow> nat \<Rightarrow> get_events_args" where
  "chunk_args args i =
     (let cursor = (case ca_cursors args of None \<Rightarrow> None | Some cs \<Rightarrow> Some (cs ! i))
      in \<lparr>ga_filters = [ca_filters args ! i],
          ga_startLedger = (if truthy cursor then None else ca_startLedger args),
          ga_endLedger = ca_endLedger args,
          ga_cursor = (if truthy cursor then cursor else None),
          ga_limit = ca_limit args\<rparr>)"

definition merge_results :: "event_batch list \<Rightarrow> chunked_batch" where
  "merge_results results =
     \<lparr>cb_events = js_sort compareRawEvents (concat (map eb_events results)),
      cb_cursors = map eb_cursor results,
      cb_latestLedger = foldl (\<lambda>m b. max m (eb_latestLedger b)) 0 results,
      cb_oldestLedger = or_else (foldl (\<lambda>m b. Some (case m of None \<Rightarrow> eb_oldestLedger b
          | Some o' \<Rightarrow> min o' (eb_oldestLedger b))) None results) 0\<rparr>"

text \<open>
  \<open>nodes i\<close> is how the node answers the requests of chunk \<open>i\<close>; \<open>order\<close> the order in which the
  chunks settle, which decides which rejection \<open>Promise.all\<close> reports.
\<close>

definition chunk_result ::
    "env \<Rightarrow> retry_options \<Rightarrow> (nat \<Rightarrow> rpc_node) \<Rightarrow> chunked_args \<Rightarrow> nat \<Rightarrow> (rpc_failure, event_batch) result" where
  "chunk_result w opts nodes args i = getEvents w opts (nodes i) (chunk_args args i)"

definition getEventsChunked ::
    "env \<Rightarrow> retry_options \<Rightarrow> (nat \<Rightarrow> rpc_node) \<Rightarrow> nat list \<Rightarrow> chunked_args \<Rightarrow> (rpc_failure, chunked_batch) result" where
  "getEventsChunked w opts nodes order args =
     (let n = length (ca_filters args); fetch = chunk_result w opts nodes args in
      if n = 0 then Inl NoFilters
      else if (case ca_cursors args of None \<Rightarrow> False | Some cs \<Rightarrow> length cs \<noteq> n) then Inl CursorCount
      else case filter (\<lambda>i. \<not> is_ok (fetch i)) order of
          i # _ \<Rightarrow> Inl (projl (fetch i))
        | [] \<Rightarrow> Inr (merge_results (map (\<lambda>i. projr (fetch i)) [0..<n])))"

lemma compareRawEvents_le:
  "compareRawEvents a b \<le> 0 \<longleftrightarrow>
     re_ledger a < re_ledger b \<or> re_ledger a = re_ledger b \<and>
      (re_transactionIndex a < re_transactionIndex b \<or> re_transactionIndex a = re_transactionIndex b \<and>
        (re_operationIndex a < re_operationIndex b \<or> re_operationIndex a = re_operationIndex b \<and> re_id a \<le> re_id b))"
  by (auto simp: compareRawEvents_def)

lemma compareRawEvents_total: "compareRawEvents a b \<le> 0 \<or> compareRawEvents b a \<le> 0"
  by (auto simp: compareRawEvents_le)

lemma compareRawEvents_trans:
  "compareRawEvents a b \<le> 0 \<Longrightarrow> compareRawEvents b c \<le> 0 \<Longrightarrow> compareRawEvents a c \<le> 0"
  unfolding compareRawEvents_le by (elim disjE conjE) (simp_all, (meson order.trans)?)

lemma merge_results_sorted:
  "sorted_wrt (\<lambda>a b. compareRawEvents a b \<le> 0) (cb_events (merge_results rs))"
  by (simp add: merge_results_def sorted_js_sort compareRawEvents_total compareRawEvents_trans)

lemma merge_results_events:
  "mset (cb_events (merge_results rs)) = mset (concat (map eb_events rs))"
  by (simp add: merge_results_def)

end
