(* ===== verification/Rpc_Pool.thy ===== *)
theory Rpc_Pool
  imports Rpc_Client
begin

text \<open>
  The ordered provider pool (\<open>packages/ingest/src/rpc-pool.ts\<close>). The clients are a parameter:
  \<open>reply i args\<close> is how client \<open>i\<close> settles a \<open>getEvents\<close>, \<open>primary_up\<close> whether the health
  probe of client 0 resolves. The clock is read once per call.
\<close>

record pool_config =
  fc_urls :: "string list"
  fc_threshold :: int
  fc_recoveryMs :: int

record failover =
  fo_active :: nat
  fo_errors :: int
  fo_lastRecoveryCheck :: int

definition newPool :: "string list \<Rightarrow> int option \<Rightarrow> int option \<Rightarrow> (string, pool_config \<times> failover) result" where
  "newPool rpcUrls failureThreshold recoveryCheckMs =
     (if length rpcUrls = 0 then Inl ''at least one RPC URL is required''
      else Inr (\<lparr>fc_urls = js_set rpcUrls, fc_threshold = max 1 (or_else failureThreshold 3),
                 fc_recoveryMs = max 0 (or_else recoveryCheckMs 10000)\<rparr>,
                \<lparr>fo_active = 0, fo_errors = 0, fo_lastRecoveryCheck = 0\<rparr>))"

definition providerUrl :: "pool_config \<Rightarrow> failover \<Rightarrow> string" where
  "providerUrl cfg p = fc_urls cfg ! fo_active p"

definition tryRecoverPrimary :: "pool_config \<Rightarrow> bool \<Rightarrow> int \<Rightarrow> failover \<Rightarrow> failover" where
  "tryRecoverPrimary cfg primary_up now p =
     (if fo_active p = 0 \<or> now - fo_lastRecoveryCheck p < fc_recoveryMs cfg then p
      else let p = p\<lparr>fo_lastRecoveryCheck := now\<rparr>
           in if primary_up then p\<lparr>fo_active := 0, fo_errors := 0\<rparr> else p)"

record pool_args =
  pa_args :: get_events_args
  pa_fallbackLedger :: "int option"

definition overlap_args :: "get_events_args \<Rightarrow> int \<Rightarrow> get_events_args" where
  "overlap_args args ledger = args\<lparr>ga_cursor := None, ga_startLedger := Some ledger\<rparr>"

definition pool_getEvents ::
    "pool_config \<Rightarrow> (nat \<Rightarrow> get_events_args \<Rightarrow> (rpc_failure, event_batch) result) \<Rightarrow> bool \<Rightarrow> int \<Rightarrow> pool_args \<Rightarrow> failover
      \<Rightarrow> (rpc_failure, event_batch) result \<times> failover"
where
  "pool_getEvents cfg reply primary_up now pargs p0 =
     (let p = tryRecoverPrimary cfg primary_up now p0; args = pa_args pargs; n = length (fc_urls cfg) in
      case reply (fo_active p) args of
        Inr batch \<Rightarrow> (Inr batch, p\<lparr>fo_errors := 0\<rparr>)
      | Inl firstError \<Rightarrow>
         (let p = p\<lparr>fo_errors := fo_errors p + 1\<rparr> in
          if fo_errors p < fc_threshold cfg \<or> n = 1 then (Inl firstError, p)
          else
            let old = providerUrl cfg p;
                p = p\<lparr>fo_active := (fo_active p + 1) mod n, fo_errors := 0\<rparr>;
                given_up = (Inl (FailedOver old (providerUrl cfg p) firstError), p\<lparr>fo_lastRecoveryCheck := now\<rparr>)
            in if truthy (ga_cursor args)
               then (case reply (fo_active p) args of
                       Inr batch \<Rightarrow> (Inr batch, p)
                     | Inl _ \<Rightarrow>
                        (case pa_fallbackLedger pargs of
                           Some l \<Rightarrow> (reply (fo_active p) (overlap_args args l), p)
                         | None \<Rightarrow> given_up))
               else given_up))"

definition pool_request ::
    "pool_config \<Rightarrow> (nat \<Rightarrow> (rpc_failure, 'a) result) \<Rightarrow> bool \<Rightarrow> int \<Rightarrow> failover \<Rightarrow> (rpc_failure, 'a) result \<times> failover"
where
  "pool_request cfg call primary_up now p0 =
     (let p = tryRecoverPrimary cfg primary_up now p0 in
      case call (fo_active p) of
        Inr v \<Rightarrow> (Inr v, p\<lparr>fo_errors := 0\<rparr>)
      | Inl e \<Rightarrow>
         (let p = p\<lparr>fo_errors := fo_errors p + 1\<rparr> in
          (Inl e, if fo_errors p \<ge> fc_threshold cfg \<and> length (fc_urls cfg) > 1
                  then p\<lparr>fo_active := (fo_active p + 1) mod length (fc_urls cfg)\<rparr> else p)))"

section \<open>Lemmas\<close>

definition pool_ok :: "pool_config \<Rightarrow> failover \<Rightarrow> bool" where
  "pool_ok cfg p = (fo_active p < length (fc_urls cfg) \<and> 0 \<le> fo_errors p \<and> 1 \<le> fc_threshold cfg)"

lemma js_set_eq_Nil [simp]: "js_set xs = [] \<longleftrightarrow> xs = []"
  by (metis set_empty set_js_set)

lemma pool_ok_new: "newPool urls t r = Inr (cfg, p) \<Longrightarrow> pool_ok cfg p"
  by (auto simp: newPool_def pool_ok_def split: if_splits)

lemma pool_ok_recover: "pool_ok cfg p \<Longrightarrow> pool_ok cfg (tryRecoverPrimary cfg up now p)"
  by (auto simp: tryRecoverPrimary_def pool_ok_def Let_def)

lemma pool_ok_next: "pool_ok cfg p \<Longrightarrow> Suc (fo_active p) mod length (fc_urls cfg) < length (fc_urls cfg)"
  by (rule mod_less_divisor) (auto simp: pool_ok_def)

lemma pool_ok_getEvents:
  assumes "pool_ok cfg p"
  shows "pool_ok cfg (snd (pool_getEvents cfg reply up now args p))"
proof -
  let ?q = "tryRecoverPrimary cfg up now p"
  have q: "pool_ok cfg ?q" using assms by (rule pool_ok_recover)
  then have m: "Suc (fo_active ?q) mod length (fc_urls cfg) < length (fc_urls cfg)"
    by (rule pool_ok_next)
  show ?thesis
    using q m by (auto simp: pool_getEvents_def Let_def pool_ok_def split: sum.splits option.splits)
qed

lemma pool_ok_request:
  assumes "pool_ok cfg p"
  shows "pool_ok cfg (snd (pool_request cfg call up now p))"
proof -
  let ?q = "tryRecoverPrimary cfg up now p"
  have q: "pool_ok cfg ?q" using assms by (rule pool_ok_recover)
  then have m: "Suc (fo_active ?q) mod length (fc_urls cfg) < length (fc_urls cfg)"
    by (rule pool_ok_next)
  show ?thesis
    using q m by (auto simp: pool_request_def Let_def pool_ok_def split: sum.splits)
qed

text \<open>A batch the pool returns was served by one provider, for the arguments or for the overlap.\<close>

lemma pool_getEvents_source:
  assumes "fst (pool_getEvents cfg reply up now pargs p) = Inr batch"
  shows "\<exists>i. reply i (pa_args pargs) = Inr batch
     \<or> (\<exists>l. pa_fallbackLedger pargs = Some l \<and> truthy (ga_cursor (pa_args pargs))
            \<and> reply i (overlap_args (pa_args pargs) l) = Inr batch)"
  using assms by (auto simp: pool_getEvents_def Let_def split: sum.splits option.splits if_splits)

text \<open>\<open>#request\<close> changes provider without resetting the failure count.\<close>

lemma pool_request_keeps_errors:
  assumes "call (fo_active (tryRecoverPrimary cfg up now p)) = Inl e"
    and "fo_errors (tryRecoverPrimary cfg up now p) + 1 \<ge> fc_threshold cfg" and "1 < length (fc_urls cfg)"
  shows "fo_errors (snd (pool_request cfg call up now p)) \<ge> fc_threshold cfg"
  using assms by (simp add: pool_request_def Let_def)

end
