(* ===== verification/Metrics.thy ===== *)
theory Metrics
  imports Retry
begin

text \<open>
  Process-local metrics (\<open>packages/ingest/src/metrics.ts\<close>) and the port of the metrics
  endpoint (\<open>metrics-server.ts\<close>). A JavaScript \<open>Map\<close> is an association list in insertion
  order (\<open>map_set\<close>). The text format of \<open>render\<close> is not modelled.
\<close>

section \<open>The collector\<close>

definition BUCKETS :: "rat list" where
  "BUCKETS = [1/100, 5/100, 1/10, 25/100, 5/10, 1, 25/10, 5, 10, 30]"

definition MAX_CONTRACT_LABELS :: nat where
  "MAX_CONTRACT_LABELS = 50"

definition OTHER_CONTRACT :: string where
  "OTHER_CONTRACT = ''other''"

record histogram =
  hg_count :: nat
  hg_sum :: rat
  hg_buckets :: "nat list"

datatype rpc_method = GetHealth | GetLatestLedger | GetEvents

record metrics =
  im_events :: "(string \<times> nat) list"
  im_restarts :: nat
  im_ledger :: int
  im_latest :: int
  im_stalled :: bool
  im_ready :: bool
  im_lastPageFetchedAt :: "rat option"
  im_rpcAvailable :: bool
  im_durations :: "(rpc_method \<times> histogram) list"
  im_errors :: "((rpc_method \<times> rpc_error_kind) \<times> nat) list"

definition newMetrics :: metrics where
  "newMetrics = \<lparr>im_events = [], im_restarts = 0, im_ledger = 0, im_latest = 0, im_stalled = False, im_ready = False,
     im_lastPageFetchedAt = None, im_rpcAvailable = True, im_durations = [], im_errors = []\<rparr>"

definition rpcError :: "rpc_method \<Rightarrow> rpc_error \<Rightarrow> metrics \<Rightarrow> metrics" where
  "rpcError m e s = (let key = (m, ec_kind (classifyRpcError e))
     in s\<lparr>im_errors := map_set key (or_else (map_of (im_errors s) key) 0 + 1) (im_errors s)\<rparr>)"

definition observe :: "rat \<Rightarrow> histogram \<Rightarrow> histogram" where
  "observe seconds h = \<lparr>hg_count = hg_count h + 1, hg_sum = hg_sum h + seconds,
     hg_buckets = map2 (\<lambda>bound b. if seconds \<le> bound then b + 1 else b) BUCKETS (hg_buckets h)\<rparr>"

definition empty_histogram :: histogram where
  "empty_histogram = \<lparr>hg_count = 0, hg_sum = 0, hg_buckets = map (\<lambda>_. 0) BUCKETS\<rparr>"

definition rpcDuration :: "rpc_method \<Rightarrow> rat \<Rightarrow> metrics \<Rightarrow> metrics" where
  "rpcDuration m seconds s =
     s\<lparr>im_durations := map_set m (observe seconds (or_else (map_of (im_durations s) m) empty_histogram)) (im_durations s)\<rparr>"

definition event_label :: "string \<Rightarrow> metrics \<Rightarrow> string" where
  "event_label contractId s =
     (if contractId \<notin> fst ` set (im_events s) \<and> contractId \<noteq> OTHER_CONTRACT
         \<and> int (length (im_events s)) - (if OTHER_CONTRACT \<in> fst ` set (im_events s) then 1 else 0) \<ge> int MAX_CONTRACT_LABELS
      then OTHER_CONTRACT else contractId)"

definition eventsIngested :: "nat \<Rightarrow> string \<Rightarrow> metrics \<Rightarrow> metrics" where
  "eventsIngested n contractId s =
     (let label = event_label contractId s
      in s\<lparr>im_events := map_set label (or_else (map_of (im_events s) label) 0 + n) (im_events s)\<rparr>)"

definition cursorRestarted :: "metrics \<Rightarrow> metrics" where
  "cursorRestarted s = s\<lparr>im_restarts := im_restarts s + 1\<rparr>"

definition pageFetched :: "rat \<Rightarrow> metrics \<Rightarrow> metrics" where
  "pageFetched now s = s\<lparr>im_lastPageFetchedAt := Some now, im_rpcAvailable := True\<rparr>"

definition rpcExhausted :: "metrics \<Rightarrow> metrics" where
  "rpcExhausted s = s\<lparr>im_rpcAvailable := False\<rparr>"

definition isReady :: "rat \<Rightarrow> rat \<Rightarrow> metrics \<Rightarrow> bool" where
  "isReady maxAgeMs now s = (im_rpcAvailable s \<and>
     (case im_lastPageFetchedAt s of None \<Rightarrow> False | Some t \<Rightarrow> now - t \<le> maxAgeMs))"

definition progress :: "int \<Rightarrow> int \<Rightarrow> metrics \<Rightarrow> metrics" where
  "progress ledger latest s = s\<lparr>im_ledger := ledger, im_latest := latest, im_ready := True\<rparr>"

definition rpcStalled :: "bool \<Rightarrow> metrics \<Rightarrow> metrics" where
  "rpcStalled b s = s\<lparr>im_stalled := b\<rparr>"

section \<open>The endpoint\<close>

definition parseMetricsPort :: "string option \<Rightarrow> (string, int option) result" where
  "parseMetricsPort raw = (case raw of None \<Rightarrow> Inr None | Some s \<Rightarrow>
     (case js_Number s of
        JsNum port \<Rightarrow>
          if \<not> (s \<noteq> [] \<and> list_all is_digit s) \<or> \<not> rat_is_int port \<or> port < 1 \<or> port > 65535
          then Inl ''metrics port must be an integer from 1 to 65535'' else Inr (Some \<lfloor>port\<rfloor>)
      | _ \<Rightarrow> Inl ''metrics port must be an integer from 1 to 65535''))"

datatype metrics_body = NoBody | StatusBody string | MetricsBody

definition metrics_handler :: "string \<Rightarrow> string \<Rightarrow> rat \<Rightarrow> rat \<Rightarrow> metrics \<Rightarrow> nat \<times> metrics_body" where
  "metrics_handler meth url maxAgeMs now s =
     (let only_get = (\<lambda>b. if meth = ''HEAD'' then NoBody else b) in
      if meth \<noteq> ''GET'' \<and> meth \<noteq> ''HEAD'' then (405, NoBody)
      else if url = ''/healthz'' then (200, only_get (StatusBody ''ok''))
      else if url = ''/readyz'' then
        (let ready = isReady maxAgeMs now s
         in (if ready then 200 else 503, only_get (StatusBody (if ready then ''ready'' else ''not_ready''))))
      else if url \<noteq> ''/metrics'' then (404, NoBody)
      else (200, only_get MetricsBody))"

section \<open>Lemmas\<close>

definition labels_ok :: "metrics \<Rightarrow> bool" where
  "labels_ok s = (distinct (map fst (im_events s)) \<and>
     length (im_events s) \<le> MAX_CONTRACT_LABELS + (if OTHER_CONTRACT \<in> fst ` set (im_events s) then 1 else 0))"

lemma labels_ok_new: "labels_ok newMetrics"
  by (simp add: labels_ok_def newMetrics_def)

lemma eventsIngested_events:
  "im_events (eventsIngested c k s) =
     map_set (event_label k s) (or_else (map_of (im_events s) (event_label k s)) 0 + c) (im_events s)"
  by (simp add: eventsIngested_def Let_def)

lemma labels_ok_ingest:
  assumes "labels_ok s"
  shows "labels_ok (eventsIngested c k s)"
  using assms
  by (auto simp: labels_ok_def eventsIngested_events distinct_map_set length_map_set keys_set_map_set
      event_label_def MAX_CONTRACT_LABELS_def split: if_splits)

lemma ingest_total:
  "labels_ok s \<Longrightarrow> sum_list (map snd (im_events (eventsIngested c k s))) = sum_list (map snd (im_events s)) + c"
  by (simp add: eventsIngested_events sum_map_set_add labels_ok_def)

lemma labels_fold:
  assumes "labels_ok s"
  shows "labels_ok (foldl (\<lambda>s (c, k). eventsIngested c k s) s xs)
    \<and> sum_list (map snd (im_events (foldl (\<lambda>s (c, k). eventsIngested c k s) s xs)))
       = sum_list (map snd (im_events s)) + sum_list (map fst xs)"
  using assms
  by (induction xs arbitrary: s) (auto simp: labels_ok_ingest ingest_total)

definition histogram_ok :: "histogram \<Rightarrow> bool" where
  "histogram_ok h = (length (hg_buckets h) = length BUCKETS \<and> sorted (hg_buckets h)
     \<and> (\<forall>b \<in> set (hg_buckets h). b \<le> hg_count h))"

lemma observe_nth:
  "i < length BUCKETS \<Longrightarrow> length (hg_buckets h) = length BUCKETS \<Longrightarrow>
     hg_buckets (observe x h) ! i = hg_buckets h ! i + (if x \<le> BUCKETS ! i then 1 else 0)"
  by (simp add: observe_def)

lemma BUCKETS_sorted: "sorted BUCKETS"
  by (simp add: BUCKETS_def)

lemma histogram_ok_empty: "histogram_ok empty_histogram"
  by (simp add: histogram_ok_def empty_histogram_def BUCKETS_def)

lemma histogram_ok_observe:
  assumes "histogram_ok h"
  shows "histogram_ok (observe x h)"
proof -
  have len: "length (hg_buckets h) = length BUCKETS" "length (hg_buckets (observe x h)) = length BUCKETS"
    using assms by (simp_all add: histogram_ok_def observe_def)
  have mono: "hg_buckets h ! i \<le> hg_buckets h ! j" "BUCKETS ! i \<le> BUCKETS ! j"
    if "i \<le> j" "j < length BUCKETS" for i j
    using that assms len BUCKETS_sorted by (simp_all add: histogram_ok_def sorted_iff_nth_mono)
  have "sorted (hg_buckets (observe x h))"
    unfolding sorted_iff_nth_mono using len mono by (auto simp: observe_nth intro: le_SucI order_trans)
  moreover have "b \<le> hg_count (observe x h)" if b: "b \<in> set (hg_buckets (observe x h))" for b
  proof -
    obtain i where i: "i < length BUCKETS" "b = hg_buckets (observe x h) ! i"
      using b len by (metis in_set_conv_nth)
    moreover have "hg_buckets h ! i \<le> hg_count h" using assms len i(1) by (simp add: histogram_ok_def)
    ultimately show ?thesis using len by (simp add: observe_nth) (simp add: observe_def)
  qed
  ultimately show ?thesis using len by (simp add: histogram_ok_def)
qed

end
