(* ===== verification/Poller.thy ===== *)
theory Poller
  imports Cursor Contract_Id Rpc_Pool Metrics "HOL-Library.Word"
begin

text \<open>
  The event poller (\<open>packages/ingest/src/poller.ts\<close>): one turn of the \<open>stream\<close> loop as the
  functions \<open>poll_get\<close> (up to the page), \<open>poll_page\<close> (up to the yield) and \<open>poll_commit\<close>
  (after the consumer has come back), the window of recent ids, the recognition of a lost
  position, and the system of a poller, its cursor store and its consumer that may be killed
  at any point. Replies of the node, the clock and the date text are inputs of a turn.
\<close>

section \<open>Lag and recent ids\<close>

definition APPROX_LEDGER_SECONDS :: int where
  "APPROX_LEDGER_SECONDS = 5"

definition ingestionLag :: "int \<Rightarrow> int \<Rightarrow> int \<times> int" where
  "ingestionLag ledger latest = (let lag = max 0 (latest - ledger) in (lag, lag * APPROX_LEDGER_SECONDS))"

definition RECENT_ID_WINDOW_PAGES :: int where
  "RECENT_ID_WINDOW_PAGES = 3"

definition recent_capacity :: "int \<Rightarrow> nat" where
  "recent_capacity pageSize = nat (max 1 (pageSize * RECENT_ID_WINDOW_PAGES))"

text \<open>The \<open>Map\<close> of \<open>RecentIds\<close> is the list of its keys in insertion order.\<close>

definition recent_add :: "nat \<Rightarrow> string \<Rightarrow> string list \<Rightarrow> bool \<times> string list" where
  "recent_add cap i ids =
     (if i \<in> set ids then (False, ids)
      else let ids = ids @ [i] in (True, if length ids > cap then tl ids else ids))"

fun fresh_events :: "nat \<Rightarrow> string list \<Rightarrow> raw_event list \<Rightarrow> raw_event list \<times> string list" where
  "fresh_events cap ids [] = ([], ids)"
| "fresh_events cap ids (e # es) =
     (let (new, ids) = recent_add cap (re_id e) ids; (rest, ids) = fresh_events cap ids es
      in (if new then e # rest else rest, ids))"

definition recent_ok :: "nat \<Rightarrow> string list \<Rightarrow> bool" where
  "recent_ok cap ids = (distinct ids \<and> length ids \<le> cap)"

lemma recent_ok_add:
  assumes "recent_ok cap ids"
  shows "recent_ok cap (snd (recent_add cap i ids))"
proof (cases "ids = []")
  case False
  then have "tl (ids @ [i]) = tl ids @ [i]" by simp
  with assms False show ?thesis
    by (auto simp: recent_ok_def recent_add_def Let_def distinct_tl dest: list.set_sel(2))
qed (use assms in \<open>auto simp: recent_ok_def recent_add_def Let_def\<close>)

lemma recent_add_set:
  assumes "recent_add cap i ids = (new, ids')"
  shows "set ids' \<subseteq> insert i (set ids)" and "new \<longleftrightarrow> i \<notin> set ids"
  using assms by (auto simp: recent_add_def Let_def split: if_splits dest: list.set_sel(2) [rotated])

lemma fresh_events_ok: "recent_ok cap ids \<Longrightarrow> recent_ok cap (snd (fresh_events cap ids es))"
proof (induction es arbitrary: ids)
  case (Cons e es)
  then show ?case using recent_ok_add [of cap ids "re_id e"] by (auto simp: case_prod_beta Let_def)
qed simp

lemma fresh_events_covers:
  "fresh_events cap ids es = (fresh, ids') \<Longrightarrow>
     re_id ` set es \<subseteq> set ids \<union> re_id ` set fresh \<and> set ids' \<subseteq> set ids \<union> re_id ` set fresh \<and> set fresh \<subseteq> set es"
proof (induction es arbitrary: ids fresh ids')
  case (Cons e es)
  obtain new mid where a: "recent_add cap (re_id e) ids = (new, mid)" by fastforce
  obtain rest fin where f: "fresh_events cap mid es = (rest, fin)" by fastforce
  have out: "fresh = (if new then e # rest else rest)" "ids' = fin" using Cons.prems a f by simp_all
  have s: "set mid \<subseteq> insert (re_id e) (set ids)" "new \<longleftrightarrow> re_id e \<notin> set ids"
    using recent_add_set [OF a] by auto
  show ?case
  proof (cases new)
    case True
    then show ?thesis using out s Cons.IH [OF f] by auto
  next
    case False
    then have "set mid \<subseteq> set ids" using s by (simp add: insert_absorb)
    moreover have "re_id e \<in> set ids" using False s(2) by simp
    ultimately show ?thesis using out False Cons.IH [OF f] by auto
  qed
qed simp

text \<open>While nothing is evicted, no id is passed on twice.\<close>

lemma fresh_events_distinct:
  assumes "length ids + length es \<le> cap" and "recent_ok cap ids"
  shows "distinct (map re_id (fst (fresh_events cap ids es)))
    \<and> set (map re_id (fst (fresh_events cap ids es))) \<inter> set ids = {}"
  using assms
proof (induction es arbitrary: ids)
  case (Cons e es)
  show ?case
  proof (cases "re_id e \<in> set ids")
    case True
    then have "recent_add cap (re_id e) ids = (False, ids)" by (simp add: recent_add_def)
    then show ?thesis using Cons.IH [of ids] Cons.prems by (simp add: case_prod_beta)
  next
    case False
    then have a: "recent_add cap (re_id e) ids = (True, ids @ [re_id e])"
      using Cons.prems by (simp add: recent_add_def)
    have "recent_ok cap (ids @ [re_id e])" using Cons.prems False by (simp add: recent_ok_def)
    then show ?thesis using Cons.IH [of "ids @ [re_id e]"] Cons.prems False a
      by (auto simp: case_prod_beta)
  qed
qed simp

section \<open>The default cursor key\<close>

unbundle bit_operations_syntax

text \<open>FNV-1a on 32 bits; \<open>Math.imul\<close> and \<open>>>> 0\<close> are multiplication modulo \<open>2 ^ 32\<close>.\<close>

definition shortHash :: "string \<Rightarrow> string" where
  "shortHash input = show_hex8 (unat (foldl (\<lambda>h c. (h XOR of_nat (of_char c)) * 0x01000193) (0x811c9dc5 :: 32 word) input))"

definition safeHost :: "(string \<Rightarrow> string option) \<Rightarrow> string \<Rightarrow> string" where
  "safeHost url_host url = (case url_host url of Some h \<Rightarrow> map safe_char h | None \<Rightarrow> ''rpc'')"

definition defaultCursorKey :: "(string \<Rightarrow> string option) \<Rightarrow> string \<Rightarrow> string list \<Rightarrow> string" where
  "defaultCursorKey url_host rpcUrl contractIds =
     (let ids = js_join '','' (sort contractIds); ids = (if ids = [] then ''all-contracts'' else ids)
      in safeHost url_host rpcUrl @ ''-'' @ shortHash ids)"

lemma defaultCursorKey_order: "mset ids = mset ids' \<Longrightarrow> defaultCursorKey h url ids = defaultCursorKey h url ids'"
  using properties_for_sort [of "sort ids" ids'] by (simp add: defaultCursorKey_def)

section \<open>A position outside the window\<close>

text \<open>The part of regular expressions the predicate uses, as a backtracking matcher with \<open>i\<close> set.\<close>

datatype rx = REps | RLit char | RStar "char \<Rightarrow> bool" | RWordEdge | RSeq rx rx | RAlt rx rx

definition word_char :: "char \<Rightarrow> bool" where
  "word_char c = (is_upper c \<or> is_lower c \<or> is_digit c \<or> c = CHR ''_'')"

fun rx_star :: "(char \<Rightarrow> bool) \<Rightarrow> string \<Rightarrow> string \<Rightarrow> (string \<times> string) list" where
  "rx_star P b [] = [(b, [])]"
| "rx_star P b (x # xs) = (b, x # xs) # (if P x then rx_star P (x # b) xs else [])"

definition edge_char :: "string \<Rightarrow> bool" where
  "edge_char s = (case s of [] \<Rightarrow> False | c # _ \<Rightarrow> word_char c)"

fun rx_run :: "rx \<Rightarrow> string \<times> string \<Rightarrow> (string \<times> string) list" where
  "rx_run REps p = [p]"
| "rx_run (RLit c) (b, a) = (case a of [] \<Rightarrow> [] | x # xs \<Rightarrow> if to_lower x = to_lower c then [(x # b, xs)] else [])"
| "rx_run (RStar P) (b, a) = rx_star P b a"
| "rx_run RWordEdge (b, a) = (if edge_char b \<noteq> edge_char a then [(b, a)] else [])"
| "rx_run (RSeq r t) p = concat (map (rx_run t) (rx_run r p))"
| "rx_run (RAlt r t) p = rx_run r p @ rx_run t p"

definition rx_test :: "rx \<Rightarrow> string \<Rightarrow> bool" where
  "rx_test r s = list_ex (\<lambda>i. rx_run r (rev (take i s), drop i s) \<noteq> []) [0..<Suc (length s)]"

definition rx_lit :: "string \<Rightarrow> rx" where
  "rx_lit s = foldr (\<lambda>c r. RSeq (RLit c) r) s REps"

fun rx_alts :: "string list \<Rightarrow> rx" where
  "rx_alts [] = REps"
| "rx_alts [s] = rx_lit s"
| "rx_alts (s # t # ss) = RAlt (rx_lit s) (rx_alts (t # ss))"

definition rx_word :: "rx \<Rightarrow> rx" where
  "rx_word r = RSeq RWordEdge (RSeq r RWordEdge)"

definition rx_dot :: rx where
  "rx_dot = RStar (\<lambda>c. c \<noteq> CHR 0x0A \<and> c \<noteq> CHR 0x0D)"

definition aboutPosition :: "string \<Rightarrow> bool" where
  "aboutPosition = rx_test (rx_word (RAlt (rx_lit ''cursor'')
     (RSeq (rx_lit ''start'') (RSeq (RStar is_ws) (RSeq (RAlt (RLit (CHR ''_'')) REps) (rx_lit ''ledger''))))))"

definition outOfRange :: "string \<Rightarrow> bool" where
  "outOfRange m =
     (rx_test (rx_word (RSeq (rx_lit ''must be '') (rx_alts [''between'', ''within'', ''greater'', ''newer'', ''at least'']))) m \<or>
      rx_test (RSeq (rx_word (RSeq (RAlt (RAlt (rx_lit ''is '') (rx_lit ''was '')) REps)
                 (rx_alts [''before'', ''older than'', ''outside''])))
               (RSeq rx_dot (rx_word (rx_lit ''oldest'')))) m \<or>
      rx_test (rx_word (rx_lit ''ledger range'')) m \<or>
      rx_test (rx_word (RSeq (rx_lit ''out'') (RSeq (RAlt (rx_lit ''side'') REps) (rx_lit '' of range'')))) m \<or>
      rx_test (rx_word (RSeq (rx_lit ''no longer '')
                 (rx_alts [''available'', ''retained'', ''in the retention window'']))) m)"

definition JSONRPC_INVALID_REQUEST :: int where
  "JSONRPC_INVALID_REQUEST = -32600"

fun failure_message :: "rpc_failure \<Rightarrow> string" where
  "failure_message BothCursorAndLedger =
     ''getEvents accepts either `cursor` or `startLedger`, never both (RPC rejects the mix).''"
| "failure_message NeitherCursorNorLedger = ''getEvents needs either a `cursor` or a `startLedger`.''"
| "failure_message NoFilters = ''getEventsChunked needs at least one filter.''"
| "failure_message CursorCount = ''`cursors` must have one entry per filter.''"
| "failure_message (Failed e) = e_message e"
| "failure_message (Exhausted n e) = ''Gave up after '' @ show_nat n @ '' attempt(s): '' @
     (case e of None \<Rightarrow> ''undefined'' | Some e \<Rightarrow> e_message e)"
| "failure_message (FailedOver old new e) =
     ''RPC provider '' @ old @ '' failed over to '' @ new @ ''; retrying: '' @ failure_message e"

fun failure_code :: "rpc_failure \<Rightarrow> js_code" where
  "failure_code (Failed e) = e_code e"
| "failure_code _ = CodeNone"

definition isCursorOutOfRange :: "rpc_failure \<Rightarrow> bool" where
  "isCursorOutOfRange e =
     (case failure_code e of
        CodeNum c \<Rightarrow> if c \<noteq> JSONRPC_INVALID_REQUEST then False
                     else aboutPosition (failure_message e) \<and> outOfRange (failure_message e)
      | _ \<Rightarrow> aboutPosition (failure_message e) \<and> outOfRange (failure_message e))"

end
