(* ===== verification/Poll_Loop.thy ===== *)
theory Poll_Loop
  imports Poller
begin

text \<open>
  The \<open>stream\<close> generator of \<open>packages/ingest/src/poller.ts\<close>, one turn of its loop at a time,
  over any cursor store, and the system of a poller that can be killed between any two of its
  steps, the store that survives it and the consumer. \<open>at_least_once\<close> is proved for every
  store that obeys \<open>position_store\<close>.
\<close>

section \<open>State and inputs\<close>

record 's cursor_ops =
  co_load :: "'s \<Rightarrow> string \<Rightarrow> cursor_result"
  co_save :: "'s \<Rightarrow> string \<Rightarrow> cursor_state \<Rightarrow> 's"
  co_clear :: "'s \<Rightarrow> string \<Rightarrow> 's"

record poller_options =
  po_contractIds :: "string list"
  po_topics :: "string list list option"
  po_eventType :: "event_type option"
  po_startLedger :: "int option"
  po_endLedger :: "int option"
  po_pageSize :: "int option"
  po_pollIntervalMs :: "rat option"
  po_maxPollIntervalMs :: "rat option"
  po_stalledThresholdMs :: "int option"

record poller =
  pp_cursor :: "string option"
  pp_startLedger :: "int option"
  pp_resolved :: bool
  pp_idleMs :: rat
  pp_seen :: "string list"
  pp_observed :: "int option"
  pp_unchangedSince :: "int option"
  pp_stallReported :: bool
  pp_metrics :: "metrics option"

text \<open>What the world answers during one turn: \<open>ti_retention n\<close> is the n-th \<open>retention()\<close> of the turn.\<close>

record turn_inputs =
  ti_retention :: "nat \<Rightarrow> (rpc_failure, retention_state) result"
  ti_getEvents :: "pool_args \<Rightarrow> (rpc_failure, event_batch) result"
  ti_now :: int
  ti_date :: string

datatype poll_error = PollRpc rpc_failure | PollCursor cursor_error

definition pageSize :: "poller_options \<Rightarrow> int" where
  "pageSize opts = or_else (po_pageSize opts) 200"

definition baseIdleMs :: "poller_options \<Rightarrow> rat" where
  "baseIdleMs opts = or_else (po_pollIntervalMs opts) 2000"

definition maxIdleMs :: "poller_options \<Rightarrow> rat" where
  "maxIdleMs opts = or_else (po_maxPollIntervalMs opts) (max (baseIdleMs opts) 30000)"

definition assertIdlePollingIntervals :: "rat \<Rightarrow> rat \<Rightarrow> (string, unit) result" where
  "assertIdlePollingIntervals base mx =
     (if base < 0 then Inl ''pollIntervalMs must be a finite, non-negative number''
      else if mx < base then Inl ''maxPollIntervalMs must be a finite number at least as large as pollIntervalMs''
      else Inr ())"

definition start_stream :: "poller_options \<Rightarrow> metrics option \<Rightarrow> (string, poller) result" where
  "start_stream opts m = res_bind (assertIdlePollingIntervals (baseIdleMs opts) (maxIdleMs opts)) (\<lambda>_. Inr
     \<lparr>pp_cursor = None, pp_startLedger = None, pp_resolved = False, pp_idleMs = baseIdleMs opts, pp_seen = [],
      pp_observed = None, pp_unchangedSince = None, pp_stallReported = False, pp_metrics = m\<rparr>)"

section \<open>From the top of the loop to the page\<close>

definition resolveStart ::
    "'s cursor_ops \<Rightarrow> string \<Rightarrow> poller_options \<Rightarrow> (rpc_failure, retention_state) result \<Rightarrow> 's
      \<Rightarrow> (poll_error, string option \<times> int option) result"
where
  "resolveStart ops key opts retention store =
     (case co_load ops store key of
        Inl e \<Rightarrow> Inl (PollCursor e)
      | Inr (Some saved) \<Rightarrow> Inr (Some (cs_cursor saved), None)
      | Inr None \<Rightarrow>
         (case retention of
            Inl e \<Rightarrow> Inl (PollRpc e)
          | Inr r \<Rightarrow>
             (let requested = or_else (po_startLedger opts) (rs_oldestLedger r)
              in Inr (None, Some (min (max requested (rs_oldestLedger r)) (rs_latestLedger r))))))"

datatype 's poll_got =
    Page poller event_batch
  | LoopAgain poller 's
  | Threw poll_error

definition poll_failed ::
    "'s cursor_ops \<Rightarrow> string \<Rightarrow> turn_inputs \<Rightarrow> 's \<Rightarrow> poller \<Rightarrow> poll_error \<Rightarrow> 's poll_got"
where
  "poll_failed ops key ti store p e =
     (case e of
        PollCursor _ \<Rightarrow> Threw e
      | PollRpc f \<Rightarrow>
         (if truthy (pp_cursor p) \<and> isCursorOutOfRange f
          then (case ti_retention ti 1 of
              Inl e' \<Rightarrow> Threw (PollRpc e')
            | Inr r \<Rightarrow> LoopAgain (p\<lparr>pp_cursor := None, pp_startLedger := Some (rs_oldestLedger r),
                  pp_metrics := map_option cursorRestarted (pp_metrics p)\<rparr>) (co_clear ops store key))
          else case f of
              Exhausted _ _ \<Rightarrow> LoopAgain (p\<lparr>pp_metrics := map_option rpcExhausted (pp_metrics p)\<rparr>) store
            | _ \<Rightarrow> Threw e))"

definition poll_args :: "'s cursor_ops \<Rightarrow> string \<Rightarrow> poller_options \<Rightarrow> 's \<Rightarrow> poller \<Rightarrow> (poll_error, pool_args) result" where
  "poll_args ops key opts store p =
     (let args = \<lparr>ga_filters = buildFilters (po_contractIds opts) (po_topics opts) (po_eventType opts),
            ga_startLedger = None, ga_endLedger = po_endLedger opts, ga_cursor = None, ga_limit = Some (pageSize opts)\<rparr>
      in if truthy (pp_cursor p)
         then (case pp_startLedger p of
             Some l \<Rightarrow> Inr \<lparr>pa_args = args\<lparr>ga_cursor := pp_cursor p\<rparr>, pa_fallbackLedger = Some l\<rparr>
           | None \<Rightarrow>
              (case co_load ops store key of
                 Inl e \<Rightarrow> Inl (PollCursor e)
               | Inr saved \<Rightarrow> Inr \<lparr>pa_args = args\<lparr>ga_cursor := pp_cursor p\<rparr>,
                    pa_fallbackLedger = map_option cs_ledger saved\<rparr>))
         else Inr \<lparr>pa_args = args\<lparr>ga_startLedger := pp_startLedger p\<rparr>, pa_fallbackLedger = None\<rparr>)"

definition poll_get ::
    "'s cursor_ops \<Rightarrow> string \<Rightarrow> poller_options \<Rightarrow> turn_inputs \<Rightarrow> 's \<Rightarrow> poller \<Rightarrow> 's poll_got"
where
  "poll_get ops key opts ti store p =
     (case (if pp_resolved p then Inr (pp_cursor p, pp_startLedger p)
            else resolveStart ops key opts (ti_retention ti 0) store) of
        Inl e \<Rightarrow> poll_failed ops key ti store p e
      | Inr (cursor, start) \<Rightarrow>
         (let p = p\<lparr>pp_cursor := cursor, pp_startLedger := start, pp_resolved := True\<rparr> in
          case poll_args ops key opts store p of
            Inl e \<Rightarrow> poll_failed ops key ti store p e
          | Inr args \<Rightarrow>
             (case ti_getEvents ti args of
                Inl f \<Rightarrow> poll_failed ops key ti store p (PollRpc f)
              | Inr batch \<Rightarrow> Page p batch)))"

section \<open>From the page to the yield\<close>

record poll_yield =
  py_events :: "raw_event list"
  py_ledger :: int
  py_caughtUp :: bool
  py_reachedEndLedger :: bool
  py_lag :: "int \<times> int"

definition observe_tip :: "poller_options \<Rightarrow> int \<Rightarrow> event_batch \<Rightarrow> poller \<Rightarrow> poller" where
  "observe_tip opts now batch p =
     (if pp_observed p \<noteq> Some (eb_latestLedger batch)
      then p\<lparr>pp_observed := Some (eb_latestLedger batch), pp_unchangedSince := Some now, pp_stallReported := False,
             pp_metrics := map_option (rpcStalled False) (pp_metrics p)\<rparr>
      else if \<not> pp_stallReported p \<and>
           (case pp_unchangedSince p of None \<Rightarrow> False
            | Some t \<Rightarrow> now - t \<ge> or_else (po_stalledThresholdMs opts) 60000)
      then p\<lparr>pp_stallReported := True, pp_metrics := map_option (rpcStalled True) (pp_metrics p)\<rparr>
      else p)"

definition poll_page :: "poller_options \<Rightarrow> turn_inputs \<Rightarrow> event_batch \<Rightarrow> poller \<Rightarrow> poller \<times> poll_yield" where
  "poll_page opts ti batch p =
     (let p = p\<lparr>pp_metrics := map_option (pageFetched (of_int (ti_now ti))) (pp_metrics p)\<rparr>;
          p = observe_tip opts (ti_now ti) batch p;
          caughtUp = (int (length (eb_events batch)) < pageSize opts);
          (fresh, seen) = fresh_events (recent_capacity (pageSize opts)) (pp_seen p) (eb_events batch);
          lastLedger = (if eb_events batch = [] then 0 else re_ledger (last (eb_events batch)))
      in (p\<lparr>pp_seen := seen\<rparr>,
          \<lparr>py_events = fresh, py_ledger = lastLedger, py_caughtUp = caughtUp,
           py_reachedEndLedger = (po_endLedger opts \<noteq> None \<and> caughtUp),
           py_lag = ingestionLag lastLedger (eb_latestLedger batch)\<rparr>))"

section \<open>After the consumer has come back\<close>

definition position_of :: "string \<Rightarrow> event_batch \<Rightarrow> poll_yield \<Rightarrow> cursor_state" where
  "position_of date batch y =
     \<lparr>cs_cursor = eb_cursor batch, cs_ledger = (if py_ledger y \<noteq> 0 then py_ledger y else eb_latestLedger batch),
      cs_updatedAt = JStr date,
      cs_retention = Some \<lparr>rs_latestLedger = eb_latestLedger batch, rs_oldestLedger = eb_oldestLedger batch\<rparr>\<rparr>"

definition per_contract :: "raw_event list \<Rightarrow> (string \<times> nat) list" where
  "per_contract es = foldl (\<lambda>m e. map_set (re_contractId e) (or_else (map_of m (re_contractId e)) 0 + 1) m) [] es"

definition count_events :: "raw_event list \<Rightarrow> metrics \<Rightarrow> metrics" where
  "count_events es m = foldl (\<lambda>m (i, n). eventsIngested n i m) m (per_contract es)"

definition poll_commit ::
    "'s cursor_ops \<Rightarrow> string \<Rightarrow> poller_options \<Rightarrow> string \<Rightarrow> event_batch \<Rightarrow> poll_yield \<Rightarrow> poller \<Rightarrow> 's
      \<Rightarrow> (poller \<times> bool) \<times> 's"
where
  "poll_commit ops key opts date batch y p store =
     (let store = co_save ops store key (position_of date batch y);
          shown = (if py_ledger y \<noteq> 0 then py_ledger y else eb_latestLedger batch);
          p = p\<lparr>pp_metrics := map_option (\<lambda>m. progress shown (eb_latestLedger batch) (count_events (py_events y) m)) (pp_metrics p),
                pp_cursor := Some (eb_cursor batch), pp_startLedger := None\<rparr>;
          base = baseIdleMs opts;
          p = (if eb_events batch \<noteq> [] then p\<lparr>pp_idleMs := base\<rparr> else p)
      in if py_reachedEndLedger y then ((p, True), store)
         else if py_caughtUp y \<and> eb_events batch = []
         then ((p\<lparr>pp_idleMs := min (maxIdleMs opts) (max base (pp_idleMs p * 2))\<rparr>, False), store)
         else ((p, False), store))"

section \<open>The system: a poller that may be killed, its store, its consumer\<close>

datatype phase = Down | Looping poller | Yielded poller event_batch poll_yield | Ended

record 's system =
  sy_phase :: phase
  sy_store :: 's
  sy_processed :: "raw_event list"

text \<open>
  \<open>partial\<close> is a consumer killed with its process in the middle of a batch; \<open>others\<close> is
  another stream working on the same store.
\<close>

inductive sys_step ::
    "'s cursor_ops \<Rightarrow> string \<Rightarrow> poller_options \<Rightarrow> (turn_inputs \<Rightarrow> bool) \<Rightarrow> 's system \<Rightarrow> 's system \<Rightarrow> bool"
  for ops :: "'s cursor_ops" and key :: string and opts :: poller_options and world :: "turn_inputs \<Rightarrow> bool"
where
  boot: "sy_phase s = Down \<Longrightarrow> start_stream opts m = Inr p \<Longrightarrow>
     sys_step ops key opts world s (s\<lparr>sy_phase := Looping p\<rparr>)"
| page: "sy_phase s = Looping p \<Longrightarrow> world ti \<Longrightarrow> poll_get ops key opts ti (sy_store s) p = Page p' batch \<Longrightarrow>
     poll_page opts ti batch p' = (p'', y) \<Longrightarrow>
     sys_step ops key opts world s (s\<lparr>sy_phase := Yielded p'' batch y\<rparr>)"
| again: "sy_phase s = Looping p \<Longrightarrow> world ti \<Longrightarrow> poll_get ops key opts ti (sy_store s) p = LoopAgain p' store \<Longrightarrow>
     sys_step ops key opts world s (s\<lparr>sy_phase := Looping p', sy_store := store\<rparr>)"
| threw: "sy_phase s = Looping p \<Longrightarrow> world ti \<Longrightarrow> poll_get ops key opts ti (sy_store s) p = Threw e \<Longrightarrow>
     sys_step ops key opts world s (s\<lparr>sy_phase := Down\<rparr>)"
| commit: "sy_phase s = Yielded p batch y \<Longrightarrow> poll_commit ops key opts date batch y p (sy_store s) = ((p', fin), store) \<Longrightarrow>
     sys_step ops key opts world s
       (s\<lparr>sy_phase := (if fin then Ended else Looping p'), sy_store := store, sy_processed := sy_processed s @ py_events y\<rparr>)"
| kill: "sys_step ops key opts world s (s\<lparr>sy_phase := Down\<rparr>)"
| partial: "sy_phase s = Yielded p batch y \<Longrightarrow>
     sys_step ops key opts world s (s\<lparr>sy_phase := Down, sy_processed := sy_processed s @ take n (py_events y)\<rparr>)"
| others: "co_load ops store key = co_load ops (sy_store s) key \<Longrightarrow>
     sys_step ops key opts world s (s\<lparr>sy_store := store\<rparr>)"

definition fresh_system :: "'s \<Rightarrow> 's system" where
  "fresh_system store = \<lparr>sy_phase = Down, sy_store = store, sy_processed = []\<rparr>"

section \<open>At least once\<close>

text \<open>
  The node as its documentation describes it: a matching event has a position in \<open>chain\<close>, a
  cursor stands before a position, and a page holds the events from where it was asked to
  start (or from earlier, when a replacement provider overlaps) up to its cursor. \<open>from\<close> is
  the position of the configured first ledger, which is still retained when it is asked for;
  the node does not declare a position lost.
\<close>

definition log_page :: "(nat \<Rightarrow> raw_event) \<Rightarrow> (string \<Rightarrow> nat) \<Rightarrow> nat \<Rightarrow> event_batch \<Rightarrow> bool" where
  "log_page chain pos first batch =
     (\<exists>j. j \<le> first \<and> eb_events batch = map chain [j..<pos (eb_cursor batch)])"

definition good_world :: "(nat \<Rightarrow> raw_event) \<Rightarrow> (string \<Rightarrow> nat) \<Rightarrow> nat \<Rightarrow> turn_inputs \<Rightarrow> bool" where
  "good_world chain pos from' ti =
     ((\<forall>args f. ti_getEvents ti args = Inl f \<longrightarrow> \<not> isCursorOutOfRange f) \<and>
      (\<forall>f. ti_retention ti 0 = Inl f \<longrightarrow> \<not> isCursorOutOfRange f) \<and>
      (\<forall>args batch. ti_getEvents ti args = Inr batch \<longrightarrow>
         log_page chain pos (if truthy (ga_cursor (pa_args args)) then pos (the (ga_cursor (pa_args args))) else from') batch))"

locale position_store = cursor_store load save clear slot view
  for load :: "'s \<Rightarrow> string \<Rightarrow> cursor_result" and save clear and slot :: "string \<Rightarrow> 'k" and view +
  assumes view_cursor: "view c = Some c' \<Longrightarrow> cs_cursor c' = cs_cursor c"

definition covered :: "(nat \<Rightarrow> raw_event) \<Rightarrow> nat \<Rightarrow> nat \<Rightarrow> raw_event list \<Rightarrow> bool" where
  "covered chain a b es = (\<forall>i. a \<le> i \<longrightarrow> i < b \<longrightarrow> re_id (chain i) \<in> re_id ` set es)"

lemma covered_mono: "covered chain a b es \<Longrightarrow> set es \<subseteq> set es' \<Longrightarrow> covered chain a b es'"
  by (auto simp: covered_def)

text \<open>Everything up to the position \<open>p\<close> would resume from is covered.\<close>

definition poller_covered :: "(nat \<Rightarrow> raw_event) \<Rightarrow> (string \<Rightarrow> nat) \<Rightarrow> nat \<Rightarrow> raw_event list \<Rightarrow> poller \<Rightarrow> bool" where
  "poller_covered chain pos from' es p =
     ((truthy (pp_cursor p) \<longrightarrow> covered chain from' (pos (the (pp_cursor p))) es) \<and>
      (pp_resolved p \<or> pp_cursor p = None))"

definition seen_covered :: "raw_event list \<Rightarrow> poller \<Rightarrow> bool" where
  "seen_covered es p = (set (pp_seen p) \<subseteq> re_id ` set es)"

definition store_covered ::
    "(nat \<Rightarrow> raw_event) \<Rightarrow> (string \<Rightarrow> nat) \<Rightarrow> nat \<Rightarrow> cursor_result \<Rightarrow> raw_event list \<Rightarrow> bool" where
  "store_covered chain pos from' loaded es =
     (\<forall>c. loaded = Inr (Some c) \<longrightarrow> covered chain from' (pos (cs_cursor c)) es)"

lemma poll_page_simps:
  assumes "poll_page opts ti batch p = (p', y)"
  shows "pp_cursor p' = pp_cursor p" "pp_resolved p' = pp_resolved p" "pp_startLedger p' = pp_startLedger p"
    "fresh_events (recent_capacity (pageSize opts)) (pp_seen p) (eb_events batch) = (py_events y, pp_seen p')"
  using assms by (auto simp: poll_page_def Let_def observe_tip_def split: prod.splits if_splits)

lemma poll_commit_simps:
  assumes "poll_commit ops key opts date batch y p store = ((p', fin), store')"
  shows "pp_cursor p' = Some (eb_cursor batch)" "pp_resolved p' = pp_resolved p" "pp_seen p' = pp_seen p"
    "store' = co_save ops store key (position_of date batch y)"
  using assms by (auto simp: poll_commit_def Let_def split: if_splits)

lemma poll_failed_good:
  assumes "poll_failed ops key ti store p e = LoopAgain p' store'"
    and "\<And>f. e = PollRpc f \<Longrightarrow> \<not> isCursorOutOfRange f"
  shows "store' = store \<and> pp_cursor p' = pp_cursor p \<and> pp_resolved p' = pp_resolved p \<and> pp_seen p' = pp_seen p"
  using assms by (auto simp: poll_failed_def split: poll_error.splits rpc_failure.splits if_splits sum.splits)

lemma poll_failed_not_page: "poll_failed ops key ti store p e \<noteq> Page p' batch"
  by (auto simp: poll_failed_def split: poll_error.splits rpc_failure.splits sum.splits)

lemma poll_args_cursor:
  "poll_args ops key opts store p = Inr args \<Longrightarrow>
     (if truthy (pp_cursor p) then ga_cursor (pa_args args) = pp_cursor p else \<not> truthy (ga_cursor (pa_args args)))"
  by (auto simp: poll_args_def Let_def truthy_def split: if_splits option.splits sum.splits)

lemma poll_args_error: "poll_args ops key opts store p = Inl e \<Longrightarrow> \<exists>c. e = PollCursor c"
  by (auto simp: poll_args_def Let_def split: if_splits option.splits sum.splits)

definition resolved :: "'s cursor_ops \<Rightarrow> string \<Rightarrow> poller_options \<Rightarrow> turn_inputs \<Rightarrow> 's \<Rightarrow> poller
    \<Rightarrow> (poll_error, string option \<times> int option) result" where
  "resolved ops key opts ti store p = (if pp_resolved p then Inr (pp_cursor p, pp_startLedger p)
     else resolveStart ops key opts (ti_retention ti 0) store)"

lemma resolved_covered:
  assumes "poller_covered chain pos from' es p" "store_covered chain pos from' (co_load ops store key) es"
    and "resolved ops key opts ti store p = Inr (c, l)"
  shows "poller_covered chain pos from' es (p\<lparr>pp_cursor := c, pp_startLedger := l, pp_resolved := True\<rparr>)"
  using assms
  by (auto simp: resolved_def poller_covered_def store_covered_def resolveStart_def Let_def truthy_def
      split: if_splits sum.splits option.splits)

lemma resolved_error:
  assumes "resolved ops key opts ti store p = Inl e" and "good_world chain pos from' ti" and "e = PollRpc f"
  shows "\<not> isCursorOutOfRange f"
  using assms by (auto simp: resolved_def resolveStart_def good_world_def Let_def split: if_splits sum.splits option.splits)

lemma poll_get_cases:
  "poll_get ops key opts ti store p =
     (case resolved ops key opts ti store p of
        Inl e \<Rightarrow> poll_failed ops key ti store p e
      | Inr (cursor, start) \<Rightarrow>
         (let p = p\<lparr>pp_cursor := cursor, pp_startLedger := start, pp_resolved := True\<rparr> in
          case poll_args ops key opts store p of
            Inl e \<Rightarrow> poll_failed ops key ti store p e
          | Inr args \<Rightarrow>
             (case ti_getEvents ti args of
                Inl f \<Rightarrow> poll_failed ops key ti store p (PollRpc f)
              | Inr batch \<Rightarrow> Page p batch)))"
  by (simp add: poll_get_def resolved_def)

lemma poll_get_again:
  assumes "poll_get ops key opts ti store p = LoopAgain p' store'" and "good_world chain pos from' ti"
    and "poller_covered chain pos from' es p" "store_covered chain pos from' (co_load ops store key) es"
  shows "store' = store \<and> poller_covered chain pos from' es p' \<and> pp_seen p' = pp_seen p"
proof (cases "resolved ops key opts ti store p")
  case (Inl e)
  then have "poll_failed ops key ti store p e = LoopAgain p' store'" using assms(1) by (simp add: poll_get_cases)
  from poll_failed_good [OF this] resolved_error [OF Inl assms(2)] assms(3)
  show ?thesis by (simp add: poller_covered_def)
next
  case (Inr r)
  obtain c l where r: "r = (c, l)" by fastforce
  let ?p = "p\<lparr>pp_cursor := c, pp_startLedger := l, pp_resolved := True\<rparr>"
  have cov: "poller_covered chain pos from' es ?p" using resolved_covered [OF assms(3,4)] Inr r by simp
  obtain e where f: "poll_failed ops key ti store ?p e = LoopAgain p' store'"
    "\<And>f. e = PollRpc f \<Longrightarrow> \<not> isCursorOutOfRange f"
    using assms(1,2) Inr r poll_args_error [of ops key opts store ?p]
    by (auto simp: poll_get_cases Let_def good_world_def split: sum.splits)
  from poll_failed_good [OF f] cov show ?thesis by (simp add: poller_covered_def)
qed

lemma poll_get_page:
  assumes "poll_get ops key opts ti store p = Page p' batch" and "good_world chain pos from' ti"
    and "poller_covered chain pos from' es p" "store_covered chain pos from' (co_load ops store key) es"
  shows "pp_seen p' = pp_seen p \<and> pp_resolved p' \<and>
    covered chain from' (pos (eb_cursor batch)) (es @ eb_events batch)"
proof -
  obtain c l where r: "resolved ops key opts ti store p = Inr (c, l)"
    using assms(1) by (cases "resolved ops key opts ti store p") (auto simp: poll_get_cases poll_failed_not_page)
  let ?p = "p\<lparr>pp_cursor := c, pp_startLedger := l, pp_resolved := True\<rparr>"
  have cov: "poller_covered chain pos from' es ?p" using resolved_covered [OF assms(3,4) r] .
  obtain args where a: "poll_args ops key opts store ?p = Inr args" "ti_getEvents ti args = Inr batch" "p' = ?p"
    using assms(1) by (auto simp: poll_get_cases r Let_def poll_failed_not_page split: sum.splits)
  obtain j where j: "j \<le> (if truthy (ga_cursor (pa_args args)) then pos (the (ga_cursor (pa_args args))) else from')"
    "eb_events batch = map chain [j..<pos (eb_cursor batch)]"
    using assms(2) a(2) unfolding good_world_def log_page_def by meson
  have "covered chain from' (pos (eb_cursor batch)) (es @ eb_events batch)"
    unfolding covered_def
  proof (intro allI impI)
    fix i assume i: "from' \<le> i" "i < pos (eb_cursor batch)"
    show "re_id (chain i) \<in> re_id ` set (es @ eb_events batch)"
    proof (cases "j \<le> i")
      case True
      then show ?thesis using i j(2) by auto
    next
      case False
      then have "truthy c \<and> i < pos (the c)"
        using i j(1) poll_args_cursor [OF a(1)] by (auto split: if_splits)
      then have "re_id (chain i) \<in> re_id ` set es" using cov i(1) by (auto simp: poller_covered_def covered_def)
      then show ?thesis by auto
    qed
  qed
  then show ?thesis using a(3) by simp
qed

definition sys_inv ::
    "'s cursor_ops \<Rightarrow> string \<Rightarrow> (nat \<Rightarrow> raw_event) \<Rightarrow> (string \<Rightarrow> nat) \<Rightarrow> nat \<Rightarrow> 's system \<Rightarrow> bool"
where
  "sys_inv ops key chain pos from' s =
     (store_covered chain pos from' (co_load ops (sy_store s) key) (sy_processed s) \<and>
      (case sy_phase s of
         Looping p \<Rightarrow> poller_covered chain pos from' (sy_processed s) p \<and> seen_covered (sy_processed s) p
       | Yielded p batch y \<Rightarrow> pp_resolved p \<and> seen_covered (sy_processed s @ py_events y) p
           \<and> covered chain from' (pos (eb_cursor batch)) (sy_processed s @ py_events y)
       | _ \<Rightarrow> True))"

context position_store
begin

abbreviation ops :: "'s cursor_ops" where
  "ops \<equiv> \<lparr>co_load = load, co_save = save, co_clear = clear\<rparr>"

lemma inv_commit:
  assumes "sys_inv ops key chain pos from' s" "sy_phase s = Yielded p batch y"
    "poll_commit ops key opts date batch y p (sy_store s) = ((p', fin), store)"
  shows "sys_inv ops key chain pos from'
    (s\<lparr>sy_phase := (if fin then Ended else Looping p'), sy_store := store, sy_processed := sy_processed s @ py_events y\<rparr>)"
proof -
  note c = poll_commit_simps [OF assms(3)]
  have "load store key = Inr (view (position_of date batch y))"
    using c(4) load_save [of key key "sy_store s"] by simp
  then have "store_covered chain pos from' (load store key) (sy_processed s @ py_events y)"
    using assms(1,2) view_cursor [of "position_of date batch y"]
    by (auto simp: sys_inv_def store_covered_def position_of_def)
  then show ?thesis
    using assms(1,2) c(1-3) by (simp add: sys_inv_def poller_covered_def seen_covered_def)
qed

lemma inv_page:
  assumes "sys_inv ops key chain pos from' s" "sy_phase s = Looping p" "good_world chain pos from' ti"
    "poll_get ops key opts ti (sy_store s) p = Page p' batch" "poll_page opts ti batch p' = (p'', y)"
  shows "sys_inv ops key chain pos from' (s\<lparr>sy_phase := Yielded p'' batch y\<rparr>)"
proof -
  have i: "poller_covered chain pos from' (sy_processed s) p" "seen_covered (sy_processed s) p"
      "store_covered chain pos from' (co_load ops (sy_store s) key) (sy_processed s)"
    using assms(1,2) by (simp_all add: sys_inv_def)
  note g = poll_get_page [OF assms(4,3) i(1,3)] and q = poll_page_simps [OF assms(5)]
  note f = fresh_events_covers [OF q(4)]
  have "re_id ` set (sy_processed s @ eb_events batch) \<subseteq> re_id ` set (sy_processed s @ py_events y)"
    using f i(2) g unfolding seen_covered_def by (simp add: image_Un) blast
  then have "covered chain from' (pos (eb_cursor batch)) (sy_processed s @ py_events y)"
    using g unfolding covered_def by blast
  moreover have "seen_covered (sy_processed s @ py_events y) p''"
    using f i(2) g unfolding seen_covered_def by (simp add: image_Un) blast
  ultimately show ?thesis using i(3) g q(2) by (simp add: sys_inv_def)
qed

lemma inv_step:
  assumes "sys_step ops key opts (good_world chain pos from') s t" "sys_inv ops key chain pos from' s"
  shows "sys_inv ops key chain pos from' t"
  using assms(1)
proof (cases rule: sys_step.cases)
  case (boot m p)
  then show ?thesis using assms(2)
    by (auto simp: sys_inv_def start_stream_def result_simps poller_covered_def seen_covered_def truthy_def)
next
  case (page p ti p' batch p'' y)
  then show ?thesis using inv_page [OF assms(2)] by simp
next
  case (again p ti p' store)
  have i: "poller_covered chain pos from' (sy_processed s) p" "seen_covered (sy_processed s) p"
      "store_covered chain pos from' (co_load ops (sy_store s) key) (sy_processed s)"
    using assms(2) again(2) by (simp_all add: sys_inv_def)
  show ?thesis using poll_get_again [OF again(4,3) i(1,3)] i again(1)
    by (simp add: sys_inv_def seen_covered_def)
next
  case (commit p batch y date p' fin store)
  then show ?thesis using inv_commit [OF assms(2)] by simp
next
  case (partial p batch y n)
  then show ?thesis using assms(2)
    by (auto simp: sys_inv_def store_covered_def intro: covered_mono)
next
  case (others store)
  then show ?thesis using assms(2) by (cases "sy_phase s") (simp_all add: sys_inv_def)
qed (use assms(2) in \<open>simp_all add: sys_inv_def\<close>)

lemma inv_reachable:
  assumes "(sys_step ops key opts (good_world chain pos from'))\<^sup>*\<^sup>* (fresh_system store) s" "load store key = Inr None"
  shows "sys_inv ops key chain pos from' s"
  using assms(1)
proof (induction rule: rtranclp_induct)
  case base
  then show ?case using assms(2) by (simp add: sys_inv_def fresh_system_def store_covered_def)
qed (rule inv_step)

lemma at_least_once:
  assumes "(sys_step ops key opts (good_world chain pos from'))\<^sup>*\<^sup>* (fresh_system store) s" "load store key = Inr None"
    and "load (sy_store s) key = Inr (Some c)" "from' \<le> i" "i < pos (cs_cursor c)"
  shows "re_id (chain i) \<in> re_id ` set (sy_processed s)"
  using inv_reachable [OF assms(1,2)] assms(3-) by (auto simp: sys_inv_def store_covered_def covered_def)

end

interpretation mempos: position_store mem_load mem_save mem_clear "\<lambda>k. k" Some
  by unfold_locales simp

interpretation filepos: position_store file_load "file_save pid now rand" file_clear cursor_file file_view
  for pid now rand
  by unfold_locales (auto simp: file_view_def split: if_splits)

interpretation backedpos: position_store backed_load backed_save "backed_clear now" "\<lambda>k. k" backed_view for now
  by unfold_locales (auto simp: backed_view_def split: if_splits)

end
