(* ===== verification/Archive.thy ===== *)
theory Archive
  imports Rpc_Client
begin

text \<open>
  The archive source (\<open>packages/ingest/src/archive.ts\<close>): checkpoints are read in order, the
  events of the range that match a filter are collected up to the limit. \<open>fetch c\<close> is the
  payload of checkpoint \<open>c\<close> or the error it is rejected with; \<open>locale_compare\<close> is
  \<open>String.prototype.localeCompare\<close>. Ledgers and the checkpoint size are natural numbers.
\<close>

definition checkpointEnd :: "nat \<Rightarrow> nat \<Rightarrow> nat" where
  "checkpointEnd ledger s = ledger div s * s + s - 1"

definition hex_slice :: "string \<Rightarrow> nat \<Rightarrow> string" where
  "hex_slice hex i = take 2 (drop i hex)"

definition checkpoint_path :: "nat \<Rightarrow> string" where
  "checkpoint_path c = (let hex = show_hex8 c
     in ''events/'' @ hex_slice hex 0 @ ''/'' @ hex_slice hex 2 @ ''/'' @ hex_slice hex 4 @ ''/events-'' @ hex @ ''.json'')"

fun topic_matches :: "string list \<Rightarrow> string list \<Rightarrow> bool" where
  "topic_matches [] ts = True"
| "topic_matches (x # xs) [] = ((x = ''*'' \<or> x = ''**'') \<and> topic_matches xs [])"
| "topic_matches (x # xs) (t # ts) = ((x = ''*'' \<or> x = ''**'' \<or> x = t) \<and> topic_matches xs ts)"

definition filter_matches :: "raw_event \<Rightarrow> event_filter \<Rightarrow> bool" where
  "filter_matches e f =
     ((case ef_type f of None \<Rightarrow> True | Some t \<Rightarrow> t = re_type e) \<and>
      (case ef_contractIds f of None \<Rightarrow> True | Some ids \<Rightarrow> ids = [] \<or> re_contractId e \<in> set ids) \<and>
      (case ef_topics f of None \<Rightarrow> True | Some ts \<Rightarrow> ts = [] \<or> (\<exists>t \<in> set ts. topic_matches t (re_topic e))))"

definition event_matches :: "raw_event \<Rightarrow> event_filter list \<Rightarrow> bool" where
  "event_matches e fs = (fs = [] \<or> (\<exists>f \<in> set fs. filter_matches e f))"

definition wanted :: "nat \<Rightarrow> nat \<Rightarrow> event_filter list \<Rightarrow> raw_event \<Rightarrow> bool" where
  "wanted start end' fs e = (\<not> (re_ledger e < int start \<or> re_ledger e > int end') \<and> event_matches e fs)"

text \<open>The inner loop: the events collected so far are tested against the limit after each push.\<close>

fun collect_events :: "(raw_event \<Rightarrow> bool) \<Rightarrow> nat \<Rightarrow> raw_event list \<Rightarrow> raw_event list \<Rightarrow> raw_event list" where
  "collect_events want limit acc [] = acc"
| "collect_events want limit acc (e # es) =
     (if \<not> want e then collect_events want limit acc es
      else if length (acc @ [e]) \<ge> limit then acc @ [e]
      else collect_events want limit (acc @ [e]) es)"

function checkpoint_loop ::
    "(nat \<Rightarrow> (string, raw_event list) result) \<Rightarrow> (raw_event \<Rightarrow> bool) \<Rightarrow> nat \<Rightarrow> nat \<Rightarrow> nat \<Rightarrow> nat \<Rightarrow> raw_event list
      \<Rightarrow> (string, raw_event list) result"
where
  "checkpoint_loop fetch want limit s end' c acc =
     (if s = 0 \<or> end' < c then Inr acc
      else case fetch c of
          Inl err \<Rightarrow> Inl err
        | Inr payload \<Rightarrow>
           (let acc = collect_events want limit acc payload
            in if length acc \<ge> limit then Inr acc else checkpoint_loop fetch want limit s end' (c + s) acc))"
  by pat_completeness auto
termination
  by (relation "measure (\<lambda>(fetch, want, limit, s, end', c, acc). Suc end' - c)") auto

declare checkpoint_loop.simps [simp del]

record archive_args =
  aa_startLedger :: nat
  aa_endLedger :: "nat option"
  aa_filters :: "event_filter list option"
  aa_limit :: "nat option"

definition archive_end :: "nat \<Rightarrow> archive_args \<Rightarrow> nat" where
  "archive_end s a = (case aa_endLedger a of Some e \<Rightarrow> e | None \<Rightarrow> aa_startLedger a + s - 1)"

definition archive_getEvents ::
    "(string \<Rightarrow> string \<Rightarrow> int) \<Rightarrow> nat \<Rightarrow> (nat \<Rightarrow> (string, raw_event list) result) \<Rightarrow> archive_args \<Rightarrow> (string, event_batch) result"
where
  "archive_getEvents locale_compare s fetch a =
     (let end' = archive_end s a; start = aa_startLedger a in
      res_bind (checkpoint_loop fetch (wanted start end' (or_else (aa_filters a) [])) (or_else (aa_limit a) 200) s end'
                 (checkpointEnd start s) [])
        (\<lambda>found. let events = js_sort (\<lambda>x y. locale_compare (re_id x) (re_id y)) found;
            lastLedger = (if events = [] then int (min end' start) else re_ledger (last events))
          in Inr \<lparr>eb_events = events, eb_cursor = ''archive:'' @ show_int lastLedger,
                  eb_latestLedger = int end', eb_oldestLedger = int start\<rparr>))"

section \<open>Lemmas\<close>

lemma collect_events_filter:
  "collect_events want limit acc es = acc @ take (max 1 (limit - length acc)) (filter want es)"
proof (induction es arbitrary: acc)
  case (Cons e es)
  consider "\<not> want e" | "want e" "limit \<le> Suc (length acc)" | "want e" "\<not> limit \<le> Suc (length acc)" by blast
  then show ?case
  proof cases
    case 2
    then have "max 1 (limit - length acc) = 1" by (auto simp: max_def)
    with 2 show ?thesis by simp
  next
    case 3
    then have "max 1 (limit - length acc) = Suc (max 1 (limit - length (acc @ [e])))" by (auto simp: max_def)
    with 3 show ?thesis using Cons by simp
  qed (use Cons in simp)
qed simp

text \<open>The checkpoints the loop reads, and what it returns while the limit is not reached.\<close>

definition read_checkpoints :: "nat \<Rightarrow> nat \<Rightarrow> nat \<Rightarrow> nat list" where
  "read_checkpoints s c end' = map (\<lambda>k. c + k * s) [0..<(if s = 0 \<or> end' < c then 0 else (end' - c) div s + 1)]"

lemma add_div_self: "0 < (s::nat) \<Longrightarrow> (m + s) div s = Suc (m div s)"
  by simp

lemma read_checkpoints_step:
  assumes "0 < s" "c \<le> end'"
  shows "read_checkpoints s c end' = c # read_checkpoints s (c + s) end'"
proof -
  let ?n = "if s = 0 \<or> end' < c + s then 0 else (end' - (c + s)) div s + 1"
  have "(end' - c) div s + 1 = Suc ?n"
  proof (cases "end' < c + s")
    case False
    then have "end' - c = (end' - (c + s)) + s" by simp
    then have "(end' - c) div s = Suc ((end' - (c + s)) div s)"
      using add_div_self [OF assms(1), of "end' - (c + s)"] by presburger
    then show ?thesis using assms(1) False by simp
  qed (use assms in auto)
  moreover have "map (\<lambda>k. c + k * s) [0..<Suc ?n] = c # map (\<lambda>k. c + s + k * s) [0..<?n]"
    by (simp add: upt_conv_Cons map_Suc_upt [symmetric] o_def add.assoc del: upt_Suc)
  ultimately show ?thesis using assms by (simp add: read_checkpoints_def)
qed

lemma checkpoint_loop_all:
  assumes "\<forall>c. fetch c = Inr (payload c)"
    and "length (acc @ concat (map (\<lambda>k. filter want (payload k)) (read_checkpoints s c end'))) < limit"
  shows "checkpoint_loop fetch want limit s end' c acc =
     Inr (acc @ concat (map (\<lambda>k. filter want (payload k)) (read_checkpoints s c end')))"
  using assms
proof (induction "Suc end' - c" arbitrary: c acc rule: less_induct)
  case less
  show ?case
  proof (cases "s = 0 \<or> end' < c")
    case True
    then show ?thesis by (subst checkpoint_loop.simps) (auto simp: read_checkpoints_def)
  next
    case False
    then have r: "read_checkpoints s c end' = c # read_checkpoints s (c + s) end'"
      by (intro read_checkpoints_step) auto
    have short: "length (acc @ filter want (payload c)) < limit" using less.prems(2) unfolding r by simp
    then have "collect_events want limit acc (payload c) = acc @ filter want (payload c)"
      by (simp add: collect_events_filter)
    moreover have "checkpoint_loop fetch want limit s end' (c + s) (acc @ filter want (payload c)) =
       Inr ((acc @ filter want (payload c)) @ concat (map (\<lambda>k. filter want (payload k)) (read_checkpoints s (c + s) end')))"
      using less.prems False unfolding r by (intro less.hyps) auto
    ultimately show ?thesis
      using False less.prems(1) short unfolding r by (subst checkpoint_loop.simps) simp
  qed
qed

lemma checkpointEnd_bounds:
  assumes "0 < s"
  shows "l \<le> checkpointEnd l s" and "checkpointEnd l s < l + s"
proof -
  have l: "l = l div s * s + l mod s" and m: "l mod s < s" using assms by simp_all
  from l m show "l \<le> checkpointEnd l s" unfolding checkpointEnd_def by linarith
  from l m show "checkpointEnd l s < l + s" unfolding checkpointEnd_def by linarith
qed

lemma mem_read_checkpoints:
  assumes "0 < s" and "start \<le> l"
  shows "checkpointEnd l s \<in> set (read_checkpoints s (checkpointEnd start s) end') \<longleftrightarrow> checkpointEnd l s \<le> end'"
proof -
  have dm: "start div s \<le> l div s" using assms(2) by (rule div_le_mono)
  let ?k = "l div s - start div s"
  have e: "checkpointEnd l s = checkpointEnd start s + ?k * s"
    using dm assms(1) by (simp add: checkpointEnd_def diff_mult_distrib)
  show ?thesis
  proof
    assume "checkpointEnd l s \<le> end'"
    then have "?k * s \<le> end' - checkpointEnd start s" "\<not> end' < checkpointEnd start s" using e by linarith+
    moreover from this have "?k \<le> (end' - checkpointEnd start s) div s"
      using assms(1) by (simp add: less_eq_div_iff_mult_less_eq)
    ultimately show "checkpointEnd l s \<in> set (read_checkpoints s (checkpointEnd start s) end')"
      using assms(1) unfolding read_checkpoints_def e by (auto intro!: image_eqI [of _ _ ?k])
  next
    assume "checkpointEnd l s \<in> set (read_checkpoints s (checkpointEnd start s) end')"
    then obtain j where j: "checkpointEnd l s = checkpointEnd start s + j * s" "j \<le> (end' - checkpointEnd start s) div s"
      "\<not> end' < checkpointEnd start s"
      using assms(1) by (auto simp: read_checkpoints_def split: if_splits)
    then have "j * s \<le> end' - checkpointEnd start s" using assms(1) by (simp add: less_eq_div_iff_mult_less_eq)
    with j show "checkpointEnd l s \<le> end'" by linarith
  qed
qed

end
