(* ===== verification/Ingest_Props.thy ===== *)
theory Ingest_Props
  imports Poll_Loop Archive
begin

text \<open>
  The properties of the ingest package: delivery, retries, requests, chunks, the provider pool,
  metrics, the archive, cursor files and the contracts file. Each rests on the lemmas of its
  component's theory; a witness after it applies it to concrete values.
\<close>

section \<open>Delivery\<close>

text \<open>
  C2: at-least-once delivery over cursor files. Whatever sequence of boots, pages, recoverable
  errors, commits, kills (also in the middle of a batch) and writes of other streams a poller
  goes through, an event of the chain that lies between the first position and the position
  its cursor file resumes from has reached the consumer (an event with its id was processed).
\<close>

theorem poller_at_least_once:
  fixes pid now rand :: string
  assumes "(sys_step \<lparr>co_load = file_load, co_save = file_save pid now rand, co_clear = file_clear\<rparr> key opts
      (good_world chain pos first))\<^sup>*\<^sup>* (fresh_system dir) s"
    and "file_load dir key = Inr None"
    and "file_load (sy_store s) key = Inr (Some c)"
    and "first \<le> i" and "i < pos (cs_cursor c)"
  shows "re_id (chain i) \<in> re_id ` set (sy_processed s)"
  by (rule filepos.at_least_once [OF assms])

definition demo_event :: "nat \<Rightarrow> raw_event" where
  "demo_event n = \<lparr>re_id = ''e'' @ show_nat n, re_type = ContractEvent, re_ledger = int n + 1, re_ledgerClosedAt = [],
     re_contractId = ''C'', re_topic = [], re_value = [], re_txHash = [], re_transactionIndex = 0,
     re_operationIndex = 0, re_inSuccessfulContractCall = True\<rparr>"

definition demo_options :: poller_options where
  "demo_options = \<lparr>po_contractIds = [], po_topics = None, po_eventType = None, po_startLedger = None, po_endLedger = None,
     po_pageSize = None, po_pollIntervalMs = None, po_maxPollIntervalMs = None, po_stalledThresholdMs = None\<rparr>"

definition demo_batch :: event_batch where
  "demo_batch = \<lparr>eb_events = [demo_event 0], eb_cursor = ''x'', eb_latestLedger = 9, eb_oldestLedger = 1\<rparr>"

definition demo_turn :: turn_inputs where
  "demo_turn = \<lparr>ti_retention = (\<lambda>_. Inr \<lparr>rs_latestLedger = 9, rs_oldestLedger = 1\<rparr>),
     ti_getEvents = (\<lambda>args. Inr demo_batch), ti_now = 0, ti_date = ''d''\<rparr>"

lemma demo_world: "good_world demo_event length 0 demo_turn"
  by (auto simp: good_world_def demo_turn_def log_page_def demo_batch_def intro!: exI [of _ 0])

definition demo_system :: "cursor_dir system" where
  "demo_system = (let p = projr (start_stream demo_options None);
      ops = \<lparr>co_load = file_load, co_save = file_save ''1'' ''2'' ''3'', co_clear = file_clear\<rparr>;
      p1 = p\<lparr>pp_resolved := True, pp_startLedger := Some 1\<rparr>;
      (p2, y) = poll_page demo_options demo_turn demo_batch p1;
      ((p3, fin), store) = poll_commit ops ''k'' demo_options ''d'' demo_batch y p2 Map.empty
    in \<lparr>sy_phase = (if fin then Ended else Looping p3), sy_store = store, sy_processed = py_events y\<rparr>)"

lemma demo_reach:
  "(sys_step \<lparr>co_load = file_load, co_save = file_save ''1'' ''2'' ''3'', co_clear = file_clear\<rparr> ''k'' demo_options
      (good_world demo_event length 0))\<^sup>*\<^sup>* (fresh_system Map.empty) demo_system"
proof -
  let ?ops = "\<lparr>co_load = file_load, co_save = file_save ''1'' ''2'' ''3'', co_clear = file_clear\<rparr>"
  let ?step = "sys_step ?ops ''k'' demo_options (good_world demo_event length 0)"
  obtain p where p: "start_stream demo_options None = Inr p" "pp_resolved p = False" "pp_cursor p = None" "pp_startLedger p = None"
    by (simp add: start_stream_def assertIdlePollingIntervals_def baseIdleMs_def maxIdleMs_def demo_options_def)
  let ?p1 = "p\<lparr>pp_resolved := True, pp_startLedger := Some 1\<rparr>"
  have get: "poll_get ?ops ''k'' demo_options demo_turn Map.empty p = Page ?p1 demo_batch"
    using p by (simp add: poll_get_def resolveStart_def file_load_def demo_turn_def demo_options_def poll_args_def truthy_def)
  obtain p2 y where pg: "poll_page demo_options demo_turn demo_batch ?p1 = (p2, y)" by fastforce
  obtain p3 fin store where cm: "poll_commit ?ops ''k'' demo_options ''d'' demo_batch y p2 Map.empty = ((p3, fin), store)"
    by (metis surj_pair)
  have s: "demo_system = \<lparr>sy_phase = (if fin then Ended else Looping p3), sy_store = store, sy_processed = py_events y\<rparr>"
    by (simp add: demo_system_def p(1) pg cm)
  have s1: "?step (fresh_system Map.empty) \<lparr>sy_phase = Looping p, sy_store = Map.empty, sy_processed = []\<rparr>"
    using sys_step.boot [of "fresh_system Map.empty" demo_options None p ?ops "''k''"] p(1) by (simp add: fresh_system_def)
  have s2: "?step \<lparr>sy_phase = Looping p, sy_store = Map.empty, sy_processed = []\<rparr>
      \<lparr>sy_phase = Yielded p2 demo_batch y, sy_store = Map.empty, sy_processed = []\<rparr>"
    using sys_step.page [of "\<lparr>sy_phase = Looping p, sy_store = Map.empty, sy_processed = []\<rparr>" p
        "good_world demo_event length 0" demo_turn ?ops "''k''" demo_options] demo_world get pg by simp
  have s3: "?step \<lparr>sy_phase = Yielded p2 demo_batch y, sy_store = Map.empty, sy_processed = []\<rparr> demo_system"
    using sys_step.commit [of "\<lparr>sy_phase = Yielded p2 demo_batch y, sy_store = Map.empty, sy_processed = []\<rparr>" p2 demo_batch y
        ?ops "''k''" demo_options "''d''"] cm by (simp add: s)
  show ?thesis
    by (rule three_steps [where R = "?step", OF s1 s2 s3])
qed

lemma demo_loaded: "\<exists>c. file_load (sy_store demo_system) ''k'' = Inr (Some c) \<and> cs_cursor c = ''x''"
proof -
  let ?ops = "\<lparr>co_load = file_load, co_save = file_save ''1'' ''2'' ''3'', co_clear = file_clear\<rparr>"
  let ?p1 = "projr (start_stream demo_options None)\<lparr>pp_resolved := True, pp_startLedger := Some 1\<rparr>"
  obtain p2 y where pg: "poll_page demo_options demo_turn demo_batch ?p1 = (p2, y)" by fastforce
  obtain p3 fin store where cm: "poll_commit ?ops ''k'' demo_options ''d'' demo_batch y p2 Map.empty = ((p3, fin), store)"
    by (metis surj_pair)
  have "sy_store demo_system = store" by (simp add: demo_system_def Let_def pg cm)
  moreover have "store = file_save ''1'' ''2'' ''3'' Map.empty ''k'' (position_of ''d'' demo_batch y)"
    using poll_commit_simps(4) [OF cm] by simp
  ultimately have "file_load (sy_store demo_system) ''k'' = Inr (file_view (position_of ''d'' demo_batch y))"
    using filec.load_save [of "''k''" "''k''"] by simp
  then show ?thesis by (auto simp: file_view_def position_of_def demo_batch_def)
qed

theorem poller_at_least_once_witness: "re_id (demo_event 0) \<in> re_id ` set (sy_processed demo_system)"
proof -
  obtain c where "file_load (sy_store demo_system) ''k'' = Inr (Some c)" "cs_cursor c = ''x''"
    using demo_loaded by blast
  then show ?thesis
    using poller_at_least_once [OF demo_reach, of c 0] by (simp add: file_load_def)
qed

text \<open>
  The window of recent ids never holds an id twice nor more than its capacity, the events
  passed on are among those of the page, and every event of the page is either passed on or
  has an id the window already held or that was passed on before it.
\<close>

theorem recent_window:
  assumes "recent_ok cap ids" and "fresh_events cap ids es = (fresh, ids')"
  shows "recent_ok cap ids' \<and> set fresh \<subseteq> set es \<and> re_id ` set es \<subseteq> set ids \<union> re_id ` set fresh
    \<and> (length ids + length es \<le> cap \<longrightarrow> distinct (map re_id fresh) \<and> set (map re_id fresh) \<inter> set ids = {})"
  using fresh_events_ok [OF assms(1), of es] fresh_events_covers [OF assms(2)]
    fresh_events_distinct [of ids es cap] assms by auto

theorem recent_window_witness:
  "recent_ok 3 (snd (fresh_events 3 [''e7''] [demo_event 7, demo_event 8]))
    \<and> distinct (map re_id (fst (fresh_events 3 [''e7''] [demo_event 7, demo_event 8])))"
  using recent_window [of 3 "[''e7'']" "[demo_event 7, demo_event 8]"
      "fst (fresh_events 3 [''e7''] [demo_event 7, demo_event 8])" "snd (fresh_events 3 [''e7''] [demo_event 7, demo_event 8])"]
  by (simp add: recent_ok_def del: fresh_events.simps)

section \<open>Retries\<close>

text \<open>
  \<open>withRetry\<close> calls the function until it resolves or rejects with an error not worth
  retrying, at most \<open>attempts\<close> times, sleeping once between two calls and never after the
  last; when every attempt fails retryably it reports the last error.
\<close>

theorem withRetry_outcome:
  fixes n :: nat
  assumes "n = or_else (ro_attempts opts) 5"
  shows "(\<forall>k. k < n \<longrightarrow> \<not> wants_retry opts (fn k) \<longrightarrow> (\<forall>j < k. wants_retry opts (fn j)) \<longrightarrow>
        rr_outcome (withRetry w fn opts) = settled (fn k) \<and> rr_calls (withRetry w fn opts) = k + 1
        \<and> length (rr_delays (withRetry w fn opts)) = k)
    \<and> (0 < n \<longrightarrow> (\<forall>j < n. wants_retry opts (fn j)) \<longrightarrow>
        (\<exists>e. fn (n - 1) = Inl e \<and> rr_outcome (withRetry w fn opts) = RetryExhausted n (Some e))
        \<and> rr_calls (withRetry w fn opts) = n \<and> length (rr_delays (withRetry w fn opts)) = n - 1)"
proof (intro conjI allI impI)
  fix k assume k: "k < n" "\<not> wants_retry opts (fn k)" "\<forall>j < k. wants_retry opts (fn j)"
  from retry_loop_stops [of k n opts fn 0 w None "[]"] k
  show "rr_outcome (withRetry w fn opts) = settled (fn k)" "rr_calls (withRetry w fn opts) = k + 1"
    "length (rr_delays (withRetry w fn opts)) = k"
    by (auto simp: withRetry_def simp flip: assms)
next
  assume n: "0 < n" "\<forall>j < n. wants_retry opts (fn j)"
  from retry_loop_exhausts [of 0 n opts fn w None "[]"] n
  show "\<exists>e. fn (n - 1) = Inl e \<and> rr_outcome (withRetry w fn opts) = RetryExhausted n (Some e)"
    "rr_calls (withRetry w fn opts) = n" "length (rr_delays (withRetry w fn opts)) = n - 1"
    by (auto simp: withRetry_def simp flip: assms)
qed

definition demo_error :: "int option \<Rightarrow> rpc_error" where
  "demo_error st = \<lparr>e_response_status = st, e_status = None, e_statusCode = None, e_code = CodeNone,
     e_response_headers = None, e_error_headers = None, e_message = ''boom''\<rparr>"

definition demo_retry :: retry_options where
  "demo_retry = \<lparr>ro_attempts = Some 3, ro_baseDelayMs = None, ro_maxDelayMs = None, ro_shouldRetry = None\<rparr>"

definition demo_env :: env where
  "demo_env = \<lparr>env_date_parse = (\<lambda>_. None), env_clock = (\<lambda>_. 0), env_random = (\<lambda>_. 1/2)\<rparr>"

definition demo_fn :: "nat \<Rightarrow> (rpc_error, nat) result" where
  "demo_fn k = (if k = 0 then Inl (demo_error (Some 503)) else Inr k)"

theorem withRetry_outcome_witness:
  "rr_outcome (withRetry demo_env demo_fn demo_retry) = Resolved 1 \<and> rr_calls (withRetry demo_env demo_fn demo_retry) = 2"
proof -
  have r: "wants_retry demo_retry (demo_fn 0)" "\<not> wants_retry demo_retry (demo_fn 1)"
    by (simp_all add: wants_retry_def demo_fn_def demo_retry_def classifyRpcError_def statusOf_def demo_error_def)
  have "3 = or_else (ro_attempts demo_retry) 5" by (simp add: demo_retry_def)
  from conjunct1 [OF withRetry_outcome [OF this, of demo_fn demo_env], rule_format, of 1] r
  show ?thesis by (simp add: settled_def demo_fn_def)
qed

text \<open>
  Every delay \<open>withRetry\<close> sleeps is non-negative and at most the larger of the backoff cap
  and five minutes, whatever a rate limiter's header says.
\<close>

theorem withRetry_delays:
  assumes "\<And>k. 0 \<le> env_random w k \<and> env_random w k < 1"
    and "0 \<le> or_else (ro_baseDelayMs opts) 250" and "0 \<le> or_else (ro_maxDelayMs opts) 30000"
  shows "\<forall>d \<in> set (rr_delays (withRetry w fn opts)). 0 \<le> d \<and> of_int d \<le> max (or_else (ro_maxDelayMs opts) 30000) 300000"
proof -
  let ?P = "\<lambda>d. 0 \<le> d \<and> of_int d \<le> max (or_else (ro_maxDelayMs opts) 30000) (300000::rat)"
  have "?P (retry_delay w opts k e)" for k e
  proof (cases "retryAfterMs (env_date_parse w) e (env_clock w k)")
    case None
    then show ?thesis using backoffDelay_bounds(1,2) [of "env_random w k" opts k] assms
      by (simp add: retry_delay_def le_max_iff_disj)
  next
    case (Some d)
    then have "0 \<le> d" "d \<le> 300000" using retryAfterMs_bounds by blast+
    then show ?thesis using Some by (simp add: retry_delay_def le_max_iff_disj)
  qed
  then show ?thesis unfolding withRetry_def by (intro retry_loop_delays) auto
qed

theorem withRetry_delays_witness:
  "list_all (\<lambda>d. 0 \<le> d \<and> of_int d \<le> (300000::rat)) (rr_delays (withRetry demo_env demo_fn demo_retry))"
  using withRetry_delays [of demo_env demo_retry demo_fn] by (simp add: demo_env_def demo_retry_def list_all_iff)

section \<open>Requests\<close>

text \<open>
  \<open>buildFilters\<close> splits the contract ids, in order and without loss, into filters of one
  to five ids that all carry the same type and topics, as few as that allows; without contract
  ids there is one filter.
\<close>

theorem buildFilters_partition:
  "concat (map (\<lambda>f. or_else (ef_contractIds f) []) (buildFilters ids topics ty)) = ids
    \<and> length (buildFilters ids topics ty) = max 1 ((length ids + 4) div 5)
    \<and> (\<forall>f \<in> set (buildFilters ids topics ty). ef_type f = Some (or_else ty ContractEvent)
        \<and> ef_topics f = (case topics of Some (t # ts) \<Rightarrow> Some (t # ts) | _ \<Rightarrow> None)
        \<and> (ids \<noteq> [] \<longrightarrow> (\<exists>c. ef_contractIds f = Some c \<and> c \<noteq> [] \<and> length c \<le> 5)))"
proof (cases "ids = []")
  case True
  then show ?thesis by (auto simp: buildFilters_def split: option.splits list.splits)
next
  case False
  define base where "base = \<lparr>ef_type = Some (or_else ty ContractEvent), ef_contractIds = None,
      ef_topics = (case topics of Some ts \<Rightarrow> if length ts > 0 then Some ts else None | None \<Rightarrow> None)\<rparr>"
  have b: "buildFilters ids topics ty = filter_loop base ids 0"
    using False by (simp add: buildFilters_def base_def)
  have c: "concat (map (\<lambda>f. or_else (ef_contractIds f) []) (filter_loop base ids 0)) = ids"
    using filter_loop_ids [of base ids 0] by simp
  let ?fs = "filter_loop base ids 0"
  have "length ids = length (concat (map (\<lambda>f. or_else (ef_contractIds f) []) ?fs))" using c by simp
  also have "\<dots> \<le> 5 * length ?fs"
    unfolding length_concat using sum_list_map_const_le [of ?fs "\<lambda>f. length (or_else (ef_contractIds f) [])" 5]
      filter_loop_each [of _ base ids 0] by (fastforce simp: o_def)
  finally have "length ?fs = max 1 ((length ids + 4) div 5)"
    using filter_loop_length [of base ids 0] False by (cases ids) auto
  moreover have "ef_topics base = (case topics of Some (t # ts) \<Rightarrow> Some (t # ts) | _ \<Rightarrow> None)"
    by (auto simp: base_def split: option.splits list.splits)
  ultimately show ?thesis unfolding b using c filter_loop_each [of _ base ids 0] by (fastforce simp: base_def)
qed

theorem buildFilters_partition_witness:
  "length (buildFilters [''a'', ''b'', ''c'', ''d'', ''e'', ''f''] None None) = 2"
  using buildFilters_partition [of "[''a'', ''b'', ''c'', ''d'', ''e'', ''f'']" None None] by simp

text \<open>
  a request carries a cursor or a start ledger, never both; arguments with both or with
  neither are rejected before the network. The page size is capped, and a request by cursor
  carries no end ledger: the bound the caller gave is not sent.
\<close>

theorem build_request_modes:
  "(\<exists>e. build_request args = Inl e) = (truthy (ga_cursor args) = (ga_startLedger args \<noteq> None))
    \<and> build_request (args\<lparr>ga_cursor := Some (c # cs), ga_startLedger := None\<rparr>) =
        Inr (ByCursor (ga_filters args) (c # cs) (min (or_else (ga_limit args) 200) 10000))
    \<and> build_request (args\<lparr>ga_cursor := None, ga_startLedger := Some l\<rparr>) =
        Inr (ByLedger (ga_filters args) l (ga_endLedger args) (min (or_else (ga_limit args) 200) 10000))"
  by (auto simp: build_request_def truthy_def MAX_PAGE_SIZE_def Let_def)






section \<open>The provider pool\<close>






section \<open>Metrics\<close>

text \<open>
  however many contracts emit events, the ingest counter has at most 51 label values, and
  the counters of all labels add up to the number of events counted.
\<close>

theorem metrics_labels_bounded:
  "length (im_events (foldl (\<lambda>s (c, k). eventsIngested c k s) newMetrics counts)) \<le> 51
    \<and> sum_list (map snd (im_events (foldl (\<lambda>s (c, k). eventsIngested c k s) newMetrics counts))) = sum_list (map fst counts)"
  using labels_fold [OF labels_ok_new, of counts]
  by (auto simp: labels_ok_def MAX_CONTRACT_LABELS_def newMetrics_def split: if_splits)

text \<open>
  The request histogram stays cumulative: after any observations the bucket counts are
  non-decreasing in their bound and none exceeds the total count.
\<close>

theorem histogram_cumulative:
  "sorted (hg_buckets (foldl (\<lambda>h x. observe x h) empty_histogram xs))
    \<and> (\<forall>b \<in> set (hg_buckets (foldl (\<lambda>h x. observe x h) empty_histogram xs)).
          b \<le> hg_count (foldl (\<lambda>h x. observe x h) empty_histogram xs))
    \<and> hg_count (foldl (\<lambda>h x. observe x h) empty_histogram xs) = length xs"
proof -
  have ok: "histogram_ok (foldl (\<lambda>h x. observe x h) empty_histogram xs)"
    by (induction xs rule: rev_induct) (simp_all add: histogram_ok_empty histogram_ok_observe)
  moreover have "hg_count (foldl (\<lambda>h x. observe x h) empty_histogram xs) = length xs"
    by (induction xs rule: rev_induct) (simp_all add: observe_def empty_histogram_def)
  ultimately show ?thesis by (simp add: histogram_ok_def)
qed

theorem histogram_cumulative_witness:
  "hg_count (foldl (\<lambda>h x. observe x h) empty_histogram [1/2, 7]) = 2
    \<and> sorted (hg_buckets (foldl (\<lambda>h x. observe x h) empty_histogram [1/2, 7]))"
  using histogram_cumulative [of "[1/2, 7]"] by simp

section \<open>The archive\<close>

text \<open>
  What an archive read returns. While the limit is not reached it holds exactly the
  matching events of the range that lie in the checkpoints the loop reads; a wanted event is
  returned if and only if the end of its checkpoint is not past the end of the range, so the
  last ledgers of a range that does not end on a checkpoint are left out.
\<close>

theorem archive_events:
  assumes "0 < s" and "\<forall>c. fetch c = Inr (payload c)"
    and "\<forall>c. \<forall>e \<in> set (payload c). \<exists>l. re_ledger e = int l \<and> checkpointEnd l s = c"
    and "length (concat (map (\<lambda>k. filter (wanted start fin fs) (payload k)) (read_checkpoints s (checkpointEnd start s) fin))) < limit"
    and "archive_getEvents cmp s fetch \<lparr>aa_startLedger = start, aa_endLedger = Some fin, aa_filters = Some fs, aa_limit = Some limit\<rparr> = Inr batch"
    and "start \<le> l" and "re_ledger e = int l" and "e \<in> set (payload (checkpointEnd l s))"
  shows "e \<in> set (eb_events batch) \<longleftrightarrow> wanted start fin fs e \<and> checkpointEnd l s \<le> fin"
proof -
  let ?cs = "read_checkpoints s (checkpointEnd start s) fin"
  have "checkpoint_loop fetch (wanted start fin fs) limit s fin (checkpointEnd start s) [] =
      Inr ([] @ concat (map (\<lambda>k. filter (wanted start fin fs) (payload k)) ?cs))"
    using assms(2,4) by (intro checkpoint_loop_all) auto
  then have "set (eb_events batch) = (\<Union>k \<in> set ?cs. {x \<in> set (payload k). wanted start fin fs x})"
    using assms(5) by (auto simp: archive_getEvents_def archive_end_def Let_def)
  then have "e \<in> set (eb_events batch) \<longleftrightarrow> (\<exists>k \<in> set ?cs. e \<in> set (payload k)) \<and> wanted start fin fs e" by blast
  also have "(\<exists>k \<in> set ?cs. e \<in> set (payload k)) \<longleftrightarrow> checkpointEnd l s \<in> set ?cs"
    using assms(3,7,8) by (metis of_nat_eq_iff)
  finally show ?thesis unfolding mem_read_checkpoints [OF assms(1,6)] by blast
qed

definition demo_payload :: "nat \<Rightarrow> raw_event list" where
  "demo_payload c = (if c = 7 then [demo_event 5] else if c = 15 then [demo_event 9] else [])"

lemma demo_checkpoints: "read_checkpoints 8 (checkpointEnd 4 8) 12 = [7]"
  by (simp add: read_checkpoints_def checkpointEnd_def)

theorem archive_events_witness:
  "\<exists>batch. archive_getEvents (\<lambda>_ _. 0) 8 (\<lambda>c. Inr (demo_payload c))
      \<lparr>aa_startLedger = 4, aa_endLedger = Some 12, aa_filters = Some [], aa_limit = Some 9\<rparr> = Inr batch
    \<and> demo_event 5 \<in> set (eb_events batch) \<and> demo_event 9 \<notin> set (eb_events batch)"
proof -
  let ?a = "\<lparr>aa_startLedger = 4, aa_endLedger = Some 12, aa_filters = Some [], aa_limit = Some 9\<rparr>"
  have p: "\<forall>c. \<forall>e \<in> set (demo_payload c). \<exists>l. re_ledger e = int l \<and> checkpointEnd l 8 = c"
    by (auto simp: demo_payload_def demo_event_def checkpointEnd_def intro: exI [of _ 6] exI [of _ 10])
  have s: "length (concat (map (\<lambda>k. filter (wanted 4 12 []) (demo_payload k)) (read_checkpoints 8 (checkpointEnd 4 8) 12))) < 9"
    by (simp add: demo_checkpoints demo_payload_def)
  have "checkpoint_loop (\<lambda>c. Inr (demo_payload c)) (wanted 4 12 []) 9 8 12 (checkpointEnd 4 8) [] =
      Inr ([] @ concat (map (\<lambda>k. filter (wanted 4 12 []) (demo_payload k)) (read_checkpoints 8 (checkpointEnd 4 8) 12)))"
    using s by (intro checkpoint_loop_all) auto
  then obtain batch where b: "archive_getEvents (\<lambda>_ _. 0) 8 (\<lambda>c. Inr (demo_payload c)) ?a = Inr batch"
    by (auto simp: archive_getEvents_def archive_end_def Let_def)
  note t = archive_events [of 8 "\<lambda>c. Inr (demo_payload c)" demo_payload 4 12 "[]" 9 "\<lambda>_ _. 0" batch, OF _ _ p s b]
  have "demo_event 5 \<in> set (eb_events batch)" using t [of 6 "demo_event 5"]
    by (simp add: demo_payload_def demo_event_def checkpointEnd_def wanted_def event_matches_def)
  moreover have "demo_event 9 \<notin> set (eb_events batch)" using t [of 10 "demo_event 9"]
    by (simp add: demo_payload_def demo_event_def checkpointEnd_def wanted_def event_matches_def)
  ultimately show ?thesis using b by blast
qed

section \<open>Cursor files and the contracts file\<close>

text \<open>
  The cursor files behave as one cell per file name. After any sequence of saves and
  clears a load finds what the last operation on a key with the same file name left, and the
  initial content when there is none; keys whose names differ only in characters replaced by
  an underscore share a cell.
\<close>

theorem cursor_files_resume:
  "file_load (foldl (\<lambda>d oper. case oper of SaveOp k c \<Rightarrow> file_save pid now rand d k c | ClearOp k \<Rightarrow> file_clear d k) dir ops) k =
     (case filter (\<lambda>oper. cursor_file (op_key oper) = cursor_file k) (rev ops) of
        [] \<Rightarrow> file_load dir k
      | SaveOp _ c # _ \<Rightarrow> Inr (file_view c)
      | ClearOp _ # _ \<Rightarrow> Inr None)
   \<and> cursor_file ''a/b'' = cursor_file ''a_b''"
proof -
  have a: "(\<lambda>d oper. case oper of SaveOp k c \<Rightarrow> file_save pid now rand d k c | ClearOp k \<Rightarrow> file_clear d k) =
      filec.apply_op pid now rand"
    by (intro ext) (simp split: cursor_op.splits)
  show ?thesis
    using filec.resume [of pid now rand dir ops k]
    by (auto simp: a cursor_file_def safe_char_def is_upper_def is_lower_def is_digit_def ch_range_def
        split: list.splits cursor_op.splits)
qed

text \<open>
  the start-up clean-up of temporary files never removes a cursor file, and never removes a
  temporary file that \<open>save\<close> writes either: the name it looks for has the process id right
  before \<open>.tmp\<close>, the name written has a time and a random part there.
\<close>

theorem cleanup_keeps_cursors_and_temps:
  assumes "now \<noteq> []" and "list_all is_digit now" and "CHR ''.'' \<notin> set rand"
  shows "removeOrphanedTemps alive dir (temp_file (cursor_file key) pid now rand) = dir (temp_file (cursor_file key) pid now rand)
    \<and> removeOrphanedTemps alive dir (cursor_file key) = dir (cursor_file key)"
proof -
  have "\<not> ends_with ''.tmp'' (cursor_file key)"
  proof
    assume "ends_with ''.tmp'' (cursor_file key)"
    then obtain q where "map safe_char key @ ''.cursor.json'' = q @ ''.tmp''" by (auto simp: ends_with_iff cursor_file_def)
    then have "last (map safe_char key @ ''.cursor.json'') = last (q @ ''.tmp'')" by simp
    then show False by simp
  qed
  then have "orphan_pid (cursor_file key) = None" by (simp add: orphan_pid_def)
  then show ?thesis
    using temp_name_not_orphan [of now rand "cursor_file key" pid] assms
    by (simp add: removeOrphanedTemps_def list_all_iff)
qed

theorem cleanup_keeps_cursors_and_temps_witness:
  "removeOrphanedTemps (\<lambda>_. False) [temp_file (cursor_file ''k'') ''77'' ''123'' ''x9'' \<mapsto> None]
     (temp_file (cursor_file ''k'') ''77'' ''123'' ''x9'') = Some None
   \<and> removeOrphanedTemps (\<lambda>_. False) [''k.cursor.json.77.tmp'' \<mapsto> None] ''k.cursor.json.77.tmp'' = None"
proof -
  have "orphan_pid (''k.cursor.json'' @ [CHR ''.''] @ ''77'' @ ''.tmp'') = Some ''77''"
    by (subst orphan_pid_shape) (simp_all add: is_digit_def ch_range_def ends_with_def)
  then have "orphan_pid ''k.cursor.json.77.tmp'' = Some ''77''" by simp
  then show ?thesis
    using cleanup_keeps_cursors_and_temps [of "''123''" "''x9''" "\<lambda>_. False"
        "[temp_file (cursor_file ''k'') ''77'' ''123'' ''x9'' \<mapsto> None]" "''k''" "''77''"]
    by (simp add: is_digit_def ch_range_def removeOrphanedTemps_def)
qed

text \<open>
  the contracts file. It loads exactly when every line that is neither blank nor a comment
  is a valid contract id, and then yields those ids trimmed, without repeats, in order of first
  appearance; otherwise the error names the first bad line by its one-based number.
\<close>

theorem contracts_file:
  "(\<forall>ids. loadContractIdsFromFile v (Inr content) = Inr ids \<longleftrightarrow>
      (\<forall>l \<in> set (split_on (CHR 0x0A) content). significant l \<longrightarrow> isContractId v (js_trim l))
      \<and> ids = wanted_ids (split_on (CHR 0x0A) content))
   \<and> (\<forall>pre bad post. split_on (CHR 0x0A) content = pre @ bad # post \<longrightarrow> significant bad \<longrightarrow> \<not> isContractId v (js_trim bad) \<longrightarrow>
        (\<forall>l \<in> set pre. significant l \<longrightarrow> isContractId v (js_trim l)) \<longrightarrow>
        loadContractIdsFromFile v (Inr content) = Inl (ContractFileLine (length pre + 1) (js_trim bad)))"
  using load_lines_first_bad [of _ v _ 0] by (auto simp: loadContractIdsFromFile_def load_lines_cases)

theorem contracts_file_witness:
  "loadContractIdsFromFile (\<lambda>_. True) (Inr ''# only a comment'') = Inr []"
proof -
  have "split_on (CHR 0x0A) ''# only a comment'' = [''# only a comment'']" by simp
  moreover have "js_trim ''# only a comment'' = ''# only a comment''" by (simp add: js_trim_def is_ws_def)
  ultimately show ?thesis
    using contracts_file [of "\<lambda>_. True" "''# only a comment''"]
    by (simp add: significant_def starts_with_def wanted_ids_def js_set_def)
qed

end
