(* ===== verification/Store_Types.thy ===== *)
theory Store_Types
  imports Js_Values Rpc_Client
begin

text \<open>
  The data of the store package (\<open>packages/store/src/types.ts\<close>): decoded values, stored
  events, queries and pages; \<open>normaliseLimit\<close> of \<open>store.ts\<close>; and the text
  \<open>JSON.stringify\<close> writes, with the reader of an array of strings.
\<close>

section \<open>Types\<close>

record decoded_value =
  dv_type :: string
  dv_value :: json

record lens_event =
  le_id :: string
  le_contractId :: string
  le_type :: event_type
  le_ledger :: int
  le_ledgerClosedAt :: string
  le_txHash :: string
  le_transactionIndex :: int
  le_operationIndex :: int
  le_inSuccessfulContractCall :: bool
  le_topics :: "decoded_value list"
  le_topicsXdr :: "string list"
  le_value :: decoded_value
  le_valueXdr :: string
  le_decodeError :: "string option"
  le_indexedAt :: string

datatype direction = Forward | Backward

datatype sort_order = Asc | Desc

record event_query =
  q_contractId :: "string option"
  q_topics :: "string option list"
  q_fromLedger :: "int option"
  q_toLedger :: "int option"
  q_fromTime :: "int option"
  q_toTime :: "int option"
  q_txHash :: "string option"
  q_address :: "string option"
  q_search :: "string option"
  q_transactionIndex :: "int option"
  q_operationIndex :: "int option"
  q_successfulOnly :: bool
  q_limit :: "rat option"
  q_cursor :: "string option"
  q_direction :: "direction option"
  q_skipTotal :: bool
  q_order :: "sort_order option"

definition empty_query :: event_query where
  "empty_query = \<lparr>q_contractId = None, q_topics = [], q_fromLedger = None, q_toLedger = None, q_fromTime = None,
     q_toTime = None, q_txHash = None, q_address = None, q_search = None, q_transactionIndex = None,
     q_operationIndex = None, q_successfulOnly = False, q_limit = None, q_cursor = None, q_direction = None,
     q_skipTotal = False, q_order = None\<rparr>"

record event_page =
  pg_events :: "lens_event list"
  pg_nextCursor :: "string option"
  pg_prevCursor :: "string option"
  pg_total :: nat
  pg_totalIsEstimate :: bool

definition DEFAULT_QUERY_LIMIT :: nat where
  "DEFAULT_QUERY_LIMIT = 50"

definition MAX_QUERY_LIMIT :: nat where
  "MAX_QUERY_LIMIT = 1000"

text \<open>The limit is None when it is undefined or not finite.\<close>

definition normaliseLimit :: "rat option \<Rightarrow> nat" where
  "normaliseLimit limit = (case limit of None \<Rightarrow> DEFAULT_QUERY_LIMIT
     | Some l \<Rightarrow> nat (min (max (js_trunc l) 1) (int MAX_QUERY_LIMIT)))"

text \<open>A number that is not finite counts as no limit.\<close>

definition normaliseNumber :: "js_num \<Rightarrow> nat" where
  "normaliseNumber n = (case n of JsNum r \<Rightarrow> normaliseLimit (Some r) | _ \<Rightarrow> DEFAULT_QUERY_LIMIT)"

lemma normaliseLimit_bounds: "1 \<le> normaliseLimit l" "normaliseLimit l \<le> 1000"
  by (auto simp: normaliseLimit_def DEFAULT_QUERY_LIMIT_def MAX_QUERY_LIMIT_def split: option.splits)

section \<open>JSON text\<close>

text \<open>\<open>fracs\<close> prints the numbers that are not integers.\<close>

definition num_text :: "(rat \<Rightarrow> string) \<Rightarrow> rat \<Rightarrow> string" where
  "num_text fracs r = (if rat_is_int r then show_int \<lfloor>r\<rfloor> else fracs r)"

definition hex_digit :: "nat \<Rightarrow> char" where
  "hex_digit n = digit_char n"

definition json_escape :: "char \<Rightarrow> string" where
  "json_escape c =
     (if c = CHR 0x22 then [CHR 0x5C, CHR 0x22]
      else if c = CHR 0x5C then [CHR 0x5C, CHR 0x5C]
      else if c = CHR 0x08 then [CHR 0x5C, CHR ''b'']
      else if c = CHR 0x09 then [CHR 0x5C, CHR ''t'']
      else if c = CHR 0x0A then [CHR 0x5C, CHR ''n'']
      else if c = CHR 0x0C then [CHR 0x5C, CHR ''f'']
      else if c = CHR 0x0D then [CHR 0x5C, CHR ''r'']
      else if of_char c < (32::nat)
      then [CHR 0x5C, CHR ''u'', CHR ''0'', CHR ''0'', hex_digit (of_char c div 16), hex_digit (of_char c mod 16)]
      else [c])"

definition json_string :: "string \<Rightarrow> string" where
  "json_string s = [CHR 0x22] @ concat (map json_escape s) @ [CHR 0x22]"

fun json_text :: "(rat \<Rightarrow> string) \<Rightarrow> json \<Rightarrow> string" where
  "json_text fracs JNull = ''null''"
| "json_text fracs (JBool b) = (if b then ''true'' else ''false'')"
| "json_text fracs (JNum r) = num_text fracs r"
| "json_text fracs (JStr s) = json_string s"
| "json_text fracs (JArr js) = ''['' @ js_join '','' (map (json_text fracs) js) @ '']''"
| "json_text fracs (JObj kvs) = ''{'' @ js_join '','' (map (\<lambda>(k, v). json_string k @ '':'' @ json_text fracs v) kvs) @ ''}''"

definition strings_text :: "string list \<Rightarrow> string" where
  "strings_text ss = ''['' @ js_join '','' (map json_string ss) @ '']''"

text \<open>The reader: the contents of a string literal up to its closing quote, and the rest.\<close>

definition unescape :: "char \<Rightarrow> char option" where
  "unescape c =
     (if c = CHR 0x22 \<or> c = CHR 0x5C \<or> c = CHR ''/'' then Some c
      else if c = CHR ''b'' then Some (CHR 0x08) else if c = CHR ''t'' then Some (CHR 0x09)
      else if c = CHR ''n'' then Some (CHR 0x0A) else if c = CHR ''f'' then Some (CHR 0x0C)
      else if c = CHR ''r'' then Some (CHR 0x0D) else None)"

definition push_char :: "char \<Rightarrow> (string \<times> string) option \<Rightarrow> (string \<times> string) option" where
  "push_char c r = map_option (\<lambda>(s, rest). (c # s, rest)) r"

definition hex4 :: "string \<Rightarrow> char option" where
  "hex4 s = (if length s = 4 \<and> list_all is_hex s \<and> read_base 16 s < 256 then Some (char_of (read_base 16 s)) else None)"

function read_string :: "string \<Rightarrow> (string \<times> string) option" where
  "read_string s =
     (case s of [] \<Rightarrow> None
      | c # cs \<Rightarrow>
         if c = CHR 0x22 then Some ([], cs)
         else if of_char c < (32::nat) then None
         else if c \<noteq> CHR 0x5C then push_char c (read_string cs)
         else (case cs of [] \<Rightarrow> None
           | e # es \<Rightarrow>
              if e = CHR ''u'' then (case hex4 (take 4 es) of None \<Rightarrow> None | Some u \<Rightarrow> push_char u (read_string (drop 4 es)))
              else (case unescape e of None \<Rightarrow> None | Some u \<Rightarrow> push_char u (read_string es))))"
  by pat_completeness auto
termination
  by (relation "measure length") auto

declare read_string.simps [simp del]

lemma read_string_close: "read_string (CHR 0x22 # rest) = Some ([], rest)"
  by (subst read_string.simps) simp

lemma read_string_plain:
  "c \<noteq> CHR 0x22 \<Longrightarrow> c \<noteq> CHR 0x5C \<Longrightarrow> \<not> of_char c < (32::nat) \<Longrightarrow> read_string (c # cs) = push_char c (read_string cs)"
  by (subst read_string.simps) simp

lemma read_string_esc:
  "unescape e = Some u \<Longrightarrow> e \<noteq> CHR ''u'' \<Longrightarrow> read_string (CHR 0x5C # e # es) = push_char u (read_string es)"
  by (subst read_string.simps) simp

lemma read_string_u:
  "hex4 [a, b, c, d] = Some u \<Longrightarrow> read_string (CHR 0x5C # CHR ''u'' # a # b # c # d # es) = push_char u (read_string es)"
  by (subst read_string.simps) simp

lemma hex_digit_hex: "n < 16 \<Longrightarrow> is_hex (hex_digit n)"
  by (auto simp: hex_digit_def digit_char_def is_hex_def is_digit_def ch_range_def)

lemma hex4_escape:
  assumes "(of_char c :: nat) < 32"
  shows "hex4 [CHR ''0'', CHR ''0'', hex_digit (of_char c div 16), hex_digit (of_char c mod 16)] = Some c"
proof -
  let ?n = "of_char c :: nat"
  have h: "is_hex (hex_digit (?n div 16))" "is_hex (hex_digit (?n mod 16))"
    using assms by (simp_all add: hex_digit_hex)
  have z: "is_hex (CHR ''0'')" by (simp add: is_hex_def is_digit_def ch_range_def)
  have d: "digit_val (hex_digit (?n div 16)) = ?n div 16" "digit_val (hex_digit (?n mod 16)) = ?n mod 16"
      "digit_val (CHR ''0'') = 0"
    using assms by (simp_all add: hex_digit_def digit_val_digit_char)
      (simp add: digit_val_def is_digit_def ch_range_def)
  have "read_base 16 [CHR ''0'', CHR ''0'', hex_digit (?n div 16), hex_digit (?n mod 16)] = ?n div 16 * 16 + ?n mod 16"
    by (simp add: read_base_def d)
  then have "read_base 16 [CHR ''0'', CHR ''0'', hex_digit (?n div 16), hex_digit (?n mod 16)] = ?n" by simp
  with h z assms show ?thesis by (simp add: hex4_def)
qed

lemma read_string_escape: "read_string (json_escape c @ rest) = push_char c (read_string rest)"
  by (auto simp: json_escape_def read_string_plain read_string_esc unescape_def read_string_u hex4_escape)

lemma read_string_json: "read_string (concat (map json_escape s) @ CHR 0x22 # rest) = Some (s, rest)"
  by (induction s) (auto simp: read_string_close read_string_escape push_char_def)

text \<open>An array of string literals without white space, as \<open>JSON.stringify\<close> writes it.\<close>

fun read_items :: "nat \<Rightarrow> string \<Rightarrow> string list option" where
  "read_items 0 s = None"
| "read_items (Suc n) s =
     (case s of [] \<Rightarrow> None
      | q # r \<Rightarrow> if q \<noteq> CHR 0x22 then None
          else (case read_string r of None \<Rightarrow> None
            | Some (v, rest) \<Rightarrow>
               (case rest of [] \<Rightarrow> None
                | c # left \<Rightarrow> if c = CHR '','' then map_option ((#) v) (read_items n left)
                    else if c = CHR '']'' \<and> left = [] then Some [v] else None)))"

definition parse_strings :: "string \<Rightarrow> string list option" where
  "parse_strings s = (if s = ''[]'' then Some []
     else case s of [] \<Rightarrow> None | c # r \<Rightarrow> if c = CHR ''['' then read_items (length r) r else None)"

lemma read_items_text:
  "ss \<noteq> [] \<Longrightarrow> length ss \<le> n \<Longrightarrow> read_items n (js_join '','' (map json_string ss) @ '']'') = Some ss"
proof (induction ss arbitrary: n)
  case (Cons s ss)
  then obtain m where n: "n = Suc m" by (cases n) auto
  show ?case
  proof (cases ss)
    case Nil
    then show ?thesis by (simp add: n json_string_def read_string_json)
  next
    case (Cons t ts)
    then show ?thesis using Cons.IH [of m] Cons.prems
      by (simp add: n json_string_def [of s] read_string_json)
  qed
qed simp

lemma length_join_ge: "length ss \<le> length (js_join '','' (map json_string ss) @ '']'')"
proof (induction ss)
  case (Cons s ss)
  then show ?case by (cases ss) (auto simp: json_string_def)
qed simp

lemma parse_strings_text: "parse_strings (strings_text ss) = Some ss"
proof (cases "ss = []")
  case False
  have "strings_text ss \<noteq> ''[]''"
    using False by (cases ss rule: list.exhaust; cases "tl ss") (auto simp: strings_text_def json_string_def)
  then show ?thesis
    using False read_items_text [of ss "length (js_join '','' (map json_string ss) @ '']'')"] length_join_ge [of ss]
    by (simp add: parse_strings_def strings_text_def)
qed (simp add: strings_text_def parse_strings_def)

end
