(* ===== verification/Decode.thy ===== *)
theory Decode
  imports Store_Types
begin

text \<open>
  Decoding (\<open>packages/store/src/decode.ts\<close>) and the raw-XDR columns
  (\<open>xdr-compression.ts\<close>). \<open>@stellar/stellar-sdk\<close>, zlib, the FTS5 matcher and \<open>Date\<close> are
  parameters, gathered in the record \<open>codec\<close>. An \<open>ScVal\<close> is what the code reads of it: its
  class name, the address text of an address, the children of a vector or a map (None where
  the SDK's value is null).
\<close>

section \<open>What the SDK returns\<close>

datatype native =
    NNull | NUndefined
  | NBigInt int
  | NStr string
  | NBool bool
  | NNum rat
  | NNonFinite string
  | NSymbol "string option"
  | NFunction
  | NBytes "nat list"
  | NArr "native list"
  | NMap "(native \<times> native) list"
  | NObj "(string \<times> native) list"

datatype scval =
    ScAddress string
  | ScVec "scval list option"
  | ScMap "scentry list option"
  | ScOther string
and scentry = ScEntry scval scval

definition scval_class :: "scval \<Rightarrow> string" where
  "scval_class v = (case v of ScAddress _ \<Rightarrow> ''ScValAddress'' | ScVec _ \<Rightarrow> ''ScValVec'' | ScMap _ \<Rightarrow> ''ScValMap''
     | ScOther c \<Rightarrow> c)"

record codec =
  cd_from_xdr :: "string \<Rightarrow> (string, scval) result"
  cd_native :: "string \<Rightarrow> (string, native) result"
  cd_key_text :: "native \<Rightarrow> string"
  cd_fracs :: "rat \<Rightarrow> string"
  cd_gzip :: "string \<Rightarrow> nat list"
  cd_gunzip :: "nat list \<Rightarrow> string option"
  cd_date_ms :: "string \<Rightarrow> int option"
  cd_fts_match :: "string \<Rightarrow> string \<Rightarrow> string \<Rightarrow> bool"

section \<open>Decoding\<close>

definition scValTypeName :: "string \<Rightarrow> string" where
  "scValTypeName name =
     (if \<not> starts_with ''ScVal'' name then ''unknown''
      else case drop 5 name of [] \<Rightarrow> ''unknown'' | c # r \<Rightarrow> to_lower c # r)"

definition hex_byte :: "nat \<Rightarrow> string" where
  "hex_byte b = pad_start 2 (CHR ''0'') (show_base 16 b)"

text \<open>
  Objects are association lists in insertion order; a repeated key overwrites. \<open>key_text\<close> is
  \<open>String(k)\<close> for the keys of a \<open>Map\<close> that are neither strings nor big integers.
\<close>

definition map_key :: "(native \<Rightarrow> string) \<Rightarrow> native \<Rightarrow> string" where
  "map_key key_text k = (case k of NBigInt i \<Rightarrow> show_int i | NStr s \<Rightarrow> s | _ \<Rightarrow> key_text k)"

definition object_of :: "(string \<times> json) list \<Rightarrow> (string \<times> json) list" where
  "object_of kvs = foldl (\<lambda>m (k, v). map_set k v m) [] kvs"

fun toJsonSafe :: "(native \<Rightarrow> string) \<Rightarrow> native \<Rightarrow> json" where
  "toJsonSafe kt NNull = JNull"
| "toJsonSafe kt NUndefined = JNull"
| "toJsonSafe kt (NBigInt i) = JStr (show_int i)"
| "toJsonSafe kt (NStr s) = JStr s"
| "toJsonSafe kt (NBool b) = JBool b"
| "toJsonSafe kt (NNum r) = JNum r"
| "toJsonSafe kt (NNonFinite s) = JStr s"
| "toJsonSafe kt (NSymbol d) = JStr (or_else d ''symbol'')"
| "toJsonSafe kt NFunction = JNull"
| "toJsonSafe kt (NBytes bs) = JStr (concat (map hex_byte bs))"
| "toJsonSafe kt (NArr xs) = JArr (map (toJsonSafe kt) xs)"
| "toJsonSafe kt (NMap kvs) = JObj (object_of (map (\<lambda>(k, v). (map_key kt k, toJsonSafe kt v)) kvs))"
| "toJsonSafe kt (NObj kvs) = JObj (object_of (map (\<lambda>(k, v). (k, toJsonSafe kt v)) kvs))"

text \<open>\<open>cd_native\<close> is \<open>scValToNative\<close> after \<open>fromXDR\<close>, on the text of a value that parses.\<close>

definition decodeScVal :: "codec \<Rightarrow> string \<Rightarrow> (string, decoded_value) result" where
  "decodeScVal cd base64 = res_bind (cd_from_xdr cd base64) (\<lambda>scv.
     res_bind (cd_native cd base64) (\<lambda>n.
       Inr \<lparr>dv_type = scValTypeName (scval_class scv), dv_value = toJsonSafe (cd_key_text cd) n\<rparr>))"

definition undecodable :: "string \<Rightarrow> decoded_value" where
  "undecodable t = \<lparr>dv_type = ''undecodable'', dv_value = JStr t\<rparr>"

fun decode_topics :: "codec \<Rightarrow> nat \<Rightarrow> string list \<Rightarrow> decoded_value list \<times> string list" where
  "decode_topics cd i [] = ([], [])"
| "decode_topics cd i (t # ts) =
     (let (ds, errs) = decode_topics cd (Suc i) ts in
      case decodeScVal cd t of
        Inr d \<Rightarrow> (d # ds, errs)
      | Inl e \<Rightarrow> (undecodable t # ds, (''topic['' @ show_nat i @ '']: '' @ e) # errs))"

definition decodeEvent :: "codec \<Rightarrow> raw_event \<Rightarrow> string \<Rightarrow> lens_event" where
  "decodeEvent cd raw now =
     (let (topics, terrs) = decode_topics cd 0 (re_topic raw);
          (v, verrs) = (case decodeScVal cd (re_value raw) of
             Inr d \<Rightarrow> (d, []) | Inl e \<Rightarrow> (undecodable (re_value raw), [''value: '' @ e]));
          errors = terrs @ verrs
      in \<lparr>le_id = re_id raw, le_contractId = re_contractId raw, le_type = re_type raw, le_ledger = re_ledger raw,
          le_ledgerClosedAt = re_ledgerClosedAt raw, le_txHash = re_txHash raw,
          le_transactionIndex = re_transactionIndex raw, le_operationIndex = re_operationIndex raw,
          le_inSuccessfulContractCall = re_inSuccessfulContractCall raw,
          le_topics = topics, le_topicsXdr = re_topic raw, le_value = v, le_valueXdr = re_value raw,
          le_decodeError = (if length errors > 0 then Some (js_join ''; '' errors) else None),
          le_indexedAt = now\<rparr>)"

definition decoded_json :: "decoded_value \<Rightarrow> json" where
  "decoded_json d = JObj [(''type'', JStr (dv_type d)), (''value'', dv_value d)]"

definition decoded_of_json :: "json \<Rightarrow> decoded_value option" where
  "decoded_of_json j = (case json_get j ''type'' of
     Some (JStr t) \<Rightarrow> (case json_get j ''value'' of Some v \<Rightarrow> Some \<lparr>dv_type = t, dv_value = v\<rparr> | None \<Rightarrow> None)
   | _ \<Rightarrow> None)"

lemma decoded_of_json_json [simp]: "decoded_of_json (decoded_json d) = Some d"
  by (simp add: decoded_of_json_def decoded_json_def)

text \<open>The argument is a decoded topic as it stands in JSON, None for one past the end.\<close>

definition topicKey :: "(rat \<Rightarrow> string) \<Rightarrow> json option \<Rightarrow> string option" where
  "topicKey fracs topic = (case topic of None \<Rightarrow> None
     | Some t \<Rightarrow> (case json_get t ''value'' of
          Some (JStr s) \<Rightarrow> Some s
        | Some (JNum r) \<Rightarrow> Some (num_text fracs r)
        | Some (JBool b) \<Rightarrow> Some (if b then ''true'' else ''false'')
        | _ \<Rightarrow> None))"

definition nth_opt :: "'a list \<Rightarrow> nat \<Rightarrow> 'a option" where
  "nth_opt xs i = (if i < length xs then Some (xs ! i) else None)"

section \<open>Addresses\<close>

text \<open>\<open>walk\<close> returns the set found and whether it ran to its end: iterating \<open>null\<close> throws.\<close>

definition set_add :: "'a \<Rightarrow> 'a list \<Rightarrow> 'a list" where
  "set_add x xs = (if x \<in> set xs then xs else xs @ [x])"

fun walkForAddresses :: "scval \<Rightarrow> string list \<Rightarrow> string list \<times> bool"
  and walk_list :: "scval list \<Rightarrow> string list \<Rightarrow> string list \<times> bool"
  and walk_entries :: "scentry list \<Rightarrow> string list \<Rightarrow> string list \<times> bool"
where
  "walkForAddresses (ScAddress a) out = (set_add a out, True)"
| "walkForAddresses (ScVec None) out = (out, False)"
| "walkForAddresses (ScVec (Some vs)) out = walk_list vs out"
| "walkForAddresses (ScMap None) out = (out, False)"
| "walkForAddresses (ScMap (Some es)) out = walk_entries es out"
| "walkForAddresses (ScOther c) out = (out, True)"
| "walk_list [] out = (out, True)"
| "walk_list (v # vs) out = (let (out, ok) = walkForAddresses v out in if ok then walk_list vs out else (out, False))"
| "walk_entries [] out = (out, True)"
| "walk_entries (ScEntry k v # es) out =
     (let (out, ok) = walkForAddresses k out in
      if \<not> ok then (out, False)
      else let (out, ok) = walkForAddresses v out in if ok then walk_entries es out else (out, False))"

definition extractAddresses :: "codec \<Rightarrow> string \<Rightarrow> string list" where
  "extractAddresses cd base64 =
     (case cd_from_xdr cd base64 of Inl _ \<Rightarrow> [] | Inr scv \<Rightarrow> fst (walkForAddresses scv []))"

text \<open>Every address of the tree.\<close>

fun addresses :: "scval \<Rightarrow> string set" and entry_addresses :: "scentry \<Rightarrow> string set" where
  "addresses (ScAddress a) = {a}"
| "addresses (ScVec vs) = (case vs of None \<Rightarrow> {} | Some vs \<Rightarrow> \<Union> (set (map addresses vs)))"
| "addresses (ScMap es) = (case es of None \<Rightarrow> {} | Some es \<Rightarrow> \<Union> (set (map entry_addresses es)))"
| "addresses (ScOther c) = {}"
| "entry_addresses (ScEntry k v) = addresses k \<union> addresses v"

fun no_nulls :: "scval \<Rightarrow> bool" and entry_no_nulls :: "scentry \<Rightarrow> bool" where
  "no_nulls (ScVec vs) = (case vs of None \<Rightarrow> False | Some vs \<Rightarrow> list_all no_nulls vs)"
| "no_nulls (ScMap es) = (case es of None \<Rightarrow> False | Some es \<Rightarrow> list_all entry_no_nulls es)"
| "no_nulls (ScAddress a) = True"
| "no_nulls (ScOther c) = True"
| "entry_no_nulls (ScEntry k v) = (no_nulls k \<and> no_nulls v)"

lemma set_add_props: "set (set_add x xs) = insert x (set xs)" "distinct xs \<Longrightarrow> distinct (set_add x xs)"
  by (auto simp: set_add_def)

lemma walk_complete:
  "no_nulls v \<Longrightarrow> snd (walkForAddresses v out) \<and> set (fst (walkForAddresses v out)) = set out \<union> addresses v
      \<and> (distinct out \<longrightarrow> distinct (fst (walkForAddresses v out)))"
  "list_all no_nulls vs \<Longrightarrow> snd (walk_list vs out) \<and> set (fst (walk_list vs out)) = set out \<union> \<Union> (set (map addresses vs))
      \<and> (distinct out \<longrightarrow> distinct (fst (walk_list vs out)))"
  "list_all entry_no_nulls es \<Longrightarrow> snd (walk_entries es out)
      \<and> set (fst (walk_entries es out)) = set out \<union> \<Union> (set (map entry_addresses es))
      \<and> (distinct out \<longrightarrow> distinct (fst (walk_entries es out)))"
proof (induction v out and vs out and es out rule: walkForAddresses_walk_list_walk_entries.induct)
  case (10 k v es out)
  obtain o1 b1 where w1: "walkForAddresses k out = (o1, b1)" by fastforce
  then have b1: "b1" using 10 by auto
  obtain o2 b2 where w2: "walkForAddresses v o1 = (o2, b2)" by fastforce
  then have b2: "b2" using 10 w1 b1 by auto
  show ?case using 10 w1 w2 b1 b2 by (auto simp: Un_assoc)
qed (auto simp: set_add_props split: prod.splits)

section \<open>Raw-XDR columns\<close>

datatype xdr_column = TextColumn string | BlobColumn "nat list"

definition compressXdrColumn :: "codec \<Rightarrow> string \<Rightarrow> nat list" where
  "compressXdrColumn cd text = cd_gzip cd text"

text \<open>\<open>Buffer.byteLength\<close> of a string of code units below 256 in UTF-8.\<close>

definition byteLength :: "string \<Rightarrow> nat" where
  "byteLength s = sum_list (map (\<lambda>c. if of_char c < (128::nat) then 1 else 2) s)"

definition encodeXdrColumn :: "codec \<Rightarrow> string \<Rightarrow> xdr_column" where
  "encodeXdrColumn cd text =
     (let compressed = compressXdrColumn cd text
      in if length compressed < byteLength text then BlobColumn compressed else TextColumn text)"

definition decompressXdrColumn :: "codec \<Rightarrow> xdr_column \<Rightarrow> string option" where
  "decompressXdrColumn cd v = (case v of TextColumn s \<Rightarrow> Some s | BlobColumn b \<Rightarrow> cd_gunzip cd b)"

text \<open>What the columns rely on: \<open>gunzipSync\<close> inverts \<open>gzipSync\<close>.\<close>

definition codec_ok :: "codec \<Rightarrow> bool" where
  "codec_ok cd = (\<forall>s. cd_gunzip cd (cd_gzip cd s) = Some s)"

lemma decompress_encode: "codec_ok cd \<Longrightarrow> decompressXdrColumn cd (encodeXdrColumn cd s) = Some s"
  by (simp add: codec_ok_def decompressXdrColumn_def encodeXdrColumn_def compressXdrColumn_def Let_def)

text \<open>The lengths the codec promises, and what a raw event keeps of itself through decoding.\<close>

lemma decode_topics_length: "length (fst (decode_topics cd i ts)) = length ts"
  by (induction ts arbitrary: i) (auto simp: case_prod_beta Let_def split: sum.splits)

lemma decode_topics_errors: "snd (decode_topics cd i ts) = [] \<longleftrightarrow> (\<forall>t \<in> set ts. is_ok (decodeScVal cd t))"
  by (induction ts arbitrary: i) (auto simp: case_prod_beta Let_def split: sum.splits)

lemma decode_topics_nth:
  "k < length ts \<Longrightarrow> fst (decode_topics cd i ts) ! k =
     (case decodeScVal cd (ts ! k) of Inr d \<Rightarrow> d | Inl _ \<Rightarrow> undecodable (ts ! k))"
proof (induction ts arbitrary: i k)
  case (Cons t ts)
  then show ?case by (cases k) (auto simp: case_prod_beta Let_def split: sum.splits)
qed simp

lemma decodeEvent_fields:
  "le_id (decodeEvent cd raw now) = re_id raw" "le_type (decodeEvent cd raw now) = re_type raw"
  "le_ledger (decodeEvent cd raw now) = re_ledger raw" "le_contractId (decodeEvent cd raw now) = re_contractId raw"
  "le_topicsXdr (decodeEvent cd raw now) = re_topic raw" "le_valueXdr (decodeEvent cd raw now) = re_value raw"
  "le_indexedAt (decodeEvent cd raw now) = now" "le_txHash (decodeEvent cd raw now) = re_txHash raw"
  "le_ledgerClosedAt (decodeEvent cd raw now) = re_ledgerClosedAt raw"
  "le_transactionIndex (decodeEvent cd raw now) = re_transactionIndex raw"
  "le_operationIndex (decodeEvent cd raw now) = re_operationIndex raw"
  "le_inSuccessfulContractCall (decodeEvent cd raw now) = re_inSuccessfulContractCall raw"
  "le_topics (decodeEvent cd raw now) = fst (decode_topics cd 0 (re_topic raw))"
  by (simp_all add: decodeEvent_def Let_def split: prod.splits)

lemma js_join_not_Nil: "xs \<noteq> [] \<Longrightarrow> \<forall>x \<in> set xs. x \<noteq> [] \<Longrightarrow> js_join sep xs \<noteq> []"
  by (induction sep xs rule: js_join.induct) auto

lemma decodeEvent_error:
  "le_decodeError (decodeEvent cd raw now) = None \<longleftrightarrow>
     (\<forall>t \<in> set (re_topic raw). is_ok (decodeScVal cd t)) \<and> is_ok (decodeScVal cd (re_value raw))"
  by (auto simp: decodeEvent_def Let_def simp flip: decode_topics_errors [of cd 0] split: prod.splits sum.splits)

end
