(* ===== verification/Sqlite_Store.thy ===== *)
theory Sqlite_Store
  imports Decode Cursor
begin

text \<open>
  The SQLite store (\<open>packages/store/src/sqlite-store.ts\<close>): rows, the database with the
  tables, triggers and the cascade of \<open>schema.ts\<close>, and the writes of new events. SQL
  statements are modelled by what they do to the tables: \<open>events\<close> in rowid order, the side
  tables as lists. A JSON column is the value its text denotes, None for text that is not JSON.
  A statement may throw: \<open>io\<close> says for which event and with what message.
\<close>

section \<open>Rows\<close>

record event_row =
  er_id :: string
  er_contract_id :: string
  er_type :: event_type
  er_ledger :: int
  er_ledger_closed_at :: string
  er_closed_at_unix :: int
  er_tx_hash :: string
  er_transaction_index :: int
  er_operation_index :: int
  er_in_successful_call :: int
  er_topics_json :: "json option"
  er_topics_xdr_json :: xdr_column
  er_topic_count :: int
  er_topic0 :: "string option"
  er_topic1 :: "string option"
  er_topic2 :: "string option"
  er_topic3 :: "string option"
  er_value_type :: string
  er_value_json :: "json option"
  er_value_xdr :: xdr_column
  er_decode_error :: "string option"
  er_indexed_at :: string

definition closed_at_unix :: "codec \<Rightarrow> string \<Rightarrow> int" where
  "closed_at_unix cd date = (case cd_date_ms cd date of Some ms \<Rightarrow> ms div 1000 | None \<Rightarrow> 0)"

definition topics_json_of :: "decoded_value list \<Rightarrow> json" where
  "topics_json_of ds = JArr (map decoded_json ds)"

definition nth_topic_key :: "codec \<Rightarrow> json list \<Rightarrow> nat \<Rightarrow> string option" where
  "nth_topic_key cd js i = topicKey (cd_fracs cd) (nth_opt js i)"

definition insertParams :: "codec \<Rightarrow> lens_event \<Rightarrow> event_row" where
  "insertParams cd e =
     \<lparr>er_id = le_id e, er_contract_id = le_contractId e, er_type = le_type e, er_ledger = le_ledger e,
      er_ledger_closed_at = le_ledgerClosedAt e, er_closed_at_unix = closed_at_unix cd (le_ledgerClosedAt e),
      er_tx_hash = le_txHash e, er_transaction_index = le_transactionIndex e,
      er_operation_index = le_operationIndex e,
      er_in_successful_call = (if le_inSuccessfulContractCall e then 1 else 0),
      er_topics_json = Some (topics_json_of (le_topics e)),
      er_topics_xdr_json = encodeXdrColumn cd (strings_text (le_topicsXdr e)),
      er_topic_count = int (length (le_topics e)),
      er_topic0 = nth_topic_key cd (map decoded_json (le_topics e)) 0,
      er_topic1 = nth_topic_key cd (map decoded_json (le_topics e)) 1,
      er_topic2 = nth_topic_key cd (map decoded_json (le_topics e)) 2,
      er_topic3 = nth_topic_key cd (map decoded_json (le_topics e)) 3,
      er_value_type = dv_type (le_value e), er_value_json = Some (decoded_json (le_value e)),
      er_value_xdr = encodeXdrColumn cd (le_valueXdr e), er_decode_error = le_decodeError e,
      er_indexed_at = le_indexedAt e\<rparr>"

fun option_list :: "'a option list \<Rightarrow> 'a list option" where
  "option_list [] = Some []"
| "option_list (None # xs) = None"
| "option_list (Some x # xs) = map_option ((#) x) (option_list xs)"

lemma option_list_map_Some [simp]: "option_list (map (Some \<circ> f) xs) = Some (map f xs)"
  by (induction xs) auto

lemma option_list_Some [simp]: "option_list (map Some xs) = Some xs"
  by (induction xs) auto

text \<open>None where \<open>rowToEvent\<close> throws (or reads a column that is not of the stored shape).\<close>

definition topics_of_json :: "json option \<Rightarrow> decoded_value list option" where
  "topics_of_json j = (case j of Some (JArr js) \<Rightarrow> option_list (map decoded_of_json js) | _ \<Rightarrow> None)"

definition topics_xdr_of :: "codec \<Rightarrow> xdr_column \<Rightarrow> string list option" where
  "topics_xdr_of cd col = (case decompressXdrColumn cd col of None \<Rightarrow> None | Some t \<Rightarrow> parse_strings t)"

definition rowToEvent :: "codec \<Rightarrow> event_row \<Rightarrow> lens_event option" where
  "rowToEvent cd r =
     (case topics_of_json (er_topics_json r) of None \<Rightarrow> None | Some topics \<Rightarrow>
      (case topics_xdr_of cd (er_topics_xdr_json r) of None \<Rightarrow> None | Some txdr \<Rightarrow>
       (case er_value_json r of None \<Rightarrow> None | Some vj \<Rightarrow>
        (case decoded_of_json vj of None \<Rightarrow> None | Some v \<Rightarrow>
         (case decompressXdrColumn cd (er_value_xdr r) of None \<Rightarrow> None | Some vx \<Rightarrow>
           Some \<lparr>le_id = er_id r, le_contractId = er_contract_id r, le_type = er_type r, le_ledger = er_ledger r,
             le_ledgerClosedAt = er_ledger_closed_at r, le_txHash = er_tx_hash r,
             le_transactionIndex = er_transaction_index r, le_operationIndex = er_operation_index r,
             le_inSuccessfulContractCall = (er_in_successful_call r = 1), le_topics = topics,
             le_topicsXdr = txdr, le_value = v, le_valueXdr = vx, le_decodeError = er_decode_error r,
             le_indexedAt = er_indexed_at r\<rparr>)))))"

lemma insertParams_id [simp]: "er_id (insertParams cd e) = le_id e"
  "er_ledger (insertParams cd e) = le_ledger e" "er_type (insertParams cd e) = le_type e"
  by (simp_all add: insertParams_def)

lemma rowToEvent_insertParams:
  assumes "codec_ok cd"
  shows "rowToEvent cd (insertParams cd e) = Some e"
proof -
  have t: "topics_of_json (Some (topics_json_of ds)) = Some ds" for ds
    by (simp add: topics_of_json_def topics_json_of_def o_def)
  have x: "topics_xdr_of cd (encodeXdrColumn cd (strings_text ss)) = Some ss" for ss
    by (simp add: topics_xdr_of_def decompress_encode [OF assms] parse_strings_text)
  show ?thesis
    by (cases e) (simp add: rowToEvent_def insertParams_def t x decompress_encode [OF assms])
qed

section \<open>The database\<close>

record spec_row =
  sr_contract_id :: string
  sr_source :: string
  sr_wasm_hash :: "string option"
  sr_entries_xdr :: "string list"
  sr_event_count :: int
  sr_error :: "string option"
  sr_fetched_at :: string

record database =
  db_events :: "event_row list"
  db_addresses :: "(string \<times> string \<times> string) list"
  db_hasFts :: bool
  db_fts :: "(string \<times> string \<times> string) list"
  db_streams :: "stream_state list"
  db_specs :: "spec_row list"
  db_version :: nat

definition db_ids :: "database \<Rightarrow> string list" where
  "db_ids db = map er_id (db_events db)"

text \<open>The text the search index holds of a row: the two JSON columns.\<close>

definition column_text :: "codec \<Rightarrow> json option \<Rightarrow> string" where
  "column_text cd j = (case j of None \<Rightarrow> [] | Some v \<Rightarrow> json_text (cd_fracs cd) v)"

definition fts_row :: "codec \<Rightarrow> event_row \<Rightarrow> string \<times> string \<times> string" where
  "fts_row cd r = (er_id r, column_text cd (er_topics_json r), column_text cd (er_value_json r))"

text \<open>The statements, with the triggers and the cascade they fire.\<close>

definition sql_insert_event :: "codec \<Rightarrow> event_row \<Rightarrow> database \<Rightarrow> database" where
  "sql_insert_event cd r db = db\<lparr>db_events := db_events db @ [r],
     db_fts := (if db_hasFts db then db_fts db @ [fts_row cd r] else db_fts db)\<rparr>"

definition sql_insert_address :: "string \<times> string \<times> string \<Rightarrow> database \<Rightarrow> database" where
  "sql_insert_address a db = db\<lparr>db_addresses := set_add a (db_addresses db)\<rparr>"

definition sql_delete_events :: "(event_row \<Rightarrow> bool) \<Rightarrow> database \<Rightarrow> database" where
  "sql_delete_events doomed db =
     (let gone = set (map er_id (filter doomed (db_events db)))
      in db\<lparr>db_events := filter (\<lambda>r. \<not> doomed r) (db_events db),
            db_addresses := filter (\<lambda>(i, a, p). i \<notin> gone) (db_addresses db),
            db_fts := (if db_hasFts db then filter (\<lambda>(i, t, v). i \<notin> gone) (db_fts db) else db_fts db)\<rparr>)"

text \<open>BEGIN, the body, COMMIT; ROLLBACK and rethrow when the body throws.\<close>

definition transaction :: "(database \<Rightarrow> (string, 'a \<times> database) result) \<Rightarrow> database \<Rightarrow> (string, 'a) result \<times> database" where
  "transaction body db = (case body db of Inl e \<Rightarrow> (Inl e, db) | Inr (a, db') \<Rightarrow> (Inr a, db'))"

section \<open>Writing new events\<close>

definition topic_position :: "nat \<Rightarrow> string" where
  "topic_position i = ''topic'' @ show_nat i"

fun topic_addresses :: "codec \<Rightarrow> nat \<Rightarrow> string list \<Rightarrow> (string \<times> string) list" where
  "topic_addresses cd i [] = []"
| "topic_addresses cd i (x # xs) =
     map (\<lambda>a. (a, topic_position i)) (extractAddresses cd x) @ topic_addresses cd (Suc i) xs"

definition address_positions :: "codec \<Rightarrow> string list \<Rightarrow> string \<Rightarrow> (string \<times> string) list" where
  "address_positions cd topicsXdr valueXdr =
     topic_addresses cd 0 topicsXdr @ map (\<lambda>a. (a, ''value'')) (extractAddresses cd valueXdr)"

definition insertAddresses :: "codec \<Rightarrow> string \<Rightarrow> string list \<Rightarrow> string \<Rightarrow> database \<Rightarrow> database" where
  "insertAddresses cd eventId topicsXdr valueXdr db =
     foldl (\<lambda>db (a, p). sql_insert_address (eventId, a, p) db) db (address_positions cd topicsXdr valueXdr)"

text \<open>INSERT OR IGNORE: a row whose id is there, or that fails the CHECK on \<open>type\<close>, is skipped.\<close>

definition insertable :: "database \<Rightarrow> event_row \<Rightarrow> bool" where
  "insertable db r = (er_type r \<in> {ContractEvent, SystemEvent} \<and> er_id r \<notin> set (db_ids db))"

definition insert_one :: "codec \<Rightarrow> lens_event \<Rightarrow> database \<Rightarrow> nat \<times> database" where
  "insert_one cd e db =
     (let row = insertParams cd e in
      if insertable db row
      then (1, insertAddresses cd (le_id e) (le_topicsXdr e) (le_valueXdr e) (sql_insert_event cd row db))
      else (0, db))"

fun insert_loop ::
    "(string \<Rightarrow> string option) \<Rightarrow> codec \<Rightarrow> nat \<Rightarrow> lens_event list \<Rightarrow> database \<Rightarrow> (string, nat \<times> database) result"
where
  "insert_loop io cd inserted [] db = Inr (inserted, db)"
| "insert_loop io cd inserted (e # es) db =
     (case io (le_id e) of
        Some err \<Rightarrow> Inl err
      | None \<Rightarrow> (let (changed, db) = insert_one cd e db in insert_loop io cd (inserted + changed) es db))"

definition insertDecoded ::
    "(string \<Rightarrow> string option) \<Rightarrow> codec \<Rightarrow> lens_event list \<Rightarrow> database \<Rightarrow> (string, nat) result \<times> database" where
  "insertDecoded io cd events db =
     (if length events = 0 then (Inr 0, db) else transaction (insert_loop io cd 0 events) db)"

definition insertEvents ::
    "(string \<Rightarrow> string option) \<Rightarrow> codec \<Rightarrow> string \<Rightarrow> raw_event list \<Rightarrow> database \<Rightarrow> (string, nat) result \<times> database" where
  "insertEvents io cd now events db = insertDecoded io cd (map (\<lambda>e. decodeEvent cd e now) events) db"

definition find_row :: "database \<Rightarrow> string \<Rightarrow> event_row option" where
  "find_row db i = find (\<lambda>r. er_id r = i) (db_events db)"

definition getEvent :: "codec \<Rightarrow> database \<Rightarrow> string \<Rightarrow> lens_event option" where
  "getEvent cd db i = (case find_row db i of None \<Rightarrow> None | Some r \<Rightarrow> rowToEvent cd r)"

section \<open>The invariant\<close>

text \<open>
  What a row keeps of its raw XDR is readable and its derived columns agree with its JSON; the
  side tables hold exactly what the rows give rise to.
\<close>

definition row_ok :: "codec \<Rightarrow> event_row \<Rightarrow> bool" where
  "row_ok cd r = (\<exists>e. rowToEvent cd r = Some e \<and> insertParams cd e = r)"

definition row_addresses :: "codec \<Rightarrow> event_row \<Rightarrow> (string \<times> string \<times> string) set" where
  "row_addresses cd r = (case rowToEvent cd r of None \<Rightarrow> {}
     | Some e \<Rightarrow> (\<lambda>(a, p). (er_id r, a, p)) ` set (address_positions cd (le_topicsXdr e) (le_valueXdr e)))"

definition db_ok :: "codec \<Rightarrow> database \<Rightarrow> bool" where
  "db_ok cd db =
     (distinct (db_ids db) \<and>
      (\<forall>r \<in> set (db_events db). er_type r \<in> {ContractEvent, SystemEvent} \<and> row_ok cd r) \<and>
      set (db_addresses db) = \<Union> (row_addresses cd ` set (db_events db)) \<and>
      (db_hasFts db \<longrightarrow> mset (db_fts db) = mset (map (fts_row cd) (db_events db))))"

lemma row_ok_insertParams: "codec_ok cd \<Longrightarrow> row_ok cd (insertParams cd e)"
  by (auto simp: row_ok_def rowToEvent_insertParams)

lemma insertAddresses_keeps [simp]:
  "db_events (insertAddresses cd i ts v db) = db_events db" "db_hasFts (insertAddresses cd i ts v db) = db_hasFts db"
  "db_fts (insertAddresses cd i ts v db) = db_fts db" "db_streams (insertAddresses cd i ts v db) = db_streams db"
  "db_specs (insertAddresses cd i ts v db) = db_specs db" "db_version (insertAddresses cd i ts v db) = db_version db"
proof -
  have "db_events (foldl (\<lambda>db (a, p). sql_insert_address (i, a, p) db) db xs) = db_events db
    \<and> db_hasFts (foldl (\<lambda>db (a, p). sql_insert_address (i, a, p) db) db xs) = db_hasFts db
    \<and> db_fts (foldl (\<lambda>db (a, p). sql_insert_address (i, a, p) db) db xs) = db_fts db
    \<and> db_streams (foldl (\<lambda>db (a, p). sql_insert_address (i, a, p) db) db xs) = db_streams db
    \<and> db_specs (foldl (\<lambda>db (a, p). sql_insert_address (i, a, p) db) db xs) = db_specs db
    \<and> db_version (foldl (\<lambda>db (a, p). sql_insert_address (i, a, p) db) db xs) = db_version db" for xs
    by (induction xs arbitrary: db) (auto simp: sql_insert_address_def)
  then show "db_events (insertAddresses cd i ts v db) = db_events db" "db_hasFts (insertAddresses cd i ts v db) = db_hasFts db"
    "db_fts (insertAddresses cd i ts v db) = db_fts db" "db_streams (insertAddresses cd i ts v db) = db_streams db"
    "db_specs (insertAddresses cd i ts v db) = db_specs db" "db_version (insertAddresses cd i ts v db) = db_version db"
    by (simp_all add: insertAddresses_def)
qed

lemma insertAddresses_set:
  "set (db_addresses (insertAddresses cd i ts v db)) =
     set (db_addresses db) \<union> (\<lambda>(a, p). (i, a, p)) ` set (address_positions cd ts v)"
proof -
  have "set (db_addresses (foldl (\<lambda>db (a, p). sql_insert_address (i, a, p) db) db xs)) =
      set (db_addresses db) \<union> (\<lambda>(a, p). (i, a, p)) ` set xs" for xs
    by (induction xs arbitrary: db) (auto simp: sql_insert_address_def set_add_props)
  then show ?thesis by (simp add: insertAddresses_def)
qed

lemma insert_one_ids:
  "insert_one cd e db = (c, db') \<Longrightarrow> set (db_ids db) \<subseteq> set (db_ids db')"
  by (auto simp: insert_one_def Let_def db_ids_def sql_insert_event_def split: if_splits)

lemma insert_one_ok:
  assumes "codec_ok cd" "db_ok cd db" "insert_one cd e db = (c, db')"
  shows "db_ok cd db'"
proof (cases "insertable db (insertParams cd e)")
  case False
  then show ?thesis using assms(2,3) by (simp add: insert_one_def Let_def)
next
  case True
  then have db': "db' = insertAddresses cd (le_id e) (le_topicsXdr e) (le_valueXdr e)
      (sql_insert_event cd (insertParams cd e) db)"
    using assms(3) by (simp add: insert_one_def Let_def)
  show ?thesis
    using True assms(2) row_ok_insertParams [OF assms(1), of e] rowToEvent_insertParams [OF assms(1), of e]
    by (auto simp: db' db_ok_def db_ids_def sql_insert_event_def insertAddresses_set row_addresses_def insertable_def)
qed

lemma insert_loop_ok:
  "codec_ok cd \<Longrightarrow> db_ok cd db \<Longrightarrow> insert_loop io cd n es db = Inr (m, db') \<Longrightarrow> db_ok cd db'"
proof (induction es arbitrary: n db)
  case (Cons e es)
  then show ?case
    by (auto simp: Let_def split: option.splits prod.splits dest: insert_one_ok)
qed simp

lemma insertDecoded_ok:
  assumes "codec_ok cd" "db_ok cd db"
  shows "db_ok cd (snd (insertDecoded io cd es db))"
  using assms insert_loop_ok [OF assms]
  by (auto simp: insertDecoded_def transaction_def split: sum.splits)

text \<open>The rows a batch adds: the first event of each new id whose type the table admits.\<close>

fun new_events :: "string set \<Rightarrow> lens_event list \<Rightarrow> lens_event list" where
  "new_events known [] = []"
| "new_events known (e # es) =
     (if le_type e \<in> {ContractEvent, SystemEvent} \<and> le_id e \<notin> known
      then e # new_events (insert (le_id e) known) es else new_events known es)"

lemma insert_loop_result:
  assumes "\<forall>e \<in> set es. io (le_id e) = None"
  shows "\<exists>db'. insert_loop io cd n es db = Inr (n + length (new_events (set (db_ids db)) es), db')
    \<and> db_events db' = db_events db @ map (insertParams cd) (new_events (set (db_ids db)) es)
    \<and> db_streams db' = db_streams db \<and> db_specs db' = db_specs db \<and> db_hasFts db' = db_hasFts db
    \<and> db_version db' = db_version db"
  using assms
proof (induction es arbitrary: n db)
  case (Cons e es)
  show ?case
  proof (cases "insertable db (insertParams cd e)")
    case False
    then have "insert_one cd e db = (0, db)" by (simp add: insert_one_def Let_def)
    moreover have "new_events (set (db_ids db)) (e # es) = new_events (set (db_ids db)) es"
      using False by (auto simp: insertable_def)
    ultimately show ?thesis using Cons.IH [of n db] Cons.prems by (simp del: new_events.simps)
  next
    case True
    let ?db = "insertAddresses cd (le_id e) (le_topicsXdr e) (le_valueXdr e) (sql_insert_event cd (insertParams cd e) db)"
    have "insert_one cd e db = (1, ?db)" using True by (simp add: insert_one_def Let_def)
    moreover have "new_events (set (db_ids db)) (e # es) = e # new_events (set (db_ids ?db)) es"
      using True by (auto simp: insertable_def db_ids_def sql_insert_event_def)
    moreover have "db_events ?db = db_events db @ [insertParams cd e]" "db_streams ?db = db_streams db"
        "db_specs ?db = db_specs db" "db_hasFts ?db = db_hasFts db" "db_version ?db = db_version db"
      by (simp_all add: sql_insert_event_def)
    ultimately show ?thesis using Cons.IH [of "n + 1" ?db] Cons.prems by (simp del: new_events.simps)
  qed
qed simp

lemma insertDecoded_result:
  assumes "\<forall>e \<in> set es. io (le_id e) = None"
  shows "fst (insertDecoded io cd es db) = Inr (length (new_events (set (db_ids db)) es))"
    and "db_events (snd (insertDecoded io cd es db)) = db_events db @ map (insertParams cd) (new_events (set (db_ids db)) es)"
  using insert_loop_result [OF assms, of cd 0 db] by (auto simp: insertDecoded_def transaction_def)

lemma insertDecoded_fails:
  assumes "insertDecoded io cd es db = (Inl err, db')"
  shows "db' = db"
  using assms by (auto simp: insertDecoded_def transaction_def split: if_splits sum.splits)

lemma new_events_known: "(\<forall>e \<in> set es. le_type e \<in> {ContractEvent, SystemEvent} \<longrightarrow> le_id e \<in> known) \<Longrightarrow> new_events known es = []"
  by (induction es arbitrary: known) auto

lemma new_events_ids: "le_id ` set (new_events known es) = {le_id e | e. e \<in> set es \<and> le_type e \<in> {ContractEvent, SystemEvent}} - known"
proof (induction es arbitrary: known)
  case (Cons e es)
  show ?case unfolding new_events.simps using Cons.IH [of known] Cons.IH [of "insert (le_id e) known"] by auto
qed simp

lemma new_events_distinct: "distinct (map le_id (new_events known es)) \<and> set (map le_id (new_events known es)) \<inter> known = {}"
  by (induction es arbitrary: known) auto

lemma new_events_subset: "set (new_events known es) \<subseteq> set es"
  by (induction es arbitrary: known) auto

lemma find_row_append:
  "find_row (db\<lparr>db_events := rs @ rs'\<rparr>) i = (case find (\<lambda>r. er_id r = i) rs of Some r \<Rightarrow> Some r | None \<Rightarrow> find (\<lambda>r. er_id r = i) rs')"
  by (induction rs) (auto simp: find_row_def)

lemma find_distinct:
  "distinct (map f xs) \<Longrightarrow> x \<in> set xs \<Longrightarrow> find (\<lambda>y. f y = f x) xs = Some x"
  by (induction xs) auto

lemma find_None: "k \<notin> f ` set xs \<Longrightarrow> find (\<lambda>y. f y = k) xs = None"
  by (induction xs) auto

lemma find_append: "find P (xs @ ys) = (case find P xs of Some x \<Rightarrow> Some x | None \<Rightarrow> find P ys)"
  by (induction xs) auto

lemma find_row_after_insert:
  assumes "\<forall>e \<in> set es. io (le_id e) = None" and "e \<in> set (new_events (set (db_ids db)) es)"
  shows "find_row (snd (insertDecoded io cd es db)) (le_id e) = Some (insertParams cd e)"
proof -
  let ?new = "new_events (set (db_ids db)) es"
  have fresh: "le_id e \<notin> er_id ` set (db_events db)"
    using new_events_ids [of "set (db_ids db)" es] assms(2) by (auto simp: db_ids_def)
  have "distinct (map er_id (map (insertParams cd) ?new))"
    using new_events_distinct [of "set (db_ids db)" es] by (simp add: o_def)
  then have "find (\<lambda>r. er_id r = er_id (insertParams cd e)) (map (insertParams cd) ?new) = Some (insertParams cd e)"
    using assms(2) by (intro find_distinct) auto
  with fresh show ?thesis
    by (simp add: find_row_def insertDecoded_result(2) [OF assms(1)] find_append find_None)
qed

lemma find_row_old:
  assumes "\<forall>e \<in> set es. io (le_id e) = None" and "find_row db i = Some r"
  shows "find_row (snd (insertDecoded io cd es db)) i = Some r"
  using assms(2) by (simp add: find_row_def insertDecoded_result(2) [OF assms(1)] find_append)

end
