(* ===== verification/Sqlite_Query.thy ===== *)
theory Sqlite_Query
  imports Sqlite_Store
begin

text \<open>
  Reading the store: the WHERE clause, keyset paging and the count cache of \<open>queryEvents\<close>, and
  the aggregates (\<open>packages/store/src/sqlite-store.ts\<close>). The interface the API pages through
  is the locale \<open>keyset\<close>, interpreted on the store's own pages.
\<close>

section \<open>The WHERE clause\<close>

datatype sql_cond =
    CContract string
  | CTxHash string
  | CSearch string
  | CAddress string
  | CTransactionIndex int
  | COperationIndex int
  | CFromLedger int
  | CToLedger int
  | CFromTime int
  | CToTime int
  | CSuccessful
  | CTopic nat string

fun double_quotes :: "string \<Rightarrow> string" where
  "double_quotes [] = []"
| "double_quotes (c # cs) = (if c = CHR 0x22 then CHR 0x22 # CHR 0x22 # double_quotes cs else c # double_quotes cs)"

definition ftsPhraseQuery :: "string \<Rightarrow> string" where
  "ftsPhraseQuery text = [CHR 0x22] @ double_quotes text @ [CHR 0x22]"

definition when_text :: "string option \<Rightarrow> (string \<Rightarrow> sql_cond) \<Rightarrow> sql_cond list" where
  "when_text v c = (if truthy v then [c (the v)] else [])"

definition when_some :: "'a option \<Rightarrow> ('a \<Rightarrow> sql_cond) \<Rightarrow> sql_cond list" where
  "when_some v c = (case v of None \<Rightarrow> [] | Some x \<Rightarrow> [c x])"

fun topic_conds :: "nat \<Rightarrow> string option list \<Rightarrow> sql_cond list" where
  "topic_conds i [] = []"
| "topic_conds i (None # ts) = topic_conds (Suc i) ts"
| "topic_conds i (Some t # ts) = (if i < 4 then CTopic i t # topic_conds (Suc i) ts else topic_conds (Suc i) ts)"

definition buildWhere :: "event_query \<Rightarrow> sql_cond list" where
  "buildWhere q =
     when_text (q_contractId q) CContract @ when_text (q_txHash q) CTxHash @
     when_text (q_search q) (\<lambda>s. CSearch (ftsPhraseQuery s)) @ when_text (q_address q) CAddress @
     when_some (q_transactionIndex q) CTransactionIndex @ when_some (q_operationIndex q) COperationIndex @
     when_some (q_fromLedger q) CFromLedger @ when_some (q_toLedger q) CToLedger @
     when_some (q_fromTime q) CFromTime @ when_some (q_toTime q) CToTime @
     (if q_successfulOnly q then [CSuccessful] else []) @ topic_conds 0 (q_topics q)"

definition topic_column :: "event_row \<Rightarrow> nat \<Rightarrow> string option" where
  "topic_column r i = (if i = 0 then er_topic0 r else if i = 1 then er_topic1 r
     else if i = 2 then er_topic2 r else er_topic3 r)"

fun cond_holds :: "codec \<Rightarrow> database \<Rightarrow> event_row \<Rightarrow> sql_cond \<Rightarrow> bool" where
  "cond_holds cd db r (CContract c) = (er_contract_id r = c)"
| "cond_holds cd db r (CTxHash h) = (er_tx_hash r = h)"
| "cond_holds cd db r (CSearch p) = list_ex (\<lambda>(i, t, v). i = er_id r \<and> cd_fts_match cd p t v) (db_fts db)"
| "cond_holds cd db r (CAddress a) = list_ex (\<lambda>(i, a', p). i = er_id r \<and> a' = a) (db_addresses db)"
| "cond_holds cd db r (CTransactionIndex i) = (er_transaction_index r = i)"
| "cond_holds cd db r (COperationIndex i) = (er_operation_index r = i)"
| "cond_holds cd db r (CFromLedger l) = (er_ledger r \<ge> l)"
| "cond_holds cd db r (CToLedger l) = (er_ledger r \<le> l)"
| "cond_holds cd db r (CFromTime t) = (er_closed_at_unix r \<ge> t)"
| "cond_holds cd db r (CToTime t) = (er_closed_at_unix r \<le> t)"
| "cond_holds cd db r CSuccessful = (er_in_successful_call r = 1)"
| "cond_holds cd db r (CTopic i t) = (topic_column r i = Some t)"

definition row_matches :: "codec \<Rightarrow> database \<Rightarrow> sql_cond list \<Rightarrow> event_row \<Rightarrow> bool" where
  "row_matches cd db conds r = list_all (cond_holds cd db r) conds"

definition sql_select :: "codec \<Rightarrow> database \<Rightarrow> sql_cond list \<Rightarrow> event_row list" where
  "sql_select cd db conds = filter (row_matches cd db conds) (db_events db)"

section \<open>Pages\<close>

definition id_before :: "sort_order \<Rightarrow> string \<Rightarrow> string \<Rightarrow> bool" where
  "id_before order a b = (case order of Asc \<Rightarrow> a < b | Desc \<Rightarrow> b < a)"

definition flip_order :: "sort_order \<Rightarrow> sort_order" where
  "flip_order order = (case order of Asc \<Rightarrow> Desc | Desc \<Rightarrow> Asc)"

definition order_by_id :: "sort_order \<Rightarrow> event_row list \<Rightarrow> event_row list" where
  "order_by_id order rows = (case order of Asc \<Rightarrow> sort_key er_id rows | Desc \<Rightarrow> rev (sort_key er_id rows))"

definition existsBeyond :: "codec \<Rightarrow> database \<Rightarrow> sql_cond list \<Rightarrow> (string \<Rightarrow> bool) \<Rightarrow> bool" where
  "existsBeyond cd db conds beyond = list_ex (\<lambda>r. beyond (er_id r)) (sql_select cd db conds)"

record row_page =
  rp_rows :: "event_row list"
  rp_next :: "string option"
  rp_prev :: "string option"

definition query_rows ::
    "codec \<Rightarrow> database \<Rightarrow> sql_cond list \<Rightarrow> sort_order \<Rightarrow> bool \<Rightarrow> string option \<Rightarrow> nat \<Rightarrow> row_page" where
  "query_rows cd db conds order backward cursor limit =
     (let scanOrder = (if backward then flip_order order else order);
          keyset = (\<lambda>r. if truthy cursor then id_before scanOrder (the cursor) (er_id r) else True);
          rows = take (limit + 1) (order_by_id scanOrder (filter keyset (sql_select cd db conds)));
          hasMore = length rows > limit;
          scanned = (if hasMore then take limit rows else rows);
          page = (if backward then rev scanned else scanned);
          beyond_last = page \<noteq> [] \<and> existsBeyond cd db conds (id_before order (er_id (last page)));
          before_first = page \<noteq> [] \<and> existsBeyond cd db conds (\<lambda>i. id_before order i (er_id (hd page)));
          first = (if page = [] then None else Some (er_id (hd page)));
          final = (if page = [] then None else Some (er_id (last page)))
      in \<lparr>rp_rows = page,
          rp_next = (if backward then (if beyond_last then final else None) else if hasMore then final else None),
          rp_prev = (if backward then (if hasMore then first else None) else if before_first then first else None)\<rparr>)"

section \<open>The count cache\<close>

record event_store =
  es_db :: database
  es_cache :: "(sql_cond list \<times> nat \<times> int) list"
  es_ttl :: int
  es_searchAvailable :: bool

definition countCached :: "codec \<Rightarrow> int \<Rightarrow> sql_cond list \<Rightarrow> event_store \<Rightarrow> (nat \<times> bool) \<times> event_store" where
  "countCached cd now conds s =
     (case (if es_ttl s > 0 then map_of (es_cache s) conds else None) of
        Some (cnt, expiresAt) \<Rightarrow>
          if expiresAt > now then ((cnt, True), s)
          else (let n = length (sql_select cd (es_db s) conds)
                in ((n, False), s\<lparr>es_cache := map_set conds (n, now + es_ttl s) (es_cache s)\<rparr>))
      | None \<Rightarrow>
         (let n = length (sql_select cd (es_db s) conds)
          in ((n, False), if es_ttl s > 0 then s\<lparr>es_cache := map_set conds (n, now + es_ttl s) (es_cache s)\<rparr> else s)))"

datatype query_error = SearchUnavailable | UnreadableRow

definition queryEvents ::
    "codec \<Rightarrow> int \<Rightarrow> event_query \<Rightarrow> event_store \<Rightarrow> (query_error, event_page) result \<times> event_store" where
  "queryEvents cd now q s =
     (if truthy (q_search q) \<and> \<not> es_searchAvailable s then (Inl SearchUnavailable, s)
      else
        let limit = normaliseLimit (q_limit q);
            order = (if q_order q = Some Asc then Asc else Desc);
            backward = (q_direction q = Some Backward);
            conds = buildWhere q;
            ((cnt, estimate), s) = (if q_skipTotal q then ((0, False), s) else countCached cd now conds s);
            p = query_rows cd (es_db s) conds order backward (q_cursor q) limit
        in (case option_list (map (rowToEvent cd) (rp_rows p)) of
              None \<Rightarrow> Inl UnreadableRow
            | Some events \<Rightarrow> Inr \<lparr>pg_events = events, pg_nextCursor = rp_next p, pg_prevCursor = rp_prev p,
                pg_total = cnt, pg_totalIsEstimate = estimate\<rparr>, s))"

definition getLatestEventId :: "database \<Rightarrow> string option" where
  "getLatestEventId db = (if db_events db = [] then None else Some (last (sort (db_ids db))))"

section \<open>The keyset interface\<close>

text \<open>
  \<open>page cursor n\<close> is the page of \<open>n\<close> after \<open>cursor\<close>; the law places every page inside the
  one list \<open>everything\<close>. What is proved of it holds for any way to walk the pages.
\<close>

locale keyset =
  fixes page :: "string option \<Rightarrow> nat \<Rightarrow> 'e list \<times> string option"
    and everything :: "'e list"
    and key :: "'e \<Rightarrow> string"
  assumes first_page: "0 < n \<Longrightarrow> page None n =
      (take n everything, if length everything > n then Some (key (everything ! (n - 1))) else None)"
    and later_page: "0 < n \<Longrightarrow> k < length everything \<Longrightarrow> page (Some (key (everything ! k))) n =
      (take n (drop (Suc k) everything),
       if length everything > Suc k + n then Some (key (everything ! (k + n))) else None)"

fun follow_pages :: "(string option \<Rightarrow> nat \<Rightarrow> 'e list \<times> string option) \<Rightarrow> nat \<Rightarrow> nat \<Rightarrow> string option \<Rightarrow> 'e list list" where
  "follow_pages page 0 n cursor = []"
| "follow_pages page (Suc fuel) n cursor =
     (let (es, nxt) = page cursor n in es # (case nxt of None \<Rightarrow> [] | Some c \<Rightarrow> follow_pages page fuel n (Some c)))"

context keyset
begin

lemma follow_from:
  "0 < n \<Longrightarrow> k < length everything \<Longrightarrow> length everything - Suc k < fuel \<Longrightarrow>
     concat (follow_pages page fuel n (Some (key (everything ! k)))) = drop (Suc k) everything"
proof (induction fuel arbitrary: k)
  case (Suc fuel)
  show ?case
  proof (cases "length everything > Suc k + n")
    case True
    then have "concat (follow_pages page fuel n (Some (key (everything ! (k + n))))) = drop (Suc (k + n)) everything"
      using Suc.prems by (intro Suc.IH) auto
    moreover have "take n (drop (Suc k) everything) @ drop (Suc (k + n)) everything = drop (Suc k) everything"
      by (metis add_Suc_right append_take_drop_id drop_drop add.commute)
    ultimately show ?thesis using Suc.prems True by (simp add: later_page)
  qed (use Suc.prems in \<open>simp add: later_page\<close>)
qed simp

lemma follow_all:
  assumes "0 < n" "length everything < fuel"
  shows "concat (follow_pages page fuel n None) = everything"
proof -
  obtain f where f: "fuel = Suc f" using assms(2) by (cases fuel) auto
  show ?thesis
  proof (cases "length everything > n")
    case True
    then have "concat (follow_pages page f n (Some (key (everything ! (n - 1))))) = drop n everything"
      using follow_from [of n "n - 1" f] assms f by auto
    then show ?thesis using f assms(1) True by (simp add: first_page)
  qed (use f assms(1) in \<open>simp add: first_page\<close>)
qed

lemma follow_lengths:
  assumes "0 < n" and "es \<in> set (follow_pages page fuel n cursor)"
    and "cursor = None \<or> (\<exists>k < length everything. cursor = Some (key (everything ! k)))"
  shows "length es \<le> n"
  using assms(2,3)
proof (induction fuel arbitrary: cursor)
  case (Suc fuel)
  from Suc.prems(2) show ?case
  proof (elim disjE exE conjE)
    assume c: "cursor = None"
    have "n < length everything \<Longrightarrow> \<exists>k<length everything. key (everything ! (n - 1)) = key (everything ! k)"
      by (rule exI [of _ "n - 1"]) auto
    then show ?thesis using Suc.prems(1) Suc.IH [of "Some (key (everything ! (n - 1)))"] assms(1)
      by (auto simp: c first_page split: if_splits)
  next
    fix k assume k: "k < length everything" "cursor = Some (key (everything ! k))"
    have "Suc k + n < length everything \<Longrightarrow> \<exists>j<length everything. key (everything ! (k + n)) = key (everything ! j)"
      by (rule exI [of _ "k + n"]) auto
    then show ?thesis using Suc.prems(1) Suc.IH [of "Some (key (everything ! (k + n)))"] assms(1) k
      by (auto simp: later_page split: if_splits)
  qed
qed simp

end

section \<open>The store's pages obey it\<close>

lemma sorted_wrt_order: "distinct (map er_id rows) \<Longrightarrow> sorted_wrt (\<lambda>a b. id_before order (er_id a) (er_id b)) (order_by_id order rows)"
proof -
  assume d: "distinct (map er_id rows)"
  have "sorted (map er_id (sort_key er_id rows))" by simp
  moreover have "distinct (map er_id (sort_key er_id rows))"
    using d by (metis distinct_map distinct_sort set_sort)
  ultimately have "sorted_wrt (<) (map er_id (sort_key er_id rows))" by (simp add: strict_sorted_iff)
  then have "sorted_wrt (\<lambda>a b. er_id a < er_id b) (sort_key er_id rows)" by (simp add: sorted_wrt_map)
  then show ?thesis by (cases order) (simp_all add: order_by_id_def id_before_def sorted_wrt_rev)
qed

lemma id_before_trans: "id_before order a b \<Longrightarrow> id_before order b c \<Longrightarrow> id_before order a c"
  by (cases order) (auto simp: id_before_def)

lemma id_before_irrefl [simp]: "\<not> id_before order a a"
  by (cases order) (auto simp: id_before_def)

lemma id_before_total: "a \<noteq> b \<Longrightarrow> id_before order a b \<or> id_before order b a"
  by (cases order) (auto simp: id_before_def)

lemma id_before_asym: "id_before order a b \<Longrightarrow> \<not> id_before order b a"
  by (cases order) (auto simp: id_before_def)

lemma id_before_flip [simp]: "id_before (flip_order order) a b = id_before order b a"
  by (cases order) (auto simp: id_before_def flip_order_def)

lemma order_by_id_flip: "order_by_id (flip_order order) rows = rev (order_by_id order rows)"
  by (cases order) (auto simp: order_by_id_def flip_order_def)

lemma order_by_id_filter: "order_by_id order (filter P rows) = filter P (order_by_id order rows)"
  by (cases order) (simp_all add: order_by_id_def filter_sort flip: rev_filter)

lemma set_order_by_id [simp]: "set (order_by_id order rows) = set rows"
  by (cases order) (simp_all add: order_by_id_def)

lemma length_order_by_id [simp]: "length (order_by_id order rows) = length rows"
  by (cases order) (simp_all add: order_by_id_def)

lemma mset_order_by_id [simp]: "mset (order_by_id order rows) = mset rows"
  by (cases order) (simp_all add: order_by_id_def)

text \<open>The rows after, and before, the k-th of a list in strict order.\<close>

lemma filter_after_nth:
  assumes "sorted_wrt (\<lambda>a b. lt (f a) (f b)) xs" "k < length xs" "\<And>a. \<not> lt a a" "\<And>a b. lt a b \<Longrightarrow> \<not> lt b a"
  shows "filter (\<lambda>x. lt (f (xs ! k)) (f x)) xs = drop (Suc k) xs"
    and "filter (\<lambda>x. lt (f x) (f (xs ! k))) xs = take k xs"
proof -
  have split: "xs = take k xs @ xs ! k # drop (Suc k) xs" using assms(2) by (simp add: id_take_nth_drop)
  have before: "\<forall>x \<in> set (take k xs). lt (f x) (f (xs ! k))" and after: "\<forall>x \<in> set (drop (Suc k) xs). lt (f (xs ! k)) (f x)"
    using assms(1) by (subst (asm) split, auto simp: sorted_wrt_append)+
  show "filter (\<lambda>x. lt (f (xs ! k)) (f x)) xs = drop (Suc k) xs"
    using before after assms(3,4) by (subst (2) split) (auto simp: filter_empty_conv filter_id_conv)
  show "filter (\<lambda>x. lt (f x) (f (xs ! k))) xs = take k xs"
    using before after assms(3,4) by (subst (2) split) (auto simp: filter_empty_conv filter_id_conv)
qed

definition ordered_rows :: "codec \<Rightarrow> database \<Rightarrow> sql_cond list \<Rightarrow> sort_order \<Rightarrow> event_row list" where
  "ordered_rows cd db conds order = order_by_id order (sql_select cd db conds)"

lemma select_distinct: "distinct (db_ids db) \<Longrightarrow> distinct (map er_id (sql_select cd db conds))"
  by (simp add: sql_select_def db_ids_def distinct_map_filter)

lemma ordered_rows_sorted:
  "distinct (db_ids db) \<Longrightarrow> sorted_wrt (\<lambda>a b. id_before order (er_id a) (er_id b)) (ordered_rows cd db conds order)"
  unfolding ordered_rows_def by (intro sorted_wrt_order select_distinct)

lemma rows_after:
  assumes "distinct (db_ids db)" "k < length (ordered_rows cd db conds order)"
  shows "filter (\<lambda>r. id_before order (er_id (ordered_rows cd db conds order ! k)) (er_id r)) (ordered_rows cd db conds order) =
      drop (Suc k) (ordered_rows cd db conds order)"
    and "filter (\<lambda>r. id_before order (er_id r) (er_id (ordered_rows cd db conds order ! k))) (ordered_rows cd db conds order) =
      take k (ordered_rows cd db conds order)"
  using filter_after_nth [where lt = "id_before order" and f = er_id, OF ordered_rows_sorted [OF assms(1)] assms(2)]
    id_before_irrefl id_before_asym by blast+

lemma forward_rows:
  "rp_rows (query_rows cd db conds order False cursor n) =
     take n (filter (\<lambda>r. truthy cursor \<longrightarrow> id_before order (the cursor) (er_id r)) (ordered_rows cd db conds order))"
proof -
  have k: "(\<lambda>r. if truthy cursor then id_before order (the cursor) (er_id r) else True) =
      (\<lambda>r. truthy cursor \<longrightarrow> id_before order (the cursor) (er_id r))" by auto
  show ?thesis by (auto simp: query_rows_def Let_def ordered_rows_def order_by_id_filter k)
qed

lemma forward_next:
  "rp_next (query_rows cd db conds order False cursor n) =
     (let rows = filter (\<lambda>r. truthy cursor \<longrightarrow> id_before order (the cursor) (er_id r)) (ordered_rows cd db conds order)
      in if length rows > n \<and> 0 < n then Some (er_id (rows ! (n - 1))) else None)"
proof -
  have k: "(\<lambda>r. if truthy cursor then id_before order (the cursor) (er_id r) else True) =
      (\<lambda>r. truthy cursor \<longrightarrow> id_before order (the cursor) (er_id r))" by auto
  show ?thesis
    by (auto simp: query_rows_def Let_def ordered_rows_def order_by_id_filter k last_conv_nth)
qed

definition store_page ::
    "codec \<Rightarrow> database \<Rightarrow> sql_cond list \<Rightarrow> sort_order \<Rightarrow> string option \<Rightarrow> nat \<Rightarrow> event_row list \<times> string option" where
  "store_page cd db conds order cursor n =
     (let p = query_rows cd db conds order False cursor n in (rp_rows p, rp_next p))"

definition ids_present :: "database \<Rightarrow> bool" where
  "ids_present db = (distinct (db_ids db) \<and> [] \<notin> set (db_ids db))"

lemma store_page_first:
  "0 < n \<Longrightarrow> store_page cd db conds order None n =
     (take n (ordered_rows cd db conds order),
      if length (ordered_rows cd db conds order) > n
      then Some (er_id (ordered_rows cd db conds order ! (n - 1))) else None)"
  by (simp add: store_page_def Let_def forward_rows forward_next truthy_def)

lemma ordered_rows_id: "ids_present db \<Longrightarrow> k < length (ordered_rows cd db conds order) \<Longrightarrow>
    er_id (ordered_rows cd db conds order ! k) \<noteq> []"
proof -
  assume a: "ids_present db" and k: "k < length (ordered_rows cd db conds order)"
  have "set (ordered_rows cd db conds order) \<subseteq> set (db_events db)"
    by (auto simp: ordered_rows_def sql_select_def)
  then have "er_id (ordered_rows cd db conds order ! k) \<in> set (db_ids db)"
    using nth_mem [OF k] by (auto simp: db_ids_def)
  with a show "er_id (ordered_rows cd db conds order ! k) \<noteq> []" by (auto simp: ids_present_def)
qed

lemma store_page_later:
  assumes "ids_present db" "0 < n" "k < length (ordered_rows cd db conds order)"
  shows "store_page cd db conds order (Some (er_id (ordered_rows cd db conds order ! k))) n =
     (take n (drop (Suc k) (ordered_rows cd db conds order)),
      if length (ordered_rows cd db conds order) > Suc k + n
      then Some (er_id (ordered_rows cd db conds order ! (k + n))) else None)"
proof -
  let ?S = "ordered_rows cd db conds order"
  have t: "truthy (Some (er_id (?S ! k)))"
    using ordered_rows_id [OF assms(1,3)] by (simp add: truthy_def)
  have f: "filter (\<lambda>r. id_before order (er_id (?S ! k)) (er_id r)) ?S = drop (Suc k) ?S"
    using rows_after(1) [OF _ assms(3)] assms(1) by (simp add: ids_present_def)
  show ?thesis
    using assms(2) by (auto simp: store_page_def Let_def forward_rows forward_next t f)
qed

text \<open>The table the paging runs on, with the ids it needs: a store with a migrated schema.\<close>

typedef paged_db = "{db. ids_present db}"
  by (rule exI [of _ "\<lparr>db_events = [], db_addresses = [], db_hasFts = False, db_fts = [], db_streams = [],
     db_specs = [], db_version = 0\<rparr>"]) (simp add: ids_present_def db_ids_def)

interpretation store_keyset: keyset "store_page cd (Rep_paged_db d) conds order" "ordered_rows cd (Rep_paged_db d) conds order" er_id
  for cd d conds order
  by unfold_locales (simp_all add: store_page_first store_page_later Rep_paged_db [simplified])

lemma follow_store_pages:
  assumes "ids_present db" "0 < n" "length (db_events db) < fuel"
  shows "concat (follow_pages (store_page cd db conds order) fuel n None) = ordered_rows cd db conds order"
proof -
  have r: "Rep_paged_db (Abs_paged_db db) = db" using assms(1) by (simp add: Abs_paged_db_inverse)
  have "length (ordered_rows cd db conds order) \<le> length (db_events db)"
    by (simp add: ordered_rows_def sql_select_def)
  then show ?thesis
    using store_keyset.follow_all [of n cd "Abs_paged_db db" conds order fuel] assms(2,3) by (simp add: r)
qed

end
