(* ===== verification/Sqlite_Reads.thy ===== *)
theory Sqlite_Reads
  imports Sqlite_Query "HOL-Library.Option_ord"
begin

text \<open>
  Backward pages, pages while events arrive, and the reads and small writes of the store that
  are not pages: contract and topic lists, time buckets, statistics, health, stream states and
  contract specs (\<open>packages/store/src/sqlite-store.ts\<close>).
\<close>

section \<open>Backward pages\<close>

lemma backward_rows:
  assumes "ids_present db" "p < length (ordered_rows cd db conds order)"
  shows "rp_rows (query_rows cd db conds order True (Some (er_id (ordered_rows cd db conds order ! p))) n) =
     drop (p - n) (take p (ordered_rows cd db conds order))"
proof -
  let ?S = "ordered_rows cd db conds order"
  have t: "truthy (Some (er_id (?S ! p)))" using ordered_rows_id [OF assms] by (simp add: truthy_def)
  have f: "filter (\<lambda>r. id_before order (er_id r) (er_id (?S ! p))) ?S = take p ?S"
    using rows_after(2) [OF _ assms(2)] assms(1) by (simp add: ids_present_def)
  have o: "order_by_id (flip_order order) (filter (\<lambda>r. id_before order (er_id r) (er_id (?S ! p))) (sql_select cd db conds))
      = rev (take p ?S)"
    unfolding order_by_id_flip order_by_id_filter using f by (simp add: ordered_rows_def flip: rev_filter)
  have "take n (rev (take p ?S)) = rev (drop (p - n) (take p ?S))"
    using assms(2) by (simp add: take_rev min_def)
  then show ?thesis
    using assms(2) by (auto simp add: query_rows_def Let_def t o not_less simp del: length_order_by_id)
qed

lemma existsBeyond_ordered: "existsBeyond cd db conds P \<longleftrightarrow> (\<exists>r \<in> set (ordered_rows cd db conds order). P (er_id r))"
  by (simp add: existsBeyond_def ordered_rows_def list_ex_iff)

lemma forward_prev:
  assumes "ids_present db" "0 < n" "k < length (ordered_rows cd db conds order)" "Suc k < length (ordered_rows cd db conds order)"
  shows "rp_prev (query_rows cd db conds order False (Some (er_id (ordered_rows cd db conds order ! k))) n) =
     Some (er_id (ordered_rows cd db conds order ! Suc k))"
proof -
  let ?S = "ordered_rows cd db conds order"
  let ?p = "query_rows cd db conds order False (Some (er_id (?S ! k))) n"
  have r: "rp_rows ?p = take n (drop (Suc k) ?S)"
    using store_page_later [OF assms(1-3)] by (simp add: store_page_def Let_def)
  have h: "rp_rows ?p \<noteq> []" "hd (rp_rows ?p) = ?S ! Suc k"
    using assms(2,4) by (simp_all add: r hd_drop_conv_nth hd_take)
  have "id_before order (er_id (?S ! k)) (er_id (?S ! Suc k))"
    using ordered_rows_sorted [of db order cd conds] assms(1,4)
    by (simp add: ids_present_def sorted_wrt_iff_nth_less)
  then have "existsBeyond cd db conds (\<lambda>i. id_before order i (er_id (?S ! Suc k)))"
    using assms(3) by (auto simp: existsBeyond_ordered [where order = order])
  moreover have "rp_prev ?p = (if rp_rows ?p \<noteq> [] \<and> existsBeyond cd db conds (\<lambda>i. id_before order i (er_id (hd (rp_rows ?p))))
      then Some (er_id (hd (rp_rows ?p))) else None)"
    by (simp add: query_rows_def Let_def)
  ultimately show ?thesis using h by simp
qed

section \<open>Pages while events arrive\<close>

lemma cond_holds_insert_one:
  assumes "insert_one cd e db = (c, db')" and "er_id r \<noteq> le_id e"
  shows "cond_holds cd db' r cond = cond_holds cd db r cond"
proof (cases "insertable db (insertParams cd e)")
  case False
  then show ?thesis using assms(1) by (simp add: insert_one_def Let_def)
next
  case True
  then have db': "db' = insertAddresses cd (le_id e) (le_topicsXdr e) (le_valueXdr e)
      (sql_insert_event cd (insertParams cd e) db)"
    using assms(1) by (simp add: insert_one_def Let_def)
  have a: "set (db_addresses db') = set (db_addresses db) \<union>
      (\<lambda>(a, p). (le_id e, a, p)) ` set (address_positions cd (le_topicsXdr e) (le_valueXdr e))"
    by (simp add: db' insertAddresses_set sql_insert_event_def)
  have f: "db_fts db' = db_fts db \<or> db_fts db' = db_fts db @ [fts_row cd (insertParams cd e)]"
    by (simp add: db' sql_insert_event_def)
  show ?thesis
  proof (cases cond)
    case (CAddress x)
    then show ?thesis using assms(2) by (auto simp: list_ex_iff a)
  next
    case (CSearch x)
    then show ?thesis using assms(2) f by (auto simp: list_ex_iff fts_row_def)
  qed simp_all
qed

lemma insert_one_events:
  "insert_one cd e db = (c, db') \<Longrightarrow> db_events db' = db_events db \<or>
     (db_events db' = db_events db @ [insertParams cd e] \<and> le_id e \<notin> set (db_ids db))"
  by (auto simp: insert_one_def Let_def sql_insert_event_def insertable_def split: if_splits)

lemma row_matches_insert_one:
  "insert_one cd e db = (c, db') \<Longrightarrow> er_id r \<noteq> le_id e \<Longrightarrow> row_matches cd db' conds r = row_matches cd db conds r"
  by (simp add: row_matches_def cond_holds_insert_one cong: list.pred_cong)

lemma select_insert_one:
  assumes "insert_one cd e db = (c, db')" and "\<not> P (le_id e)"
  shows "filter (\<lambda>r. P (er_id r)) (sql_select cd db' conds) = filter (\<lambda>r. P (er_id r)) (sql_select cd db conds)"
proof -
  have "filter (\<lambda>r. P (er_id r)) (filter (row_matches cd db' conds) rs) = filter (\<lambda>r. P (er_id r)) (filter (row_matches cd db conds) rs)" for rs
    unfolding filter_filter
    by (rule filter_cong [OF refl]) (metis assms row_matches_insert_one)
  then show ?thesis
    using insert_one_events [OF assms(1)] assms(2) by (auto simp: sql_select_def)
qed

lemma select_insert_loop:
  assumes "insert_loop io cd n es db = Inr (m, db')" and "\<forall>e \<in> set es. \<not> P (le_id e)"
  shows "filter (\<lambda>r. P (er_id r)) (sql_select cd db' conds) = filter (\<lambda>r. P (er_id r)) (sql_select cd db conds)"
  using assms
proof (induction es arbitrary: n db)
  case (Cons e es)
  obtain c db1 where one: "insert_one cd e db = (c, db1)" by fastforce
  have "insert_loop io cd (n + c) es db1 = Inr (m, db')"
    using Cons.prems(1) one by (simp split: option.splits)
  then have "filter (\<lambda>r. P (er_id r)) (sql_select cd db' conds) = filter (\<lambda>r. P (er_id r)) (sql_select cd db1 conds)"
    using Cons.IH Cons.prems(2) by auto
  also have "\<dots> = filter (\<lambda>r. P (er_id r)) (sql_select cd db conds)"
    using select_insert_one [OF one] Cons.prems(2) by auto
  finally show ?case .
qed simp

lemma page_stable:
  assumes "truthy cursor" and "\<forall>e \<in> set es. \<not> id_before order (the cursor) (le_id e)"
  shows "store_page cd (snd (insertDecoded io cd es db)) conds order cursor n = store_page cd db conds order cursor n"
proof -
  let ?db = "snd (insertDecoded io cd es db)"
  have "filter (\<lambda>r. id_before order (the cursor) (er_id r)) (sql_select cd ?db conds) =
      filter (\<lambda>r. id_before order (the cursor) (er_id r)) (sql_select cd db conds)"
  proof (cases "insert_loop io cd 0 es db")
    case (Inl e)
    then show ?thesis by (simp add: insertDecoded_def transaction_def)
  next
    case (Inr r)
    then have "insert_loop io cd 0 es db = Inr (fst r, snd r)" by simp
    from select_insert_loop [where P = "id_before order (the cursor)", OF this assms(2)] Inr
    show ?thesis by (cases r) (simp add: insertDecoded_def transaction_def)
  qed
  then have "filter (\<lambda>r. id_before order (the cursor) (er_id r)) (ordered_rows cd ?db conds order) =
      filter (\<lambda>r. id_before order (the cursor) (er_id r)) (ordered_rows cd db conds order)"
    unfolding ordered_rows_def by (metis order_by_id_filter)
  then show ?thesis using assms(1) by (simp add: store_page_def Let_def forward_rows forward_next)
qed

section \<open>Aggregates\<close>

definition sql_group :: "('r \<Rightarrow> 'k::linorder) \<Rightarrow> 'r list \<Rightarrow> ('k \<times> 'r list) list" where
  "sql_group f rows = map (\<lambda>k. (k, filter (\<lambda>r. f r = k) rows)) (sort (remdups (map f rows)))"

definition max_of :: "int list \<Rightarrow> int" where
  "max_of xs = foldl max (hd xs) xs"

definition min_of :: "int list \<Rightarrow> int" where
  "min_of xs = foldl min (hd xs) xs"

record contract_summary =
  cy_contractId :: string
  cy_eventCount :: nat
  cy_firstLedger :: int
  cy_lastLedger :: int
  cy_lastSeenAt :: string

definition max_text :: "string list \<Rightarrow> string" where
  "max_text xs = foldl max (hd xs) xs"

text \<open>The limits are default parameters: 100 contracts, 50 topics.\<close>

definition listContracts :: "js_num option \<Rightarrow> database \<Rightarrow> contract_summary list" where
  "listContracts limit db =
     take (normaliseNumber (or_else limit (JsNum 100)))
       (js_sort (\<lambda>a b. cy_lastLedger b - cy_lastLedger a)
         (map (\<lambda>(c, rs). \<lparr>cy_contractId = c, cy_eventCount = length rs, cy_firstLedger = min_of (map er_ledger rs),
              cy_lastLedger = max_of (map er_ledger rs), cy_lastSeenAt = max_text (map er_ledger_closed_at rs)\<rparr>)
            (sql_group er_contract_id (db_events db))))"

definition topic_counts :: "event_row list \<Rightarrow> (string \<times> nat) list" where
  "topic_counts rows = map (\<lambda>(t, rs). (the t, length rs)) (sql_group er_topic0 (filter (\<lambda>r. er_topic0 r \<noteq> None) rows))"

definition listTopics :: "string \<Rightarrow> js_num option \<Rightarrow> database \<Rightarrow> (string \<times> nat) list" where
  "listTopics contractId limit db = take (normaliseNumber (or_else limit (JsNum 50)))
     (js_sort (\<lambda>a b. int (snd b) - int (snd a)) (topic_counts (filter (\<lambda>r. er_contract_id r = contractId) (db_events db))))"

definition countByTopic :: "js_num option \<Rightarrow> database \<Rightarrow> (string \<times> nat) list" where
  "countByTopic limit db = take (normaliseNumber (or_else limit (JsNum 50)))
     (js_sort (\<lambda>a b. if snd a \<noteq> snd b then int (snd b) - int (snd a)
        else if fst a < fst b then -1 else if fst a > fst b then 1 else 0) (topic_counts (db_events db)))"

datatype time_bucket = Minute | Hour | Day

definition BUCKET_SECONDS :: "time_bucket \<Rightarrow> int" where
  "BUCKET_SECONDS b = (case b of Minute \<Rightarrow> 60 | Hour \<Rightarrow> 3600 | Day \<Rightarrow> 86400)"

text \<open>Integer division as SQL does it: towards zero.\<close>

definition sql_div :: "int \<Rightarrow> int \<Rightarrow> int" where
  "sql_div a b = (if a < 0 then - ((- a) div b) else a div b)"

record bucket_count =
  bc_start :: int
  bc_count :: nat
  bc_firstLedger :: int
  bc_lastLedger :: int

definition bucket_start :: "int \<Rightarrow> event_row \<Rightarrow> int" where
  "bucket_start width r = sql_div (er_closed_at_unix r) width * width"

definition countByTimeBucket :: "codec \<Rightarrow> event_query \<Rightarrow> time_bucket \<Rightarrow> database \<Rightarrow> bucket_count list" where
  "countByTimeBucket cd q bucket db =
     map (\<lambda>(st, rs). \<lparr>bc_start = st, bc_count = length rs, bc_firstLedger = min_of (map er_ledger rs),
        bc_lastLedger = max_of (map er_ledger rs)\<rparr>)
       (sql_group (bucket_start (BUCKET_SECONDS bucket)) (sql_select cd db (buildWhere q)))"

record store_stats =
  st_eventCount :: nat
  st_contractCount :: nat
  st_minLedger :: "int option"
  st_maxLedger :: "int option"
  st_schemaVersion :: nat

definition getStats :: "database \<Rightarrow> store_stats" where
  "getStats db =
     \<lparr>st_eventCount = length (db_events db), st_contractCount = length (remdups (map er_contract_id (db_events db))),
      st_minLedger = (if db_events db = [] then None else Some (min_of (map er_ledger (db_events db)))),
      st_maxLedger = (if db_events db = [] then None else Some (max_of (map er_ledger (db_events db)))),
      st_schemaVersion = db_version db\<rparr>"

definition LATEST_SCHEMA_VERSION :: nat where
  "LATEST_SCHEMA_VERSION = 6"

definition healthCheck :: "database \<Rightarrow> bool" where
  "healthCheck db = (st_schemaVersion (getStats db) = LATEST_SCHEMA_VERSION)"

lemma sql_group_keys: "map fst (sql_group f rows) = sort (remdups (map f rows))"
  by (simp add: sql_group_def o_def)

lemma count_partition:
  "distinct ks \<Longrightarrow> set (map f rows) \<subseteq> set ks \<Longrightarrow> sum_list (map (\<lambda>k. length (filter (\<lambda>r. f r = k) rows)) ks) = length rows"
proof (induction rows)
  case (Cons r rows)
  have "sum_list (map (\<lambda>k. length (filter (\<lambda>x. f x = k) (r # rows))) ks) =
      sum_list (map (\<lambda>k. (if f r = k then 1 else 0) + length (filter (\<lambda>x. f x = k) rows)) ks)"
    by (intro arg_cong [where f = sum_list] map_cong) auto
  also have "\<dots> = sum_list (map (\<lambda>k. if f r = k then 1 else 0) ks) + sum_list (map (\<lambda>k. length (filter (\<lambda>x. f x = k) rows)) ks)"
    by (simp add: sum_list_addf)
  also have "sum_list (map (\<lambda>k. if f r = k then 1 else (0::nat)) ks) = 1"
    using Cons.prems by (simp add: sum_list_distinct_conv_sum_set)
  finally show ?case using Cons by simp
qed (simp add: sum_list_0)

lemma sql_group_total: "sum_list (map (length \<circ> snd) (sql_group f rows)) = length rows"
proof -
  have "map (length \<circ> snd) (sql_group f rows) = map (\<lambda>k. length (filter (\<lambda>r. f r = k) rows)) (sort (remdups (map f rows)))"
    by (simp add: sql_group_def o_def)
  then show ?thesis using count_partition [of "sort (remdups (map f rows))" f rows] by simp
qed

lemma sql_group_sorted: "sorted_wrt (<) (map fst (sql_group f rows))"
  by (simp add: sql_group_keys strict_sorted_iff)

lemma sql_div_bounds:
  assumes "0 \<le> a" "0 < b"
  shows "sql_div a b * b \<le> a" "a < sql_div a b * b + b"
proof -
  have d: "sql_div a b = a div b" using assms(1) by (simp add: sql_div_def)
  have e: "a div b * b + a mod b = a" "0 \<le> a mod b" "a mod b < b" using assms(2) by simp_all
  show "sql_div a b * b \<le> a" unfolding d using e by linarith
  show "a < sql_div a b * b + b" unfolding d using e by linarith
qed

section \<open>Stream states and contract specs\<close>

fun upsert :: "('r \<Rightarrow> string) \<Rightarrow> 'r \<Rightarrow> 'r list \<Rightarrow> 'r list" where
  "upsert k x [] = [x]"
| "upsert k x (y # ys) = (if k y = k x then x # ys else y # upsert k x ys)"

lemma upsert_find: "find (\<lambda>y. k y = i) (upsert k x ys) = (if i = k x then Some x else find (\<lambda>y. k y = i) ys)"
  by (induction ys) auto

lemma upsert_keys: "map k (upsert k x ys) = (if k x \<in> set (map k ys) then map k ys else map k ys @ [k x])"
  by (induction ys) auto

definition db_saveStreamState :: "stream_state \<Rightarrow> database \<Rightarrow> database" where
  "db_saveStreamState s db = db\<lparr>db_streams := upsert ss_key s (db_streams db)\<rparr>"

definition db_loadStreamState :: "string \<Rightarrow> database \<Rightarrow> stream_state option" where
  "db_loadStreamState key db = find (\<lambda>s. ss_key s = key) (db_streams db)"

definition listStreamStates :: "database \<Rightarrow> stream_state list" where
  "listStreamStates db = sort_key ss_key (db_streams db)"

definition stream_view :: "database \<Rightarrow> stream_table" where
  "stream_view db k = db_loadStreamState k db"

lemma stream_view_save: "stream_view (db_saveStreamState s db) = saveStreamState (stream_view db) s"
  by (auto simp: stream_view_def db_loadStreamState_def db_saveStreamState_def saveStreamState_def upsert_find)

definition saveContractSpec :: "spec_row \<Rightarrow> database \<Rightarrow> database" where
  "saveContractSpec r db = db\<lparr>db_specs := upsert sr_contract_id r (db_specs db)\<rparr>"

definition getContractSpec :: "string \<Rightarrow> database \<Rightarrow> spec_row option" where
  "getContractSpec i db = find (\<lambda>r. sr_contract_id r = i) (db_specs db)"

definition listContractSpecs :: "database \<Rightarrow> spec_row list" where
  "listContractSpecs db = map (\<lambda>r. r\<lparr>sr_entries_xdr := []\<rparr>) (sort_key sr_contract_id (db_specs db))"

lemma getContractSpec_save: "getContractSpec i (saveContractSpec r db) = (if i = sr_contract_id r then Some r else getContractSpec i db)"
  by (simp add: getContractSpec_def saveContractSpec_def upsert_find)

end
