(* ===== verification/Sqlite_Maint.thy ===== *)
theory Sqlite_Maint
  imports Sqlite_Reads
begin

text \<open>
  Maintenance of the store (\<open>packages/store/src/sqlite-store.ts\<close>): pruning by ledger and by
  size, re-decoding, the integrity check and its repair, the search index, snapshots. The file
  behind the database is its size in bytes: \<open>after_delete\<close> and \<open>after_vacuum\<close> say what SQLite
  leaves on disk after a committed DELETE and after VACUUM with a truncating checkpoint.
\<close>

section \<open>Pruning\<close>

definition below :: "int \<Rightarrow> event_row \<Rightarrow> bool" where
  "below ledger r = (er_ledger r < ledger)"

definition pruneBefore :: "string option \<Rightarrow> int \<Rightarrow> database \<Rightarrow> (string, nat) result \<times> database" where
  "pruneBefore io ledger db =
     (let before = length (filter (below ledger) (db_events db)) in
      if before = 0 then (Inr 0, db)
      else transaction (\<lambda>db. case io of Some err \<Rightarrow> Inl err | None \<Rightarrow> Inr (before, sql_delete_events (below ledger) db)) db)"

record disk =
  after_delete :: "database \<Rightarrow> nat \<Rightarrow> nat"
  after_vacuum :: "database \<Rightarrow> nat"

record file_store =
  fs_db :: database
  fs_bytes :: nat

record pruned =
  pr_rowsRemoved :: nat
  pr_ledgersRemoved :: nat
  pr_highestPrunedLedger :: "int option"

definition oldest_ledger :: "database \<Rightarrow> int option" where
  "oldest_ledger db = (if db_events db = [] then None else Some (min_of (map er_ledger (db_events db))))"

lemma min_of_le: "x \<in> set xs \<Longrightarrow> min_of xs \<le> x"
proof -
  have "foldl min a xs \<le> a \<and> (\<forall>x \<in> set xs. foldl min a xs \<le> x)" for a :: int
    by (induction xs arbitrary: a) (auto intro: order_trans [OF _ min.cobounded1] order_trans [OF _ min.cobounded2] simp: min_le_iff_disj)
  then show "x \<in> set xs \<Longrightarrow> min_of xs \<le> x" by (simp add: min_of_def)
qed

lemma min_of_in: "xs \<noteq> [] \<Longrightarrow> min_of xs \<in> set xs"
proof -
  have f: "foldl min a ys \<in> insert a (set ys)" for a :: int and ys
    by (induction ys arbitrary: a) (auto simp: min_def)
  show "xs \<noteq> [] \<Longrightarrow> min_of xs \<in> set xs" using f [of "hd xs" xs] by (auto simp: min_of_def insert_absorb)
qed

lemma max_of_ge: "x \<in> set xs \<Longrightarrow> x \<le> max_of xs"
proof -
  have "a \<le> foldl max a xs \<and> (\<forall>x \<in> set xs. x \<le> foldl max a xs)" for a :: int
    by (induction xs arbitrary: a) (auto intro: order_trans [OF max.cobounded1] order_trans [OF max.cobounded2])
  then show "x \<in> set xs \<Longrightarrow> x \<le> max_of xs" by (simp add: max_of_def)
qed

lemma max_of_in: "xs \<noteq> [] \<Longrightarrow> max_of xs \<in> set xs"
proof -
  have f: "foldl max a ys \<in> insert a (set ys)" for a :: int and ys
    by (induction ys arbitrary: a) (auto simp: max_def)
  show "xs \<noteq> [] \<Longrightarrow> max_of xs \<in> set xs" using f [of "hd xs" xs] by (auto simp: max_of_def insert_absorb)
qed

function prune_loop :: "disk \<Rightarrow> nat \<Rightarrow> int \<Rightarrow> file_store \<Rightarrow> pruned \<Rightarrow> file_store \<times> pruned" where
  "prune_loop dk target chunk fs acc =
     (if fs_bytes fs \<le> target then (fs, acc)
      else case oldest_ledger (fs_db fs) of
          None \<Rightarrow> (fs, acc)
        | Some oldest \<Rightarrow>
           (let cutoff = oldest + chunk; doomed = filter (below cutoff) (db_events (fs_db fs)) in
            if doomed = [] then (fs, acc)
            else let db = sql_delete_events (below cutoff) (fs_db fs)
                 in prune_loop dk target chunk \<lparr>fs_db = db, fs_bytes = after_delete dk db (fs_bytes fs)\<rparr>
                      \<lparr>pr_rowsRemoved = pr_rowsRemoved acc + length doomed,
                       pr_ledgersRemoved = pr_ledgersRemoved acc + length (remdups (map er_ledger doomed)),
                       pr_highestPrunedLedger = Some (max_of (map er_ledger doomed))\<rparr>))"
  by pat_completeness auto
termination
proof (relation "measure (\<lambda>(dk, target, chunk, fs, acc). length (db_events (fs_db fs)))", goal_cases)
  case (2 dk target chunk fs acc oldest cutoff doomed db)
  then have "length (filter (\<lambda>r. \<not> below cutoff r) (db_events (fs_db fs))) < length (db_events (fs_db fs))"
    by (metis (no_types, lifting) filter_True filter_empty_conv length_filter_less)
  with 2 show ?case by (simp add: sql_delete_events_def Let_def)
qed simp

declare prune_loop.simps [simp del]

definition no_prune :: pruned where
  "no_prune = \<lparr>pr_rowsRemoved = 0, pr_ledgersRemoved = 0, pr_highestPrunedLedger = None\<rparr>"

record prune_result =
  pz_removed :: pruned
  pz_sizeBytesAfter :: nat
  pz_withinTarget :: bool

definition pruneToSize :: "disk \<Rightarrow> bool \<Rightarrow> nat \<Rightarrow> int \<Rightarrow> file_store \<Rightarrow> prune_result \<times> file_store" where
  "pruneToSize dk in_memory target chunkLedgers fs =
     (if in_memory then (\<lparr>pz_removed = no_prune, pz_sizeBytesAfter = 0, pz_withinTarget = True\<rparr>, fs)
      else
        let (fs, acc) = prune_loop dk target (max 1 chunkLedgers) fs no_prune;
            fs = (if pr_rowsRemoved acc > 0 then fs\<lparr>fs_bytes := after_vacuum dk (fs_db fs)\<rparr> else fs)
        in (\<lparr>pz_removed = acc, pz_sizeBytesAfter = fs_bytes fs, pz_withinTarget = (fs_bytes fs \<le> target)\<rparr>, fs))"

text \<open>What is left is a suffix of the ledgers, and the count is what went.\<close>

lemma delete_events_rows: "db_events (sql_delete_events P db) = filter (\<lambda>r. \<not> P r) (db_events db)"
  by (simp add: sql_delete_events_def Let_def)

lemma count_two_cuts:
  "length (filter (\<lambda>r. er_ledger r < max a c) rows) =
     length (filter (below a) rows) + length (filter (\<lambda>r. er_ledger r < c) (filter (\<lambda>r. \<not> below a r) rows))"
  by (induction rows) (auto simp: below_def)

lemma prune_loop_suffix:
  assumes "prune_loop dk target chunk fs acc = (fs', acc')"
  shows "\<exists>c. db_events (fs_db fs') = filter (\<lambda>r. c \<le> er_ledger r) (db_events (fs_db fs))
     \<and> pr_rowsRemoved acc' = pr_rowsRemoved acc + length (filter (\<lambda>r. er_ledger r < c) (db_events (fs_db fs)))"
  using assms
proof (induction dk target chunk fs acc arbitrary: fs' acc' rule: prune_loop.induct)
  case (1 dk target chunk fs acc)
  show ?case
  proof (cases "fs_bytes fs \<le> target \<or> db_events (fs_db fs) = []")
    case True
    then have "fs' = fs" "acc' = acc"
      using "1.prems" by (subst (asm) prune_loop.simps, simp add: oldest_ledger_def split: if_splits)+
    moreover obtain c where "\<forall>r \<in> set (db_events (fs_db fs)). c \<le> er_ledger r"
      using min_of_le [of _ "map er_ledger (db_events (fs_db fs))"] by auto
    moreover from this have "filter (\<lambda>r. c \<le> er_ledger r) (db_events (fs_db fs)) = db_events (fs_db fs)"
        "filter (\<lambda>r. er_ledger r < c) (db_events (fs_db fs)) = []"
      by (auto simp: filter_id_conv filter_empty_conv not_less)
    ultimately show ?thesis by (metis add_0_right list.size(3))
  next
    case False
    let ?rows = "db_events (fs_db fs)"
    let ?cut = "min_of (map er_ledger ?rows) + chunk"
    let ?doomed = "filter (below ?cut) ?rows"
    have old: "oldest_ledger (fs_db fs) = Some (min_of (map er_ledger ?rows))" using False by (simp add: oldest_ledger_def)
    show ?thesis
    proof (cases "?doomed = []")
      case True
      then have "fs' = fs" "acc' = acc" using "1.prems" False old by (subst (asm) prune_loop.simps, simp)+
      moreover have "filter (\<lambda>r. ?cut \<le> er_ledger r) ?rows = ?rows" "filter (\<lambda>r. er_ledger r < ?cut) ?rows = []"
        using True by (auto simp: filter_empty_conv below_def filter_id_conv not_less)
      ultimately show ?thesis by (metis add_0_right list.size(3))
    next
      case go: False
      let ?db = "sql_delete_events (below ?cut) (fs_db fs)"
      let ?fs = "\<lparr>fs_db = ?db, fs_bytes = after_delete dk ?db (fs_bytes fs)\<rparr>"
      let ?acc = "\<lparr>pr_rowsRemoved = pr_rowsRemoved acc + length ?doomed,
         pr_ledgersRemoved = pr_ledgersRemoved acc + length (remdups (map er_ledger ?doomed)),
         pr_highestPrunedLedger = Some (max_of (map er_ledger ?doomed))\<rparr>"
      have rec: "prune_loop dk target chunk ?fs ?acc = (fs', acc')"
        using "1.prems" False old go by (subst (asm) prune_loop.simps) (simp add: Let_def)
      have f: "\<not> fs_bytes fs \<le> target" using False by simp
      obtain c where c: "db_events (fs_db fs') = filter (\<lambda>r. c \<le> er_ledger r) (db_events ?db)"
        "pr_rowsRemoved acc' = pr_rowsRemoved ?acc + length (filter (\<lambda>r. er_ledger r < c) (db_events ?db))"
        using "1.IH" [OF f old refl refl go refl rec] by auto
      let ?m = "max ?cut c"
      have "db_events (fs_db fs') = filter (\<lambda>r. ?m \<le> er_ledger r) ?rows"
        unfolding c(1) delete_events_rows filter_filter by (rule filter_cong) (auto simp: below_def)
      moreover have "length (filter (\<lambda>r. er_ledger r < ?m) ?rows) =
          length ?doomed + length (filter (\<lambda>r. er_ledger r < c) (filter (\<lambda>r. \<not> below ?cut r) ?rows))"
        by (rule count_two_cuts)
      ultimately show ?thesis using c(2) by (auto simp: delete_events_rows intro!: exI [of _ ?m])
    qed
  qed
qed

text \<open>
  The loop measures the file between chunks, but only the VACUUM after the loop gives space
  back: while a DELETE does not shrink the file, the loop ends only when nothing is left.
\<close>

lemma prune_loop_all:
  assumes "\<And>db b. b \<le> after_delete dk db b" "target < fs_bytes fs" "0 < chunk"
  shows "db_events (fs_db (fst (prune_loop dk target chunk fs acc))) = []"
  using assms
proof (induction dk target chunk fs acc rule: prune_loop.induct)
  case (1 dk target chunk fs acc)
  let ?rows = "db_events (fs_db fs)"
  show ?case
  proof (cases "?rows = []")
    case True
    then show ?thesis by (subst prune_loop.simps) (simp add: oldest_ledger_def)
  next
    case False
    let ?cut = "min_of (map er_ledger ?rows) + chunk"
    let ?doomed = "filter (below ?cut) ?rows"
    have old: "oldest_ledger (fs_db fs) = Some (min_of (map er_ledger ?rows))" using False by (simp add: oldest_ledger_def)
    have "min_of (map er_ledger ?rows) \<in> er_ledger ` set ?rows" using min_of_in [of "map er_ledger ?rows"] False by simp
    then obtain r where r: "r \<in> set ?rows" "er_ledger r = min_of (map er_ledger ?rows)" by auto
    then have "r \<in> set ?doomed" using "1.prems"(3) by (simp add: below_def)
    then have go: "?doomed \<noteq> []" by (metis emptyE list.set(1))
    let ?db = "sql_delete_events (below ?cut) (fs_db fs)"
    have f: "\<not> fs_bytes fs \<le> target" using "1.prems"(2) by simp
    have "target < after_delete dk ?db (fs_bytes fs)" using "1.prems"(1) [of "fs_bytes fs" ?db] "1.prems"(2) by linarith
    with "1.IH" [OF f old refl refl go refl] "1.prems" show ?thesis
      by (subst prune_loop.simps) (simp add: f old go Let_def)
  qed
qed

lemma delete_ok:
  assumes "db_ok cd db"
  shows "db_ok cd (sql_delete_events P db)"
proof -
  let ?gone = "set (map er_id (filter P (db_events db)))"
  have d: "distinct (map er_id (db_events db))" using assms by (simp add: db_ok_def db_ids_def)
  have g: "er_id r \<in> ?gone \<longleftrightarrow> P r" if "r \<in> set (db_events db)" for r
    using that d by (auto simp: distinct_map inj_on_def)
  have a: "set (filter (\<lambda>(i, a, p). i \<notin> ?gone) (db_addresses db)) =
      \<Union> (row_addresses cd ` set (filter (\<lambda>r. \<not> P r) (db_events db)))"
  proof -
    have i: "x \<in> row_addresses cd r \<Longrightarrow> fst x = er_id r" for x r
      by (auto simp: row_addresses_def split: option.splits)
    have "set (filter (\<lambda>(i, a, p). i \<notin> ?gone) (db_addresses db)) = {x \<in> \<Union> (row_addresses cd ` set (db_events db)). fst x \<notin> ?gone}"
      using assms by (auto simp: db_ok_def)
    also have "\<dots> = \<Union> (row_addresses cd ` set (filter (\<lambda>r. \<not> P r) (db_events db)))"
      using g i by fastforce
    finally show ?thesis .
  qed
  have f: "mset (filter (\<lambda>(i, t, v). i \<notin> ?gone) (db_fts db)) = mset (map (fts_row cd) (filter (\<lambda>r. \<not> P r) (db_events db)))"
    if "db_hasFts db"
  proof -
    have m: "mset (db_fts db) = mset (map (fts_row cd) (db_events db))" using assms that by (simp add: db_ok_def)
    have "mset (filter (\<lambda>(i, t, v). i \<notin> ?gone) (db_fts db)) = filter_mset (\<lambda>(i, t, v). i \<notin> ?gone) (mset (map (fts_row cd) (db_events db)))"
      by (simp add: m mset_filter)
    also have "\<dots> = mset (filter (\<lambda>(i, t, v). i \<notin> ?gone) (map (fts_row cd) (db_events db)))" by (simp add: mset_filter)
    also have "filter (\<lambda>(i, t, v). i \<notin> ?gone) (map (fts_row cd) (db_events db)) = map (fts_row cd) (filter (\<lambda>r. \<not> P r) (db_events db))"
      unfolding filter_map using g by (intro arg_cong [where f = "map (fts_row cd)"] filter_cong) (auto simp: fts_row_def)
    finally show ?thesis .
  qed
  show ?thesis
    using assms a f by (simp add: db_ok_def sql_delete_events_def Let_def db_ids_def distinct_map_filter)
qed

section \<open>Re-decoding\<close>

text \<open>The raw event of a row; None where reading it throws.\<close>

definition raw_of_row :: "codec \<Rightarrow> event_row \<Rightarrow> raw_event option" where
  "raw_of_row cd r =
     (case topics_xdr_of cd (er_topics_xdr_json r) of None \<Rightarrow> None | Some txdr \<Rightarrow>
      (case decompressXdrColumn cd (er_value_xdr r) of None \<Rightarrow> None | Some vx \<Rightarrow>
        if cd_date_ms cd (er_indexed_at r) = None then None
        else Some \<lparr>re_id = er_id r, re_type = er_type r, re_ledger = er_ledger r, re_ledgerClosedAt = er_ledger_closed_at r,
          re_contractId = er_contract_id r, re_topic = txdr, re_value = vx, re_txHash = er_tx_hash r,
          re_transactionIndex = er_transaction_index r, re_operationIndex = er_operation_index r,
          re_inSuccessfulContractCall = (er_in_successful_call r = 1)\<rparr>))"

definition recompute :: "codec \<Rightarrow> event_row \<Rightarrow> (lens_event \<times> event_row) option" where
  "recompute cd r = (case raw_of_row cd r of None \<Rightarrow> None | Some raw \<Rightarrow>
     (let e = decodeEvent cd raw (er_indexed_at r); p = insertParams cd e
      in Some (e, r\<lparr>er_topics_json := er_topics_json p, er_topics_xdr_json := er_topics_xdr_json p,
           er_topic_count := er_topic_count p, er_topic0 := er_topic0 p, er_topic1 := er_topic1 p,
           er_topic2 := er_topic2 p, er_topic3 := er_topic3 p, er_value_type := er_value_type p,
           er_value_json := er_value_json p, er_value_xdr := er_value_xdr p, er_decode_error := er_decode_error p\<rparr>)))"

text \<open>UPDATE ... WHERE id = ?, with its trigger on the search index.\<close>

definition sql_update_event :: "codec \<Rightarrow> event_row \<Rightarrow> database \<Rightarrow> database" where
  "sql_update_event cd r' db =
     db\<lparr>db_events := map (\<lambda>r. if er_id r = er_id r' then r' else r) (db_events db),
        db_fts := (if db_hasFts db then filter (\<lambda>(i, t, v). i \<noteq> er_id r') (db_fts db) @ [fts_row cd r'] else db_fts db)\<rparr>"

definition refreshAddresses :: "codec \<Rightarrow> string \<Rightarrow> lens_event \<Rightarrow> database \<Rightarrow> database" where
  "refreshAddresses cd i e db =
     insertAddresses cd i (le_topicsXdr e) (le_valueXdr e)
       (db\<lparr>db_addresses := filter (\<lambda>(j, a, p). j \<noteq> i) (db_addresses db)\<rparr>)"

definition redecode_row :: "codec \<Rightarrow> event_row \<Rightarrow> database \<Rightarrow> (string, database) result" where
  "redecode_row cd r db = (case recompute cd r of
       None \<Rightarrow> Inl ''unreadable row''
     | Some (e, r') \<Rightarrow> Inr (refreshAddresses cd (er_id r) e (sql_update_event cd r' db)))"

fun redecode_loop :: "codec \<Rightarrow> event_row list \<Rightarrow> database \<Rightarrow> (string, database) result" where
  "redecode_loop cd [] db = Inr db"
| "redecode_loop cd (r # rs) db = (case redecode_row cd r db of Inl e \<Rightarrow> Inl e | Inr db \<Rightarrow> redecode_loop cd rs db)"

definition redecode :: "codec \<Rightarrow> bool \<Rightarrow> database \<Rightarrow> (string, nat) result \<times> database" where
  "redecode cd everything db =
     (let rows = filter (\<lambda>r. everything \<or> er_decode_error r \<noteq> None) (db_events db) in
      if rows = [] then (Inr 0, db)
      else transaction (\<lambda>db. case redecode_loop cd rows db of Inl e \<Rightarrow> Inl e | Inr db \<Rightarrow> Inr (length rows, db)) db)"

definition repairRow :: "codec \<Rightarrow> string \<Rightarrow> database \<Rightarrow> (string, unit) result \<times> database" where
  "repairRow cd i db = (case find_row db i of None \<Rightarrow> (Inr (), db)
     | Some r \<Rightarrow> (case recompute cd r of None \<Rightarrow> (Inl ''unreadable row'', db)
        | Some _ \<Rightarrow> transaction (\<lambda>db. case redecode_row cd r db of Inl e \<Rightarrow> Inl e | Inr db \<Rightarrow> Inr ((), db)) db))"

section \<open>The integrity check\<close>

definition quoted_or_null :: "string option \<Rightarrow> string" where
  "quoted_or_null v = [CHR 0x22] @ (case v of None \<Rightarrow> ''null'' | Some s \<Rightarrow> s) @ [CHR 0x22]"

definition topic_problem :: "codec \<Rightarrow> event_row \<Rightarrow> json list \<Rightarrow> nat \<Rightarrow> string list" where
  "topic_problem cd r topics i =
     (if nth_topic_key cd topics i \<noteq> topic_column r i
      then [''topic'' @ show_nat i @ '' is '' @ quoted_or_null (topic_column r i) @ '', expected ''
              @ quoted_or_null (nth_topic_key cd topics i) @ '' from topics_json'']
      else [])"

definition row_problems :: "codec \<Rightarrow> event_row \<Rightarrow> string list" where
  "row_problems cd r =
     ((case er_topics_json r of None \<Rightarrow> [''topics_json is not valid JSON''] | Some (JArr _) \<Rightarrow> []
        | Some _ \<Rightarrow> [''topics_json is not a JSON array'']) @
      (if topics_xdr_of cd (er_topics_xdr_json r) = None
       then [''topics_xdr_json is not valid JSON (or not validly compressed)''] else []) @
      (if er_value_json r = None then [''value_json is not valid JSON''] else []) @
      (case er_topics_json r of
         Some (JArr topics) \<Rightarrow>
           (if int (length topics) \<noteq> er_topic_count r
            then [''topic_count ('' @ show_int (er_topic_count r) @ '') does not match topics_json length (''
                    @ show_nat (length topics) @ '')''] else []) @
           concat (map (topic_problem cd r topics) [0, 1, 2, 3])
       | _ \<Rightarrow> []))"

definition checkIntegrity :: "codec \<Rightarrow> database \<Rightarrow> (string \<times> string list) list" where
  "checkIntegrity cd db = filter (\<lambda>(i, ps). length ps > 0) (map (\<lambda>r. (er_id r, row_problems cd r)) (db_events db))"

definition rebuildSearchIndex :: "codec \<Rightarrow> bool \<Rightarrow> database \<Rightarrow> (string, unit) result \<times> database" where
  "rebuildSearchIndex cd searchAvailable db =
     (if \<not> searchAvailable then (Inl ''rebuildSearchIndex requires the FTS5 SQLite extension, which this build does not have.'', db)
      else transaction (\<lambda>db. Inr ((), db\<lparr>db_fts := map (fts_row cd) (db_events db)\<rparr>)) db)"

lemma checkIntegrity_clean: "checkIntegrity cd db = [] \<longleftrightarrow> (\<forall>r \<in> set (db_events db). row_problems cd r = [])"
  by (auto simp: checkIntegrity_def filter_empty_conv)

lemma insertParams_problems:
  assumes "codec_ok cd"
  shows "row_problems cd (insertParams cd e) = []"
proof -
  have "topics_xdr_of cd (encodeXdrColumn cd (strings_text ss)) = Some ss" for ss
    by (simp add: topics_xdr_of_def decompress_encode [OF assms] parse_strings_text)
  then show ?thesis
    by (simp add: row_problems_def insertParams_def topics_json_of_def topic_problem_def topic_column_def)
qed

text \<open>The check reads only the columns \<open>recompute\<close> rewrites.\<close>

lemma row_problems_cong:
  assumes "er_topics_json r = er_topics_json p" "er_topics_xdr_json r = er_topics_xdr_json p"
    "er_topic_count r = er_topic_count p" "er_topic0 r = er_topic0 p" "er_topic1 r = er_topic1 p"
    "er_topic2 r = er_topic2 p" "er_topic3 r = er_topic3 p" "er_value_json r = er_value_json p"
  shows "row_problems cd r = row_problems cd p"
proof -
  have t: "topic_problem cd r = topic_problem cd p"
    using assms by (intro ext) (simp add: topic_problem_def topic_column_def)
  show ?thesis unfolding row_problems_def assms t by (rule refl)
qed

lemma recompute_problems:
  assumes "codec_ok cd" "recompute cd r = Some (e, r')"
  shows "row_problems cd r' = []" and "er_id r' = er_id r"
proof -
  from assms(2) obtain raw where r': "r' = r\<lparr>er_topics_json := er_topics_json (insertParams cd e),
      er_topics_xdr_json := er_topics_xdr_json (insertParams cd e),
      er_topic_count := er_topic_count (insertParams cd e), er_topic0 := er_topic0 (insertParams cd e),
      er_topic1 := er_topic1 (insertParams cd e), er_topic2 := er_topic2 (insertParams cd e),
      er_topic3 := er_topic3 (insertParams cd e), er_value_type := er_value_type (insertParams cd e),
      er_value_json := er_value_json (insertParams cd e), er_value_xdr := er_value_xdr (insertParams cd e),
      er_decode_error := er_decode_error (insertParams cd e)\<rparr>"
    by (auto simp: recompute_def Let_def split: option.splits)
  have "row_problems cd r' = row_problems cd (insertParams cd e)"
    by (rule row_problems_cong) (simp_all add: r')
  then show "row_problems cd r' = []" using insertParams_problems [OF assms(1)] by simp
  show "er_id r' = er_id r" by (simp add: r')
qed

lemma refreshAddresses_events [simp]: "db_events (refreshAddresses cd i e db) = db_events db"
  by (simp add: refreshAddresses_def)

lemma redecode_row_events:
  assumes "redecode_row cd r db = Inr db'"
  shows "\<exists>e r'. recompute cd r = Some (e, r')
    \<and> db_events db' = map (\<lambda>x. if er_id x = er_id r' then r' else x) (db_events db)"
  using assms by (auto simp: redecode_row_def sql_update_event_def split: option.splits)

lemma redecode_loop_clean:
  assumes "codec_ok cd" "redecode_loop cd rs db = Inr db'"
    and "\<forall>x \<in> set (db_events db). er_id x \<in> er_id ` set rs \<or> row_problems cd x = []"
  shows "\<forall>x \<in> set (db_events db'). row_problems cd x = []"
  using assms(2,3)
proof (induction rs arbitrary: db)
  case (Cons r rs)
  obtain db1 where one: "redecode_row cd r db = Inr db1" "redecode_loop cd rs db1 = Inr db'"
    using Cons.prems(1) by (auto split: sum.splits)
  obtain e r' where r': "recompute cd r = Some (e, r')"
      "db_events db1 = map (\<lambda>x. if er_id x = er_id r' then r' else x) (db_events db)"
    using redecode_row_events [OF one(1)] by blast
  note p = recompute_problems [OF assms(1) r'(1)]
  show ?case using Cons.prems(2) p by (intro Cons.IH [OF one(2)]) (auto simp: r'(2))
qed simp

lemma redecode_clean:
  assumes "codec_ok cd" "redecode cd True db = (Inr n, db')"
  shows "checkIntegrity cd db' = [] \<and> n = length (db_events db)"
proof (cases "db_events db = []")
  case True
  then show ?thesis using assms(2) by (auto simp: redecode_def checkIntegrity_clean)
next
  case False
  then obtain db1 where l: "redecode_loop cd (db_events db) db = Inr db1" "db' = db1" "n = length (db_events db)"
    using assms(2) by (auto simp: redecode_def transaction_def Let_def split: sum.splits)
  show ?thesis using redecode_loop_clean [OF assms(1) l(1)] l by (auto simp: checkIntegrity_clean)
qed

section \<open>Snapshots\<close>

datatype snapshot_line = BlankLine | EventLine lens_event | BadLine

text \<open>The rows in id order, one line each; None where a row cannot be read.\<close>

definition exportSnapshot :: "codec \<Rightarrow> database \<Rightarrow> (nat \<times> snapshot_line list) option" where
  "exportSnapshot cd db =
     map_option (\<lambda>es. (length es, map EventLine es)) (option_list (map (rowToEvent cd) (sort_key er_id (db_events db))))"

definition BATCH_SIZE :: nat where
  "BATCH_SIZE = 500"

definition flush_batch ::
    "(string \<Rightarrow> string option) \<Rightarrow> codec \<Rightarrow> lens_event list \<Rightarrow> nat \<Rightarrow> database \<Rightarrow> (string, nat) result \<times> database" where
  "flush_batch io cd batch inserted db =
     (if length batch = 0 then (Inr inserted, db)
      else case insertDecoded io cd batch db of (Inl e, db) \<Rightarrow> (Inl e, db) | (Inr n, db) \<Rightarrow> (Inr (inserted + n), db))"

fun import_loop ::
    "(string \<Rightarrow> string option) \<Rightarrow> codec \<Rightarrow> lens_event list \<Rightarrow> nat \<Rightarrow> snapshot_line list \<Rightarrow> database
      \<Rightarrow> (string, nat) result \<times> database"
where
  "import_loop io cd batch inserted [] db = flush_batch io cd batch inserted db"
| "import_loop io cd batch inserted (l # ls) db =
     (case l of
        BlankLine \<Rightarrow> import_loop io cd batch inserted ls db
      | BadLine \<Rightarrow> (Inl ''not JSON'', db)
      | EventLine e \<Rightarrow>
         (if length (batch @ [e]) \<ge> BATCH_SIZE
          then (case flush_batch io cd (batch @ [e]) inserted db of
                  (Inl err, db) \<Rightarrow> (Inl err, db)
                | (Inr n, db) \<Rightarrow> import_loop io cd [] n ls db)
          else import_loop io cd (batch @ [e]) inserted ls db))"

definition importSnapshot :: "(string \<Rightarrow> string option) \<Rightarrow> codec \<Rightarrow> snapshot_line list \<Rightarrow> database \<Rightarrow> (string, nat) result \<times> database" where
  "importSnapshot io cd ls db = import_loop io cd [] 0 ls db"

fun line_events :: "snapshot_line list \<Rightarrow> lens_event list" where
  "line_events [] = []"
| "line_events (EventLine e # ls) = e # line_events ls"
| "line_events (l # ls) = line_events ls"

lemma new_events_append:
  "new_events K (xs @ ys) = new_events K xs @ new_events (K \<union> le_id ` set (new_events K xs)) ys"
proof (induction xs arbitrary: K)
  case (Cons x xs)
  then show ?case by auto
qed simp

lemma flush_batch_result:
  assumes "\<forall>e \<in> set batch. io (le_id e) = None"
  shows "fst (flush_batch io cd batch n db) = Inr (n + length (new_events (set (db_ids db)) batch))"
    and "db_events (snd (flush_batch io cd batch n db)) = db_events db @ map (insertParams cd) (new_events (set (db_ids db)) batch)"
  using insertDecoded_result [OF assms, of cd db]
  by (auto simp: flush_batch_def split: prod.splits sum.splits)

lemma import_loop_result:
  assumes "\<forall>e \<in> set (batch @ line_events ls). io (le_id e) = None" and "BadLine \<notin> set ls"
  shows "fst (import_loop io cd batch n ls db) = Inr (n + length (new_events (set (db_ids db)) (batch @ line_events ls)))
    \<and> db_events (snd (import_loop io cd batch n ls db)) =
       db_events db @ map (insertParams cd) (new_events (set (db_ids db)) (batch @ line_events ls))"
  using assms
proof (induction ls arbitrary: batch n db)
  case Nil
  then show ?case using flush_batch_result [of batch io cd n db] by simp
next
  case (Cons l ls)
  show ?case
  proof (cases l)
    case BlankLine
    then show ?thesis using Cons by simp
  next
    case BadLine
    then show ?thesis using Cons.prems by simp
  next
    case (EventLine e)
    show ?thesis
    proof (cases "length (batch @ [e]) \<ge> BATCH_SIZE")
      case False
      then show ?thesis using Cons.IH [of "batch @ [e]" n db] Cons.prems EventLine by simp
    next
      case True
      obtain r db1 where f: "flush_batch io cd (batch @ [e]) n db = (r, db1)" by fastforce
      have b: "\<forall>e \<in> set (batch @ [e]). io (le_id e) = None" using Cons.prems EventLine by simp
      note fr = flush_batch_result [OF b, of cd n db, unfolded f, simplified fst_conv snd_conv]
      have ids: "set (db_ids db1) = set (db_ids db) \<union> le_id ` set (new_events (set (db_ids db)) (batch @ [e]))"
        by (auto simp: db_ids_def fr(2) image_image)
      have ih: "fst (import_loop io cd [] (n + length (new_events (set (db_ids db)) (batch @ [e]))) ls db1) =
          Inr (n + length (new_events (set (db_ids db)) (batch @ [e])) + length (new_events (set (db_ids db1)) (line_events ls)))
        \<and> db_events (snd (import_loop io cd [] (n + length (new_events (set (db_ids db)) (batch @ [e]))) ls db1)) =
          db_events db1 @ map (insertParams cd) (new_events (set (db_ids db1)) (line_events ls))"
        using Cons.IH [of "[]" "n + length (new_events (set (db_ids db)) (batch @ [e]))" db1] Cons.prems EventLine by simp
      have split: "new_events (set (db_ids db)) (batch @ line_events (l # ls)) =
          new_events (set (db_ids db)) (batch @ [e]) @ new_events (set (db_ids db1)) (line_events ls)"
        using new_events_append [of "set (db_ids db)" "batch @ [e]" "line_events ls"] EventLine by (simp add: ids)
      show ?thesis using True ih unfolding split by (simp add: EventLine f fr del: new_events.simps)
    qed
  qed
qed

lemma option_list_all_Some: "\<forall>x \<in> set xs. f x \<noteq> None \<Longrightarrow> option_list (map f xs) = Some (map (the \<circ> f) xs)"
  by (induction xs) auto

section \<open>The invariant through re-decoding\<close>

lemma recompute_insertParams:
  assumes "row_ok cd r" "recompute cd r = Some (e, r')"
  shows "r' = insertParams cd e" and "le_id e = er_id r"
    and "row_addresses cd r = (\<lambda>(a, p). (er_id r, a, p)) ` set (address_positions cd (le_topicsXdr e) (le_valueXdr e))"
proof -
  obtain e0 where e0: "rowToEvent cd r = Some e0" "insertParams cd e0 = r" using assms(1) by (auto simp: row_ok_def)
  obtain raw where raw: "raw_of_row cd r = Some raw" "e = decodeEvent cd raw (er_indexed_at r)"
    using assms(2) by (auto simp: recompute_def Let_def split: option.splits)
  have xdr: "le_topicsXdr e0 = re_topic raw" "le_valueXdr e0 = re_value raw"
    using e0(1) raw(1) by (auto simp: rowToEvent_def raw_of_row_def split: option.splits if_splits)
  have keep: "er_id r = re_id raw" "er_type r = re_type raw" "er_ledger r = re_ledger raw"
      "er_ledger_closed_at r = re_ledgerClosedAt raw" "er_contract_id r = re_contractId raw" "er_tx_hash r = re_txHash raw"
      "er_transaction_index r = re_transactionIndex raw" "er_operation_index r = re_operationIndex raw"
      "(er_in_successful_call r = 1) = re_inSuccessfulContractCall raw"
    using raw(1) by (auto simp: raw_of_row_def split: option.splits if_splits)
  have unix: "er_closed_at_unix r = closed_at_unix cd (er_ledger_closed_at r)"
      "er_in_successful_call r = (if er_in_successful_call r = 1 then 1 else 0)"
    using e0(2) by (auto simp: insertParams_def)
  show "r' = insertParams cd e"
    using assms(2) raw keep unix
    by (cases r) (auto simp: recompute_def Let_def insertParams_def decodeEvent_fields)
  show "le_id e = er_id r" using raw keep by (simp add: decodeEvent_fields)
  show "row_addresses cd r = (\<lambda>(a, p). (er_id r, a, p)) ` set (address_positions cd (le_topicsXdr e) (le_valueXdr e))"
    using e0(1) xdr raw by (simp add: row_addresses_def decodeEvent_fields)
qed

lemma replace_mset:
  assumes "distinct (map k xs)" "x \<in> set xs" "k x' = k x"
  shows "mset (map (\<lambda>y. if k y = k x' then x' else y) xs) = add_mset x' (filter_mset (\<lambda>y. k y \<noteq> k x') (mset xs))"
  using assms
proof (induction xs)
  case (Cons y ys)
  show ?case
  proof (cases "k y = k x'")
    case True
    then have "\<forall>z \<in> set ys. k z \<noteq> k x'" using Cons.prems(1) by (metis distinct.simps(2) imageI list.simps(9) set_map)
    then have "map (\<lambda>y. if k y = k x' then x' else y) ys = ys" "filter_mset (\<lambda>y. k y \<noteq> k x') (mset ys) = mset ys"
      by (auto intro: map_idI simp: filter_mset_eq_conv)
    with True show ?thesis by simp
  next
    case False
    then show ?thesis using Cons by auto
  qed
qed simp

lemma redecode_row_ok:
  assumes "codec_ok cd" "db_ok cd db" "r \<in> set (db_events db)" "redecode_row cd r db = Inr db'"
  shows "db_ok cd db'" and "\<exists>r'. er_id r' = er_id r \<and> db_events db' = map (\<lambda>x. if er_id x = er_id r then r' else x) (db_events db)"
proof -
  obtain e r' where e: "recompute cd r = Some (e, r')"
    and db': "db' = refreshAddresses cd (er_id r) e (sql_update_event cd r' db)"
    using assms(4) by (auto simp: redecode_row_def split: option.splits)
  have rok: "row_ok cd r" using assms(2,3) by (simp add: db_ok_def)
  note q = recompute_insertParams [OF rok e]
  have id: "er_id r' = er_id r" using q(1,2) by simp
  have ty: "er_type r' = er_type r" using e by (auto simp: recompute_def Let_def split: option.splits)
  have d: "distinct (map er_id (db_events db))" using assms(2) by (simp add: db_ok_def db_ids_def)
  have ev: "db_events db' = map (\<lambda>x. if er_id x = er_id r then r' else x) (db_events db)"
    by (simp add: db' sql_update_event_def id)
  have ids: "db_ids db' = db_ids db" using id by (simp add: db_ids_def ev)
  have rows: "\<forall>x \<in> set (db_events db'). er_type x \<in> {ContractEvent, SystemEvent} \<and> row_ok cd x"
    using assms(2,3) ty row_ok_insertParams [OF assms(1), of e] by (auto simp: ev db_ok_def q(1) simp del: insert_iff) 
  have same: "x \<in> set (db_events db) \<Longrightarrow> er_id x = er_id r \<Longrightarrow> x = r" for x
    using d assms(3) by (auto simp: distinct_map inj_on_def)
  have ra: "row_addresses cd r' = row_addresses cd r"
    unfolding q(3) unfolding q(1) by (simp add: row_addresses_def rowToEvent_insertParams [OF assms(1)] q(2))
  have u: "\<Union> (row_addresses cd ` set (db_events db')) = \<Union> (row_addresses cd ` set (db_events db))"
    using assms(3) same by (auto simp: ev ra split: if_splits) 
  have fi: "x \<in> row_addresses cd y \<Longrightarrow> fst x = er_id y" for x y
    by (auto simp: row_addresses_def split: option.splits)
  have a: "set (db_addresses db') = set (filter (\<lambda>(j, a, p). j \<noteq> er_id r) (db_addresses db)) \<union> row_addresses cd r"
    by (simp add: db' refreshAddresses_def insertAddresses_set sql_update_event_def q(3))
  have "set (db_addresses db') = \<Union> (row_addresses cd ` set (db_events db))"
  proof -
    have old: "set (db_addresses db) = \<Union> (row_addresses cd ` set (db_events db))" using assms(2) by (simp add: db_ok_def)
    have "x \<in> row_addresses cd r" if "x \<in> set (db_addresses db)" "fst x = er_id r" for x
      using that old fi same by fastforce
    moreover have "row_addresses cd r \<subseteq> set (db_addresses db)" using old assms(3) by auto
    ultimately show ?thesis unfolding a old [symmetric] by (auto simp: case_prod_beta)
  qed
  moreover have "mset (db_fts db') = mset (map (fts_row cd) (db_events db'))" if h: "db_hasFts db'"
  proof -
    have h0: "db_hasFts db" using h by (simp add: db' refreshAddresses_def sql_update_event_def)
    have m: "mset (db_fts db) = mset (map (fts_row cd) (db_events db))" using assms(2) h0 by (simp add: db_ok_def)
    have "mset (db_fts db') = add_mset (fts_row cd r') (filter_mset (\<lambda>(i, t, v). i \<noteq> er_id r') (mset (db_fts db)))"
      using h0 by (simp add: db' refreshAddresses_def sql_update_event_def mset_filter)
    also have "filter_mset (\<lambda>(i, t, v). i \<noteq> er_id r') (mset (db_fts db)) =
        image_mset (fts_row cd) (filter_mset (\<lambda>y. er_id y \<noteq> er_id r') (mset (db_events db)))"
      unfolding m by (simp add: filter_mset_image_mset fts_row_def case_prod_beta)
    finally have f: "mset (db_fts db') = add_mset (fts_row cd r')
        (image_mset (fts_row cd) (filter_mset (\<lambda>y. er_id y \<noteq> er_id r') (mset (db_events db))))" .
    have "mset (db_events db') = add_mset r' (filter_mset (\<lambda>y. er_id y \<noteq> er_id r') (mset (db_events db)))"
      using replace_mset [OF d assms(3) id] by (simp add: ev id)
    then show ?thesis by (simp add: f)
  qed
  ultimately show "db_ok cd db'" using assms(2) ids rows u by (simp add: db_ok_def)
  show "\<exists>r'. er_id r' = er_id r \<and> db_events db' = map (\<lambda>x. if er_id x = er_id r then r' else x) (db_events db)"
    using ev id by blast
qed

end
