(* ===== verification/Sqlite_Schema.thy ===== *)
theory Sqlite_Schema
  imports Prelude
begin

text \<open>
  Migrations (\<open>packages/store/src/schema.ts\<close>) and their runner (\<open>migrate\<close> and
  \<open>migrateDown\<close> of \<open>sqlite-store.ts\<close>). A schema is the list of its objects, each with the
  table it belongs to; a statement fails as SQLite makes it fail (an object that exists, a
  table that does not). \<open>fts5\<close> says whether the SQLite build has the extension.
\<close>

datatype ddl =
    CreateTable string
  | CreateVirtual string
  | CreateOn string string
  | DropIfExists string

record migration =
  mg_version :: nat
  mg_name :: string
  mg_up :: "ddl list"
  mg_down :: "ddl list option"
  mg_requiresFts5 :: bool

definition MIGRATIONS :: "migration list" where
  "MIGRATIONS =
     [\<lparr>mg_version = 1, mg_name = ''initial-events-schema'',
       mg_up = [CreateTable ''events'', CreateOn ''idx_events_contract_id_desc'' ''events'',
                CreateOn ''idx_events_ledger'' ''events'', CreateOn ''idx_events_topic0'' ''events'',
                CreateOn ''idx_events_contract_topic0'' ''events'', CreateOn ''idx_events_tx_hash'' ''events'',
                CreateTable ''stream_state''],
       mg_down = Some [DropIfExists ''stream_state'', DropIfExists ''events''], mg_requiresFts5 = False\<rparr>,
      \<lparr>mg_version = 2, mg_name = ''index-indexed-at'',
       mg_up = [CreateOn ''idx_events_indexed_at'' ''events''],
       mg_down = Some [DropIfExists ''idx_events_indexed_at''], mg_requiresFts5 = False\<rparr>,
      \<lparr>mg_version = 3, mg_name = ''index-closed-at-unix'',
       mg_up = [CreateOn ''idx_events_closed_at_unix'' ''events''],
       mg_down = Some [DropIfExists ''idx_events_closed_at_unix''], mg_requiresFts5 = False\<rparr>,
      \<lparr>mg_version = 4, mg_name = ''index-decoded-addresses'',
       mg_up = [CreateTable ''event_addresses'', CreateOn ''idx_event_addresses_address'' ''event_addresses'',
                CreateOn ''idx_event_addresses_event_id'' ''event_addresses''],
       mg_down = Some [DropIfExists ''event_addresses''], mg_requiresFts5 = False\<rparr>,
      \<lparr>mg_version = 5, mg_name = ''full-text-search'',
       mg_up = [CreateVirtual ''events_fts'', CreateOn ''trg_events_fts_insert'' ''events'',
                CreateOn ''trg_events_fts_update'' ''events'', CreateOn ''trg_events_fts_delete'' ''events''],
       mg_down = Some [DropIfExists ''trg_events_fts_delete'', DropIfExists ''trg_events_fts_update'',
                DropIfExists ''trg_events_fts_insert'', DropIfExists ''events_fts''], mg_requiresFts5 = True\<rparr>,
      \<lparr>mg_version = 6, mg_name = ''contract-specs'',
       mg_up = [CreateTable ''contract_specs''],
       mg_down = Some [DropIfExists ''contract_specs''], mg_requiresFts5 = False\<rparr>]"

record schema =
  sc_objects :: "(string \<times> string) list"
  sc_applied :: "(nat \<times> string) list"

definition has_object :: "schema \<Rightarrow> string \<Rightarrow> bool" where
  "has_object s name = (name \<in> fst ` set (sc_objects s))"

fun exec_ddl :: "bool \<Rightarrow> ddl \<Rightarrow> schema \<Rightarrow> (string, schema) result" where
  "exec_ddl fts5 (CreateTable t) s =
     (if has_object s t then Inl (''table '' @ t @ '' already exists'')
      else Inr (s\<lparr>sc_objects := sc_objects s @ [(t, t)]\<rparr>))"
| "exec_ddl fts5 (CreateVirtual t) s =
     (if \<not> fts5 then Inl ''no such module: fts5''
      else if has_object s t then Inl (''table '' @ t @ '' already exists'')
      else Inr (s\<lparr>sc_objects := sc_objects s @ [(t, t)]\<rparr>))"
| "exec_ddl fts5 (CreateOn i t) s =
     (if \<not> has_object s t then Inl (''no such table: '' @ t)
      else if has_object s i then Inl (i @ '' already exists'')
      else Inr (s\<lparr>sc_objects := sc_objects s @ [(i, t)]\<rparr>))"
| "exec_ddl fts5 (DropIfExists x) s = Inr (s\<lparr>sc_objects := filter (\<lambda>(n, owner). n \<noteq> x \<and> owner \<noteq> x) (sc_objects s)\<rparr>)"

fun exec_all :: "bool \<Rightarrow> ddl list \<Rightarrow> schema \<Rightarrow> (string, schema) result" where
  "exec_all fts5 [] s = Inr s"
| "exec_all fts5 (d # ds) s = res_bind (exec_ddl fts5 d s) (exec_all fts5 ds)"

section \<open>migrate\<close>

definition pending :: "migration list \<Rightarrow> schema \<Rightarrow> migration list" where
  "pending ms s = sort_key mg_version (filter (\<lambda>m. mg_version m \<notin> fst ` set (sc_applied s)) ms)"

fun apply_up :: "bool \<Rightarrow> migration list \<Rightarrow> schema \<Rightarrow> (string, schema) result" where
  "apply_up fts5 [] s = Inr s"
| "apply_up fts5 (m # ms) s =
     res_bind (if mg_requiresFts5 m \<and> \<not> fts5 then Inr s else exec_all fts5 (mg_up m) s)
       (\<lambda>s. apply_up fts5 ms (s\<lparr>sc_applied := sc_applied s @ [(mg_version m, mg_name m)]\<rparr>))"

definition sql_transaction :: "(schema \<Rightarrow> (string, schema) result) \<Rightarrow> schema \<Rightarrow> (string, unit) result \<times> schema" where
  "sql_transaction body s = (case body s of Inl e \<Rightarrow> (Inl e, s) | Inr s' \<Rightarrow> (Inr (), s'))"

definition migrateSync :: "bool \<Rightarrow> migration list \<Rightarrow> schema \<Rightarrow> (string, unit) result \<times> schema" where
  "migrateSync fts5 ms s = (let todo = pending ms s in if todo = [] then (Inr (), s) else sql_transaction (apply_up fts5 todo) s)"

section \<open>migrateDown\<close>

definition by_version :: "migration list \<Rightarrow> nat \<Rightarrow> migration option" where
  "by_version ms v = find (\<lambda>m. mg_version m = v) (rev ms)"

definition down_of :: "migration list \<Rightarrow> nat \<Rightarrow> ddl list option" where
  "down_of ms v = (case by_version ms v of None \<Rightarrow> None | Some m \<Rightarrow> mg_down m)"

fun apply_down :: "bool \<Rightarrow> migration list \<Rightarrow> nat list \<Rightarrow> schema \<Rightarrow> (string, schema) result" where
  "apply_down fts5 ms [] s = Inr s"
| "apply_down fts5 ms (v # vs) s =
     res_bind (exec_all fts5 (case down_of ms v of Some d \<Rightarrow> d | None \<Rightarrow> []) s)
       (\<lambda>s. apply_down fts5 ms vs (s\<lparr>sc_applied := filter (\<lambda>(w, n). w \<noteq> v) (sc_applied s)\<rparr>))"

definition migrateDown :: "bool \<Rightarrow> migration list \<Rightarrow> nat \<Rightarrow> schema \<Rightarrow> (string, nat list) result \<times> schema" where
  "migrateDown fts5 ms toVersion s =
     (let applied = filter (\<lambda>(v, n). v > toVersion) (rev (sort_key fst (sc_applied s))) in
      if applied = [] then (Inr [], s)
      else case filter (\<lambda>(v, n). down_of ms v = None) applied of
          (v, n) # _ \<Rightarrow> (Inl (''cannot roll back: migration '' @ show_nat v @ '' ('' @ n @ '') has no down SQL. Nothing was rolled back.''), s)
        | [] \<Rightarrow> (case sql_transaction (apply_down fts5 ms (map fst applied)) s of
                   (Inl e, s) \<Rightarrow> (Inl e, s) | (Inr _, s) \<Rightarrow> (Inr (map fst applied), s)))"

definition schema_version :: "schema \<Rightarrow> nat" where
  "schema_version s = foldl max 0 (map fst (sc_applied s))"

definition empty_schema :: schema where
  "empty_schema = \<lparr>sc_objects = [], sc_applied = []\<rparr>"

section \<open>Lemmas\<close>

lemma migrateSync_atomic: "migrateSync fts5 ms s = (Inl e, s') \<Longrightarrow> s' = s"
  by (auto simp: migrateSync_def sql_transaction_def Let_def split: if_splits sum.splits)

lemma migrateDown_atomic: "migrateDown fts5 ms v s = (Inl e, s') \<Longrightarrow> s' = s"
  by (auto simp: migrateDown_def sql_transaction_def Let_def split: if_splits sum.splits prod.splits list.splits)

lemma apply_up_applied:
  "apply_up fts5 ms s = Inr s' \<Longrightarrow> sc_applied s' = sc_applied s @ map (\<lambda>m. (mg_version m, mg_name m)) ms"
proof (induction ms arbitrary: s)
  case (Cons m ms)
  have k: "exec_all fts5 ds s = Inr t \<Longrightarrow> sc_applied t = sc_applied s" for ds s t
  proof (induction ds arbitrary: s)
    case (Cons d ds)
    then obtain u where u: "exec_ddl fts5 d s = Inr u" "exec_all fts5 ds u = Inr t" by (auto simp: result_simps)
    then have "sc_applied u = sc_applied s" by (cases d) (auto split: if_splits)
    with Cons.IH [OF u(2)] show ?case by simp
  qed simp
  show ?case using Cons by (auto simp: result_simps dest: k split: if_splits)
qed simp

text \<open>After a migration nothing is pending: running it again changes nothing.\<close>

lemma migrateSync_again:
  assumes "migrateSync fts5 ms s = (Inr (), s')"
  shows "migrateSync fts5' ms s' = (Inr (), s')"
proof -
  have "pending ms s' = []"
  proof (cases "pending ms s = []")
    case True
    then show ?thesis using assms by (simp add: migrateSync_def)
  next
    case False
    then have "sc_applied s' = sc_applied s @ map (\<lambda>m. (mg_version m, mg_name m)) (pending ms s)"
      using assms by (auto simp: migrateSync_def sql_transaction_def Let_def split: sum.splits dest: apply_up_applied)
    then have "fst ` set (sc_applied s') = fst ` set (sc_applied s) \<union> mg_version ` set (pending ms s)"
      by (auto simp: image_image image_Un)
    then have "\<forall>m \<in> set ms. mg_version m \<in> fst ` set (sc_applied s')" by (auto simp: pending_def)
    then show ?thesis by (simp add: pending_def filter_empty_conv flip: set_empty2)
  qed
  then show ?thesis by (simp add: migrateSync_def)
qed

lemma migrate_empty_fts: "migrateSync True MIGRATIONS empty_schema =
    (Inr (), \<lparr>sc_objects = [(''events'', ''events''), (''idx_events_contract_id_desc'', ''events''), (''idx_events_ledger'', ''events''),
      (''idx_events_topic0'', ''events''), (''idx_events_contract_topic0'', ''events''), (''idx_events_tx_hash'', ''events''),
      (''stream_state'', ''stream_state''), (''idx_events_indexed_at'', ''events''), (''idx_events_closed_at_unix'', ''events''),
      (''event_addresses'', ''event_addresses''), (''idx_event_addresses_address'', ''event_addresses''),
      (''idx_event_addresses_event_id'', ''event_addresses''), (''events_fts'', ''events_fts''),
      (''trg_events_fts_insert'', ''events''), (''trg_events_fts_update'', ''events''), (''trg_events_fts_delete'', ''events''),
      (''contract_specs'', ''contract_specs'')],
     sc_applied = map (\<lambda>m. (mg_version m, mg_name m)) MIGRATIONS\<rparr>)"
  by code_simp

lemma migrate_empty_no_fts: "migrateSync False MIGRATIONS empty_schema =
    (Inr (), \<lparr>sc_objects = [(''events'', ''events''), (''idx_events_contract_id_desc'', ''events''), (''idx_events_ledger'', ''events''),
      (''idx_events_topic0'', ''events''), (''idx_events_contract_topic0'', ''events''), (''idx_events_tx_hash'', ''events''),
      (''stream_state'', ''stream_state''), (''idx_events_indexed_at'', ''events''), (''idx_events_closed_at_unix'', ''events''),
      (''event_addresses'', ''event_addresses''), (''idx_event_addresses_address'', ''event_addresses''),
      (''idx_event_addresses_event_id'', ''event_addresses''), (''contract_specs'', ''contract_specs'')],
     sc_applied = map (\<lambda>m. (mg_version m, mg_name m)) MIGRATIONS\<rparr>)"
  by code_simp

end
