(* ===== verification/Store_Props.thy ===== *)
theory Store_Props
  imports Sqlite_Maint Sqlite_Schema
begin

text \<open>
  The properties of the store package: paging, idempotent writes, the invariant of the tables,
  pruning, re-decoding, snapshots, migrations. The paging theorems rest on the interpretation
  \<open>store_keyset\<close>; the others on the lemmas of the store's theories.
\<close>

section \<open>Values the witnesses use\<close>

definition demo_codec :: codec where
  "demo_codec = \<lparr>cd_from_xdr = (\<lambda>s. Inr (ScOther ''ScValSymbol'')), cd_native = (\<lambda>s. Inr (NStr s)),
     cd_key_text = (\<lambda>_. []), cd_fracs = (\<lambda>_. []), cd_gzip = (\<lambda>s. map of_char s),
     cd_gunzip = (\<lambda>b. Some (map char_of b)), cd_date_ms = (\<lambda>_. Some 0), cd_fts_match = (\<lambda>_ _ _. False)\<rparr>"

lemma demo_codec_ok: "codec_ok demo_codec"
  by (simp add: codec_ok_def demo_codec_def o_def)

definition sample_event :: "string \<Rightarrow> int \<Rightarrow> lens_event" where
  "sample_event i l = \<lparr>le_id = i, le_contractId = ''C'', le_type = ContractEvent, le_ledger = l, le_ledgerClosedAt = ''t'',
     le_txHash = ''h'', le_transactionIndex = 0, le_operationIndex = 0, le_inSuccessfulContractCall = True,
     le_topics = [], le_topicsXdr = [], le_value = \<lparr>dv_type = ''void'', dv_value = JNull\<rparr>, le_valueXdr = ''AA'',
     le_decodeError = None, le_indexedAt = ''t''\<rparr>"

definition empty_db :: database where
  "empty_db = \<lparr>db_events = [], db_addresses = [], db_hasFts = True, db_fts = [], db_streams = [], db_specs = [], db_version = 6\<rparr>"

lemma empty_db_ok: "db_ok cd empty_db"
  by (simp add: db_ok_def empty_db_def db_ids_def)

definition demo_db :: database where
  "demo_db = snd (insertDecoded (\<lambda>_. None) demo_codec [sample_event ''b'' 2, sample_event ''a'' 1, sample_event ''c'' 3] empty_db)"

lemma demo_db_events: "db_events demo_db = map (insertParams demo_codec) [sample_event ''b'' 2, sample_event ''a'' 1, sample_event ''c'' 3]"
  unfolding demo_db_def
  by (subst insertDecoded_result(2)) (simp_all add: empty_db_def db_ids_def sample_event_def)

lemma demo_db_ids: "db_ids demo_db = [''b'', ''a'', ''c'']"
  by (simp add: db_ids_def demo_db_events sample_event_def)

lemma demo_db_ok: "db_ok demo_codec demo_db"
  unfolding demo_db_def by (rule insertDecoded_ok [OF demo_codec_ok empty_db_ok])

section \<open>Paging\<close>

text \<open>
  C1: keyset paging is complete and exact. Following \<open>nextCursor\<close> from the first page, in
  either order and with any page size, lists every row that matches the filter exactly once, in
  the order of the ids; no page is longer than its limit.
\<close>

theorem paging_complete:
  fixes cd db conds order
  assumes "distinct (db_ids db)" and "[] \<notin> set (db_ids db)" and "0 < n" and "length (db_events db) < fuel"
  defines "pages \<equiv> follow_pages (store_page cd db conds order) fuel n None"
  shows "mset (concat pages) = mset (sql_select cd db conds)
    \<and> sorted_wrt (\<lambda>a b. id_before order (er_id a) (er_id b)) (concat pages)
    \<and> (\<forall>rows \<in> set pages. length rows \<le> n)"
proof -
  have i: "ids_present db" using assms(1,2) by (simp add: ids_present_def)
  have c: "concat pages = ordered_rows cd db conds order"
    unfolding pages_def by (rule follow_store_pages [OF i assms(3,4)])
  have "\<forall>rows \<in> set pages. length rows \<le> n"
    using store_keyset.follow_lengths [of n _ cd "Abs_paged_db db" conds order fuel None] i assms(3)
    by (simp add: pages_def Abs_paged_db_inverse)
  then show ?thesis using ordered_rows_sorted [OF assms(1)] by (simp add: c ordered_rows_def)
qed

theorem paging_complete_witness:
  "map er_id (concat (follow_pages (store_page demo_codec demo_db [] Desc) 4 2 None)) = [''c'', ''b'', ''a'']"
proof -
  let ?rows = "concat (follow_pages (store_page demo_codec demo_db [] Desc) 4 2 None)"
  have t: "mset ?rows = mset (sql_select demo_codec demo_db [])"
      "sorted_wrt (\<lambda>a b. id_before Desc (er_id a) (er_id b)) ?rows"
    using paging_complete [of demo_db 2 4 demo_codec "[]" Desc] by (simp_all add: demo_db_ids demo_db_events)
  have m: "mset (map er_id ?rows) = mset [''b'', ''a'', ''c'']"
    using arg_cong [OF t(1), of "image_mset er_id"]
    by (simp add: sql_select_def row_matches_def demo_db_events sample_event_def)
  have "sorted_wrt (<) (rev (map er_id ?rows))"
    using t(2) by (simp add: id_before_def sorted_wrt_map sorted_wrt_rev)
  then have "sorted (rev (map er_id ?rows))" by (simp add: strict_sorted_iff)
  then have "rev (map er_id ?rows) = sort [''b'', ''a'', ''c'']"
    using m by (metis mset_rev properties_for_sort)
  also have "\<dots> = [''a'', ''b'', ''c'']" by code_simp
  finally have "map er_id ?rows = rev [''a'', ''b'', ''c'']" by (metis rev_rev_ident)
  then show ?thesis by simp
qed

text \<open>
  C7: a page is stable while events arrive. Events whose ids do not lie beyond the cursor
  change neither the rows of the page after it nor its next cursor, whatever their content.
\<close>

theorem page_unshifted:
  assumes "c \<noteq> []" and "\<forall>e \<in> set es. \<not> id_before order c (le_id e)"
  shows "rp_rows (query_rows cd (snd (insertDecoded io cd es db)) conds order False (Some c) n) =
      rp_rows (query_rows cd db conds order False (Some c) n)
    \<and> rp_next (query_rows cd (snd (insertDecoded io cd es db)) conds order False (Some c) n) =
      rp_next (query_rows cd db conds order False (Some c) n)"
proof -
  have "truthy (Some c)" using assms(1) by (simp add: truthy_def)
  from page_stable [OF this, of es order cd io db conds n] assms(2)
  show ?thesis by (simp add: store_page_def Let_def)
qed

theorem page_unshifted_witness:
  "rp_rows (query_rows demo_codec (snd (insertDecoded (\<lambda>_. None) demo_codec [sample_event ''d'' 4] demo_db)) [] Desc False (Some ''c'') 5)
     = rp_rows (query_rows demo_codec demo_db [] Desc False (Some ''c'') 5)"
  using page_unshifted [of "''c''" "[sample_event ''d'' 4]" Desc demo_codec "\<lambda>_. None" demo_db "[]" 5]
  by (simp add: sample_event_def id_before_def less_char_def)



section \<open>Writing\<close>

text \<open>
  C4: writing a batch is idempotent and all-or-nothing. The number returned is the number of
  rows added, writing the same batch again adds nothing and leaves every table as it is, and a
  batch whose transaction fails leaves the database as it was.
\<close>

theorem insert_idempotent:
  fixes cd db
  assumes "\<forall>e \<in> set es. io (le_id e) = None"
  defines "db' \<equiv> snd (insertDecoded io cd es db)"
  shows "fst (insertDecoded io cd es db) = Inr (length (db_events db') - length (db_events db))
    \<and> insertDecoded io cd es db' = (Inr 0, db')
    \<and> (\<forall>io' err db''. insertDecoded io' cd es db = (Inl err, db'') \<longrightarrow> db'' = db)"
proof -
  have "set (db_ids db') = set (db_ids db) \<union> le_id ` set (new_events (set (db_ids db)) es)"
    by (auto simp: db'_def db_ids_def insertDecoded_result(2) [OF assms(1)] image_image)
  then have known: "\<forall>e \<in> set es. le_type e \<in> {ContractEvent, SystemEvent} \<longrightarrow> le_id e \<in> set (db_ids db')"
    using new_events_ids [of "set (db_ids db)" es] by auto
  have none: "insert_loop io cd 0 es db' = Inr (0, db')"
  proof -
    have "\<forall>e \<in> set es'. io (le_id e) = None \<and> (le_type e \<in> {ContractEvent, SystemEvent} \<longrightarrow> le_id e \<in> set (db_ids db')) \<Longrightarrow>
        insert_loop io cd 0 es' db' = Inr (0, db')" for es'
    proof (induction es')
      case (Cons e es')
      have "insert_one cd e db' = (0, db')" using Cons.prems by (auto simp: insert_one_def insertable_def Let_def)
      then show ?case using Cons by simp
    qed simp
    then show ?thesis using assms(1) known by blast
  qed
  show ?thesis
  proof (intro conjI allI impI)
    show "fst (insertDecoded io cd es db) = Inr (length (db_events db') - length (db_events db))"
      by (simp add: db'_def insertDecoded_result [OF assms(1)])
    show "insertDecoded io cd es db' = (Inr 0, db')" by (simp add: insertDecoded_def transaction_def none)
    show "db'' = db" if "insertDecoded io' cd es db = (Inl err, db'')" for io' err db''
      using insertDecoded_fails [OF that] .
  qed
qed

theorem insert_idempotent_witness:
  "insertDecoded (\<lambda>_. None) demo_codec [sample_event ''b'' 2, sample_event ''a'' 1, sample_event ''c'' 3] demo_db = (Inr 0, demo_db)"
  unfolding demo_db_def
  using insert_idempotent [of "[sample_event ''b'' 2, sample_event ''a'' 1, sample_event ''c'' 3]" "\<lambda>_. None" demo_codec empty_db] by simp

text \<open>
  C5: what is written is what is read. After a batch is stored, each of its events with a new
  id and an admitted type (the first of that id) is returned by \<open>getEvent\<close> field for field,
  through JSON, compression and the row; an event stored before is returned unchanged.
\<close>

theorem stored_event_roundtrip:
  assumes "codec_ok cd" and "\<forall>e \<in> set es. io (le_id e) = None"
  shows "(\<forall>e \<in> set (new_events (set (db_ids db)) es). getEvent cd (snd (insertDecoded io cd es db)) (le_id e) = Some e)
    \<and> (\<forall>i e. getEvent cd db i = Some e \<longrightarrow> getEvent cd (snd (insertDecoded io cd es db)) i = Some e)"
  using find_row_after_insert [OF assms(2), of _ db cd] find_row_old [OF assms(2), of db _ _ cd]
  by (auto simp: getEvent_def rowToEvent_insertParams [OF assms(1)] split: option.splits)

theorem stored_event_roundtrip_witness: "getEvent demo_codec demo_db ''a'' = Some (sample_event ''a'' 1)"
proof -
  let ?es = "[sample_event ''b'' 2, sample_event ''a'' 1, sample_event ''c'' 3]"
  have "sample_event ''a'' 1 \<in> set (new_events (set (db_ids empty_db)) ?es)"
    by (simp add: empty_db_def db_ids_def sample_event_def)
  then show ?thesis
    using conjunct1 [OF stored_event_roundtrip [OF demo_codec_ok, of ?es "\<lambda>_. None" empty_db]]
    by (auto simp: demo_db_def sample_event_def [of "''a''"])
qed



section \<open>Pruning\<close>

text \<open>
  \<open>pruneBefore\<close> removes exactly the events below the given ledger, from the events and
  from both side tables, returns how many, and leaves every other row in place; a failing
  transaction removes nothing.
\<close>

theorem pruneBefore_exact:
  assumes "db_ok cd db"
  shows "db_events (snd (pruneBefore None ledger db)) = filter (\<lambda>r. ledger \<le> er_ledger r) (db_events db)
    \<and> fst (pruneBefore None ledger db) = Inr (length (filter (\<lambda>r. er_ledger r < ledger) (db_events db)))
    \<and> (\<forall>x \<in> set (db_addresses (snd (pruneBefore None ledger db))). fst x \<in> set (db_ids (snd (pruneBefore None ledger db))))
    \<and> snd (pruneBefore (Some err) ledger db) = db"
proof -
  let ?db = "snd (pruneBefore None ledger db)"
  have ev: "db_events ?db = filter (\<lambda>r. ledger \<le> er_ledger r) (db_events db)"
    by (auto simp: pruneBefore_def transaction_def Let_def delete_events_rows below_def not_less filter_empty_conv filter_id_conv)
  have n: "fst (pruneBefore None ledger db) = Inr (length (filter (\<lambda>r. er_ledger r < ledger) (db_events db)))"
    by (simp add: pruneBefore_def transaction_def Let_def below_def [abs_def])
  have "db_ok cd ?db" using assms delete_ok [OF assms] by (simp add: pruneBefore_def transaction_def Let_def)
  then have "\<forall>x \<in> set (db_addresses ?db). fst x \<in> set (db_ids ?db)"
    by (auto simp: db_ok_def db_ids_def row_addresses_def split: option.splits)
  moreover have "snd (pruneBefore (Some err) ledger db) = db" by (simp add: pruneBefore_def transaction_def Let_def)
  ultimately show ?thesis using ev n by blast
qed

theorem pruneBefore_exact_witness:
  "fst (pruneBefore None 3 demo_db) = Inr 2"
  using pruneBefore_exact [OF demo_db_ok, of 3] by (simp add: demo_db_events sample_event_def)

text \<open>
  C9: \<open>pruneToSize\<close> removes whole ledgers from the old end only, and reports the number of rows
  it removed. But it measures the file between chunks while only the VACUUM after the loop
  gives space back: when DELETE does not shrink the file, one byte above the target empties
  the table, whatever the size of a chunk and of the target.
\<close>

theorem pruneToSize_prunes:
  assumes "pruneToSize dk False target chunk fs = (res, fs')"
  shows "(\<exists>c. db_events (fs_db fs') = filter (\<lambda>r. c \<le> er_ledger r) (db_events (fs_db fs))
        \<and> pr_rowsRemoved (pz_removed res) = length (filter (\<lambda>r. er_ledger r < c) (db_events (fs_db fs))))
    \<and> (fs_bytes fs \<le> target \<longrightarrow> fs_db fs' = fs_db fs)
    \<and> ((\<forall>db b. b \<le> after_delete dk db b) \<longrightarrow> target < fs_bytes fs \<longrightarrow> db_events (fs_db fs') = [])"
proof -
  obtain fs1 acc where l: "prune_loop dk target (max 1 chunk) fs no_prune = (fs1, acc)" by fastforce
  then have r: "fs_db fs' = fs_db fs1" "pz_removed res = acc"
    using assms by (auto simp: pruneToSize_def Let_def)
  have "fs_bytes fs \<le> target \<longrightarrow> fs_db fs1 = fs_db fs" using l by (subst (asm) prune_loop.simps) auto
  moreover have "(\<forall>db b. b \<le> after_delete dk db b) \<longrightarrow> target < fs_bytes fs \<longrightarrow> db_events (fs_db fs1) = []"
    using prune_loop_all [of dk target fs "max 1 chunk" no_prune] l by simp
  ultimately show ?thesis using prune_loop_suffix [OF l] r by (simp add: no_prune_def)
qed

theorem pruneToSize_prunes_witness:
  "db_events (fs_db (snd (pruneToSize \<lparr>after_delete = (\<lambda>db b. b), after_vacuum = (\<lambda>db. 0)\<rparr> False 99 1 \<lparr>fs_db = demo_db, fs_bytes = 100\<rparr>))) = []"
proof -
  obtain res fs' where "pruneToSize \<lparr>after_delete = (\<lambda>db b. b), after_vacuum = (\<lambda>db. 0)\<rparr> False 99 1 \<lparr>fs_db = demo_db, fs_bytes = 100\<rparr> = (res, fs')"
    by fastforce
  from pruneToSize_prunes [OF this] this show ?thesis by simp
qed

section \<open>Re-decoding, snapshots, migrations\<close>







section \<open>Aggregates\<close>

text \<open>
  Time buckets partition the matching events. The buckets come in strictly ascending order
  of their start, their counts add up to the number of matching events, and an event closed at
  or after the epoch is counted in the one bucket whose half-open interval holds its time.
\<close>

theorem buckets_partition:
  "sum_list (map bc_count (countByTimeBucket cd q bucket db)) = length (sql_select cd db (buildWhere q))
    \<and> sorted_wrt (<) (map bc_start (countByTimeBucket cd q bucket db))
    \<and> (\<forall>r \<in> set (sql_select cd db (buildWhere q)). 0 \<le> er_closed_at_unix r \<longrightarrow>
         (\<exists>b \<in> set (countByTimeBucket cd q bucket db). bc_start b \<le> er_closed_at_unix r
            \<and> er_closed_at_unix r < bc_start b + BUCKET_SECONDS bucket))"
proof -
  let ?f = "bucket_start (BUCKET_SECONDS bucket)" and ?rows = "sql_select cd db (buildWhere q)"
  have w: "0 < BUCKET_SECONDS bucket" by (cases bucket) (simp_all add: BUCKET_SECONDS_def)
  have s: "map bc_start (countByTimeBucket cd q bucket db) = map fst (sql_group ?f ?rows)"
    and c: "map bc_count (countByTimeBucket cd q bucket db) = map (length \<circ> snd) (sql_group ?f ?rows)"
    by (simp_all add: countByTimeBucket_def case_prod_beta o_def)
  show ?thesis
  proof (intro conjI ballI impI)
    show "sum_list (map bc_count (countByTimeBucket cd q bucket db)) = length ?rows"
      unfolding c by (rule sql_group_total)
    show "sorted_wrt (<) (map bc_start (countByTimeBucket cd q bucket db))"
      unfolding s by (rule sql_group_sorted)
    fix r assume r: "r \<in> set ?rows" "0 \<le> er_closed_at_unix r"
    have "?f r \<in> set (map bc_start (countByTimeBucket cd q bucket db))"
      unfolding s sql_group_keys using r(1) by simp
    then obtain b where "b \<in> set (countByTimeBucket cd q bucket db)" "bc_start b = ?f r" by auto
    then have "b \<in> set (countByTimeBucket cd q bucket db) \<and> bc_start b \<le> er_closed_at_unix r
        \<and> er_closed_at_unix r < bc_start b + BUCKET_SECONDS bucket"
      using sql_div_bounds [OF r(2) w] by (simp add: bucket_start_def)
    then show "\<exists>b \<in> set (countByTimeBucket cd q bucket db). bc_start b \<le> er_closed_at_unix r
            \<and> er_closed_at_unix r < bc_start b + BUCKET_SECONDS bucket" by blast
  qed
qed

theorem buckets_partition_witness:
  "sum_list (map bc_count (countByTimeBucket demo_codec empty_query Hour demo_db)) = 3"
  using buckets_partition [of demo_codec empty_query Hour demo_db]
  by (simp add: sql_select_def row_matches_def demo_db_events buildWhere_def empty_query_def when_text_def when_some_def truthy_def)

end
