(* ===== verification/Params.thy ===== *)
theory Params
  imports Contract_Id Store_Types
begin

text \<open>
  The query-string parameters of the API (\<open>packages/api/src/params.ts\<close>) and its error values
  (\<open>errors.ts\<close>). A \<open>URLSearchParams\<close> is the list of its pairs, in order. \<open>Date.parse\<close> accepts
  formats the language leaves to the implementation, so it is the parameter \<open>date_parse\<close>:
  epoch milliseconds, or None for \<open>NaN\<close>.
\<close>

section \<open>Errors\<close>

record api_error =
  ae_status :: nat
  ae_code :: string
  ae_message :: string
  ae_parameter :: "string option"
  ae_allow :: "string option"
  ae_retryAfterSeconds :: "int option"
  ae_wwwAuthenticate :: "string option"

definition api_error_of :: "nat \<Rightarrow> string \<Rightarrow> string \<Rightarrow> string option \<Rightarrow> string option \<Rightarrow> api_error" where
  "api_error_of status code message parameter allow =
     \<lparr>ae_status = status, ae_code = code, ae_message = message, ae_parameter = parameter, ae_allow = allow,
      ae_retryAfterSeconds = None, ae_wwwAuthenticate = None\<rparr>"

definition badRequest :: "string \<Rightarrow> string option \<Rightarrow> api_error" where
  "badRequest message parameter = api_error_of 400 ''invalid_parameter'' message parameter None"

definition notFound :: "string \<Rightarrow> api_error" where
  "notFound message = api_error_of 404 ''not_found'' message None None"

definition quoted :: "string \<Rightarrow> string" where
  "quoted s = [CHR 0x22] @ s @ [CHR 0x22]"

definition unauthorized :: "string \<Rightarrow> api_error" where
  "unauthorized message = (api_error_of 401 ''unauthorized'' message None None)
     \<lparr>ae_wwwAuthenticate := Some (''Bearer realm='' @ quoted ''soroban-lens'')\<rparr>"

definition tooManyRequests :: "string \<Rightarrow> int \<Rightarrow> api_error" where
  "tooManyRequests message retryAfterSeconds = (api_error_of 429 ''rate_limited'' message None None)
     \<lparr>ae_retryAfterSeconds := Some retryAfterSeconds\<rparr>"

definition unavailable :: "string \<Rightarrow> int \<Rightarrow> api_error" where
  "unavailable message retryAfterSeconds = (api_error_of 503 ''unavailable'' message None None)
     \<lparr>ae_retryAfterSeconds := Some retryAfterSeconds\<rparr>"

definition optional_field :: "string \<Rightarrow> string option \<Rightarrow> (string \<times> json) list" where
  "optional_field k v = (if truthy v then [(k, JStr (the v))] else [])"

definition toBody :: "string option \<Rightarrow> api_error \<Rightarrow> json" where
  "toBody requestId e = JObj [(''error'', JObj ([(''code'', JStr (ae_code e)), (''message'', JStr (ae_message e))] @
     optional_field ''parameter'' (ae_parameter e) @ optional_field ''requestId'' requestId))]"

section \<open>One parameter\<close>

type_synonym url_params = "(string \<times> string) list"

definition params_get :: "url_params \<Rightarrow> string \<Rightarrow> string option" where
  "params_get ps name = map_of ps name"

definition params_getAll :: "url_params \<Rightarrow> string \<Rightarrow> string list" where
  "params_getAll ps name = map snd (filter (\<lambda>(k, v). k = name) ps)"

definition TX_HASH :: "string \<Rightarrow> bool" where
  "TX_HASH s = (length s = 64 \<and> list_all is_hex s)"

definition ADDRESS :: "string \<Rightarrow> bool" where
  "ADDRESS s = (strkey_shape (CHR ''G'') s \<or> strkey_shape (CHR ''C'') s)"

definition assertContractId :: "string \<Rightarrow> (api_error, string) result" where
  "assertContractId v = (if \<not> strkey_shape (CHR ''C'') v
     then Inl (badRequest (quoted v @ '' is not a contract id. Expected a StrKey starting with C, 56 characters long.'')
       (Some ''contractId''))
     else Inr v)"

definition intParam :: "url_params \<Rightarrow> string \<Rightarrow> (api_error, int option) result" where
  "intParam ps name = (case params_get ps name of
       None \<Rightarrow> Inr None
     | Some raw \<Rightarrow>
         if raw = [] then Inr None
         else (case js_Number raw of
             JsNum r \<Rightarrow> if rat_is_int r then Inr (Some \<lfloor>r\<rfloor>)
               else Inl (badRequest (quoted name @ '' must be an integer, got '' @ quoted raw @ ''.'') (Some name))
           | _ \<Rightarrow> Inl (badRequest (quoted name @ '' must be an integer, got '' @ quoted raw @ ''.'') (Some name))))"

definition boolParam :: "url_params \<Rightarrow> string \<Rightarrow> (api_error, bool option) result" where
  "boolParam ps name = (case params_get ps name of
       None \<Rightarrow> Inr None
     | Some raw \<Rightarrow>
         if raw = [] then Inr None
         else if raw = ''true'' \<or> raw = ''1'' then Inr (Some True)
         else if raw = ''false'' \<or> raw = ''0'' then Inr (Some False)
         else Inl (badRequest (quoted name @ '' must be true or false, got '' @ quoted raw @ ''.'') (Some name)))"

definition all_digits_signed :: "string \<Rightarrow> bool" where
  "all_digits_signed s = (case s of [] \<Rightarrow> False
     | c # r \<Rightarrow> if c = CHR ''-'' then r \<noteq> [] \<and> list_all is_digit r else list_all is_digit s)"

definition read_signed :: "string \<Rightarrow> int" where
  "read_signed s = (if hd s = CHR ''-'' then - int (read_base 10 (tl s)) else int (read_base 10 s))"

definition timeParam :: "(string \<Rightarrow> int option) \<Rightarrow> url_params \<Rightarrow> string \<Rightarrow> (api_error, int option) result" where
  "timeParam date_parse ps name = (case params_get ps name of
       None \<Rightarrow> Inr None
     | Some raw \<Rightarrow>
         (let v = js_trim raw in
          if v = [] then Inr None
          else if all_digits_signed v then Inr (Some (read_signed v))
          else (case date_parse v of
              None \<Rightarrow> Inl (badRequest (quoted name @ '' must be an ISO-8601 timestamp or epoch seconds, got '' @ quoted v @ ''.'')
                (Some name))
            | Some ms \<Rightarrow> Inr (Some (ms div 1000)))))"

definition parseTopics :: "url_params \<Rightarrow> (api_error, string option list option) result" where
  "parseTopics ps =
     (let topics = params_getAll ps ''topic'' in
      if topics = [] then Inr None
      else if length topics > 4
      then Inl (badRequest (''At most 4 '' @ quoted ''topic'' @ '' parameters are supported, because only the first four '' @
        ''topic positions are indexed. Events may carry more topics than that; '' @
        ''filter on the prefix and narrow client-side.'') (Some ''topic''))
      else Inr (Some (map (\<lambda>t. if t = ''*'' \<or> t = [] then None else Some t) topics)))"

section \<open>The event query\<close>

definition limitParam :: "url_params \<Rightarrow> (api_error, int option) result" where
  "limitParam ps = res_bind (intParam ps ''limit'') (\<lambda>limit. case limit of
       None \<Rightarrow> Inr None
     | Some l \<Rightarrow> if l < 1 \<or> l > int MAX_QUERY_LIMIT
         then Inl (badRequest (quoted ''limit'' @ '' must be between 1 and '' @ show_nat MAX_QUERY_LIMIT @ '', got '' @ show_int l @ ''.'')
           (Some ''limit''))
         else Inr (Some l))"

definition orderParam :: "url_params \<Rightarrow> (api_error, sort_order option) result" where
  "orderParam ps = (case params_get ps ''order'' of
       None \<Rightarrow> Inr None
     | Some v \<Rightarrow> if v = ''asc'' then Inr (Some Asc) else if v = ''desc'' then Inr (Some Desc)
         else Inl (badRequest (quoted ''order'' @ '' must be '' @ quoted ''asc'' @ '' or '' @ quoted ''desc'' @
           '', got '' @ quoted v @ ''.'') (Some ''order'')))"

definition directionParam :: "url_params \<Rightarrow> (api_error, direction option) result" where
  "directionParam ps = (case params_get ps ''direction'' of
       None \<Rightarrow> Inr None
     | Some v \<Rightarrow> if v = ''forward'' then Inr (Some Forward) else if v = ''backward'' then Inr (Some Backward)
         else Inl (badRequest (quoted ''direction'' @ '' must be '' @ quoted ''forward'' @ '' or '' @ quoted ''backward'' @
           '', got '' @ quoted v @ ''.'') (Some ''direction'')))"

definition crossed :: "int option \<Rightarrow> int option \<Rightarrow> bool" where
  "crossed lo hi = (case lo of None \<Rightarrow> False | Some a \<Rightarrow> (case hi of None \<Rightarrow> False | Some b \<Rightarrow> a > b))"

definition ledgerRange :: "url_params \<Rightarrow> (api_error, int option \<times> int option) result" where
  "ledgerRange ps = res_bind (intParam ps ''fromLedger'') (\<lambda>lo. res_bind (intParam ps ''toLedger'') (\<lambda>hi.
     if crossed lo hi
     then Inl (badRequest (quoted ''fromLedger'' @ '' ('' @ show_int (the lo) @ '') must not be greater than '' @
       quoted ''toLedger'' @ '' ('' @ show_int (the hi) @ '').'') (Some ''fromLedger''))
     else Inr (lo, hi)))"

definition timeRange ::
    "(string \<Rightarrow> int option) \<Rightarrow> url_params \<Rightarrow> string \<Rightarrow> string \<Rightarrow> (api_error, int option \<times> int option) result" where
  "timeRange date_parse ps lo_name hi_name =
     res_bind (timeParam date_parse ps lo_name) (\<lambda>lo. res_bind (timeParam date_parse ps hi_name) (\<lambda>hi.
     if crossed lo hi
     then Inl (badRequest (quoted lo_name @ '' must not be after '' @ quoted hi_name @ ''.'') (Some lo_name))
     else Inr (lo, hi)))"

definition txHashParam :: "url_params \<Rightarrow> (api_error, string option) result" where
  "txHashParam ps = (case params_get ps ''txHash'' of None \<Rightarrow> Inr None
     | Some h \<Rightarrow> if \<not> TX_HASH h
         then Inl (badRequest (quoted ''txHash'' @ '' must be a 64-character hex string.'') (Some ''txHash''))
         else Inr (Some h))"

definition addressParam :: "url_params \<Rightarrow> (api_error, string option) result" where
  "addressParam ps = (case params_get ps ''address'' of None \<Rightarrow> Inr None
     | Some a \<Rightarrow> if \<not> ADDRESS a
         then Inl (badRequest (quoted ''address'' @ '' must be a StrKey: '' @ [CHR 0x27] @ ''G'' @ [CHR 0x27] @ '' or '' @
           [CHR 0x27] @ ''C'' @ [CHR 0x27] @ '' followed by 55 characters (A-Z, 2-7).'') (Some ''address''))
         else Inr (Some a))"

definition indexParam :: "url_params \<Rightarrow> string \<Rightarrow> (api_error, int option) result" where
  "indexParam ps name = res_bind (intParam ps name) (\<lambda>v. case v of
       None \<Rightarrow> Inr None
     | Some i \<Rightarrow> if i < 0
         then Inl (badRequest (quoted name @ '' must not be negative, got '' @ show_int i @ ''.'') (Some name))
         else Inr (Some i))"

text \<open>An empty string is dropped from the query: the source spreads the field only when it is not empty.\<close>

definition non_empty :: "string option \<Rightarrow> string option" where
  "non_empty v = (if truthy v then v else None)"

definition parseEventQuery :: "(string \<Rightarrow> int option) \<Rightarrow> url_params \<Rightarrow> (api_error, event_query) result" where
  "parseEventQuery date_parse ps =
     res_bind (limitParam ps) (\<lambda>limit.
     res_bind (orderParam ps) (\<lambda>order.
     res_bind (directionParam ps) (\<lambda>dir.
     res_bind (ledgerRange ps) (\<lambda>(fromLedger, toLedger).
     res_bind (timeRange date_parse ps ''fromTime'' ''toTime'') (\<lambda>(fromTime, toTime).
     res_bind (txHashParam ps) (\<lambda>txHash.
     res_bind (addressParam ps) (\<lambda>address.
     res_bind (indexParam ps ''transactionIndex'') (\<lambda>transactionIndex.
     res_bind (indexParam ps ''operationIndex'') (\<lambda>operationIndex.
     res_bind (boolParam ps ''successfulOnly'') (\<lambda>successfulOnly.
     res_bind (parseTopics ps) (\<lambda>topics.
       Inr \<lparr>q_contractId = None, q_topics = or_else topics [], q_fromLedger = fromLedger, q_toLedger = toLedger,
         q_fromTime = fromTime, q_toTime = toTime, q_txHash = txHash, q_address = address,
         q_search = non_empty (params_get ps ''search''), q_transactionIndex = transactionIndex,
         q_operationIndex = operationIndex, q_successfulOnly = or_else successfulOnly False,
         q_limit = map_option of_int limit, q_cursor = non_empty (params_get ps ''cursor''), q_direction = dir,
         q_skipTotal = False, q_order = order\<rparr>)))))))))))"

section \<open>Batches, field selection, activity\<close>

definition MAX_BATCH_IDS :: nat where
  "MAX_BATCH_IDS = 100"

definition comma_items :: "string \<Rightarrow> string list" where
  "comma_items raw = filter (\<lambda>i. i \<noteq> []) (map js_trim (split_on (CHR '','') raw))"

definition parseIds :: "url_params \<Rightarrow> (api_error, string list option) result" where
  "parseIds ps = (case params_get ps ''ids'' of
       None \<Rightarrow> Inr None
     | Some raw \<Rightarrow>
         (let ids = comma_items raw in
          if length ids = 0
          then Inl (badRequest (quoted ''ids'' @ '' was empty. Omit it to query without a batch.'') (Some ''ids''))
          else if length ids > MAX_BATCH_IDS
          then Inl (badRequest (''At most '' @ show_nat MAX_BATCH_IDS @ '' '' @ quoted ''ids'' @ '' per request, got '' @
            show_nat (length ids) @ ''.'') (Some ''ids''))
          else if length (js_set ids) \<noteq> length ids
          then Inl (badRequest (quoted ''ids'' @ '' contained duplicates.'') (Some ''ids''))
          else Inr (Some ids)))"

definition EVENT_FIELDS :: "string list" where
  "EVENT_FIELDS = [''id'', ''contractId'', ''type'', ''ledger'', ''ledgerClosedAt'', ''txHash'', ''transactionIndex'',
     ''operationIndex'', ''inSuccessfulContractCall'', ''topics'', ''topicsXdr'', ''value'', ''valueXdr'', ''decodeError'',
     ''indexedAt'', ''typed'']"

definition parseFields :: "url_params \<Rightarrow> (api_error, string list option) result" where
  "parseFields ps = (case params_get ps ''fields'' of
       None \<Rightarrow> Inr None
     | Some raw \<Rightarrow>
         (let wanted = comma_items raw;
              unknown = filter (\<lambda>f. f \<notin> set EVENT_FIELDS) wanted
          in if length wanted = 0
             then Inl (badRequest (quoted ''fields'' @ '' was empty. Omit it to return every field.'') (Some ''fields''))
             else if length unknown > 0
             then Inl (badRequest (''Unknown '' @ quoted ''fields'' @ '': '' @ js_join '', '' unknown @ ''. Valid fields: '' @
               js_join '', '' EVENT_FIELDS @ ''.'') (Some ''fields''))
             else Inr (Some (js_set wanted))))"

text \<open>An event as the JSON object the response carries: its own keys, in order.\<close>

definition selectFields :: "(string \<times> json) list list \<Rightarrow> string list option \<Rightarrow> (string \<times> json) list list" where
  "selectFields events selected = (case selected of None \<Rightarrow> events
     | Some fs \<Rightarrow> map (filter (\<lambda>(k, v). k \<in> set fs)) events)"

record activity_query =
  aq_bucket :: string
  aq_from :: "int option"
  aq_to :: "int option"
  aq_topics :: "string option list option"
  aq_successfulOnly :: "bool option"

definition ACTIVITY_BUCKETS :: "string list" where
  "ACTIVITY_BUCKETS = [''minute'', ''hour'', ''day'']"

definition parseActivityQuery :: "(string \<Rightarrow> int option) \<Rightarrow> url_params \<Rightarrow> (api_error, activity_query) result" where
  "parseActivityQuery date_parse ps =
     (let bucket = or_else (params_get ps ''bucket'') ''hour'' in
      if bucket \<notin> set ACTIVITY_BUCKETS
      then Inl (badRequest (quoted ''bucket'' @ '' must be one of '' @ js_join '', '' ACTIVITY_BUCKETS @ '', got '' @ quoted bucket @ ''.'')
        (Some ''bucket''))
      else
        res_bind (timeRange date_parse ps ''from'' ''to'') (\<lambda>(lo, hi).
        res_bind (parseTopics ps) (\<lambda>topics.
        res_bind (boolParam ps ''successfulOnly'') (\<lambda>successfulOnly.
          Inr \<lparr>aq_bucket = bucket, aq_from = lo, aq_to = hi, aq_topics = topics,
            aq_successfulOnly = successfulOnly\<rparr>))))"

end
