(* ===== verification/Gql_Syntax.thy ===== *)
theory Gql_Syntax
  imports Store_Types Params
begin

text \<open>
  The GraphQL lexer and parser (\<open>packages/api/src/graphql.ts\<close>). A lexer state is the rest of the
  source and its position; a parser state the tokens not yet consumed and the nesting count.
  The parser's functions take fuel and return None when it runs out; \<open>parse_total\<close> shows that
  the fuel \<open>parseDocument\<close> gives is always enough.
\<close>

section \<open>Errors\<close>

datatype gql_code =
    GRAPHQL_PARSE_FAILED | GRAPHQL_VALIDATION_FAILED | BAD_USER_INPUT
  | QUERY_TOO_DEEP | QUERY_TOO_COMPLEX | QUERY_TOO_LARGE | INTERNAL_ERROR

text \<open>\<open>Crash\<close> is an exception of the engine itself: reading a property of \<open>undefined\<close>.\<close>

datatype gql_error = GqlError gql_code string | Crash

definition parse_error :: "string \<Rightarrow> nat \<Rightarrow> gql_error" where
  "parse_error message pos = GqlError GRAPHQL_PARSE_FAILED (''Syntax error at position '' @ show_nat pos @ '': '' @ message)"

section \<open>The lexer\<close>

datatype token_kind = KPunct | KName | KInt | KFloat | KString | KEof

record token =
  tk_kind :: token_kind
  tk_value :: string
  tk_pos :: nat

definition mk_token :: "token_kind \<Rightarrow> string \<Rightarrow> nat \<Rightarrow> token" where
  "mk_token k v p = \<lparr>tk_kind = k, tk_value = v, tk_pos = p\<rparr>"

definition name_start :: "char \<Rightarrow> bool" where
  "name_start c = (is_upper c \<or> is_lower c \<or> c = CHR ''_'')"

definition name_part :: "char \<Rightarrow> bool" where
  "name_part c = (is_digit c \<or> name_start c)"

definition insignificant :: "char \<Rightarrow> bool" where
  "insignificant c = (c \<in> {CHR '' '', CHR 0x09, CHR 0x0A, CHR 0x0D, CHR '',''})"

definition punct_char :: "char \<Rightarrow> bool" where
  "punct_char c = (c \<in> {CHR ''!'', CHR ''$'', CHR ''&'', CHR ''('', CHR '')'', CHR ''['', CHR '']'', CHR ''{'', CHR ''}'',
     CHR '':'', CHR ''='', CHR ''@'', CHR ''|''})"

definition not_newline :: "char \<Rightarrow> bool" where
  "not_newline c = (c \<noteq> CHR 0x0A \<and> c \<noteq> CHR 0x0D)"

definition head_in :: "char set \<Rightarrow> string \<Rightarrow> bool" where
  "head_in cs s = (s \<noteq> [] \<and> hd s \<in> cs)"

definition lex_number :: "nat \<Rightarrow> string \<Rightarrow> (gql_error, token \<times> string) result" where
  "lex_number start s =
     (let s1 = (if head_in {CHR ''-''} s then tl s else s);
          s2 = dropWhile is_digit s1;
          dot = head_in {CHR ''.''} s2;
          s3 = (if dot then dropWhile is_digit (tl s2) else s2);
          expo = head_in {CHR ''e'', CHR ''E''} s3;
          s4 = (if head_in {CHR ''+'', CHR ''-''} (tl s3) then tl (tl s3) else tl s3);
          s5 = (if expo then dropWhile is_digit s4 else s3)
      in if takeWhile is_digit s1 = [] then Inl (parse_error (''expected a digit after '' @ quoted ''-'') start)
         else if dot \<and> takeWhile is_digit (tl s2) = [] then Inl (parse_error (''expected digits after '' @ quoted ''.'') start)
         else if expo \<and> takeWhile is_digit s4 = [] then Inl (parse_error ''expected digits in the exponent'' start)
         else Inr (mk_token (if dot \<or> expo then KFloat else KInt) (take (length s - length s5) s) start, s5))"

definition simple_escape :: "char \<Rightarrow> char option" where
  "simple_escape c =
     (if c = CHR 0x22 \<or> c = CHR 0x5C \<or> c = CHR ''/'' then Some c
      else if c = CHR ''b'' then Some (CHR 0x08) else if c = CHR ''f'' then Some (CHR 0x0C)
      else if c = CHR ''n'' then Some (CHR 0x0A) else if c = CHR ''r'' then Some (CHR 0x0D)
      else if c = CHR ''t'' then Some (CHR 0x09) else None)"

text \<open>
  The contents of a string: \<open>start\<close> is the position of its opening quote, \<open>i\<close> that of the rest.
  A \<open>\u\<close> escape keeps the code unit where it is below 256.
\<close>

function lex_string :: "nat \<Rightarrow> nat \<Rightarrow> string \<Rightarrow> string \<Rightarrow> (gql_error, string \<times> string) result" where
  "lex_string start i s v =
     (case s of [] \<Rightarrow> Inl (parse_error ''unterminated string'' start)
      | c # r \<Rightarrow>
         if c = CHR 0x22 then Inr (v, r)
         else if c = CHR 0x0A \<or> c = CHR 0x0D then Inl (parse_error ''unterminated string'' start)
         else if c = CHR 0x5C then
           (case r of [] \<Rightarrow> Inl (parse_error ''invalid escape sequence'' i)
            | n # r' \<Rightarrow>
               (case simple_escape n of
                  Some e \<Rightarrow> lex_string start (i + 2) r' (v @ [e])
                | None \<Rightarrow>
                   if n = CHR ''u'' then
                     (if length (take 4 r') = 4 \<and> list_all is_hex (take 4 r')
                      then lex_string start (i + 6) (drop 4 r') (v @ [char_of (read_base 16 (take 4 r'))])
                      else Inl (parse_error ''invalid unicode escape'' i))
                   else Inl (parse_error ''invalid escape sequence'' i)))
         else lex_string start (i + 1) r (v @ [c]))"
  by pat_completeness auto
termination
  by (relation "measure (\<lambda>(start, i, s, v). length s)") auto

declare lex_string.simps [simp del]

lemma lex_string_shorter: "lex_string start i s v = Inr (w, rest) \<Longrightarrow> length rest < length s"
proof (induction s arbitrary: i v rule: length_induct)
  case (1 s)
  have ih: "length rest < length t" if "lex_string start j t u = Inr (w, rest)" "length t < length s" for j t u
    using "1.IH" that by blast
  have ih': "length rest < n" if "lex_string start j t u = Inr (w, rest)" "length t < length s" "length t \<le> n" for j t u n
    using ih [OF that(1,2)] that(3) by simp
  from "1.prems" show ?case
    by (subst (asm) lex_string.simps) (auto split: list.splits option.splits if_splits intro: ih' dest: ih [where t = "[]"])
qed

lemma lex_number_shorter: "lex_number start s = Inr (t, rest) \<Longrightarrow> length rest < length s"
proof -
  assume a: "lex_number start s = Inr (t, rest)"
  define s1 where "s1 = (if head_in {CHR ''-''} s then tl s else s)"
  define s2 where "s2 = dropWhile is_digit s1"
  define s3 where "s3 = (if head_in {CHR ''.''} s2 then dropWhile is_digit (tl s2) else s2)"
  define s4 where "s4 = (if head_in {CHR ''+'', CHR ''-''} (tl s3) then tl (tl s3) else tl s3)"
  define s5 where "s5 = (if head_in {CHR ''e'', CHR ''E''} s3 then dropWhile is_digit s4 else s3)"
  have r: "rest = s5" "takeWhile is_digit s1 \<noteq> []"
    using a by (auto simp: lex_number_def Let_def s1_def s2_def s3_def s4_def s5_def split: if_splits)
  have "length s1 \<le> length s" by (simp add: s1_def)
  moreover have "length s2 < length s1"
  proof -
    have "length (takeWhile is_digit s1) + length s2 = length s1"
      unfolding s2_def by (metis length_append takeWhile_dropWhile_id)
    then show ?thesis using r(2) by (cases "takeWhile is_digit s1") auto
  qed
  moreover have "length s3 \<le> length s2"
    using length_dropWhile_le [of is_digit "tl s2"] by (auto simp: s3_def)
  moreover have "length s4 \<le> length s3" by (simp add: s4_def)
  moreover have "length s5 \<le> length s3"
    using length_dropWhile_le [of is_digit s4] \<open>length s4 \<le> length s3\<close> by (auto simp: s5_def)
  ultimately show "length rest < length s" unfolding r(1) by linarith
qed

function lex_all :: "nat \<Rightarrow> string \<Rightarrow> token list \<Rightarrow> (gql_error, token list) result" where
  "lex_all i s acc =
     (case s of [] \<Rightarrow> Inr (acc @ [mk_token KEof [] i])
      | c # r \<Rightarrow>
         if insignificant c then lex_all (i + 1) r acc
         else if c = CHR ''#'' then
           lex_all (i + length (takeWhile not_newline s)) (dropWhile not_newline s) acc
         else if starts_with ''...'' s then lex_all (i + 3) (drop 3 s) (acc @ [mk_token KPunct ''...'' i])
         else if punct_char c then lex_all (i + 1) r (acc @ [mk_token KPunct [c] i])
         else if name_start c then
           lex_all (i + length (takeWhile name_part s)) (dropWhile name_part s) (acc @ [mk_token KName (takeWhile name_part s) i])
         else if c = CHR ''-'' \<or> is_digit c then
           (case lex_number i s of
              Inl e \<Rightarrow> Inl e
            | Inr (t, rest) \<Rightarrow> lex_all (i + (length s - length rest)) rest (acc @ [t]))
         else if c = CHR 0x22 then
           (case lex_string i (i + 1) r [] of
              Inl e \<Rightarrow> Inl e
            | Inr (v, rest) \<Rightarrow> lex_all (i + (length s - length rest)) rest (acc @ [mk_token KString v i]))
         else Inl (parse_error (''unexpected character '' @ json_string [c]) i))"
  by pat_completeness auto
termination
proof (relation "measure (\<lambda>(i, s, acc). length s)", goal_cases)
  case (3 i s acc c r)
  then show ?case by (auto simp: not_newline_def intro: le_less_trans [OF length_dropWhile_le])
next
  case (6 i s acc c r)
  then show ?case by (auto simp: name_part_def intro: le_less_trans [OF length_dropWhile_le])
next
  case (7 i s acc c r p t rest)
  then show ?case using lex_number_shorter by fastforce
next
  case (8 i s acc c r p v rest)
  then show ?case using lex_string_shorter [of i "i + 1" r "[]"] by fastforce
qed auto

declare lex_all.simps [simp del]

definition tokenize :: "string \<Rightarrow> (gql_error, token list) result" where
  "tokenize source = lex_all 0 source []"

end
