(* ===== verification/Gql_Parser.thy ===== *)
theory Gql_Parser
  imports Gql_Syntax
begin

text \<open>
  The recursive-descent parser of \<open>packages/api/src/graphql.ts\<close> (\<open>class Parser\<close>). A parser maps a
  state (the tokens from \<open>pos\<close> on, and the nesting count) to an error or to a value and the next
  state; None means that the fuel ran out. \<open>posts\<close> is the total-correctness triple the parser's
  lemmas are stated with: the parser returns, its errors are the parser's own, and its value
  satisfies the postcondition.
\<close>

section \<open>The tree\<close>

datatype gval =
    GVar string | GInt js_num | GFloat js_num | GString string | GBool bool | GNull | GEnum string
  | GList "gval list" | GObject "(string \<times> gval) list"

record directive =
  dn_name :: string
  dn_args :: "(string \<times> gval) list"

datatype selection =
    Field "string option" string "(string \<times> gval) list" "directive list" "selection list option"
  | Spread string "directive list"
  | Inline "string option" "directive list" "selection list"

record variable_definition =
  vd_name :: string
  vd_type :: string
  vd_nonNull :: bool
  vd_default :: "gval option"

record operation_node =
  on_operation :: string
  on_name :: "string option"
  on_variables :: "variable_definition list"
  on_selections :: "selection list"

record fragment_node =
  fn_name :: string
  fn_typeCondition :: string
  fn_selections :: "selection list"

record document =
  doc_operations :: "operation_node list"
  doc_fragments :: "(string \<times> fragment_node) list"

section \<open>Objects used as records\<close>

definition record_set :: "string \<Rightarrow> 'a \<Rightarrow> (string \<times> 'a) list \<Rightarrow> (string \<times> 'a) list" where
  "record_set k v m = (if k = ''__proto__'' then m else map_set k v m)"

section \<open>The state and its primitives\<close>

definition MAX_PARSE_NESTING :: nat where
  "MAX_PARSE_NESTING = 64"

record pstate =
  ps_tokens :: "token list"
  ps_nesting :: nat

type_synonym 'a parsed = "(gql_error, 'a \<times> pstate) result option"

definition tok :: "pstate \<Rightarrow> token" where
  "tok st = (case ps_tokens st of [] \<Rightarrow> mk_token KEof [] 0 | t # _ \<Rightarrow> t)"

definition isPunct :: "string \<Rightarrow> pstate \<Rightarrow> bool" where
  "isPunct v st = (tk_kind (tok st) = KPunct \<and> tk_value (tok st) = v)"

definition is_eof :: "pstate \<Rightarrow> bool" where
  "is_eof st = (tk_kind (tok st) = KEof)"

definition is_name :: "string \<Rightarrow> pstate \<Rightarrow> bool" where
  "is_name v st = (tk_kind (tok st) = KName \<and> tk_value (tok st) = v)"

definition step_on :: "pstate \<Rightarrow> pstate" where
  "step_on st = st\<lparr>ps_tokens := tl (ps_tokens st)\<rparr>"

definition ret :: "'a \<Rightarrow> pstate \<Rightarrow> 'a parsed" where
  "ret a st = Some (Inr (a, st))"

definition fail_at :: "string \<Rightarrow> pstate \<Rightarrow> 'a parsed" where
  "fail_at message st = Some (Inl (parse_error message (tk_pos (tok st))))"

definition pbind :: "'a parsed \<Rightarrow> ('a \<Rightarrow> pstate \<Rightarrow> 'b parsed) \<Rightarrow> 'b parsed" where
  "pbind m f = (case m of None \<Rightarrow> None | Some (Inl e) \<Rightarrow> Some (Inl e) | Some (Inr (a, st)) \<Rightarrow> f a st)"

definition expectPunct :: "string \<Rightarrow> pstate \<Rightarrow> unit parsed" where
  "expectPunct v st = (if \<not> isPunct v st then fail_at (''expected '' @ quoted v) st else ret () (step_on st))"

definition expectName :: "pstate \<Rightarrow> string parsed" where
  "expectName st = (if tk_kind (tok st) \<noteq> KName then fail_at ''expected a name'' st
     else ret (tk_value (tok st)) (step_on st))"

definition enter :: "pstate \<Rightarrow> unit parsed" where
  "enter st = (if Suc (ps_nesting st) > MAX_PARSE_NESTING
     then Some (Inl (GqlError QUERY_TOO_DEEP (''The document nests deeper than '' @ show_nat MAX_PARSE_NESTING @ '' levels.'')))
     else ret () (st\<lparr>ps_nesting := Suc (ps_nesting st)\<rparr>))"

definition leave :: "pstate \<Rightarrow> pstate" where
  "leave st = st\<lparr>ps_nesting := ps_nesting st - 1\<rparr>"

section \<open>Types and values\<close>

fun parseType :: "nat \<Rightarrow> pstate \<Rightarrow> (string \<times> bool) parsed" where
  "parseType 0 st = None"
| "parseType (Suc n) st =
     pbind
       (if isPunct ''['' st
        then pbind (enter (step_on st)) (\<lambda>_ s1.
             pbind (parseType n s1) (\<lambda>(t, _) s2.
             pbind (expectPunct '']'' (leave s2)) (\<lambda>_ s3. ret (''['' @ t @ '']'') s3)))
        else expectName st)
       (\<lambda>text s. if isPunct ''!'' s then ret (text @ ''!'', True) (step_on s) else ret (text, False) s)"

definition name_value :: "string \<Rightarrow> gval" where
  "name_value v = (if v = ''true'' then GBool True else if v = ''false'' then GBool False
     else if v = ''null'' then GNull else GEnum v)"

text \<open>The three loops of \<open>parseValue\<close>: one value, the items of a list, the fields of an object.\<close>

fun parseValue :: "nat \<Rightarrow> bool \<Rightarrow> pstate \<Rightarrow> gval parsed"
  and list_items :: "nat \<Rightarrow> bool \<Rightarrow> gval list \<Rightarrow> pstate \<Rightarrow> gval parsed"
  and object_fields :: "nat \<Rightarrow> bool \<Rightarrow> (string \<times> gval) list \<Rightarrow> pstate \<Rightarrow> gval parsed" where
  "parseValue 0 isConst st = None"
| "parseValue (Suc n) isConst st =
     (let t = tok st in
      if tk_kind t = KPunct then
        (if tk_value t = ''$'' then
           (if isConst then fail_at ''a default value cannot reference a variable'' st
            else pbind (expectName (step_on st)) (\<lambda>name s. ret (GVar name) s))
         else if tk_value t = ''['' then pbind (enter (step_on st)) (\<lambda>_ s. list_items n isConst [] s)
         else if tk_value t = ''{'' then pbind (enter (step_on st)) (\<lambda>_ s. object_fields n isConst [] s)
         else fail_at (''unexpected '' @ quoted (tk_value t)) st)
      else (case tk_kind t of
          KInt \<Rightarrow> ret (GInt (js_Number (tk_value t))) (step_on st)
        | KFloat \<Rightarrow> ret (GFloat (js_Number (tk_value t))) (step_on st)
        | KString \<Rightarrow> ret (GString (tk_value t)) (step_on st)
        | KName \<Rightarrow> ret (name_value (tk_value t)) (step_on st)
        | _ \<Rightarrow> fail_at ''expected a value'' st))"
| "list_items 0 isConst acc st = None"
| "list_items (Suc n) isConst acc st =
     (if isPunct '']'' st then ret (GList acc) (leave (step_on st))
      else if is_eof st then fail_at ''unterminated list'' st
      else pbind (parseValue n isConst st) (\<lambda>v s. list_items n isConst (acc @ [v]) s))"
| "object_fields 0 isConst acc st = None"
| "object_fields (Suc n) isConst acc st =
     (if isPunct ''}'' st then ret (GObject acc) (leave (step_on st))
      else if is_eof st then fail_at ''unterminated object'' st
      else pbind (expectName st) (\<lambda>name s1.
           pbind (expectPunct '':'' s1) (\<lambda>_ s2.
           pbind (parseValue n isConst s2) (\<lambda>v s3. object_fields n isConst (record_set name v acc) s3))))"

section \<open>Arguments, directives, variable definitions\<close>

fun argument_list :: "nat \<Rightarrow> (string \<times> gval) list \<Rightarrow> pstate \<Rightarrow> (string \<times> gval) list parsed" where
  "argument_list 0 args st = None"
| "argument_list (Suc n) args st =
     (if isPunct '')'' st then ret args (step_on st)
      else pbind (expectName st) (\<lambda>name s1.
           pbind (expectPunct '':'' s1) (\<lambda>_ s2.
           if in_record name args
           then fail_at (''argument '' @ quoted name @ '' is given more than once'') s2
           else pbind (parseValue n False s2) (\<lambda>v s3. argument_list n (record_set name v args) s3))))"

definition parseArguments :: "nat \<Rightarrow> pstate \<Rightarrow> (string \<times> gval) list parsed" where
  "parseArguments n st = pbind (expectPunct ''('' st) (\<lambda>_ s. argument_list n [] s)"

definition optional_arguments :: "nat \<Rightarrow> pstate \<Rightarrow> (string \<times> gval) list parsed" where
  "optional_arguments n st = (if isPunct ''('' st then parseArguments n st else ret [] st)"

fun directive_list :: "nat \<Rightarrow> directive list \<Rightarrow> pstate \<Rightarrow> directive list parsed" where
  "directive_list 0 acc st = None"
| "directive_list (Suc n) acc st =
     (if isPunct ''@'' st
      then pbind (expectName (step_on st)) (\<lambda>name s1.
           pbind (optional_arguments n s1) (\<lambda>args s2.
           directive_list n (acc @ [\<lparr>dn_name = name, dn_args = args\<rparr>]) s2))
      else ret acc st)"

definition parseDirectives :: "nat \<Rightarrow> pstate \<Rightarrow> directive list parsed" where
  "parseDirectives n st = directive_list n [] st"

definition default_value :: "nat \<Rightarrow> pstate \<Rightarrow> gval option parsed" where
  "default_value n st =
     (if isPunct ''='' st then pbind (parseValue n True (step_on st)) (\<lambda>v s. ret (Some v) s) else ret None st)"

fun variable_list :: "nat \<Rightarrow> variable_definition list \<Rightarrow> pstate \<Rightarrow> variable_definition list parsed" where
  "variable_list 0 acc st = None"
| "variable_list (Suc n) acc st =
     (if isPunct '')'' st then ret acc (step_on st)
      else pbind (expectPunct ''$'' st) (\<lambda>_ s1.
           pbind (expectName s1) (\<lambda>name s2.
           pbind (expectPunct '':'' s2) (\<lambda>_ s3.
           pbind (parseType n s3) (\<lambda>(text, nonNull) s4.
           pbind (default_value n s4) (\<lambda>dflt s5.
           pbind (parseDirectives n s5) (\<lambda>_ s6.
           variable_list n (acc @ [\<lparr>vd_name = name, vd_type = text, vd_nonNull = nonNull, vd_default = dflt\<rparr>]) s6)))))))"

definition parseVariableDefinitions :: "nat \<Rightarrow> pstate \<Rightarrow> variable_definition list parsed" where
  "parseVariableDefinitions n st = pbind (expectPunct ''('' st) (\<lambda>_ s. variable_list n [] s)"

section \<open>Selections\<close>

definition inline_condition :: "pstate \<Rightarrow> string option parsed" where
  "inline_condition st =
     (if is_name ''on'' st then pbind (expectName (step_on st)) (\<lambda>name s. ret (Some name) s) else ret None st)"

definition alias_and_name :: "pstate \<Rightarrow> (string option \<times> string) parsed" where
  "alias_and_name st =
     pbind (expectName st) (\<lambda>first s1.
     if isPunct '':'' s1 then pbind (expectName (step_on s1)) (\<lambda>name s2. ret (Some first, name) s2)
     else ret (None, first) s1)"

fun parseSelectionSet :: "nat \<Rightarrow> pstate \<Rightarrow> selection list parsed"
  and selection_list :: "nat \<Rightarrow> selection list \<Rightarrow> pstate \<Rightarrow> selection list parsed"
  and parseSelection :: "nat \<Rightarrow> pstate \<Rightarrow> selection parsed" where
  "parseSelectionSet 0 st = None"
| "parseSelectionSet (Suc n) st =
     pbind (expectPunct ''{'' st) (\<lambda>_ s1.
     pbind (enter s1) (\<lambda>_ s2.
     pbind (selection_list n [] s2) (\<lambda>sels s3.
     if sels = [] then fail_at ''a selection set must not be empty'' s3 else ret sels s3)))"
| "selection_list 0 acc st = None"
| "selection_list (Suc n) acc st =
     (if isPunct ''}'' st then ret acc (leave (step_on st))
      else if is_eof st then fail_at (''unexpected end of document, expected '' @ quoted ''}'') st
      else pbind (parseSelection n st) (\<lambda>sel s. selection_list n (acc @ [sel]) s))"
| "parseSelection 0 st = None"
| "parseSelection (Suc n) st =
     (if isPunct ''...'' st then
        (let s0 = step_on st in
         if tk_kind (tok s0) = KName \<and> tk_value (tok s0) \<noteq> ''on''
         then pbind (expectName s0) (\<lambda>name s1. pbind (parseDirectives n s1) (\<lambda>dirs s2. ret (Spread name dirs) s2))
         else pbind (inline_condition s0) (\<lambda>cond s1.
              pbind (parseDirectives n s1) (\<lambda>dirs s2.
              pbind (parseSelectionSet n s2) (\<lambda>sels s3. ret (Inline cond dirs sels) s3))))
      else pbind (alias_and_name st) (\<lambda>(alias, name) s1.
           pbind (optional_arguments n s1) (\<lambda>args s2.
           pbind (parseDirectives n s2) (\<lambda>dirs s3.
           if isPunct ''{'' s3
           then pbind (parseSelectionSet n s3) (\<lambda>sels s4. ret (Field alias name args dirs (Some sels)) s4)
           else ret (Field alias name args dirs None) s3))))"

section \<open>Documents\<close>

definition fragment_definition :: "nat \<Rightarrow> document \<Rightarrow> pstate \<Rightarrow> document parsed" where
  "fragment_definition n doc st =
     pbind (expectName (step_on st)) (\<lambda>name s1.
     if name = ''on'' then fail_at (quoted ''on'' @ '' is not a valid fragment name'') s1
     else pbind (expectName s1) (\<lambda>on s2.
     if on \<noteq> ''on'' then fail_at (''expected '' @ quoted ''on'') s2
     else pbind (expectName s2) (\<lambda>cond s3.
     pbind (parseDirectives n s3) (\<lambda>_ s4.
     if name \<in> fst ` set (doc_fragments doc)
     then Some (Inl (GqlError GRAPHQL_VALIDATION_FAILED (''Fragment '' @ quoted name @ '' is defined more than once.'')))
     else pbind (parseSelectionSet n s4) (\<lambda>sels s5.
       ret (doc\<lparr>doc_fragments := doc_fragments doc @
         [(name, \<lparr>fn_name = name, fn_typeCondition = cond, fn_selections = sels\<rparr>)]\<rparr>) s5)))))"

definition operation_definition :: "nat \<Rightarrow> document \<Rightarrow> pstate \<Rightarrow> document parsed" where
  "operation_definition n doc st =
     (let s0 = step_on st in
      pbind (if tk_kind (tok s0) = KName then pbind (expectName s0) (\<lambda>name s. ret (Some name) s) else ret None s0) (\<lambda>name s1.
      pbind (if isPunct ''('' s1 then parseVariableDefinitions n s1 else ret [] s1) (\<lambda>vars s2.
      pbind (parseDirectives n s2) (\<lambda>_ s3.
      pbind (parseSelectionSet n s3) (\<lambda>sels s4.
        ret (doc\<lparr>doc_operations := doc_operations doc @ [\<lparr>on_operation = tk_value (tok st), on_name = name,
          on_variables = vars, on_selections = sels\<rparr>]\<rparr>) s4)))))"

definition OPERATIONS :: "string list" where
  "OPERATIONS = [''query'', ''mutation'', ''subscription'']"

fun parse_definitions :: "nat \<Rightarrow> document \<Rightarrow> pstate \<Rightarrow> document parsed" where
  "parse_definitions 0 doc st = None"
| "parse_definitions (Suc n) doc st =
     (if is_eof st then ret doc st
      else pbind
        (if isPunct ''{'' st
         then pbind (parseSelectionSet n st) (\<lambda>sels s.
           ret (doc\<lparr>doc_operations := doc_operations doc @ [\<lparr>on_operation = ''query'', on_name = None,
             on_variables = [], on_selections = sels\<rparr>]\<rparr>) s)
         else if is_name ''fragment'' st then fragment_definition n doc st
         else if tk_kind (tok st) = KName \<and> tk_value (tok st) \<in> set OPERATIONS then operation_definition n doc st
         else fail_at ''expected an operation or a fragment'' st)
        (\<lambda>doc' s. parse_definitions n doc' s))"

definition parse_fuel :: "token list \<Rightarrow> nat" where
  "parse_fuel ts = 3 * length ts + 4"

definition parse_tokens :: "token list \<Rightarrow> (gql_error, document) result option" where
  "parse_tokens ts =
     (case parse_definitions (parse_fuel ts) \<lparr>doc_operations = [], doc_fragments = []\<rparr> \<lparr>ps_tokens = ts, ps_nesting = 0\<rparr> of
        None \<Rightarrow> None
      | Some (Inl e) \<Rightarrow> Some (Inl e)
      | Some (Inr (doc, _)) \<Rightarrow>
          if doc_operations doc = []
          then Some (Inl (GqlError GRAPHQL_PARSE_FAILED ''The document contains no operation.''))
          else Some (Inr doc))"

definition parseDocument :: "string \<Rightarrow> (gql_error, document) result option" where
  "parseDocument source = (case tokenize source of Inl e \<Rightarrow> Some (Inl e) | Inr ts \<Rightarrow> parse_tokens ts)"

section \<open>Total correctness\<close>

text \<open>The nesting of braces below a selection set, itself counted.\<close>

fun selection_depth :: "selection \<Rightarrow> nat" where
  "selection_depth (Field alias name args dirs None) = 0"
| "selection_depth (Field alias name args dirs (Some sels)) = Suc (foldr (\<lambda>s d. max (selection_depth s) d) sels 0)"
| "selection_depth (Spread name dirs) = 0"
| "selection_depth (Inline cond dirs sels) = Suc (foldr (\<lambda>s d. max (selection_depth s) d) sels 0)"

definition selections_depth :: "selection list \<Rightarrow> nat" where
  "selections_depth sels = foldr (\<lambda>s d. max (selection_depth s) d) sels 0"

definition set_depth :: "selection list \<Rightarrow> nat" where
  "set_depth sels = Suc (selections_depth sels)"

lemma selections_depth_simps [simp]:
  "selections_depth [] = 0"
  "selections_depth (s # ss) = max (selection_depth s) (selections_depth ss)"
  "selections_depth (ss @ [s]) = max (selections_depth ss) (selection_depth s)"
proof -
  show "selections_depth [] = 0" by (simp add: selections_depth_def)
  show "selections_depth (s # ss) = max (selection_depth s) (selections_depth ss)" for s ss
    by (simp add: selections_depth_def)
  show "selections_depth (ss @ [s]) = max (selections_depth ss) (selection_depth s)"
    by (induction ss) (auto simp: selections_depth_def)
qed

lemma selection_depth_sets [simp]:
  "selection_depth (Field alias name args dirs (Some sels)) = set_depth sels"
  "selection_depth (Inline cond dirs sels) = set_depth sels"
  by (simp_all add: set_depth_def selections_depth_def)

declare selection_depth.simps(2,4) [simp del]

definition parser_error :: "gql_error \<Rightarrow> bool" where
  "parser_error e = (case e of Crash \<Rightarrow> False
     | GqlError code m \<Rightarrow> code \<in> {GRAPHQL_PARSE_FAILED, GRAPHQL_VALIDATION_FAILED, QUERY_TOO_DEEP})"

lemma parser_error_simps [simp]:
  "parser_error (GqlError code m) \<longleftrightarrow> code \<in> {GRAPHQL_PARSE_FAILED, GRAPHQL_VALIDATION_FAILED, QUERY_TOO_DEEP}"
  "parser_error (parse_error msg p)"
  by (simp_all add: parser_error_def parse_error_def)

definition posts :: "'a parsed \<Rightarrow> ('a \<Rightarrow> pstate \<Rightarrow> bool) \<Rightarrow> bool" where
  "posts m Q = (case m of None \<Rightarrow> False | Some (Inl e) \<Rightarrow> parser_error e | Some (Inr (a, st)) \<Rightarrow> Q a st)"

definition left :: "pstate \<Rightarrow> nat" where
  "left st = length (ps_tokens st)"

definition moved :: "nat \<Rightarrow> pstate \<Rightarrow> pstate \<Rightarrow> bool" where
  "moved k st st' = (left st' + k \<le> left st \<and> ps_nesting st' = ps_nesting st)"

lemma posts_bind: "posts m Q \<Longrightarrow> (\<And>a st. Q a st \<Longrightarrow> posts (f a st) R) \<Longrightarrow> posts (pbind m f) R"
  unfolding posts_def pbind_def by (cases m; cases "the m"; cases "projr (the m)") fastforce+

lemma posts_mono: "posts m Q \<Longrightarrow> (\<And>a st. Q a st \<Longrightarrow> R a st) \<Longrightarrow> posts m R"
  by (auto simp: posts_def split: option.splits sum.splits prod.splits)

lemma posts_basic [simp]:
  "posts (ret a st) Q \<longleftrightarrow> Q a st" "posts (fail_at msg st) Q" "posts (Some (Inl e)) Q \<longleftrightarrow> parser_error e" "\<not> posts None Q"
  by (simp_all add: posts_def ret_def fail_at_def)

lemma step_on_left [simp]: "left (step_on st) = left st - 1" "ps_nesting (step_on st) = ps_nesting st"
  by (simp_all add: step_on_def left_def)

lemma leave_left [simp]: "left (leave st) = left st" "ps_nesting (leave st) = ps_nesting st - 1"
  by (simp_all add: leave_def left_def)

lemma not_eof_left: "tk_kind (tok st) \<noteq> KEof \<Longrightarrow> 0 < left st"
  by (auto simp: tok_def mk_token_def left_def split: list.splits)

lemma isPunct_left [dest]: "isPunct v st \<Longrightarrow> 0 < left st"
  by (rule not_eof_left) (simp add: isPunct_def)

lemma is_name_left [dest]: "is_name v st \<Longrightarrow> 0 < left st"
  by (rule not_eof_left) (simp add: is_name_def)

lemma posts_expectPunct: "posts (expectPunct v st) (\<lambda>_ s. moved 1 st s)"
  by (auto simp: expectPunct_def moved_def)

lemma posts_expectName: "posts (expectName st) (\<lambda>_ s. moved 1 st s)"
  using not_eof_left [of st] by (auto simp: expectName_def moved_def)

lemma posts_enter:
  "posts (enter st) (\<lambda>_ s. left s = left st \<and> ps_nesting s = Suc (ps_nesting st) \<and> ps_nesting s \<le> MAX_PARSE_NESTING)"
  by (auto simp: enter_def left_def)

lemma parseType_posts: "left st < n \<Longrightarrow> posts (parseType n st) (\<lambda>_ s. moved 1 st s)"
proof (induction n arbitrary: st)
  case (Suc n)
  have open_type: "posts (pbind (enter (step_on st)) (\<lambda>_ s1. pbind (parseType n s1) (\<lambda>(t, _) s2.
      pbind (expectPunct '']'' (leave s2)) (\<lambda>_ s3. ret (''['' @ t @ '']'') s3)))) (\<lambda>_ s. moved 1 st s)"
    if p: "isPunct ''['' st"
    by (rule posts_bind [OF posts_enter], clarsimp, rule posts_bind [OF Suc.IH],
        use Suc.prems isPunct_left [OF p] in simp, clarsimp,
        rule posts_bind [OF posts_expectPunct], use isPunct_left [OF p] in \<open>auto simp: moved_def\<close>)
  show ?case
    unfolding parseType.simps
  proof (rule posts_bind [where Q = "\<lambda>_ s. moved 1 st s"], goal_cases)
    case 1
    show ?case by (cases "isPunct ''['' st", simp only: if_True, erule open_type, simp only: if_False, rule posts_expectName)
  qed (auto simp: moved_def)
qed simp

text \<open>A loop is entered one level deep and leaves it.\<close>

definition closed_by :: "pstate \<Rightarrow> pstate \<Rightarrow> bool" where
  "closed_by st s = (left s + 1 \<le> left st \<and> ps_nesting s = ps_nesting st - 1)"

lemma value_posts:
  "(2 * left st < n \<longrightarrow> posts (parseValue n c st) (\<lambda>_ s. moved 1 st s)) \<and>
   (2 * left st + 1 < n \<longrightarrow> posts (list_items n c items st) (\<lambda>_ s. closed_by st s)) \<and>
   (2 * left st + 1 < n \<longrightarrow> posts (object_fields n c fs st) (\<lambda>_ s. closed_by st s))"
proof (induction n arbitrary: st c items fs)
  case (Suc n)
  have pv: "posts (parseValue n c s) (\<lambda>_ s'. moved 1 s s')" if "2 * left s < n" for c s using Suc that by blast
  have li: "posts (list_items n c xs s) (\<lambda>_ s'. closed_by s s')" if "2 * left s + 1 < n" for c xs s using Suc that by blast
  have ob: "posts (object_fields n c xs s) (\<lambda>_ s'. closed_by s s')" if "2 * left s + 1 < n" for c xs s using Suc that by blast
  have "posts (parseValue (Suc n) c st) (\<lambda>_ s. moved 1 st s)" if f: "2 * left st < Suc n"
  proof -
    have punct: "0 < left st" if "tk_kind (tok st) = KPunct" using that not_eof_left [of st] by simp
    have opened: "posts (pbind (enter (step_on st)) (\<lambda>_ s. list_items n c [] s)) (\<lambda>_ s. moved 1 st s)"
        "posts (pbind (enter (step_on st)) (\<lambda>_ s. object_fields n c [] s)) (\<lambda>_ s. moved 1 st s)"
      if "0 < left st"
      using that f by - (rule posts_bind [OF posts_enter], rule posts_mono, rule li ob, auto simp: closed_by_def moved_def)+
    have var: "posts (pbind (expectName (step_on st)) (\<lambda>name s. ret (GVar name) s)) (\<lambda>_ s. moved 1 st s)"
      by (rule posts_bind [OF posts_expectName]) (auto simp: moved_def)
    show ?thesis using punct opened var not_eof_left [of st]
      by (auto simp: Let_def moved_def split: token_kind.splits)
  qed
  moreover have "posts (list_items (Suc n) c items st) (\<lambda>_ s. closed_by st s)" if f: "2 * left st + 1 < Suc n"
  proof -
    have "posts (pbind (parseValue n c st) (\<lambda>v s. list_items n c (items @ [v]) s)) (\<lambda>_ s. closed_by st s)"
      using f by - (rule posts_bind [OF pv], simp, rule posts_mono, rule li, auto simp: closed_by_def moved_def)
    then show ?thesis using isPunct_left [of _ st] by (auto simp: closed_by_def Suc_le_eq)
  qed
  moreover have "posts (object_fields (Suc n) c fs st) (\<lambda>_ s. closed_by st s)" if f: "2 * left st + 1 < Suc n"
  proof -
    have "posts (pbind (expectName st) (\<lambda>name s1. pbind (expectPunct '':'' s1) (\<lambda>_ s2.
        pbind (parseValue n c s2) (\<lambda>v s3. object_fields n c (record_set name v fs) s3)))) (\<lambda>_ s. closed_by st s)"
      using f by - (rule posts_bind [OF posts_expectName], rule posts_bind [OF posts_expectPunct], rule posts_bind [OF pv],
        simp add: moved_def, rule posts_mono, rule ob, auto simp: closed_by_def moved_def)
    then show ?thesis using isPunct_left [of _ st] by (auto simp: closed_by_def Suc_le_eq)
  qed
  ultimately show ?case by blast
qed simp

lemma parseValue_posts: "2 * left st < n \<Longrightarrow> posts (parseValue n c st) (\<lambda>_ s. moved 1 st s)"
  using value_posts by blast

lemma argument_list_posts: "2 * left st < n \<Longrightarrow> posts (argument_list n args st) (\<lambda>_ s. moved 1 st s)"
proof (induction n arbitrary: args st)
  case (Suc n)
  have "posts (pbind (expectName st) (\<lambda>name s1. pbind (expectPunct '':'' s1) (\<lambda>_ s2.
      if in_record name args then fail_at (''argument '' @ quoted name @ '' is given more than once'') s2
      else pbind (parseValue n False s2) (\<lambda>v s3. argument_list n (record_set name v args) s3))))
    (\<lambda>_ s. moved 1 st s)" (is "posts ?m _")
  proof (rule posts_bind [OF posts_expectName], rule posts_bind [OF posts_expectPunct], goal_cases)
    case (1 name s1 u s2)
    have "posts (pbind (parseValue n False s2) (\<lambda>v s3. argument_list n (record_set name v args) s3)) (\<lambda>_ s. moved 1 st s)"
      using 1 Suc.prems by - (rule posts_bind [OF parseValue_posts], simp add: moved_def,
        rule posts_mono, rule Suc.IH, auto simp: moved_def)
    then show ?case by simp
  qed
  then show ?case using isPunct_left [of _ st] by (auto simp: moved_def Suc_le_eq)
qed simp

lemma optional_arguments_posts: "2 * left st < n + 2 \<Longrightarrow> posts (optional_arguments n st) (\<lambda>_ s. moved 0 st s)"
proof -
  assume n: "2 * left st < n + 2"
  have "posts (parseArguments n st) (\<lambda>_ s. moved 0 st s)"
    unfolding parseArguments_def using n
    by - (rule posts_bind [OF posts_expectPunct], rule posts_mono, rule argument_list_posts, auto simp: moved_def)
  then show ?thesis by (auto simp: optional_arguments_def moved_def)
qed

lemma directive_list_posts: "2 * left st < n \<Longrightarrow> posts (directive_list n acc st) (\<lambda>_ s. moved 0 st s)"
proof (induction n arbitrary: acc st)
  case (Suc n)
  have "posts (pbind (expectName (step_on st)) (\<lambda>name s1. pbind (optional_arguments n s1) (\<lambda>args s2.
      directive_list n (acc @ [\<lparr>dn_name = name, dn_args = args\<rparr>]) s2))) (\<lambda>_ s. moved 0 st s)" if "0 < left st"
    using that Suc.prems by - (rule posts_bind [OF posts_expectName], rule posts_bind [OF optional_arguments_posts],
      force simp: moved_def, rule posts_mono, rule Suc.IH, auto simp: moved_def)
  then show ?case using isPunct_left [of _ st] by (auto simp: moved_def)
qed simp

lemma parseDirectives_posts: "2 * left st < n \<Longrightarrow> posts (parseDirectives n st) (\<lambda>_ s. moved 0 st s)"
  unfolding parseDirectives_def by (rule directive_list_posts)

lemma default_value_posts: "2 * left st < n + 2 \<Longrightarrow> posts (default_value n st) (\<lambda>_ s. moved 0 st s)"
proof -
  assume n: "2 * left st < n + 2"
  have "posts (pbind (parseValue n True (step_on st)) (\<lambda>v s. ret (Some v) s)) (\<lambda>_ s. moved 0 st s)" if "0 < left st"
    using that n by - (rule posts_bind [OF parseValue_posts], auto simp: moved_def)
  then show ?thesis using isPunct_left [of _ st] by (auto simp: default_value_def moved_def)
qed

lemma variable_list_posts: "2 * left st < n \<Longrightarrow> posts (variable_list n acc st) (\<lambda>_ s. moved 1 st s)"
proof (induction n arbitrary: acc st)
  case (Suc n)
  have "posts (pbind (expectPunct ''$'' st) (\<lambda>_ s1. pbind (expectName s1) (\<lambda>name s2. pbind (expectPunct '':'' s2) (\<lambda>_ s3.
      pbind (parseType n s3) (\<lambda>(text, nonNull) s4. pbind (default_value n s4) (\<lambda>dflt s5.
      pbind (parseDirectives n s5) (\<lambda>_ s6. variable_list n
        (acc @ [\<lparr>vd_name = name, vd_type = text, vd_nonNull = nonNull, vd_default = dflt\<rparr>]) s6)))))))
    (\<lambda>_ s. moved 1 st s)"
    using Suc.prems
    by - (rule posts_bind [OF posts_expectPunct], rule posts_bind [OF posts_expectName], rule posts_bind [OF posts_expectPunct],
      rule posts_bind [OF parseType_posts], simp add: moved_def, clarsimp, rule posts_bind [OF default_value_posts],
      simp add: moved_def, rule posts_bind [OF parseDirectives_posts], simp add: moved_def,
      rule posts_mono, rule Suc.IH, auto simp: moved_def)
  then show ?case using isPunct_left [of _ st] by (auto simp: moved_def Suc_le_eq)
qed simp

lemma variable_definitions_posts:
  "2 * left st < n + 2 \<Longrightarrow> posts (parseVariableDefinitions n st) (\<lambda>_ s. moved 1 st s)"
  unfolding parseVariableDefinitions_def
  by (rule posts_bind [OF posts_expectPunct], rule posts_mono, rule variable_list_posts) (auto simp: moved_def)

text \<open>Selections: \<open>room st sels\<close> bounds the nesting of what was read.\<close>

definition room :: "pstate \<Rightarrow> nat \<Rightarrow> bool" where
  "room st d = (d = 0 \<or> ps_nesting st + d \<le> MAX_PARSE_NESTING)"

definition got_set :: "pstate \<Rightarrow> selection list \<Rightarrow> pstate \<Rightarrow> bool" where
  "got_set st sels s = (moved 1 st s \<and> room st (set_depth sels))"

definition got_list :: "pstate \<Rightarrow> selection list \<Rightarrow> pstate \<Rightarrow> bool" where
  "got_list st sels s = (closed_by st s \<and> room st (selections_depth sels))"

definition got_selection :: "pstate \<Rightarrow> selection \<Rightarrow> pstate \<Rightarrow> bool" where
  "got_selection st sel s = (moved 1 st s \<and> room st (selection_depth sel))"

lemma alias_and_name_posts: "posts (alias_and_name st) (\<lambda>_ s. moved 1 st s)"
  unfolding alias_and_name_def
proof (rule posts_bind [OF posts_expectName], goal_cases)
  case (1 first s1)
  have "posts (pbind (expectName (step_on s1)) (\<lambda>name s2. ret (Some first, name) s2)) (\<lambda>_ s. moved 1 st s)"
    using 1 by - (rule posts_bind [OF posts_expectName], auto simp: moved_def)
  with 1 show ?case by auto
qed

lemma inline_condition_posts: "posts (inline_condition st) (\<lambda>_ s. moved 0 st s)"
proof -
  have "posts (pbind (expectName (step_on st)) (\<lambda>name s. ret (Some name) s)) (\<lambda>_ s. moved 0 st s)"
    by (rule posts_bind [OF posts_expectName]) (auto simp: moved_def)
  then show ?thesis by (auto simp: inline_condition_def moved_def)
qed

lemma room_moved: "moved k st s \<Longrightarrow> room s d = room st d"
  by (simp add: room_def moved_def)

lemma got_set_moved: "moved k st s \<Longrightarrow> got_set s sels s' \<Longrightarrow> got_set st sels s'"
  unfolding got_set_def by (auto simp: room_moved) (auto simp: moved_def)

lemma selection_posts:
  "(3 * left st < n \<longrightarrow> posts (parseSelectionSet n st) (got_set st)) \<and>
   (3 * left st + 2 < n \<and> room st (selections_depth acc) \<longrightarrow> posts (selection_list n acc st) (got_list st)) \<and>
   (3 * left st + 1 < n \<longrightarrow> posts (parseSelection n st) (got_selection st))"
proof (induction n arbitrary: st acc)
  case (Suc n)
  have ss: "posts (parseSelectionSet n s) (got_set s)" if "3 * left s < n" for s using Suc that by blast
  have sl: "posts (selection_list n xs s) (got_list s)"
    if "3 * left s + 2 < n" "room s (selections_depth xs)" for xs s using Suc that by blast
  have se: "posts (parseSelection n s) (got_selection s)" if "3 * left s + 1 < n" for s using Suc that by blast
  have set_case: "posts (parseSelectionSet (Suc n) st) (got_set st)" if f: "3 * left st < Suc n"
    unfolding parseSelectionSet.simps
  proof (rule posts_bind [OF posts_expectPunct], rule posts_bind [OF posts_enter], rule posts_bind [OF sl], goal_cases)
    case (1 u s1 v s2)
    with f show ?case by (auto simp: moved_def)
  next
    case (2 u s1 v s2)
    show ?case by (simp add: room_def)
  next
    case (3 u s1 v s2 sels s3)
    then show ?case by (auto simp: got_set_def got_list_def closed_by_def moved_def room_def set_depth_def)
  qed
  have list_case: "posts (selection_list (Suc n) acc st) (got_list st)"
    if f: "3 * left st + 2 < Suc n" and r: "room st (selections_depth acc)"
  proof -
    have "posts (pbind (parseSelection n st) (\<lambda>sel s. selection_list n (acc @ [sel]) s)) (got_list st)"
    proof (rule posts_bind [OF se], goal_cases)
      case 1 with f show ?case by simp
    next
      case (2 sel s)
      then have m: "moved 1 st s" "room st (selection_depth sel)" by (simp_all add: got_selection_def)
      then have "room s (selections_depth (acc @ [sel]))" using r by (auto simp: room_def moved_def max_def)
      moreover have "3 * left s + 2 < n" using m f by (simp add: moved_def)
      ultimately show ?case
        by - (rule posts_mono, rule sl, use m in \<open>auto simp: got_list_def closed_by_def moved_def room_def\<close>)
    qed
    then show ?thesis using isPunct_left [of _ st] r by (auto simp: got_list_def closed_by_def Suc_le_eq)
  qed
  have sel_case: "posts (parseSelection (Suc n) st) (got_selection st)" if f: "3 * left st + 1 < Suc n"
  proof -
    let ?s0 = "step_on st"
    have spread: "posts (pbind (expectName ?s0) (\<lambda>name s1. pbind (parseDirectives n s1) (\<lambda>dirs s2.
        ret (Spread name dirs) s2))) (got_selection st)"
      using f by - (rule posts_bind [OF posts_expectName], rule posts_bind [OF parseDirectives_posts],
        force simp: moved_def, force simp: got_selection_def moved_def room_def)
    have inline: "posts (pbind (inline_condition ?s0) (\<lambda>cond s1. pbind (parseDirectives n s1) (\<lambda>dirs s2.
        pbind (parseSelectionSet n s2) (\<lambda>sels s3. ret (Inline cond dirs sels) s3)))) (got_selection st)"
      if p: "0 < left st"
    proof (rule posts_bind [OF inline_condition_posts], rule posts_bind [OF parseDirectives_posts],
        goal_cases)
      case (1 cond s1)
      then have "left s1 < left st" using p by (auto simp: moved_def)
      with f show ?case by simp
    next
      case (2 cond s1 dirs s2)
      then show ?case
        using f p by - (rule posts_bind [OF ss], force simp: moved_def, auto simp: got_set_def got_selection_def moved_def room_def)
    qed
    have fld: "posts (pbind (alias_and_name st) (\<lambda>(alias, name) s1. pbind (optional_arguments n s1) (\<lambda>args s2.
        pbind (parseDirectives n s2) (\<lambda>dirs s3. if isPunct ''{'' s3
          then pbind (parseSelectionSet n s3) (\<lambda>sels s4. ret (Field alias name args dirs (Some sels)) s4)
          else ret (Field alias name args dirs None) s3)))) (got_selection st)"
    proof (rule posts_bind [OF alias_and_name_posts], clarify, rule posts_bind [OF optional_arguments_posts],
        goal_cases)
      case 1 with f show ?case by (simp add: moved_def)
    next
      case (2 al nm s args s2)
      then have m2: "left s2 < left st" "ps_nesting s2 = ps_nesting st" by (auto simp: moved_def)
      show ?case
      proof (rule posts_bind [OF parseDirectives_posts], goal_cases)
        case 1 with f m2 show ?case by simp
      next
        case (2 dirs s3)
        with m2 have m3: "left s3 < left st" "ps_nesting s3 = ps_nesting st" by (auto simp: moved_def)
        then have "posts (pbind (parseSelectionSet n s3) (\<lambda>sels s4. ret (Field al nm args dirs (Some sels)) s4)) (got_selection st)"
          using f by - (rule posts_bind [OF ss], simp, auto simp: got_set_def got_selection_def moved_def room_def)
        then show ?case using m3 by (auto simp: got_selection_def moved_def room_def)
      qed
    qed
    show ?thesis using spread inline fld isPunct_left [of "''...''" st] by (simp add: Let_def)
  qed
  show ?case using set_case list_case sel_case by blast
qed simp

lemma parseSelectionSet_posts: "3 * left st < n \<Longrightarrow> posts (parseSelectionSet n st) (got_set st)"
  using selection_posts by blast

section \<open>Documents\<close>

text \<open>No selection set of a document nests deeper than the parser's limit.\<close>

definition shallow :: "document \<Rightarrow> bool" where
  "shallow doc = ((\<forall>op \<in> set (doc_operations doc). set_depth (on_selections op) \<le> MAX_PARSE_NESTING) \<and>
     (\<forall>f \<in> snd ` set (doc_fragments doc). set_depth (fn_selections f) \<le> MAX_PARSE_NESTING))"

definition got_definition :: "pstate \<Rightarrow> document \<Rightarrow> pstate \<Rightarrow> bool" where
  "got_definition st doc s = (moved 1 st s \<and> shallow doc)"

lemma got_set_shallow: "got_set st sels s \<Longrightarrow> ps_nesting st = 0 \<Longrightarrow> set_depth sels \<le> MAX_PARSE_NESTING"
  by (auto simp: got_set_def room_def set_depth_def)

lemma fragment_definition_posts:
  assumes "3 * left st < n + 1" "0 < left st" "ps_nesting st = 0" "shallow doc"
  shows "posts (fragment_definition n doc st) (got_definition st)"
  unfolding fragment_definition_def
proof (rule posts_bind [OF posts_expectName], goal_cases)
  case (1 name s1)
  note m1 = 1
  have "posts (pbind (expectName s1) (\<lambda>on s2. if on \<noteq> ''on'' then fail_at (''expected '' @ quoted ''on'') s2
      else pbind (expectName s2) (\<lambda>cond s3. pbind (parseDirectives n s3) (\<lambda>_ s4.
      if name \<in> fst ` set (doc_fragments doc)
      then Some (Inl (GqlError GRAPHQL_VALIDATION_FAILED (''Fragment '' @ quoted name @ '' is defined more than once.'')))
      else pbind (parseSelectionSet n s4) (\<lambda>sels s5. ret (doc\<lparr>doc_fragments := doc_fragments doc @
        [(name, \<lparr>fn_name = name, fn_typeCondition = cond, fn_selections = sels\<rparr>)]\<rparr>) s5)))))
    (got_definition st)"
  proof (rule posts_bind [OF posts_expectName], goal_cases)
    case (1 on s2)
    have "posts (pbind (expectName s2) (\<lambda>cond s3. pbind (parseDirectives n s3) (\<lambda>_ s4.
        if name \<in> fst ` set (doc_fragments doc)
        then Some (Inl (GqlError GRAPHQL_VALIDATION_FAILED (''Fragment '' @ quoted name @ '' is defined more than once.'')))
        else pbind (parseSelectionSet n s4) (\<lambda>sels s5. ret (doc\<lparr>doc_fragments := doc_fragments doc @
          [(name, \<lparr>fn_name = name, fn_typeCondition = cond, fn_selections = sels\<rparr>)]\<rparr>) s5))))
      (got_definition st)"
    proof (rule posts_bind [OF posts_expectName], rule posts_bind [OF parseDirectives_posts], goal_cases)
      case (1 cond s3) 
      then have "left s3 + 3 \<le> left st - 1" using m1 \<open>moved 1 s1 s2\<close> by (auto simp: moved_def)
      with assms show ?case by simp
    next
      case (2 cond s3 dirs s4)
      then have m4: "left s4 < left st" "ps_nesting s4 = 0" using m1 \<open>moved 1 s1 s2\<close> assms by (auto simp: moved_def)
      have "posts (pbind (parseSelectionSet n s4) (\<lambda>sels s5. ret (doc\<lparr>doc_fragments := doc_fragments doc @
          [(name, \<lparr>fn_name = name, fn_typeCondition = cond, fn_selections = sels\<rparr>)]\<rparr>) s5)) (got_definition st)"
      proof (rule posts_bind [OF parseSelectionSet_posts], goal_cases)
        case 1 with m4 assms show ?case by simp
      next
        case (2 sels s5)
        then show ?case using m4 assms got_set_shallow [OF 2 m4(2)]
          by (auto simp: got_definition_def shallow_def got_set_def moved_def)
      qed
      then show ?case by simp
    qed
    then show ?case by simp
  qed
  then show ?case by simp
qed

lemma operation_definition_posts:
  assumes "3 * left st < n + 1" "0 < left st" "ps_nesting st = 0" "shallow doc"
  shows "posts (operation_definition n doc st) (got_definition st)"
  unfolding operation_definition_def Let_def
proof (rule posts_bind [where Q = "\<lambda>_ s. moved 0 (step_on st) s"], goal_cases)
  case 1
  have "posts (pbind (expectName (step_on st)) (\<lambda>name s. ret (Some name) s)) (\<lambda>_ s. moved 0 (step_on st) s)"
    by (rule posts_bind [OF posts_expectName]) (auto simp: moved_def)
  then show ?case by (auto simp: moved_def)
next
  case (2 name s1)
  note m1 = 2
  have vars: "posts (if isPunct ''('' s1 then parseVariableDefinitions n s1 else ret [] s1) (\<lambda>_ s. moved 0 s1 s)"
    using posts_mono [OF variable_definitions_posts [of s1 n], of "\<lambda>_ s. moved 0 s1 s"] m1 assms
    by (auto simp: moved_def)
  show ?case
  proof (rule posts_bind [OF vars], rule posts_bind [OF parseDirectives_posts], goal_cases)
    case (1 a s) with m1 assms show ?case by (auto simp: moved_def)
  next
    case (2 vs s2 ds s3)
    then have m3: "left s3 < left st" "ps_nesting s3 = 0" using m1 assms by (auto simp: moved_def)
    show ?case
    proof (rule posts_bind [OF parseSelectionSet_posts], goal_cases)
      case 1 with m3 assms show ?case by simp
    next
      case (2 sels s4)
      then show ?case using m3 assms got_set_shallow [OF 2 m3(2)]
        by (auto simp: got_definition_def shallow_def got_set_def moved_def)
    qed
  qed
qed

lemma parse_definitions_posts:
  "3 * left st + 1 < n \<Longrightarrow> ps_nesting st = 0 \<Longrightarrow> shallow doc \<Longrightarrow> posts (parse_definitions n doc st) (\<lambda>d _. shallow d)"
proof (induction n arbitrary: doc st)
  case (Suc n)
  have anon: "posts (pbind (parseSelectionSet n st) (\<lambda>sels s.
      ret (doc\<lparr>doc_operations := doc_operations doc @ [\<lparr>on_operation = ''query'', on_name = None,
        on_variables = [], on_selections = sels\<rparr>]\<rparr>) s)) (got_definition st)"
  proof (rule posts_bind [OF parseSelectionSet_posts], goal_cases)
    case 1 with Suc.prems show ?case by simp
  next
    case (2 sels s)
    then show ?case using Suc.prems got_set_shallow [OF 2] by (auto simp: got_definition_def shallow_def got_set_def)
  qed
  have again: "posts (parse_definitions n d s) (\<lambda>d _. shallow d)" if "got_definition st d s" for d s
    using that Suc.prems by - (rule Suc.IH, auto simp: got_definition_def moved_def)
  show ?case
  proof (cases "is_eof st")
    case True
    with Suc.prems show ?thesis by simp
  next
    case False
    show ?thesis
      unfolding parse_definitions.simps if_not_P [OF False]
    proof (rule posts_bind [OF _ again])
      have left: "0 < left st" using False not_eof_left [of st] by (simp add: is_eof_def)
      have f: "3 * left st < n + 1" using Suc.prems by simp
      note frag = fragment_definition_posts [OF f left Suc.prems(2,3)]
      note oper = operation_definition_posts [OF f left Suc.prems(2,3)]
      show "posts (if isPunct ''{'' st
         then pbind (parseSelectionSet n st) (\<lambda>sels s.
           ret (doc\<lparr>doc_operations := doc_operations doc @ [\<lparr>on_operation = ''query'', on_name = None,
             on_variables = [], on_selections = sels\<rparr>]\<rparr>) s)
         else if is_name ''fragment'' st then fragment_definition n doc st
         else if tk_kind (tok st) = KName \<and> tk_value (tok st) \<in> set OPERATIONS then operation_definition n doc st
         else fail_at ''expected an operation or a fragment'' st) (got_definition st)"
        by (simp only: anon frag oper posts_basic split: if_split) simp
    qed
  qed
qed simp

lemma parse_tokens_total:
  "\<exists>r. parse_tokens ts = Some r \<and> (case r of Inl e \<Rightarrow> parser_error e | Inr doc \<Rightarrow> doc_operations doc \<noteq> [] \<and> shallow doc)"
proof -
  let ?st = "\<lparr>ps_tokens = ts, ps_nesting = 0\<rparr>" and ?doc = "\<lparr>doc_operations = [], doc_fragments = []\<rparr>"
  have "posts (parse_definitions (parse_fuel ts) ?doc ?st) (\<lambda>d _. shallow d)"
    by (rule parse_definitions_posts) (auto simp: left_def parse_fuel_def shallow_def)
  then show ?thesis
    by (auto simp: parse_tokens_def posts_def split: option.splits sum.splits)
qed

lemma lex_errors: "lex_all i s acc = Inl e \<Longrightarrow> parser_error e"
proof -
  have str: "lex_string a j t v = Inl e \<Longrightarrow> parser_error e" for a j t v
  proof (induction t arbitrary: j v rule: length_induct)
    case (1 t)
    have ih: "parser_error e" if "lex_string a j u v = Inl e" "length u < length t" for j u v using "1.IH" that by blast
    from "1.prems" show ?case
      by (subst (asm) lex_string.simps) (auto split: list.splits option.splits if_splits intro: ih)
  qed
  have num: "lex_number a t = Inl e \<Longrightarrow> parser_error e" for a t
    by (auto simp: lex_number_def Let_def split: if_splits)
  show "lex_all i s acc = Inl e \<Longrightarrow> parser_error e"
  proof (induction i s acc rule: lex_all.induct)
    case (1 i s acc)
    show ?case
    proof (cases s)
      case Nil
      with "1.prems" show ?thesis by (simp add: lex_all.simps)
    next
      case (Cons c r)
      note ih = "1.IH" [OF Cons]
      from "1.prems" Cons ih str num show ?thesis
        by (subst (asm) lex_all.simps) (auto split: if_splits sum.splits)
    qed
  qed
qed

end
