(* ===== verification/Gql_Analysis.thy ===== *)
theory Gql_Analysis
  imports Gql_Parser
begin

text \<open>
  The schema and the static analysis of \<open>packages/api/src/graphql.ts\<close>: argument coercion,
  \<open>@skip\<close>/\<open>@include\<close>, field collection with fragments, and the walk that enforces the depth and
  cost limits before the store is touched. Costs are exact integers.
\<close>

section \<open>Values\<close>

text \<open>
  What \<open>valueOf\<close> returns. \<open>VInherited\<close> is a member of \<open>Object.prototype\<close>, which a variable with
  its name reads from the empty \<open>vars\<close> object; the source only tests the type of it.
\<close>

datatype gvalue =
    VUndefined | VNull | VBool bool | VNum js_num | VString string
  | VList "gvalue list" | VObject "(string \<times> gvalue) list" | VInherited

fun of_json :: "json \<Rightarrow> gvalue" where
  "of_json JNull = VNull"
| "of_json (JBool b) = VBool b"
| "of_json (JNum r) = VNum (JsNum r)"
| "of_json (JStr s) = VString s"
| "of_json (JArr js) = VList (map of_json js)"
| "of_json (JObj kvs) = VObject (map (\<lambda>(k, v). (k, of_json v)) kvs)"

type_synonym variables = "(string \<times> gvalue) list"

text \<open>Reading a property of a plain object.\<close>

definition record_get :: "(string \<times> gvalue) list \<Rightarrow> string \<Rightarrow> gvalue" where
  "record_get m name = (case map_of m name of Some v \<Rightarrow> v
     | None \<Rightarrow> if name \<in> set PROTO_NAMES then VInherited else VUndefined)"

fun valueOf :: "gval \<Rightarrow> variables \<Rightarrow> gvalue" where
  "valueOf (GVar name) vars = record_get vars name"
| "valueOf (GInt n) vars = VNum n"
| "valueOf (GFloat n) vars = VNum n"
| "valueOf (GString s) vars = VString s"
| "valueOf (GBool b) vars = VBool b"
| "valueOf (GEnum s) vars = VString s"
| "valueOf GNull vars = VNull"
| "valueOf (GList items) vars = VList (map (\<lambda>i. valueOf i vars) items)"
| "valueOf (GObject fs) vars = VObject (map (\<lambda>(k, v). (k, valueOf v vars)) fs)"

section \<open>The schema\<close>

record type_ref =
  ty_name :: string
  ty_list :: bool
  ty_nonNull :: bool
  ty_itemNonNull :: bool

datatype arg_type = AString | AInt | ABoolean | AStrings | AOrder

record arg_def =
  ad_type :: arg_type
  ad_required :: bool

datatype list_size = Items int | BySize_limit | BySize_parent

text \<open>The resolvers the schema declares, by name; \<open>Gql_Exec\<close> gives their meaning.\<close>

datatype resolver =
    Query_events | Query_event | Query_contracts | Query_contract | Query_topics
  | Event_contract | Contract_topics | Contract_events

record field_def =
  fd_type :: type_ref
  fd_args :: "(string \<times> arg_def) list"
  fd_size :: "list_size option"
  fd_paged :: bool
  fd_resolve :: "resolver option"

definition SCALARS :: "string list" where
  "SCALARS = [''String'', ''Int'', ''Float'', ''Boolean'', ''JSON'']"

definition arg :: "arg_type \<Rightarrow> arg_def" where
  "arg t = \<lparr>ad_type = t, ad_required = False\<rparr>"

definition required_arg :: "arg_type \<Rightarrow> arg_def" where
  "required_arg t = \<lparr>ad_type = t, ad_required = True\<rparr>"

definition PAGE_ARGS :: "(string \<times> arg_def) list" where
  "PAGE_ARGS = [(''topics'', arg AStrings), (''fromLedger'', arg AInt), (''toLedger'', arg AInt), (''fromTime'', arg AInt),
     (''toTime'', arg AInt), (''txHash'', arg AString), (''address'', arg AString), (''search'', arg AString),
     (''successfulOnly'', arg ABoolean), (''limit'', arg AInt), (''cursor'', arg AString), (''order'', arg AOrder)]"

definition one :: "string \<Rightarrow> bool \<Rightarrow> type_ref" where
  "one name nonNull = \<lparr>ty_name = name, ty_list = False, ty_nonNull = nonNull, ty_itemNonNull = False\<rparr>"

definition many :: "string \<Rightarrow> type_ref" where
  "many name = \<lparr>ty_name = name, ty_list = True, ty_nonNull = True, ty_itemNonNull = True\<rparr>"

definition plain :: "type_ref \<Rightarrow> field_def" where
  "plain t = \<lparr>fd_type = t, fd_args = [], fd_size = None, fd_paged = False, fd_resolve = None\<rparr>"

definition resolved_by :: "type_ref \<Rightarrow> (string \<times> arg_def) list \<Rightarrow> resolver \<Rightarrow> field_def" where
  "resolved_by t as r = (plain t)\<lparr>fd_args := as, fd_resolve := Some r\<rparr>"

definition query_fields :: "(string \<times> field_def) list" where
  "query_fields =
     [(''events'', (resolved_by (one ''EventPage'' True) ((''contractId'', arg AString) # PAGE_ARGS) Query_events)\<lparr>fd_paged := True\<rparr>),
      (''event'', resolved_by (one ''Event'' False) [(''id'', required_arg AString)] Query_event),
      (''contracts'', (resolved_by (many ''Contract'') [(''limit'', arg AInt)] Query_contracts)\<lparr>fd_size := Some BySize_limit\<rparr>),
      (''contract'', resolved_by (one ''Contract'' False) [(''id'', required_arg AString)] Query_contract),
      (''topics'', (resolved_by (many ''Topic'') [(''contractId'', required_arg AString), (''limit'', arg AInt)] Query_topics)
         \<lparr>fd_size := Some BySize_limit\<rparr>)]"

definition page_fields :: "(string \<times> field_def) list" where
  "page_fields =
     [(''events'', (plain (many ''Event''))\<lparr>fd_size := Some BySize_parent\<rparr>),
      (''nextCursor'', plain (one ''String'' False)), (''total'', plain (one ''Int'' True))]"

definition event_fields :: "(string \<times> field_def) list" where
  "event_fields =
     [(''id'', plain (one ''String'' True)), (''contractId'', plain (one ''String'' True)), (''type'', plain (one ''String'' True)),
      (''ledger'', plain (one ''Int'' True)), (''ledgerClosedAt'', plain (one ''String'' True)),
      (''txHash'', plain (one ''String'' True)), (''transactionIndex'', plain (one ''Int'' True)),
      (''operationIndex'', plain (one ''Int'' True)), (''inSuccessfulContractCall'', plain (one ''Boolean'' True)),
      (''topics'', (plain (many ''DecodedValue''))\<lparr>fd_size := Some (Items 8)\<rparr>), (''value'', plain (one ''DecodedValue'' True)),
      (''decodeError'', plain (one ''String'' False)), (''indexedAt'', plain (one ''String'' True)),
      (''contract'', resolved_by (one ''Contract'' False) [] Event_contract)]"

definition decoded_fields :: "(string \<times> field_def) list" where
  "decoded_fields = [(''type'', plain (one ''String'' True)), (''value'', plain (one ''JSON'' False))]"

definition contract_fields :: "(string \<times> field_def) list" where
  "contract_fields =
     [(''contractId'', plain (one ''String'' True)), (''eventCount'', plain (one ''Int'' True)),
      (''firstLedger'', plain (one ''Int'' True)), (''lastLedger'', plain (one ''Int'' True)),
      (''lastSeenAt'', plain (one ''String'' True)),
      (''topics'', (resolved_by (many ''Topic'') [(''limit'', arg AInt)] Contract_topics)\<lparr>fd_size := Some BySize_limit\<rparr>),
      (''events'', (resolved_by (one ''EventPage'' True) PAGE_ARGS Contract_events)\<lparr>fd_paged := True\<rparr>)]"

definition topic_fields :: "(string \<times> field_def) list" where
  "topic_fields = [(''topic'', plain (one ''String'' True)), (''count'', plain (one ''Int'' True))]"

definition gql_schema :: "(string \<times> (string \<times> field_def) list) list" where
  "gql_schema = [(''Query'', query_fields), (''EventPage'', page_fields), (''Event'', event_fields),
     (''DecodedValue'', decoded_fields), (''Contract'', contract_fields), (''Topic'', topic_fields)]"

section \<open>Arguments and directives\<close>

definition invalid :: "string \<Rightarrow> gql_error" where
  "invalid message = GqlError GRAPHQL_VALIDATION_FAILED message"

definition bad_argument :: "string \<Rightarrow> string \<Rightarrow> string \<Rightarrow> gql_error" where
  "bad_argument fld name expected =
     GqlError BAD_USER_INPUT (''Argument '' @ quoted name @ '' of '' @ quoted fld @ '' must be '' @ expected @ ''.'')"

definition is_integer :: "js_num \<Rightarrow> bool" where
  "is_integer n = (case n of JsNum r \<Rightarrow> rat_is_int r | _ \<Rightarrow> False)"

definition is_text :: "gvalue \<Rightarrow> bool" where
  "is_text v = (case v of VString _ \<Rightarrow> True | _ \<Rightarrow> False)"

definition coerceArg :: "string \<Rightarrow> string \<Rightarrow> arg_def \<Rightarrow> gvalue \<Rightarrow> (gql_error, gvalue) result" where
  "coerceArg fld name def raw =
     (if raw = VNull then (if ad_required def then Inl (bad_argument fld name ''non-null'') else Inr VNull)
      else case ad_type def of
        AString \<Rightarrow> (case raw of VString s \<Rightarrow> Inr raw | _ \<Rightarrow> Inl (bad_argument fld name ''a String''))
      | AInt \<Rightarrow> (case raw of VNum n \<Rightarrow> if is_integer n then Inr raw else Inl (bad_argument fld name ''an Int'')
          | _ \<Rightarrow> Inl (bad_argument fld name ''an Int''))
      | ABoolean \<Rightarrow> (case raw of VBool b \<Rightarrow> Inr raw | _ \<Rightarrow> Inl (bad_argument fld name ''a Boolean''))
      | AOrder \<Rightarrow> (if raw = VString ''asc'' \<or> raw = VString ''desc'' then Inr raw
          else Inl (bad_argument fld name (quoted ''asc'' @ '' or '' @ quoted ''desc'')))
      | AStrings \<Rightarrow>
          (let items = (case raw of VList xs \<Rightarrow> xs | _ \<Rightarrow> [raw]) in
           if \<not> list_all (\<lambda>i. i = VNull \<or> is_text i) items then Inl (bad_argument fld name ''a list of Strings'')
           else Inr (VList items)))"

definition given_value :: "(string \<times> gval) list \<Rightarrow> string \<Rightarrow> variables \<Rightarrow> gvalue" where
  "given_value given name vars = (case map_of given name of None \<Rightarrow> VUndefined | Some node \<Rightarrow> valueOf node vars)"

fun declared_args ::
    "string \<Rightarrow> (string \<times> gval) list \<Rightarrow> variables \<Rightarrow> (string \<times> arg_def) list \<Rightarrow> (gql_error, (string \<times> gvalue) list) result" where
  "declared_args label given vars [] = Inr []"
| "declared_args label given vars ((name, def) # ds) =
     (let raw = given_value given name vars in
      if raw = VUndefined then
        (if ad_required def
         then Inl (GqlError BAD_USER_INPUT (''Argument '' @ quoted name @ '' of '' @ quoted label @ '' is required.''))
         else declared_args label given vars ds)
      else res_bind (coerceArg label name def raw) (\<lambda>v.
           res_bind (declared_args label given vars ds) (\<lambda>rest. Inr ((name, v) # rest))))"

definition field_label :: "string \<Rightarrow> string \<Rightarrow> string" where
  "field_label typeName fieldName = typeName @ ''.'' @ fieldName"

definition unknown_arg :: "string \<Rightarrow> (string \<times> arg_def) list \<Rightarrow> (string \<times> gval) list \<Rightarrow> gql_error option" where
  "unknown_arg label declared given =
     (case filter (\<lambda>name. \<not> in_record name declared) (map fst given) of
        [] \<Rightarrow> None
      | name # _ \<Rightarrow> Some (invalid (''Unknown argument '' @ quoted name @ '' on field '' @ quoted label @ ''.'')))"

definition resolveArgs ::
    "string \<Rightarrow> string \<Rightarrow> field_def \<Rightarrow> (string \<times> gval) list \<Rightarrow> variables \<Rightarrow> (gql_error, (string \<times> gvalue) list) result" where
  "resolveArgs typeName fieldName def given vars =
     (let label = field_label typeName fieldName in
      case unknown_arg label (fd_args def) given of
        Some e \<Rightarrow> Inl e
      | None \<Rightarrow> declared_args label given vars (fd_args def))"

fun included :: "directive list \<Rightarrow> variables \<Rightarrow> (gql_error, bool) result" where
  "included [] vars = Inr True"
| "included (d # ds) vars =
     (if dn_name d \<noteq> ''skip'' \<and> dn_name d \<noteq> ''include''
      then Inl (invalid (''Unknown directive '' @ quoted (''@'' @ dn_name d) @ ''.''))
      else case given_value (dn_args d) ''if'' vars of
          VBool b \<Rightarrow> if dn_name d = ''skip'' \<and> b then Inr False
            else if dn_name d = ''include'' \<and> \<not> b then Inr False
            else included ds vars
        | _ \<Rightarrow> Inl (invalid (''Directive '' @ quoted (''@'' @ dn_name d) @ '' requires a Boolean '' @ quoted ''if'' @ '' argument.'')))"

section \<open>Field collection\<close>

record collected =
  cf_name :: string
  cf_args :: "(string \<times> gval) list"
  cf_selections :: "selection list"

text \<open>The map from response keys to fields, in insertion order.\<close>

type_synonym field_map = "(string \<times> collected) list"

definition add_field ::
    "string \<Rightarrow> string \<Rightarrow> (string \<times> gval) list \<Rightarrow> selection list \<Rightarrow> field_map \<Rightarrow> (gql_error, field_map) result" where
  "add_field key name args sels into =
     (case map_of into key of
        None \<Rightarrow> Inr (map_set key \<lparr>cf_name = name, cf_args = args, cf_selections = sels\<rparr> into)
      | Some old \<Rightarrow>
          if cf_name old \<noteq> name
          then Inl (invalid (''Fields '' @ quoted key @ '' conflict: '' @ quoted (cf_name old) @ '' and '' @ quoted name @ ''.''))
          else Inr (map_set key (old\<lparr>cf_selections := cf_selections old @ sels\<rparr>) into))"

definition fragment_names :: "document \<Rightarrow> string set" where
  "fragment_names doc = fst ` set (doc_fragments doc)"

function collectFields ::
    "document \<Rightarrow> string \<Rightarrow> variables \<Rightarrow> selection list \<Rightarrow> field_map \<Rightarrow> string list \<Rightarrow> (gql_error, field_map) result" where
  "collectFields doc typeName vars [] into visiting = Inr into"
| "collectFields doc typeName vars (Field al name args dirs sels # rest) into visiting =
     res_bind (included dirs vars) (\<lambda>stays.
       if \<not> stays then collectFields doc typeName vars rest into visiting
       else res_bind (add_field (or_else al name) name args (or_else sels []) into)
         (\<lambda>into'. collectFields doc typeName vars rest into' visiting))"
| "collectFields doc typeName vars (Spread name dirs # rest) into visiting =
     res_bind (included dirs vars) (\<lambda>stays.
       if \<not> stays then collectFields doc typeName vars rest into visiting
       else case map_of (doc_fragments doc) name of
           None \<Rightarrow> Inl (invalid (''Unknown fragment '' @ quoted name @ ''.''))
         | Some f \<Rightarrow>
             if name \<in> set visiting then Inl (invalid (''Fragment '' @ quoted name @ '' spreads itself.''))
             else if fn_typeCondition f \<noteq> typeName then collectFields doc typeName vars rest into visiting
             else res_bind (collectFields doc typeName vars (fn_selections f) into (name # visiting))
               (\<lambda>into'. collectFields doc typeName vars rest into' visiting))"
| "collectFields doc typeName vars (Inline cond dirs sels # rest) into visiting =
     res_bind (included dirs vars) (\<lambda>stays.
       if \<not> stays then collectFields doc typeName vars rest into visiting
       else if cond \<noteq> None \<and> cond \<noteq> Some typeName then collectFields doc typeName vars rest into visiting
       else res_bind (collectFields doc typeName vars sels into visiting)
         (\<lambda>into'. collectFields doc typeName vars rest into' visiting))"
  by pat_completeness auto

text \<open>A fragment is entered only while it is not being visited: the fragments left decrease.\<close>

termination
proof (relation "measures [\<lambda>(doc, t, vs, sels, into, visiting). card (fragment_names doc - set visiting),
    \<lambda>(doc, t, vs, sels, into, visiting). size_list size sels]", goal_cases)
  case (6 doc typeName vars name dirs rest into visiting stays f)
  then have "name \<in> fragment_names doc"
    by (auto simp: fragment_names_def dest: map_of_SomeD intro: rev_image_eqI)
  with 6 have "card (fragment_names doc - insert name (set visiting)) < card (fragment_names doc - set visiting)"
    by (intro psubset_card_mono) (auto simp: fragment_names_def)
  then show ?case by simp
qed auto

section \<open>Depth and cost\<close>

record limits =
  lm_maxDepth :: nat
  lm_maxComplexity :: int

definition int_of_num :: "js_num \<Rightarrow> int" where
  "int_of_num n = (case n of JsNum r \<Rightarrow> \<lfloor>r\<rfloor> | _ \<Rightarrow> 0)"

definition own_limit :: "(string \<times> gvalue) list \<Rightarrow> int" where
  "own_limit args = (case map_of args ''limit'' of
       Some (VNum n) \<Rightarrow> min (int_of_num n) (int MAX_QUERY_LIMIT)
     | _ \<Rightarrow> int DEFAULT_QUERY_LIMIT)"

definition multiplier :: "field_def \<Rightarrow> int \<Rightarrow> int \<Rightarrow> int" where
  "multiplier def ownLimit pageSize =
     (if ty_list (fd_type def) then
        (case fd_size def of
           Some BySize_limit \<Rightarrow> ownLimit
         | Some BySize_parent \<Rightarrow> pageSize
         | Some (Items n) \<Rightarrow> n
         | None \<Rightarrow> int DEFAULT_QUERY_LIMIT)
      else 1)"

definition is_leaf :: "field_def \<Rightarrow> bool" where
  "is_leaf def = (ty_name (fd_type def) \<in> set SCALARS)"

text \<open>
  A field of the schema; a name inherited from \<open>Object.prototype\<close> is found too, and reading the
  type of it throws once its arguments are checked against no declaration.
\<close>

datatype found_field = Declared field_def | Inherited | Absent

definition find_field :: "(string \<times> field_def) list \<Rightarrow> string \<Rightarrow> found_field" where
  "find_field fields_of name = (case map_of fields_of name of Some d \<Rightarrow> Declared d
     | None \<Rightarrow> if name \<in> set PROTO_NAMES then Inherited else Absent)"

definition no_field :: "string \<Rightarrow> string \<Rightarrow> gql_error" where
  "no_field name typeName = invalid (''Cannot query field '' @ quoted name @ '' on type '' @ quoted typeName @ ''.'')"

definition too_complex :: "limits \<Rightarrow> gql_error" where
  "too_complex lims = GqlError QUERY_TOO_COMPLEX (''Query complexity exceeds the maximum of '' @ show_int (lm_maxComplexity lims) @
     ''. Request fewer fields, or lower the '' @ quoted ''limit'' @ '' of nested lists.'')"

text \<open>What one field adds; \<open>children\<close> is the walk of the level below.\<close>

definition field_cost ::
    "(string \<Rightarrow> selection list \<Rightarrow> int \<Rightarrow> (gql_error, int) result) \<Rightarrow> variables \<Rightarrow> string \<Rightarrow> field_def \<Rightarrow> int \<Rightarrow> collected \<Rightarrow>
     (gql_error, int) result" where
  "field_cost children vars typeName def pageSize f =
     res_bind (resolveArgs typeName (cf_name f) def (cf_args f) vars) (\<lambda>args.
       if is_leaf def \<and> cf_selections f \<noteq> []
       then Inl (invalid (''Field '' @ quoted (field_label typeName (cf_name f)) @ '' is a scalar and cannot have a selection.''))
       else if \<not> is_leaf def \<and> cf_selections f = []
       then Inl (invalid (''Field '' @ quoted (field_label typeName (cf_name f)) @ '' must have a selection of subfields.''))
       else
         (let ownLimit = own_limit args;
              childPageSize = (if fd_paged def then ownLimit else pageSize)
          in res_bind (if is_leaf def then Inr 0 else children (ty_name (fd_type def)) (cf_selections f) childPageSize) (\<lambda>below.
               Inr (1 + multiplier def ownLimit pageSize * below))))"

fun fields_cost ::
    "(string \<Rightarrow> selection list \<Rightarrow> int \<Rightarrow> (gql_error, int) result) \<Rightarrow> variables \<Rightarrow> limits \<Rightarrow> string \<Rightarrow>
     (string \<times> field_def) list \<Rightarrow> int \<Rightarrow> int \<Rightarrow> field_map \<Rightarrow> (gql_error, int) result" where
  "fields_cost children vars lims typeName defs pageSize tot [] = Inr tot"
| "fields_cost children vars lims typeName defs pageSize tot ((key, f) # fs) =
     (if cf_name f = ''__typename'' then fields_cost children vars lims typeName defs pageSize (tot + 1) fs
      else if starts_with ''__'' (cf_name f)
      then Inl (invalid ''Introspection is not supported by this endpoint.'')
      else case find_field defs (cf_name f) of
          Absent \<Rightarrow> Inl (no_field (cf_name f) typeName)
        | Inherited \<Rightarrow> (case unknown_arg (field_label typeName (cf_name f)) [] (cf_args f) of
              Some e \<Rightarrow> Inl e | None \<Rightarrow> Inl Crash)
        | Declared def \<Rightarrow>
            res_bind (field_cost children vars typeName def pageSize f) (\<lambda>c.
              if tot + c > lm_maxComplexity lims then Inl (too_complex lims)
              else fields_cost children vars lims typeName defs pageSize (tot + c) fs))"

text \<open>The walk: \<open>levels\<close> is \<open>maxDepth + 1 - depth\<close>, so it is 0 where the depth exceeds the limit.\<close>

fun walk ::
    "nat \<Rightarrow> document \<Rightarrow> variables \<Rightarrow> limits \<Rightarrow> string \<Rightarrow> selection list \<Rightarrow> int \<Rightarrow> (gql_error, int) result" where
  "walk 0 doc vars lims typeName sels pageSize =
     Inl (GqlError QUERY_TOO_DEEP (''Query depth exceeds the maximum of '' @ show_nat (lm_maxDepth lims) @ ''.''))"
| "walk (Suc levels) doc vars lims typeName sels pageSize =
     (case map_of gql_schema typeName of
        None \<Rightarrow> Inl (invalid (''Unknown type '' @ quoted typeName @ ''.''))
      | Some defs \<Rightarrow>
          res_bind (collectFields doc typeName vars sels [] []) (\<lambda>fs.
            fields_cost (walk levels doc vars lims) vars lims typeName defs pageSize 0 fs))"

definition analyse :: "document \<Rightarrow> operation_node \<Rightarrow> variables \<Rightarrow> limits \<Rightarrow> (gql_error, int) result" where
  "analyse doc op vars lims =
     walk (lm_maxDepth lims) doc vars lims ''Query'' (on_selections op) (int DEFAULT_QUERY_LIMIT)"

section \<open>Choosing the operation; its variables\<close>

definition record_has :: "(string \<times> json) list \<Rightarrow> string \<Rightarrow> bool" where
  "record_has given name = in_record name given"

definition given_variable :: "(string \<times> json) list \<Rightarrow> string \<Rightarrow> gvalue" where
  "given_variable given name = (case map_of given name of Some j \<Rightarrow> of_json j | None \<Rightarrow> VInherited)"

fun coerce_definitions ::
    "variable_definition list \<Rightarrow> (string \<times> json) list \<Rightarrow> variables \<Rightarrow> (gql_error, variables) result" where
  "coerce_definitions [] given vars = Inr vars"
| "coerce_definitions (d # ds) given vars =
     (let vars' = (if record_has given (vd_name d) then record_set (vd_name d) (given_variable given (vd_name d)) vars
          else case vd_default d of Some node \<Rightarrow> record_set (vd_name d) (valueOf node []) vars | None \<Rightarrow> vars);
          v = record_get vars' (vd_name d)
      in if vd_nonNull d \<and> (v = VUndefined \<or> v = VNull)
         then Inl (GqlError BAD_USER_INPUT (''Variable '' @ quoted (''$'' @ vd_name d) @ '' of type '' @ quoted (vd_type d) @ '' is required.''))
         else coerce_definitions ds given vars')"

text \<open>\<open>provided\<close> is None for \<open>undefined\<close>.\<close>

definition coerceVariables :: "operation_node \<Rightarrow> json option \<Rightarrow> (gql_error, variables) result" where
  "coerceVariables op provided =
     (case provided of
        None \<Rightarrow> coerce_definitions (on_variables op) [] []
      | Some JNull \<Rightarrow> coerce_definitions (on_variables op) [] []
      | Some (JObj kvs) \<Rightarrow> coerce_definitions (on_variables op) kvs []
      | _ \<Rightarrow> Inl (GqlError BAD_USER_INPUT (quoted ''variables'' @ '' must be a JSON object.'')))"

definition choose_operation :: "document \<Rightarrow> string option \<Rightarrow> (gql_error, operation_node) result" where
  "choose_operation doc operationName =
     res_bind
       (if truthy operationName then
          (case filter (\<lambda>op. on_name op = operationName) (doc_operations doc) of
             [] \<Rightarrow> Inl (invalid (''Unknown operation '' @ quoted (the operationName) @ ''.''))
           | op # _ \<Rightarrow> Inr op)
        else if length (doc_operations doc) = 1 then Inr (hd (doc_operations doc))
        else Inl (invalid (''The document has several operations; pass '' @ quoted ''operationName'' @ ''.'')))
       (\<lambda>op. if on_operation op \<noteq> ''query''
         then Inl (invalid (''This endpoint is read-only: '' @ on_operation op @ ''s are not supported.''))
         else Inr op)"

section \<open>Lemmas\<close>

lemma walk_Inr:
  assumes "walk levels doc vars lims typeName sels ps = Inr c"
  obtains l defs fs where "levels = Suc l" "map_of gql_schema typeName = Some defs"
    "collectFields doc typeName vars sels [] [] = Inr fs"
    "fields_cost (walk l doc vars lims) vars lims typeName defs ps 0 fs = Inr c"
  using assms by (cases levels) (auto simp: result_simps split: option.splits)

end
