(* ===== verification/Csv.thy ===== *)
theory Csv
  imports Params Decode
begin

text \<open>
  CSV export (\<open>packages/api/src/csv.ts\<close>): cells, rows, the header and content negotiation;
  and a reader of the RFC 4180 grammar, which is the specification the writer is proved
  against. Numbers that are not integers are printed by \<open>fracs\<close>, as in the store.
\<close>

section \<open>Cells\<close>

definition MIN_TOPIC_COLUMNS :: nat where
  "MIN_TOPIC_COLUMNS = 4"

definition EOL :: string where
  "EOL = [CHR 0x0D, CHR 0x0A]"

fun double_quotes_of :: "string \<Rightarrow> string" where
  "double_quotes_of [] = []"
| "double_quotes_of (c # cs) = (if c = CHR 0x22 then CHR 0x22 # CHR 0x22 # double_quotes_of cs else c # double_quotes_of cs)"

definition needs_quotes :: "string \<Rightarrow> bool" where
  "needs_quotes s = list_ex (\<lambda>c. c \<in> {CHR 0x22, CHR '','', CHR 0x0D, CHR 0x0A}) s"

definition csvCell :: "string \<Rightarrow> bool \<Rightarrow> string" where
  "csvCell text force = (if force \<or> needs_quotes text then [CHR 0x22] @ double_quotes_of text @ [CHR 0x22] else text)"

definition TEXT_TYPES :: "string list" where
  "TEXT_TYPES = [''symbol'', ''string'', ''address'']"

definition formula_char :: "char \<Rightarrow> bool" where
  "formula_char c = (c \<in> {CHR ''='', CHR ''+'', CHR ''-'', CHR ''@'', CHR 0x09, CHR 0x0D})"

definition formula_start :: "string \<Rightarrow> bool" where
  "formula_start s = (case s of [] \<Rightarrow> False | c # r \<Rightarrow> formula_char c)"

definition guardFormula :: "string \<Rightarrow> string" where
  "guardFormula text = (if formula_start text then CHR 0x27 # text else text)"

text \<open>The text of a value's cell, before it is quoted.\<close>

definition value_text :: "(rat \<Rightarrow> string) \<Rightarrow> decoded_value \<Rightarrow> string" where
  "value_text fracs d = (case dv_value d of
       JStr s \<Rightarrow> if dv_type d \<in> set TEXT_TYPES then guardFormula s else json_text fracs (dv_value d)
     | _ \<Rightarrow> json_text fracs (dv_value d))"

definition valueCell :: "(rat \<Rightarrow> string) \<Rightarrow> decoded_value \<Rightarrow> string" where
  "valueCell fracs d = csvCell (value_text fracs d) False"

section \<open>Header and rows\<close>

definition header_cells :: "nat \<Rightarrow> string list" where
  "header_cells topicColumns =
     [''id'', ''contractId'', ''type'', ''ledger'', ''ledgerClosedAt'', ''txHash'', ''transactionIndex'', ''operationIndex'',
      ''inSuccessfulContractCall''] @ map (\<lambda>i. ''topic'' @ show_nat i) [0 ..< topicColumns] @ [''valueType'', ''value'', ''decodeError'']"

definition eventCsvHeader :: "nat \<Rightarrow> string" where
  "eventCsvHeader topicColumns = js_join '','' (header_cells topicColumns) @ EOL"

definition event_type_text :: "event_type \<Rightarrow> string" where
  "event_type_text t = (case t of ContractEvent \<Rightarrow> ''contract'' | SystemEvent \<Rightarrow> ''system'' | DiagnosticEvent \<Rightarrow> ''diagnostic'')"

definition bool_text :: "bool \<Rightarrow> string" where
  "bool_text b = (if b then ''true'' else ''false'')"

definition eventCsvRow :: "(rat \<Rightarrow> string) \<Rightarrow> lens_event \<Rightarrow> nat \<Rightarrow> string" where
  "eventCsvRow fracs e topicColumns =
     (let width = max topicColumns (length (le_topics e));
          topics = map (\<lambda>i. case nth_opt (le_topics e) i of Some t \<Rightarrow> valueCell fracs t | None \<Rightarrow> []) [0 ..< width]
      in js_join '','' ([csvCell (le_id e) False, csvCell (le_contractId e) False, csvCell (event_type_text (le_type e)) False,
           show_int (le_ledger e), csvCell (le_ledgerClosedAt e) False, csvCell (le_txHash e) False,
           show_int (le_transactionIndex e), show_int (le_operationIndex e), bool_text (le_inSuccessfulContractCall e)] @
           topics @
           [csvCell (dv_type (le_value e)) False, valueCell fracs \<lparr>dv_type = ''json'', dv_value = dv_value (le_value e)\<rparr>,
            if truthy (le_decodeError e) then csvCell (guardFormula (the (le_decodeError e))) False else []]) @ EOL)"

section \<open>Content negotiation\<close>

definition q_param :: "string \<Rightarrow> bool" where
  "q_param p = (case p of [] \<Rightarrow> False
     | c # r \<Rightarrow> to_lower c = CHR ''q'' \<and> starts_with ''='' (dropWhile is_ws r))"

definition finite_or_zero :: "js_num \<Rightarrow> rat" where
  "finite_or_zero n = (case n of JsNum r \<Rightarrow> r | _ \<Rightarrow> 0)"

definition accept_range :: "string \<Rightarrow> string \<times> rat" where
  "accept_range part =
     (let pieces = split_on (CHR '';'') (js_trim part);
          q = (case find q_param (map js_trim (tl pieces)) of
              Some p \<Rightarrow> finite_or_zero (js_Number (split_on (CHR ''='') p ! 1)) | None \<Rightarrow> 1)
      in (js_lower (js_trim (hd pieces)), q))"

definition quality_of :: "(string \<times> rat) list \<Rightarrow> string \<Rightarrow> rat" where
  "quality_of ranges type =
     (case map_of ranges type of Some q \<Rightarrow> q
      | None \<Rightarrow> (case map_of ranges (hd (split_on (CHR ''/'') type) @ ''/*'') of Some q \<Rightarrow> q
        | None \<Rightarrow> or_else (map_of ranges ''*/*'') 0))"

text \<open>\<open>accept\<close> lists the values of the header; it is empty when the request has none.\<close>

definition wantsCsv :: "url_params \<Rightarrow> string list \<Rightarrow> (api_error, bool) result" where
  "wantsCsv ps accept =
     (let format = params_get ps ''format'' in
      if truthy format then
        (let normalised = js_lower (the format) in
         if normalised = ''csv'' then Inr True else if normalised = ''json'' then Inr False
         else Inl (badRequest (quoted ''format'' @ '' must be '' @ quoted ''json'' @ '' or '' @ quoted ''csv'' @ '', got '' @
           quoted (the format) @ ''.'') (Some ''format'')))
      else
        (let header = js_join '','' accept in
         if js_trim header = [] then Inr False
         else (let ranges = map accept_range (split_on (CHR '','') header)
               in Inr (quality_of ranges ''text/csv'' > quality_of ranges ''application/json''))))"

section \<open>The reader of RFC 4180\<close>

text \<open>
  Records end in CRLF; a field is quoted or has no quote, comma or line break. None is text
  outside the grammar.
\<close>

datatype csv_mode = AtStart | InPlain | InQuoted | AfterQuote | AfterCr

fun csv_read :: "csv_mode \<Rightarrow> string \<Rightarrow> string list \<Rightarrow> string \<Rightarrow> string list list option" where
  "csv_read m cell row [] = (if m = AtStart \<and> row = [] then Some [] else None)"
| "csv_read m cell row (c # cs) = (case m of
      AtStart \<Rightarrow> if c = CHR 0x22 then csv_read InQuoted [] row cs
        else if c = CHR '','' then csv_read AtStart [] (row @ [[]]) cs
        else if c = CHR 0x0D then csv_read AfterCr [] (row @ [[]]) cs
        else if c = CHR 0x0A then None else csv_read InPlain [c] row cs
    | InPlain \<Rightarrow> if c = CHR '','' then csv_read AtStart [] (row @ [cell]) cs
        else if c = CHR 0x0D then csv_read AfterCr [] (row @ [cell]) cs
        else if c = CHR 0x22 \<or> c = CHR 0x0A then None else csv_read InPlain (cell @ [c]) row cs
    | InQuoted \<Rightarrow> if c = CHR 0x22 then csv_read AfterQuote cell row cs else csv_read InQuoted (cell @ [c]) row cs
    | AfterQuote \<Rightarrow> if c = CHR 0x22 then csv_read InQuoted (cell @ [c]) row cs
        else if c = CHR '','' then csv_read AtStart [] (row @ [cell]) cs
        else if c = CHR 0x0D then csv_read AfterCr [] (row @ [cell]) cs else None
    | AfterCr \<Rightarrow> if c = CHR 0x0A then map_option ((#) row) (csv_read AtStart [] [] cs) else None)"

definition read_csv :: "string \<Rightarrow> string list list option" where
  "read_csv text = csv_read AtStart [] [] text"

definition cell_end :: "string list \<Rightarrow> string \<Rightarrow> string \<Rightarrow> string list list option" where
  "cell_end row cell rest = (case rest of [] \<Rightarrow> None
     | c # cs \<Rightarrow> if c = CHR '','' then csv_read AtStart [] (row @ [cell]) cs else csv_read AfterCr [] (row @ [cell]) cs)"

lemma read_plain:
  "\<not> needs_quotes t \<Longrightarrow> d = CHR '','' \<or> d = CHR 0x0D \<Longrightarrow>
     csv_read InPlain cell row (t @ d # rest) = cell_end row (cell @ t) (d # rest)"
  by (induction t arbitrary: cell) (auto simp: needs_quotes_def cell_end_def)

lemma read_quoted:
  "csv_read InQuoted cell row (double_quotes_of t @ CHR 0x22 # rest) = csv_read AfterQuote (cell @ t) row rest"
  by (induction t arbitrary: cell) auto

lemma read_cell:
  assumes "d = CHR '','' \<or> d = CHR 0x0D"
  shows "csv_read AtStart [] row (csvCell t force @ d # rest) = cell_end row t (d # rest)"
proof (cases "force \<or> needs_quotes t")
  case True
  then show ?thesis using assms by (auto simp: csvCell_def read_quoted cell_end_def)
next
  case False
  then show ?thesis using assms read_plain [of "tl t" d "[hd t]" row rest]
    by (cases t) (auto simp: csvCell_def cell_end_def needs_quotes_def)
qed

definition csv_line :: "string list \<Rightarrow> string" where
  "csv_line cells = js_join '','' (map (\<lambda>t. csvCell t False) cells) @ EOL"

lemma read_cells:
  "cells \<noteq> [] \<Longrightarrow> csv_read AtStart [] row (csv_line cells @ rest) = map_option ((#) (row @ cells)) (csv_read AtStart [] [] rest)"
proof (induction cells arbitrary: row)
  case (Cons t cells)
  show ?case
  proof (cases cells)
    case Nil
    then show ?thesis
      using read_cell [of "CHR 0x0D" row t False "CHR 0x0A # rest"] by (simp add: csv_line_def EOL_def cell_end_def)
  next
    case (Cons u us)
    then show ?thesis
      using read_cell [of "CHR '',''" row t False "csv_line cells @ rest"] Cons.IH [of "row @ [t]"]
      by (simp add: csv_line_def cell_end_def)
  qed
qed simp

lemma read_lines:
  "\<forall>cells \<in> set table. cells \<noteq> [] \<Longrightarrow> read_csv (concat (map csv_line table)) = Some table"
  unfolding read_csv_def by (induction table) (simp_all add: read_cells)

section \<open>What the writer writes\<close>

definition event_cells :: "(rat \<Rightarrow> string) \<Rightarrow> lens_event \<Rightarrow> nat \<Rightarrow> string list" where
  "event_cells fracs e topicColumns =
     [le_id e, le_contractId e, event_type_text (le_type e), show_int (le_ledger e), le_ledgerClosedAt e, le_txHash e,
      show_int (le_transactionIndex e), show_int (le_operationIndex e), bool_text (le_inSuccessfulContractCall e)] @
     map (value_text fracs) (le_topics e) @ replicate (topicColumns - length (le_topics e)) [] @
     [dv_type (le_value e), json_text fracs (dv_value (le_value e)),
      if truthy (le_decodeError e) then guardFormula (the (le_decodeError e)) else []]"

lemma csvCell_plain: "list_all (\<lambda>c. is_digit c \<or> is_lower c \<or> is_upper c \<or> c = CHR ''-'') t \<Longrightarrow> csvCell t False = t"
  by (auto simp: csvCell_def needs_quotes_def list_all_iff list_ex_iff is_digit_def is_lower_def is_upper_def ch_range_def)

lemma csvCell_show_nat [simp]: "csvCell (show_nat n) False = show_nat n"
  by (rule csvCell_plain) (auto simp: list_all_iff dest: show_nat_digits)

lemma csvCell_show_int [simp]: "csvCell (show_int i) False = show_int i"
  by (rule csvCell_plain) (auto simp: show_int_def list_all_iff dest: show_nat_digits)

lemma csvCell_Nil [simp]: "csvCell [] False = []"
  by (simp add: csvCell_def needs_quotes_def)

lemma csvCell_bool [simp]: "csvCell (bool_text b) False = bool_text b"
  by (simp add: csvCell_def needs_quotes_def bool_text_def)

lemma nth_opt_map: "map (\<lambda>i. case nth_opt xs i of Some t \<Rightarrow> f t | None \<Rightarrow> d) [0 ..< max n (length xs)] =
    map f xs @ replicate (n - length xs) d"
proof (rule nth_equalityI)
  show "length (map (\<lambda>i. case nth_opt xs i of Some t \<Rightarrow> f t | None \<Rightarrow> d) [0 ..< max n (length xs)]) =
      length (map f xs @ replicate (n - length xs) d)" by simp
next
  fix i assume "i < length (map (\<lambda>i. case nth_opt xs i of Some t \<Rightarrow> f t | None \<Rightarrow> d) [0 ..< max n (length xs)])"
  then have i: "i < max n (length xs)" by simp
  show "map (\<lambda>i. case nth_opt xs i of Some t \<Rightarrow> f t | None \<Rightarrow> d) [0 ..< max n (length xs)] ! i =
      (map f xs @ replicate (n - length xs) d) ! i"
  proof (cases "i < length xs")
    case False
    then have "i - length xs < n - length xs" using i by auto
    with False i show ?thesis by (simp add: nth_opt_def nth_append)
  qed (use i in \<open>simp add: nth_opt_def nth_append\<close>)
qed

lemma value_text_json [simp]: "value_text fracs \<lparr>dv_type = ''json'', dv_value = v\<rparr> = json_text fracs v"
  by (cases v) (auto simp: value_text_def TEXT_TYPES_def)

lemma eventCsvRow_line: "eventCsvRow fracs e n = csv_line (event_cells fracs e n)"
  by (simp add: eventCsvRow_def csv_line_def event_cells_def Let_def nth_opt_map valueCell_def [abs_def] o_def)

lemma csvCell_topic: "csvCell (''topic'' @ show_nat i) False = ''topic'' @ show_nat i"
  by (rule csvCell_plain) (auto simp: list_all_iff is_lower_def ch_range_def dest: show_nat_digits)

lemma eventCsvHeader_line: "eventCsvHeader n = csv_line (header_cells n)"
proof -
  have "map (\<lambda>t. csvCell t False) (header_cells n) = header_cells n"
    using csvCell_topic by (simp add: header_cells_def csvCell_def needs_quotes_def)
  then show ?thesis by (simp add: eventCsvHeader_def csv_line_def)
qed

lemma length_event_cells: "length (le_topics e) \<le> n \<Longrightarrow> length (event_cells fracs e n) = length (header_cells n)"
  by (simp add: event_cells_def header_cells_def)

section \<open>Formulas\<close>

lemma guardFormula_safe: "\<not> formula_start (guardFormula s)"
  by (auto simp: guardFormula_def formula_start_def formula_char_def split: list.splits)

lemma json_text_formula: "formula_start (json_text fracs v) \<Longrightarrow> \<exists>r. v = JNum r"
  by (cases v) (auto simp: formula_start_def formula_char_def json_string_def split: if_splits)

lemma value_text_formula: "formula_start (value_text fracs d) \<Longrightarrow> \<exists>r. dv_value d = JNum r"
  using json_text_formula [of fracs "dv_value d"]
  by (auto simp: value_text_def guardFormula_safe split: json.splits if_splits)

end
