(* ===== verification/Gql_Exec.thy ===== *)
theory Gql_Exec
  imports Gql_Analysis Sqlite_Reads Csv
begin

text \<open>
  The execution of a GraphQL query (\<open>packages/api/src/graphql.ts\<close>, from the resolvers to
  \<open>executeGraphQL\<close>). The store is a record of the read operations the resolvers call; a
  resolver may fail. \<open>Promise.all\<close> is modelled with its parts completing in document order:
  every part runs, their errors are reported in that order and the first rejection is the
  result. \<open>executeSelection\<close> takes the number of levels it may descend.
\<close>

section \<open>The store, and what a resolver returns\<close>

text \<open>A rejected read carries an error whose message the endpoint never shows.\<close>

record api_store =
  as_queryEvents :: "event_query \<Rightarrow> (string, event_page) result"
  as_getEvent :: "string \<Rightarrow> (string, lens_event option) result"
  as_listContracts :: "rat option \<Rightarrow> (string, contract_summary list) result"
  as_listTopics :: "string \<Rightarrow> rat option \<Rightarrow> (string, (string \<times> nat) list) result"

datatype gsource = SPage event_page | SEvent lens_event | SDecoded decoded_value
  | SContract contract_summary | STopic "string \<times> nat"

text \<open>\<open>RNone\<close> is null or undefined.\<close>

datatype raw = RNone | RScalar json | RObj gsource | RList "raw list"

datatype path_key = PKey string | PIndex nat

datatype exec_error = EApi api_error | ERequest gql_error | EField string "path_key list" | EOther string

record response_error =
  re_message :: string
  re_path :: "path_key list option"
  re_code :: gql_code

section \<open>Resolvers\<close>

definition arg_strings :: "gvalue \<Rightarrow> string list" where
  "arg_strings v = (case v of VList xs \<Rightarrow> map (\<lambda>x. case x of VString s \<Rightarrow> s | _ \<Rightarrow> ''*'') xs | _ \<Rightarrow> [])"

definition value_string :: "gvalue \<Rightarrow> string" where
  "value_string v = (case v of VString s \<Rightarrow> s | VNum n \<Rightarrow> show_int (int_of_num n) | VBool b \<Rightarrow> bool_text b | _ \<Rightarrow> [])"

fun query_params :: "(string \<times> gvalue) list \<Rightarrow> url_params" where
  "query_params [] = []"
| "query_params ((key, v) # rest) =
     (if v = VUndefined \<or> v = VNull then []
      else if key = ''topics'' then map (\<lambda>t. (''topic'', t)) (arg_strings v)
      else [(key, value_string v)]) @ query_params rest"

definition eventQueryFromArgs ::
    "(string \<Rightarrow> int option) \<Rightarrow> (string \<times> gvalue) list \<Rightarrow> string option \<Rightarrow> (api_error, event_query) result" where
  "eventQueryFromArgs date_parse args contractId =
     res_bind (parseEventQuery date_parse (query_params args)) (\<lambda>q.
       Inr (if truthy contractId then q\<lparr>q_contractId := contractId\<rparr> else q))"

definition boundedLimit :: "gvalue option \<Rightarrow> (api_error, rat option) result" where
  "boundedLimit v = (case v of
       Some (VNum n) \<Rightarrow>
         (let l = int_of_num n in
          if l < 1 \<or> l > int MAX_QUERY_LIMIT
          then Inl (badRequest (quoted ''limit'' @ '' must be between 1 and '' @ show_nat MAX_QUERY_LIMIT @ '', got '' @ show_int l @ ''.'')
            (Some ''limit''))
          else Inr (Some (of_int l)))
     | _ \<Rightarrow> Inr None)"

definition arg_text :: "(string \<times> gvalue) list \<Rightarrow> string \<Rightarrow> string" where
  "arg_text args name = (case map_of args name of Some (VString s) \<Rightarrow> s | _ \<Rightarrow> [])"

definition store_read :: "(string, 'a) result \<Rightarrow> (exec_error, 'a) result" where
  "store_read r = (case r of Inl m \<Rightarrow> Inl (EOther m) | Inr a \<Rightarrow> Inr a)"

definition api_check :: "(api_error, 'a) result \<Rightarrow> (exec_error, 'a) result" where
  "api_check r = (case r of Inl e \<Rightarrow> Inl (EApi e) | Inr a \<Rightarrow> Inr a)"

definition contract_map :: "contract_summary list \<Rightarrow> (string \<times> contract_summary) list" where
  "contract_map cs = foldl (\<lambda>m c. map_set (cy_contractId c) c m) [] cs"

definition ctx_contract :: "api_store \<Rightarrow> string \<Rightarrow> (exec_error, raw) result" where
  "ctx_contract s contractId =
     res_bind (store_read (as_listContracts s (Some (of_nat MAX_QUERY_LIMIT)))) (\<lambda>cs.
       Inr (case map_of (contract_map cs) contractId of None \<Rightarrow> RNone | Some c \<Rightarrow> RObj (SContract c)))"

definition list_topics :: "api_store \<Rightarrow> string \<Rightarrow> gvalue option \<Rightarrow> (exec_error, raw) result" where
  "list_topics s contractId limit =
     res_bind (api_check (boundedLimit limit)) (\<lambda>l.
     res_bind (store_read (as_listTopics s contractId l)) (\<lambda>ts. Inr (RList (map (RObj \<circ> STopic) ts))))"

definition query_events ::
    "api_store \<Rightarrow> (string \<Rightarrow> int option) \<Rightarrow> (string \<times> gvalue) list \<Rightarrow> string option \<Rightarrow> (exec_error, raw) result" where
  "query_events s date_parse args contractId =
     res_bind (api_check (eventQueryFromArgs date_parse args contractId)) (\<lambda>q.
     res_bind (store_read (as_queryEvents s q)) (\<lambda>p. Inr (RObj (SPage p))))"

definition source_contract :: "raw \<Rightarrow> string" where
  "source_contract src = (case src of RObj (SEvent e) \<Rightarrow> le_contractId e | RObj (SContract c) \<Rightarrow> cy_contractId c | _ \<Rightarrow> [])"

definition resolve ::
    "api_store \<Rightarrow> (string \<Rightarrow> int option) \<Rightarrow> resolver \<Rightarrow> raw \<Rightarrow> (string \<times> gvalue) list \<Rightarrow> (exec_error, raw) result" where
  "resolve s date_parse r src args =
     (case r of
        Query_events \<Rightarrow>
          res_bind (case map_of args ''contractId'' of
              Some (VString c) \<Rightarrow> api_check (res_bind (assertContractId c) (\<lambda>i. Inr (Some i)))
            | _ \<Rightarrow> Inr None)
            (\<lambda>i. query_events s date_parse (filter (\<lambda>(k, v). k \<noteq> ''contractId'') args) i)
      | Query_event \<Rightarrow>
          res_bind (store_read (as_getEvent s (arg_text args ''id''))) (\<lambda>e.
            Inr (case e of None \<Rightarrow> RNone | Some ev \<Rightarrow> RObj (SEvent ev)))
      | Query_contracts \<Rightarrow>
          res_bind (api_check (boundedLimit (map_of args ''limit''))) (\<lambda>l.
          res_bind (store_read (as_listContracts s l)) (\<lambda>cs. Inr (RList (map (RObj \<circ> SContract) cs))))
      | Query_contract \<Rightarrow>
          res_bind (store_read (as_listContracts s (Some (of_nat MAX_QUERY_LIMIT)))) (\<lambda>_.
          res_bind (api_check (assertContractId (arg_text args ''id''))) (\<lambda>i. ctx_contract s i))
      | Query_topics \<Rightarrow>
          res_bind (api_check (assertContractId (arg_text args ''contractId''))) (\<lambda>i. list_topics s i (map_of args ''limit''))
      | Event_contract \<Rightarrow> ctx_contract s (source_contract src)
      | Contract_topics \<Rightarrow> list_topics s (source_contract src) (map_of args ''limit'')
      | Contract_events \<Rightarrow> query_events s date_parse args (Some (source_contract src)))"

section \<open>Reading a property of a source\<close>

definition scalar :: "json \<Rightarrow> raw" where
  "scalar j = (if j = JNull then RNone else RScalar j)"

definition text_scalar :: "string option \<Rightarrow> raw" where
  "text_scalar v = (case v of None \<Rightarrow> RNone | Some s \<Rightarrow> RScalar (JStr s))"

definition event_property :: "lens_event \<Rightarrow> string \<Rightarrow> raw" where
  "event_property e name =
     (if name = ''id'' then RScalar (JStr (le_id e))
      else if name = ''contractId'' then RScalar (JStr (le_contractId e))
      else if name = ''type'' then RScalar (JStr (event_type_text (le_type e)))
      else if name = ''ledger'' then RScalar (JNum (of_int (le_ledger e)))
      else if name = ''ledgerClosedAt'' then RScalar (JStr (le_ledgerClosedAt e))
      else if name = ''txHash'' then RScalar (JStr (le_txHash e))
      else if name = ''transactionIndex'' then RScalar (JNum (of_int (le_transactionIndex e)))
      else if name = ''operationIndex'' then RScalar (JNum (of_int (le_operationIndex e)))
      else if name = ''inSuccessfulContractCall'' then RScalar (JBool (le_inSuccessfulContractCall e))
      else if name = ''topics'' then RList (map (RObj \<circ> SDecoded) (le_topics e))
      else if name = ''value'' then RObj (SDecoded (le_value e))
      else if name = ''decodeError'' then text_scalar (le_decodeError e)
      else if name = ''indexedAt'' then RScalar (JStr (le_indexedAt e))
      else RNone)"

definition page_property :: "event_page \<Rightarrow> string \<Rightarrow> raw" where
  "page_property p name =
     (if name = ''events'' then RList (map (RObj \<circ> SEvent) (pg_events p))
      else if name = ''nextCursor'' then text_scalar (pg_nextCursor p)
      else if name = ''total'' then RScalar (JNum (of_nat (pg_total p)))
      else RNone)"

definition contract_property :: "contract_summary \<Rightarrow> string \<Rightarrow> raw" where
  "contract_property c name =
     (if name = ''contractId'' then RScalar (JStr (cy_contractId c))
      else if name = ''eventCount'' then RScalar (JNum (of_nat (cy_eventCount c)))
      else if name = ''firstLedger'' then RScalar (JNum (of_int (cy_firstLedger c)))
      else if name = ''lastLedger'' then RScalar (JNum (of_int (cy_lastLedger c)))
      else if name = ''lastSeenAt'' then RScalar (JStr (cy_lastSeenAt c))
      else RNone)"

definition property :: "raw \<Rightarrow> string \<Rightarrow> raw" where
  "property src name =
     (case src of
        RObj (SPage p) \<Rightarrow> page_property p name
      | RObj (SEvent e) \<Rightarrow> event_property e name
      | RObj (SDecoded d) \<Rightarrow>
          (if name = ''type'' then RScalar (JStr (dv_type d)) else if name = ''value'' then scalar (dv_value d) else RNone)
      | RObj (SContract c) \<Rightarrow> contract_property c name
      | RObj (STopic (t, n)) \<Rightarrow>
          (if name = ''topic'' then RScalar (JStr t) else if name = ''count'' then RScalar (JNum (of_nat n)) else RNone)
      | RScalar j \<Rightarrow> (case json_get j name of None \<Rightarrow> RNone | Some v \<Rightarrow> scalar v)
      | _ \<Rightarrow> RNone)"

section \<open>Execution\<close>

datatype gout = ONull | OScalar raw | OList "gout list" | OObject "(string \<times> gout) list"

text \<open>What a part of the execution leaves: the errors it reported, and its value or rejection.\<close>

type_synonym 'a ran = "(response_error list \<times> (exec_error, 'a) result) option"

fun all_parts :: "'a ran list \<Rightarrow> 'a list ran" where
  "all_parts [] = Some ([], Inr [])"
| "all_parts (r # rs) =
     (case r of None \<Rightarrow> None
      | Some (e1, x) \<Rightarrow>
          (case all_parts rs of None \<Rightarrow> None
           | Some (e2, y) \<Rightarrow> Some (e1 @ e2, res_bind x (\<lambda>a. res_bind y (\<lambda>as. Inr (a # as))))))"

definition map_ran :: "('a \<Rightarrow> 'b) \<Rightarrow> 'a ran \<Rightarrow> 'b ran" where
  "map_ran f r = (case r of None \<Rightarrow> None | Some (es, x) \<Rightarrow> Some (es, res_bind x (\<lambda>a. Inr (f a))))"

definition path_text :: "path_key list \<Rightarrow> string" where
  "path_text path = js_join ''.'' (map (\<lambda>k. case k of PKey s \<Rightarrow> s | PIndex i \<Rightarrow> show_nat i) path)"

definition toResponseError :: "exec_error \<Rightarrow> path_key list \<Rightarrow> response_error" where
  "toResponseError e path =
     (case e of
        EApi a \<Rightarrow> \<lparr>re_message = ae_message a, re_path = Some path, re_code = BAD_USER_INPUT\<rparr>
      | ERequest (GqlError code message) \<Rightarrow> \<lparr>re_message = message, re_path = Some path, re_code = code\<rparr>
      | EField message p \<Rightarrow> \<lparr>re_message = message, re_path = Some p, re_code = INTERNAL_ERROR\<rparr>
      | _ \<Rightarrow> \<lparr>re_message = ''Internal error.'', re_path = Some path, re_code = INTERNAL_ERROR\<rparr>)"

type_synonym executor = "string \<Rightarrow> selection list \<Rightarrow> raw \<Rightarrow> path_key list \<Rightarrow> gout ran"

text \<open>A value that is not a list, then any value.\<close>

definition complete_item :: "executor \<Rightarrow> string \<Rightarrow> bool \<Rightarrow> raw \<Rightarrow> selection list \<Rightarrow> path_key list \<Rightarrow> gout ran" where
  "complete_item exec name nonNull v sels path =
     (if v = RNone then
        (if nonNull then Some ([], Inl (EField (''Cannot return null for non-nullable field '' @ quoted (path_text path) @ ''.'') path))
         else Some ([], Inr ONull))
      else if name \<in> set SCALARS then Some ([], Inr (OScalar v))
      else exec name sels v path)"

definition completeValue :: "executor \<Rightarrow> type_ref \<Rightarrow> raw \<Rightarrow> selection list \<Rightarrow> path_key list \<Rightarrow> gout ran" where
  "completeValue exec ty v sels path =
     (if v \<noteq> RNone \<and> ty_list ty then
        (case v of
           RList items \<Rightarrow> map_ran OList (all_parts (map (\<lambda>(i, item).
               complete_item exec (ty_name ty) (ty_itemNonNull ty) item sels (path @ [PIndex i])) (enumerate 0 items)))
         | _ \<Rightarrow> Some ([], Inl (EField (''Expected a list for '' @ quoted (path_text path) @ ''.'') path)))
      else complete_item exec (ty_name ty) (ty_nonNull ty) v sels path)"

record exec_env =
  ex_doc :: document
  ex_vars :: variables
  ex_store :: api_store
  ex_dates :: "string \<Rightarrow> int option"

definition field_value ::
    "executor \<Rightarrow> exec_env \<Rightarrow> string \<Rightarrow> field_def \<Rightarrow> raw \<Rightarrow> path_key list \<Rightarrow> collected \<Rightarrow> gout ran" where
  "field_value exec env typeName def src path f =
     (case resolveArgs typeName (cf_name f) def (cf_args f) (ex_vars env) of
        Inl e \<Rightarrow> Some ([], Inl (ERequest e))
      | Inr args \<Rightarrow>
          (case (case fd_resolve def of Some r \<Rightarrow> resolve (ex_store env) (ex_dates env) r src args
                 | None \<Rightarrow> Inr (property src (cf_name f))) of
             Inl e \<Rightarrow> Some ([], Inl e)
           | Inr v \<Rightarrow> completeValue exec (fd_type def) v (cf_selections f) path))"

definition catch_field :: "type_ref \<Rightarrow> path_key list \<Rightarrow> gout ran \<Rightarrow> gout ran" where
  "catch_field ty path r =
     (case r of
        Some (es, Inl e) \<Rightarrow> if ty_nonNull ty then r else Some (es @ [toResponseError e path], Inr ONull)
      | _ \<Rightarrow> r)"

definition run_field ::
    "executor \<Rightarrow> exec_env \<Rightarrow> string \<Rightarrow> (string \<times> field_def) list \<Rightarrow> raw \<Rightarrow> path_key list \<Rightarrow> string \<Rightarrow> collected \<Rightarrow> gout ran" where
  "run_field exec env typeName defs src path key f =
     (if cf_name f = ''__typename'' then Some ([], Inr (OScalar (RScalar (JStr typeName))))
      else case find_field defs (cf_name f) of
          Declared def \<Rightarrow>
            (let fieldPath = path @ [PKey key] in
             catch_field (fd_type def) fieldPath (field_value exec env typeName def src fieldPath f))
        | _ \<Rightarrow> Some ([], Inl (EOther ''TypeError'')))"

definition assign_all :: "string list \<Rightarrow> gout list \<Rightarrow> (string \<times> gout) list" where
  "assign_all ks vs = foldl (\<lambda>m (k, v). record_set k v m) [] (zip ks vs)"

fun executeSelection :: "nat \<Rightarrow> exec_env \<Rightarrow> executor" where
  "executeSelection 0 env typeName sels src path = None"
| "executeSelection (Suc levels) env typeName sels src path =
     (case map_of gql_schema typeName of
        None \<Rightarrow> Some ([], Inl (EOther ''TypeError''))
      | Some defs \<Rightarrow>
          (case collectFields (ex_doc env) typeName (ex_vars env) sels [] [] of
             Inl e \<Rightarrow> Some ([], Inl (ERequest e))
           | Inr fs \<Rightarrow>
               map_ran (\<lambda>vs. OObject (assign_all (map fst fs) vs))
                 (all_parts (map (\<lambda>(key, f). run_field (executeSelection levels env) env typeName defs src path key f) fs))))"

section \<open>The entry point\<close>

record graphql_options =
  go_enabled :: bool
  go_maxDepth :: nat
  go_maxComplexity :: int
  go_maxQueryLength :: nat

definition graphql_defaults :: graphql_options where
  "graphql_defaults = \<lparr>go_enabled = False, go_maxDepth = 8, go_maxComplexity = 5000, go_maxQueryLength = 10000\<rparr>"

record graphql_request =
  gr_query :: "json option"
  gr_variables :: "json option"
  gr_operationName :: "string option"

text \<open>\<open>gb_data\<close> is None where the body has no \<open>data\<close>; \<open>Thrown\<close> is an exception the endpoint lets through.\<close>

record graphql_body =
  gb_data :: "gout option"
  gb_errors :: "response_error list"

datatype graphql_result = Responded nat graphql_body | Thrown

definition rejected :: "gql_error \<Rightarrow> graphql_result" where
  "rejected e = (case e of Crash \<Rightarrow> Thrown
     | GqlError code message \<Rightarrow> Responded 400 \<lparr>gb_data = None,
         gb_errors = [\<lparr>re_message = message, re_path = None, re_code = code\<rparr>]\<rparr>)"

definition query_text :: "graphql_request \<Rightarrow> nat \<Rightarrow> (gql_error, string) result" where
  "query_text request maxLength =
     (case gr_query request of
        Some (JStr s) \<Rightarrow>
          if js_trim s = [] then Inl (GqlError GRAPHQL_PARSE_FAILED (''A '' @ quoted ''query'' @ '' string is required.''))
          else if length s > maxLength
          then Inl (GqlError QUERY_TOO_LARGE (''The query is longer than '' @ show_nat maxLength @ '' characters.''))
          else Inr s
      | _ \<Rightarrow> Inl (GqlError GRAPHQL_PARSE_FAILED (''A '' @ quoted ''query'' @ '' string is required.'')))"

definition admit ::
    "graphql_request \<Rightarrow> graphql_options \<Rightarrow> (gql_error, document \<times> operation_node \<times> variables) result option" where
  "admit request opts =
     (case query_text request (go_maxQueryLength opts) of
        Inl e \<Rightarrow> Some (Inl e)
      | Inr s \<Rightarrow>
          (case parseDocument s of
             None \<Rightarrow> None
           | Some parsed \<Rightarrow> Some (res_bind parsed (\<lambda>doc.
               res_bind (choose_operation doc (gr_operationName request)) (\<lambda>op.
               res_bind (coerceVariables op (gr_variables request)) (\<lambda>vars.
               res_bind (analyse doc op vars \<lparr>lm_maxDepth = go_maxDepth opts, lm_maxComplexity = go_maxComplexity opts\<rparr>) (\<lambda>_.
                 Inr (doc, op, vars))))))))"

definition respond :: "gout ran \<Rightarrow> graphql_result option" where
  "respond r = (case r of None \<Rightarrow> None
     | Some (es, Inr data) \<Rightarrow> Some (Responded 200 \<lparr>gb_data = Some data, gb_errors = es\<rparr>)
     | Some (es, Inl e) \<Rightarrow> Some (Responded 200 \<lparr>gb_data = Some ONull, gb_errors = es @ [toResponseError e []]\<rparr>))"

definition executeGraphQL ::
    "graphql_request \<Rightarrow> api_store \<Rightarrow> (string \<Rightarrow> int option) \<Rightarrow> graphql_options \<Rightarrow> graphql_result option" where
  "executeGraphQL request s date_parse opts =
     (case admit request opts of
        None \<Rightarrow> None
      | Some (Inl e) \<Rightarrow> Some (rejected e)
      | Some (Inr (doc, op, vars)) \<Rightarrow>
          respond (executeSelection (go_maxDepth opts) \<lparr>ex_doc = doc, ex_vars = vars, ex_store = s, ex_dates = date_parse\<rparr>
            ''Query'' (on_selections op) (RScalar (JObj [])) []))"

end
