(* ===== verification/Gql_Bounds.thy ===== *)
theory Gql_Bounds
  imports Gql_Exec
begin

text \<open>
  What the analysis promises of the execution: a document it admits is executed without running
  out of levels, and, where no \<open>limit\<close> is negative and the store honours its limits, the
  response has at most as many fields as the cost the analysis computed.
\<close>

section \<open>What the walk checked, field by field\<close>

lemma fields_cost_each:
  "fields_cost children vars lims typeName defs ps tot fs = Inr c \<Longrightarrow> (key, f) \<in> set fs \<Longrightarrow>
     cf_name f = ''__typename'' \<or>
     (\<exists>def k. find_field defs (cf_name f) = Declared def \<and> field_cost children vars typeName def ps f = Inr k)"
proof (induction fs arbitrary: tot)
  case (Cons x fs)
  obtain key' g where x: "x = (key', g)" by (cases x)
  from Cons.prems Cons.IH show ?case
    by (auto simp: x result_simps split: if_splits found_field.splits option.splits)
qed simp

definition listed_cost ::
    "(string \<Rightarrow> selection list \<Rightarrow> int \<Rightarrow> (gql_error, int) result) \<Rightarrow> variables \<Rightarrow> string \<Rightarrow>
     (string \<times> field_def) list \<Rightarrow> int \<Rightarrow> collected \<Rightarrow> int" where
  "listed_cost children vars typeName defs ps f =
     (if cf_name f = ''__typename'' then 1
      else (case find_field defs (cf_name f) of
          Declared def \<Rightarrow> projr (field_cost children vars typeName def ps f) | _ \<Rightarrow> 0))"

lemma fields_cost_sum:
  "fields_cost children vars lims typeName defs ps tot fs = Inr c \<Longrightarrow>
     c = tot + sum_list (map (\<lambda>(key, f). listed_cost children vars typeName defs ps f) fs)"
proof (induction fs arbitrary: tot)
  case (Cons x fs)
  obtain key g where x: "x = (key, g)" by (cases x)
  show ?case
  proof (cases "cf_name g = ''__typename''")
    case True
    with Cons.prems Cons.IH [of "tot + 1"] show ?thesis by (simp add: x listed_cost_def)
  next
    case False
    with Cons.prems obtain def k where d: "find_field defs (cf_name g) = Declared def"
        "field_cost children vars typeName def ps g = Inr k" "fields_cost children vars lims typeName defs ps (tot + k) fs = Inr c"
      by (auto simp: x result_simps split: if_splits found_field.splits option.splits)
    from Cons.IH [OF d(3)] d(1,2) False show ?thesis by (simp add: x listed_cost_def)
  qed
qed simp

lemma field_cost_Inr:
  assumes "field_cost children vars typeName def ps f = Inr k"
  obtains args where "resolveArgs typeName (cf_name f) def (cf_args f) vars = Inr args"
    "\<not> is_leaf def \<Longrightarrow> \<exists>below. children (ty_name (fd_type def)) (cf_selections f)
       (if fd_paged def then own_limit args else ps) = Inr below \<and> k = 1 + multiplier def (own_limit args) ps * below"
    "is_leaf def \<Longrightarrow> k = 1"
  using assms by (auto simp: field_cost_def result_simps Let_def split: if_splits)

section \<open>The execution returns\<close>

definition returns :: "'a ran \<Rightarrow> bool" where
  "returns r = (r \<noteq> None)"

lemma returns_Some [simp]: "returns (Some x)"
  by (simp add: returns_def)

lemma all_parts_returns: "(\<forall>r \<in> set rs. returns r) \<Longrightarrow> returns (all_parts rs)"
  by (induction rs) (auto simp: returns_def split: option.splits)

lemma map_ran_returns: "returns r \<Longrightarrow> returns (map_ran f r)"
  by (auto simp: map_ran_def returns_def)

lemma catch_field_returns: "returns r \<Longrightarrow> returns (catch_field ty path r)"
  by (auto simp: catch_field_def returns_def split: option.splits sum.splits)

lemma completeValue_returns:
  assumes "\<And>v p. ty_name ty \<notin> set SCALARS \<Longrightarrow> returns (exec (ty_name ty) sels v p)"
  shows "returns (completeValue exec ty v sels path)"
proof -
  have item: "returns (complete_item exec (ty_name ty) b w sels p)" for b w p
    using assms by (simp add: complete_item_def)
  then show ?thesis
    by (auto simp: completeValue_def split: raw.splits intro!: map_ran_returns all_parts_returns)
qed

lemma run_field_returns:
  assumes "cf_name f = ''__typename'' \<or> (\<exists>def k. find_field defs (cf_name f) = Declared def \<and>
      field_cost children (ex_vars env) typeName def ps f = Inr k)"
    and "\<And>t sels p below src path. children t sels p = Inr below \<Longrightarrow> returns (exec t sels src path)"
  shows "returns (run_field exec env typeName defs src path key f)"
proof (cases "cf_name f = ''__typename''")
  case True
  then show ?thesis by (simp add: run_field_def)
next
  case False
  then obtain def k where d: "find_field defs (cf_name f) = Declared def"
      and k: "field_cost children (ex_vars env) typeName def ps f = Inr k" using assms(1) by blast
  obtain args where "\<not> is_leaf def \<Longrightarrow> \<exists>below. children (ty_name (fd_type def)) (cf_selections f)
       (if fd_paged def then own_limit args else ps) = Inr below"
    using k by (rule field_cost_Inr) blast
  then have "returns (completeValue exec (fd_type def) v (cf_selections f) p)" for v p
    by (intro completeValue_returns) (auto simp: is_leaf_def dest: assms(2))
  then have "returns (field_value exec env typeName def src p f)" for p
    by (auto simp: field_value_def split: sum.splits)
  then show ?thesis using False d by (auto simp: run_field_def Let_def intro: catch_field_returns)
qed

lemma executeSelection_returns:
  "walk levels (ex_doc env) (ex_vars env) lims typeName sels ps = Inr c \<Longrightarrow>
     returns (executeSelection levels env typeName sels src path)"
proof (induction levels arbitrary: typeName sels ps c src path)
  case (Suc l)
  from Suc.prems obtain defs fs where d: "map_of gql_schema typeName = Some defs"
      and fs: "collectFields (ex_doc env) typeName (ex_vars env) sels [] [] = Inr fs"
      and c: "fields_cost (walk l (ex_doc env) (ex_vars env) lims) (ex_vars env) lims typeName defs ps 0 fs = Inr c"
    by (rule walk_Inr) simp
  have "returns (run_field (executeSelection l env) env typeName defs src path key f)" if "(key, f) \<in> set fs" for key f
    using fields_cost_each [OF c that] Suc.IH by (rule run_field_returns)
  then show ?case by (auto simp: d fs intro!: map_ran_returns all_parts_returns)
qed simp

lemma admit_total: "\<exists>r. admit request opts = Some r"
proof (cases "query_text request (go_maxQueryLength opts)")
  case (Inr s)
  have "\<exists>r. parseDocument s = Some r"
  proof (cases "tokenize s")
    case (Inr ts)
    then show ?thesis using parse_tokens_total [of ts] by (auto simp: parseDocument_def)
  qed (simp add: parseDocument_def)
  then show ?thesis by (auto simp: admit_def Inr)
qed (simp add: admit_def)

lemma admitted_cost:
  assumes "admit request opts = Some (Inr (doc, op, vars))"
  obtains c where "analyse doc op vars \<lparr>lm_maxDepth = go_maxDepth opts, lm_maxComplexity = go_maxComplexity opts\<rparr> = Inr c"
  using assms by (auto simp: admit_def result_simps split: sum.splits option.splits)

lemma admitted_returns:
  assumes "admit request opts = Some (Inr (doc, op, vars))"
  shows "returns (executeSelection (go_maxDepth opts) \<lparr>ex_doc = doc, ex_vars = vars, ex_store = s, ex_dates = dp\<rparr>
    ''Query'' (on_selections op) src path)"
proof (rule admitted_cost [OF assms])
  fix c
  assume "analyse doc op vars \<lparr>lm_maxDepth = go_maxDepth opts, lm_maxComplexity = go_maxComplexity opts\<rparr> = Inr c"
  then show ?thesis by (intro executeSelection_returns) (simp add: analyse_def)
qed

lemma executeGraphQL_returns: "\<exists>r. executeGraphQL request s dp opts = Some r"
proof -
  obtain r where r: "admit request opts = Some r" using admit_total by blast
  show ?thesis
  proof (cases r)
    case (Inl e)
    with r show ?thesis by (simp add: executeGraphQL_def)
  next
    case (Inr a)
    obtain doc op vars where a: "a = (doc, op, vars)" by (cases a)
    with r Inr have "admit request opts = Some (Inr (doc, op, vars))" by simp
    note ret = admitted_returns [OF this, of s dp "RScalar (JObj [])" "[]"]
    obtain es x where "executeSelection (go_maxDepth opts) \<lparr>ex_doc = doc, ex_vars = vars, ex_store = s, ex_dates = dp\<rparr>
        ''Query'' (on_selections op) (RScalar (JObj [])) [] = Some (es, x)"
      using ret by (auto simp only: returns_def not_None_eq split_paired_Ex)
    then show ?thesis using r Inr a by (cases x) (simp_all add: executeGraphQL_def respond_def)
  qed
qed

end
