(* ===== verification/Gql_Cost.thy ===== *)
theory Gql_Cost
  imports Gql_Bounds
begin

text \<open>
  The cost the analysis of \<open>packages/api/src/graphql.ts\<close> computes bounds the response: where no
  \<open>limit\<close> of the request is negative and the store returns no more rows than it is asked for, the
  response has at most as many fields as the cost.
\<close>

section \<open>Limits that are not negative\<close>

definition nonneg_arg :: "gval \<Rightarrow> bool" where
  "nonneg_arg g = (case g of GInt n \<Rightarrow> 0 \<le> int_of_num n | GFloat n \<Rightarrow> 0 \<le> int_of_num n | _ \<Rightarrow> True)"

definition nonneg_args :: "(string \<times> gval) list \<Rightarrow> bool" where
  "nonneg_args args = list_all (\<lambda>(k, g). k \<noteq> ''limit'' \<or> nonneg_arg g) args"

fun nonneg_selection :: "selection \<Rightarrow> bool" where
  "nonneg_selection (Field al name args dirs None) = nonneg_args args"
| "nonneg_selection (Field al name args dirs (Some sels)) = (nonneg_args args \<and> list_all nonneg_selection sels)"
| "nonneg_selection (Spread name dirs) = True"
| "nonneg_selection (Inline cond dirs sels) = list_all nonneg_selection sels"

definition nonneg_selections :: "selection list \<Rightarrow> bool" where
  "nonneg_selections sels = list_all nonneg_selection sels"

definition nonneg_document :: "document \<Rightarrow> bool" where
  "nonneg_document doc = (list_all (\<lambda>op. nonneg_selections (on_selections op)) (doc_operations doc) \<and>
     list_all (\<lambda>(name, f). nonneg_selections (fn_selections f)) (doc_fragments doc))"

definition nonneg_vars :: "variables \<Rightarrow> bool" where
  "nonneg_vars vars = list_all (\<lambda>(k, v). case v of VNum n \<Rightarrow> 0 \<le> int_of_num n | _ \<Rightarrow> True) vars"

definition nonneg_field :: "collected \<Rightarrow> bool" where
  "nonneg_field f = (nonneg_args (cf_args f) \<and> nonneg_selections (cf_selections f))"

definition nonneg_fields :: "field_map \<Rightarrow> bool" where
  "nonneg_fields fs = list_all (\<lambda>(key, f). nonneg_field f) fs"

lemma coerceArg_number: "coerceArg label name def v = Inr (VNum n) \<Longrightarrow> v = VNum n \<and> is_integer n"
  by (auto simp: coerceArg_def Let_def split: if_splits arg_type.splits gvalue.splits)

lemma declared_args_given:
  "declared_args label given vars ds = Inr args \<Longrightarrow> map_of args name = Some (VNum n) \<Longrightarrow>
     given_value given name vars = VNum n \<and> is_integer n"
proof (induction ds arbitrary: args)
  case (Cons d ds)
  obtain name' def where d: "d = (name', def)" by (cases d)
  from Cons.prems Cons.IH show ?case
    by (auto simp: d Let_def result_simps dest: coerceArg_number split: if_splits)
qed simp

lemma resolveArgs_number:
  "resolveArgs typeName fieldName def given vars = Inr args \<Longrightarrow> map_of args name = Some (VNum n) \<Longrightarrow>
     given_value given name vars = VNum n \<and> is_integer n"
  by (auto simp: resolveArgs_def Let_def declared_args_given split: option.splits)

lemma own_limit_nonneg:
  assumes "resolveArgs typeName fieldName def given vars = Inr args" "nonneg_args given" "nonneg_vars vars"
  shows "0 \<le> own_limit args"
proof (cases "\<exists>n. map_of args ''limit'' = Some (VNum n)")
  case True
  then obtain n where n: "map_of args ''limit'' = Some (VNum n)" by blast
  then have g: "given_value given ''limit'' vars = VNum n" using resolveArgs_number assms(1) by blast
  then obtain node where node: "map_of given ''limit'' = Some node" "valueOf node vars = VNum n"
    by (auto simp: given_value_def split: option.splits)
  then have "nonneg_arg node" using assms(2) by (auto simp: nonneg_args_def list_all_iff dest: map_of_SomeD)
  then have "0 \<le> int_of_num n" using node(2) assms(3)
  proof (cases node)
    case (GVar x)
    with node(2) have "map_of vars x = Some (VNum n)" by (auto simp: record_get_def split: option.splits if_splits)
    then have "(x, VNum n) \<in> set vars" by (rule map_of_SomeD)
    with assms(3) show ?thesis by (fastforce simp: nonneg_vars_def list_all_iff)
  qed (auto simp: nonneg_arg_def)
  then show ?thesis by (simp add: own_limit_def n)
next
  case False
  then show ?thesis by (auto simp: own_limit_def split: option.splits gvalue.splits)
qed

lemma add_field_nonneg:
  assumes "add_field key name args sels into = Inr into'" "nonneg_args args" "nonneg_selections sels"
    and "nonneg_fields into"
  shows "nonneg_fields into'"
proof -
  have ms: "nonneg_field v \<Longrightarrow> nonneg_fields m \<Longrightarrow> nonneg_fields (map_set key v m)" for v m
    by (induction m) (auto simp: nonneg_fields_def)
  show ?thesis
  proof (cases "map_of into key")
    case None
    then show ?thesis using assms ms by (auto simp: add_field_def nonneg_field_def)
  next
    case (Some old)
    then have "nonneg_field old" using assms(4) map_of_SomeD [OF Some] by (auto simp: nonneg_fields_def list_all_iff)
    then have "nonneg_field (old\<lparr>cf_selections := cf_selections old @ sels\<rparr>)"
      using assms(3) by (simp add: nonneg_field_def nonneg_selections_def)
    then show ?thesis using Some assms(1,4) ms by (auto simp: add_field_def split: if_splits)
  qed
qed

lemma collectFields_nonneg:
  "collectFields doc typeName vars sels into visiting = Inr fs \<Longrightarrow> nonneg_document doc \<Longrightarrow> nonneg_selections sels \<Longrightarrow>
     nonneg_fields into \<Longrightarrow> nonneg_fields fs"
proof (induction doc typeName vars sels into visiting arbitrary: fs rule: collectFields.induct)
  case (1 doc typeName vars into visiting)
  then show ?case by simp
next
  case (2 doc typeName vars al name args dirs sels rest into visiting)
  from "2.prems"(1) obtain stays where st: "included dirs vars = Inr stays" by (auto simp: result_simps)
  have r: "nonneg_selections rest" "nonneg_args args" "nonneg_selections (or_else sels [])"
    using "2.prems"(3) by (cases sels; simp add: nonneg_selections_def)+
  show ?case
  proof (cases stays)
    case True
    with "2.prems"(1) st obtain into' where i: "add_field (or_else al name) name args (or_else sels []) into = Inr into'"
        "collectFields doc typeName vars rest into' visiting = Inr fs" by (auto simp: result_simps)
    show ?thesis
      using "2.IH"(2) [of stays into' fs] True st i r "2.prems"(2) add_field_nonneg [OF i(1) r(2,3) "2.prems"(4)] by simp
  next
    case False
    then show ?thesis using "2.IH"(1) [of stays fs] "2.prems" st r by (auto simp: result_simps)
  qed
next
  case (3 doc typeName vars name dirs rest into visiting)
  from "3.prems"(1) obtain stays where st: "included dirs vars = Inr stays" by (auto simp: result_simps)
  have r: "nonneg_selections rest" using "3.prems"(3) by (simp add: nonneg_selections_def)
  show ?case
  proof (cases stays)
    case True
    with "3.prems"(1) st obtain f where f: "map_of (doc_fragments doc) name = Some f" "name \<notin> set visiting"
      by (auto simp: result_simps split: option.splits if_splits)
    have nf: "nonneg_selections (fn_selections f)"
      using "3.prems"(2) map_of_SomeD [OF f(1)] by (fastforce simp: nonneg_document_def list_all_iff)
    show ?thesis
    proof (cases "fn_typeCondition f = typeName")
      case same: True
      with "3.prems"(1) st f True obtain into' where i:
          "collectFields doc typeName vars (fn_selections f) into (name # visiting) = Inr into'"
          "collectFields doc typeName vars rest into' visiting = Inr fs" by (auto simp: result_simps)
      have "nonneg_fields into'"
        using "3.IH"(3) [of stays f into'] True f same i(1) nf "3.prems" by simp
      then show ?thesis using "3.IH"(4) [of stays f into' fs] True f same i(2) r "3.prems" by simp
    next
      case other: False
      then show ?thesis using "3.IH"(2) [of stays f fs] "3.prems" st r f True by simp
    qed
  next
    case False
    then show ?thesis using "3.IH"(1) [of stays fs] "3.prems" st r by simp
  qed
next
  case (4 doc typeName vars cond dirs sels rest into visiting)
  from "4.prems"(1) obtain stays where st: "included dirs vars = Inr stays" by (auto simp: result_simps)
  have r: "nonneg_selections rest" "nonneg_selections sels" using "4.prems"(3) by (simp_all add: nonneg_selections_def)
  show ?case
  proof (cases "stays \<and> (cond = None \<or> cond = Some typeName)")
    case True
    then have c: "\<not> (cond \<noteq> None \<and> cond \<noteq> Some typeName)" "stays" by auto
    with "4.prems"(1) st obtain into' where i: "collectFields doc typeName vars sels into visiting = Inr into'"
        "collectFields doc typeName vars rest into' visiting = Inr fs" by (auto simp: result_simps)
    have "nonneg_fields into'"
      using "4.IH"(3) [of stays into'] c i(1) r "4.prems" by simp
    then show ?thesis using "4.IH"(4) [of stays into' fs] c i(2) r "4.prems" by simp
  next
    case False
    then show ?thesis using "4.IH"(1,2) [of stays fs] "4.prems" st r by (cases stays) auto
  qed
qed

section \<open>A store that honours its limits\<close>

fun response_size :: "gout \<Rightarrow> nat" where
  "response_size ONull = 0"
| "response_size (OScalar r) = 0"
| "response_size (OList xs) = sum_list (map response_size xs)"
| "response_size (OObject kvs) = sum_list (map (\<lambda>(k, v). Suc (response_size v)) kvs)"

definition limit_of :: "rat option \<Rightarrow> int" where
  "limit_of l = (case l of None \<Rightarrow> int DEFAULT_QUERY_LIMIT | Some r \<Rightarrow> \<lfloor>r\<rfloor>)"

definition few_topics :: "lens_event \<Rightarrow> bool" where
  "few_topics e = (length (le_topics e) \<le> 8)"

text \<open>
  The store keeps to a limit the resolvers can ask for: the default, or one from 1 to 1000.
\<close>

definition asked_limit :: "rat option \<Rightarrow> bool" where
  "asked_limit l = (case l of None \<Rightarrow> True | Some r \<Rightarrow> rat_is_int r \<and> 1 \<le> r \<and> r \<le> of_nat MAX_QUERY_LIMIT)"

text \<open>
  The default of \<open>listContracts\<close> is 100 contracts, twice the default the analysis counts with.
\<close>

definition contracts_limit :: "rat option \<Rightarrow> int" where
  "contracts_limit l = (case l of None \<Rightarrow> 100 | Some r \<Rightarrow> \<lfloor>r\<rfloor>)"

definition bounded_store :: "api_store \<Rightarrow> bool" where
  "bounded_store s = ((\<forall>q p. asked_limit (q_limit q) \<longrightarrow> as_queryEvents s q = Inr p \<longrightarrow>
       int (length (pg_events p)) \<le> limit_of (q_limit q) \<and> list_all few_topics (pg_events p)) \<and>
     (\<forall>i e. as_getEvent s i = Inr (Some e) \<longrightarrow> few_topics e) \<and>
     (\<forall>l cs. asked_limit l \<longrightarrow> as_listContracts s l = Inr cs \<longrightarrow> int (length cs) \<le> contracts_limit l) \<and>
     (\<forall>c l ts. asked_limit l \<longrightarrow> as_listTopics s c l = Inr ts \<longrightarrow> int (length ts) \<le> limit_of l))"

text \<open>A source that fits a page size; a value that fits a number of items.\<close>

definition fits :: "int \<Rightarrow> raw \<Rightarrow> bool" where
  "fits ps src = (case src of
       RObj (SPage p) \<Rightarrow> int (length (pg_events p)) \<le> ps \<and> list_all few_topics (pg_events p)
     | RObj (SEvent e) \<Rightarrow> few_topics e
     | _ \<Rightarrow> True)"

definition value_fits :: "int \<Rightarrow> int \<Rightarrow> raw \<Rightarrow> bool" where
  "value_fits n ps v = (case v of RList items \<Rightarrow> int (length items) \<le> n \<and> list_all (fits ps) items | _ \<Rightarrow> fits ps v)"

lemma map_of_drop_key: "k \<noteq> c \<Longrightarrow> map_of (filter (\<lambda>(k, v). k \<noteq> c) m) k = map_of m k"
  by (induction m) auto

lemma declared_args_keys:
  "declared_args label given vars ds = Inr args \<Longrightarrow> distinct (map fst ds) \<Longrightarrow>
     distinct (map fst args) \<and> fst ` set args \<subseteq> fst ` set ds"
proof (induction ds arbitrary: args)
  case (Cons d ds)
  obtain name def where d: "d = (name, def)" by (cases d)
  show ?case
  proof (cases "given_value given name vars = VUndefined")
    case True
    with Cons show ?thesis by (auto simp: d Let_def split: if_splits)
  next
    case False
    with Cons.prems obtain v rest where r: "declared_args label given vars ds = Inr rest" "args = (name, v) # rest"
      by (auto simp: d Let_def result_simps)
    with Cons.IH [of rest] Cons.prems show ?thesis by (auto simp: d)
  qed
qed simp

text \<open>The \<open>limit\<close> a query carries to the store is the one the cost was computed with.\<close>

lemma params_limit:
  "distinct (map fst args) \<Longrightarrow> params_get (query_params args) ''limit'' =
     (case map_of args ''limit'' of None \<Rightarrow> None
      | Some v \<Rightarrow> if v = VUndefined \<or> v = VNull then None else Some (value_string v))"
proof (induction args)
  case (Cons a args)
  obtain k v where a: "a = (k, v)" by (cases a)
  have topic: "map_of (map (Pair ''topic'') ts) ''limit'' = None" for ts :: "string list"
    by (induction ts) auto
  have none: "''limit'' \<notin> fst ` set args \<Longrightarrow> map_of args ''limit'' = None"
    by (simp add: map_of_eq_None_iff)
  show ?case using Cons none by (auto simp: a params_get_def topic map_add_def split: option.splits)
qed (simp add: params_get_def)

definition number_args :: "(string \<times> gvalue) list \<Rightarrow> bool" where
  "number_args args = (distinct (map fst args) \<and>
     (case map_of args ''limit'' of None \<Rightarrow> True | Some VNull \<Rightarrow> True | Some (VNum n) \<Rightarrow> True | _ \<Rightarrow> False))"

lemma limitParam_own:
  assumes "number_args args" "limitParam (query_params args) = Inr lm"
  shows "limit_of (map_option of_int lm) = own_limit args"
proof -
  have d: "distinct (map fst args)" using assms(1) by (simp add: number_args_def)
  show ?thesis
  proof (cases "\<exists>n. map_of args ''limit'' = Some (VNum n)")
    case True
    then obtain n where n: "map_of args ''limit'' = Some (VNum n)" by blast
    let ?i = "int_of_num n"
    have "params_get (query_params args) ''limit'' = Some (show_int ?i)"
      using params_limit [OF d] by (simp add: n value_string_def)
    moreover have "show_int ?i \<noteq> []" by (simp add: show_int_def)
    ultimately have "lm = Some ?i" "1 \<le> ?i" "?i \<le> int MAX_QUERY_LIMIT"
      using assms(2) by (auto simp: limitParam_def intParam_def js_Number_show_int result_simps split: if_splits)
    then show ?thesis by (simp add: limit_of_def own_limit_def n)
  next
    case False
    with assms(1) have none: "map_of args ''limit'' = None \<or> map_of args ''limit'' = Some VNull"
      by (auto simp: number_args_def simp del: map_of_eq_None_iff split: option.splits gvalue.splits)
    then have "params_get (query_params args) ''limit'' = None"
      using params_limit [OF d] by auto
    then have "lm = None" using assms(2) by (simp add: limitParam_def intParam_def)
    moreover have "own_limit args = int DEFAULT_QUERY_LIMIT" using none by (auto simp: own_limit_def)
    ultimately show ?thesis by (simp add: limit_of_def)
  qed
qed

lemma parseEventQuery_limit:
  "parseEventQuery dp ps = Inr q \<Longrightarrow> \<exists>lm. limitParam ps = Inr lm \<and> q_limit q = map_option of_int lm"
  by (clarsimp simp: parseEventQuery_def result_simps split_beta)

lemma limitParam_asked: "limitParam ps = Inr lm \<Longrightarrow> asked_limit (map_option of_int lm)"
  by (cases lm) (auto simp: asked_limit_def limitParam_def MAX_QUERY_LIMIT_def result_simps split: option.splits if_splits)

lemma boundedLimit_asked: "boundedLimit v = Inr l \<Longrightarrow> asked_limit l"
  by (auto simp: boundedLimit_def asked_limit_def Let_def MAX_QUERY_LIMIT_def split: option.splits gvalue.splits if_splits)

lemma query_events_fits:
  assumes "bounded_store s" "number_args args" "query_events s dp args c = Inr v"
  shows "fits (own_limit args) v \<and> (\<exists>p. v = RObj (SPage p))"
proof -
  obtain q p where q: "eventQueryFromArgs dp args c = Inr q" and p: "as_queryEvents s q = Inr p" "v = RObj (SPage p)"
    using assms(3) by (auto simp: query_events_def result_simps api_check_def store_read_def split: sum.splits)
  obtain q0 where q0: "parseEventQuery dp (query_params args) = Inr q0" "q_limit q = q_limit q0"
    using q by (auto simp: eventQueryFromArgs_def result_simps split: if_splits)
  then have "limit_of (q_limit q) = own_limit args"
    using parseEventQuery_limit [OF q0(1)] limitParam_own [OF assms(2)] by auto
  moreover have "asked_limit (q_limit q)" using parseEventQuery_limit [OF q0(1)] q0(2) limitParam_asked by auto
  then have "int (length (pg_events p)) \<le> limit_of (q_limit q)" "list_all few_topics (pg_events p)"
    using assms(1) p(1) by (simp_all add: bounded_store_def)
  ultimately show ?thesis by (simp add: p(2) fits_def)
qed

lemma boundedLimit_own:
  "number_args args \<Longrightarrow> boundedLimit (map_of args ''limit'') = Inr l \<Longrightarrow> limit_of l = own_limit args"
  by (auto simp: boundedLimit_def own_limit_def limit_of_def number_args_def Let_def simp del: map_of_eq_Some_iff split: option.splits gvalue.splits if_splits)

lemma ctx_contract_fits: "ctx_contract s c = Inr v \<Longrightarrow> v = RNone \<or> (\<exists>x. v = RObj (SContract x))"
  by (auto simp: ctx_contract_def result_simps split: option.splits)

lemma list_topics_fits:
  assumes "bounded_store s" "number_args args" "list_topics s c (map_of args ''limit'') = Inr v"
  shows "\<exists>items. v = RList items \<and> int (length items) \<le> own_limit args \<and> list_all (fits ps) items"
proof -
  obtain l ts where l: "boundedLimit (map_of args ''limit'') = Inr l" and ts: "as_listTopics s c l = Inr ts"
      and v: "v = RList (map (RObj \<circ> STopic) ts)"
    using assms(3) by (auto simp: list_topics_def result_simps api_check_def store_read_def split: sum.splits)
  have "int (length ts) \<le> limit_of l"
    using assms(1) boundedLimit_asked [OF l] ts unfolding bounded_store_def by blast
  then show ?thesis using boundedLimit_own [OF assms(2) l] by (simp add: v list_all_iff fits_def)
qed

text \<open>The resolvers that return lists, and those that return pages.\<close>

definition list_resolver :: "resolver \<Rightarrow> bool" where
  "list_resolver r = (r \<in> {Query_contracts, Query_topics, Contract_topics})"

definition page_resolver :: "resolver \<Rightarrow> bool" where
  "page_resolver r = (r \<in> {Query_events, Contract_events})"

definition slack :: "resolver \<Rightarrow> int" where
  "slack r = (if r = Query_contracts then 2 else 1)"

lemma contracts_limit_slack: "asked_limit l \<Longrightarrow> contracts_limit l \<le> 2 * limit_of l"
  by (auto simp: contracts_limit_def limit_of_def asked_limit_def DEFAULT_QUERY_LIMIT_def le_floor_iff split: option.splits)

lemma resolve_fits:
  assumes "bounded_store s" "number_args args" "resolve s dp r src args = Inr v"
  shows "value_fits (slack r * own_limit args) (if page_resolver r then own_limit args else ps) v"
proof (cases r)
  case Query_events
  let ?a = "filter (\<lambda>(k, v). k \<noteq> ''contractId'') args"
  have "map_of ?a ''limit'' = map_of args ''limit''" by (rule map_of_drop_key) simp
  then have a: "number_args ?a" "own_limit ?a = own_limit args"
    using assms(2) by (simp_all add: number_args_def own_limit_def distinct_map_filter)
  obtain c where "query_events s dp ?a c = Inr v"
    using assms(3) by (auto simp: resolve_def Query_events result_simps)
  from query_events_fits [OF assms(1) a(1) this] a(2) show ?thesis
    by (auto simp: Query_events page_resolver_def value_fits_def)
next
  case Query_event
  then show ?thesis using assms(1,3)
    by (auto simp: resolve_def result_simps store_read_def value_fits_def fits_def page_resolver_def bounded_store_def
      split: sum.splits option.splits)
next
  case Query_contracts
  then obtain l cs where l: "boundedLimit (map_of args ''limit'') = Inr l" and cs: "as_listContracts s l = Inr cs"
      and v: "v = RList (map (RObj \<circ> SContract) cs)"
    using assms(3) by (auto simp: resolve_def result_simps store_read_def api_check_def split: sum.splits)
  have "int (length cs) \<le> contracts_limit l" using assms(1) cs boundedLimit_asked [OF l] by (simp add: bounded_store_def)
  also have "\<dots> \<le> 2 * own_limit args"
    using contracts_limit_slack [OF boundedLimit_asked [OF l]] boundedLimit_own [OF assms(2) l] by simp
  finally show ?thesis by (simp add: v value_fits_def list_all_iff fits_def slack_def Query_contracts)
next
  case Query_contract
  then show ?thesis using assms(3)
    by (auto simp: resolve_def result_simps value_fits_def fits_def dest!: ctx_contract_fits)
next
  case Query_topics
  then obtain c where "list_topics s c (map_of args ''limit'') = Inr v"
    using assms(3) by (auto simp: resolve_def result_simps)
  from list_topics_fits [OF assms(1,2) this, of ps] Query_topics show ?thesis by (auto simp: value_fits_def page_resolver_def slack_def)
next
  case Event_contract
  then show ?thesis using assms(3) by (auto simp: resolve_def value_fits_def fits_def dest!: ctx_contract_fits)
next
  case Contract_topics
  then have "list_topics s (source_contract src) (map_of args ''limit'') = Inr v" using assms(3) by (simp add: resolve_def)
  from list_topics_fits [OF assms(1,2) this, of ps] Contract_topics show ?thesis by (auto simp: value_fits_def page_resolver_def slack_def)
next
  case Contract_events
  then have "query_events s dp args (Some (source_contract src)) = Inr v" using assms(3) by (simp add: resolve_def)
  from query_events_fits [OF assms(1,2) this] show ?thesis
    by (auto simp: Contract_events page_resolver_def value_fits_def)
qed

section \<open>What a field of the schema returns\<close>

lemma schema_members:
  "map_of gql_schema typeName = Some defs \<Longrightarrow>
     defs \<in> {query_fields, page_fields, event_fields, decoded_fields, contract_fields, topic_fields}"
  by (auto simp: gql_schema_def split: if_splits)

lemmas schema_defs = query_fields_def page_fields_def event_fields_def decoded_fields_def contract_fields_def
  topic_fields_def resolved_by_def plain_def one_def many_def arg_def required_arg_def PAGE_ARGS_def

definition field_ok :: "string \<times> field_def \<Rightarrow> bool" where
  "field_ok nd = (case nd of (name, def) \<Rightarrow>
     distinct (map fst (fd_args def)) \<and>
     (\<forall>d. map_of (fd_args def) ''limit'' = Some d \<longrightarrow> ad_type d = AInt) \<and>
     (case fd_resolve def of
        Some r \<Rightarrow> fd_paged def = page_resolver r \<and> ty_list (fd_type def) = list_resolver r \<and>
          (list_resolver r \<longrightarrow> fd_size def = Some BySize_limit)
      | None \<Rightarrow> \<not> fd_paged def \<and> (ty_list (fd_type def) \<longrightarrow>
          (name = ''events'' \<and> fd_size def = Some BySize_parent) \<or> (name = ''topics'' \<and> fd_size def = Some (Items 8)))))"

lemma schema_fields_ok:
  "list_all field_ok query_fields" "list_all field_ok page_fields" "list_all field_ok event_fields"
  "list_all field_ok decoded_fields" "list_all field_ok contract_fields" "list_all field_ok topic_fields"
  by (simp_all add: schema_defs field_ok_def page_resolver_def list_resolver_def)

lemma schema_field_ok:
  assumes "map_of gql_schema typeName = Some defs" "find_field defs name = Declared def"
  shows "field_ok (name, def)"
proof -
  have "(name, def) \<in> set defs"
    using assms(2) by (auto simp: find_field_def dest: map_of_SomeD split: option.splits if_splits)
  moreover have "list_all field_ok defs"
    using schema_members [OF assms(1)] schema_fields_ok by auto
  ultimately show ?thesis by (auto simp: list_all_iff)
qed

text \<open>Only the root has the field \<open>contracts\<close>, and no field leads back to the root.\<close>

definition over :: "string \<Rightarrow> int" where
  "over typeName = (if typeName = ''Query'' then 2 else 1)"

definition rooted :: "bool \<Rightarrow> string \<times> field_def \<Rightarrow> bool" where
  "rooted at_root nd = (ty_name (fd_type (snd nd)) \<noteq> ''Query'' \<and> (fd_resolve (snd nd) = Some Query_contracts \<longrightarrow> at_root))"

lemma schema_rooted:
  "list_all (rooted True) query_fields" "list_all (rooted False) page_fields" "list_all (rooted False) event_fields"
  "list_all (rooted False) decoded_fields" "list_all (rooted False) contract_fields" "list_all (rooted False) topic_fields"
  by (simp_all add: schema_defs rooted_def)

definition field_slack :: "field_def \<Rightarrow> int" where
  "field_slack def = (case fd_resolve def of Some r \<Rightarrow> slack r | None \<Rightarrow> 1)"

lemma schema_slack:
  assumes "map_of gql_schema typeName = Some defs" "find_field defs name = Declared def"
  shows "ty_name (fd_type def) \<noteq> ''Query''" "field_slack def \<le> over typeName" "0 \<le> field_slack def"
proof -
  have m: "(name, def) \<in> set defs"
    using assms(2) by (auto simp: find_field_def dest: map_of_SomeD split: option.splits if_splits)
  have "list_all (rooted (typeName = ''Query'')) defs"
    using assms(1) schema_rooted by (auto simp: gql_schema_def split: if_splits)
  then have "rooted (typeName = ''Query'') (name, def)" using m by (auto simp: list_all_iff)
  then show "ty_name (fd_type def) \<noteq> ''Query''" "field_slack def \<le> over typeName" "0 \<le> field_slack def"
    by (auto simp: rooted_def field_slack_def slack_def over_def split: option.splits)
qed

lemma coerceArg_int:
  "ad_type def = AInt \<Longrightarrow> coerceArg label name def raw = Inr v \<Longrightarrow> v = VNull \<or> (\<exists>n. v = VNum n)"
  by (auto simp: coerceArg_def split: if_splits gvalue.splits)

lemma declared_args_coerced:
  "declared_args label given vars ds = Inr args \<Longrightarrow> map_of args name = Some v \<Longrightarrow> distinct (map fst ds) \<Longrightarrow>
     \<exists>def. map_of ds name = Some def \<and> coerceArg label name def (given_value given name vars) = Inr v"
proof (induction ds arbitrary: args)
  case (Cons d ds)
  obtain name' def where d: "d = (name', def)" by (cases d)
  have fresh: "name' \<notin> fst ` set ds" using Cons.prems(3) by (simp add: d)
  show ?case
  proof (cases "given_value given name' vars = VUndefined")
    case True
    with Cons.prems have rest: "declared_args label given vars ds = Inr args" by (auto simp: d Let_def split: if_splits)
    from Cons.IH [OF rest Cons.prems(2)] Cons.prems(3) obtain def' where
        "map_of ds name = Some def'" "coerceArg label name def' (given_value given name vars) = Inr v" by (auto simp: d)
    with fresh show ?thesis by (auto simp: d dest: map_of_SomeD intro: rev_image_eqI)
  next
    case False
    with Cons.prems(1) obtain w rest where w: "coerceArg label name' def (given_value given name' vars) = Inr w"
        and rest: "declared_args label given vars ds = Inr rest" "args = (name', w) # rest"
      by (auto simp: d Let_def result_simps)
    show ?thesis
    proof (cases "name = name'")
      case True
      with w rest Cons.prems(2) show ?thesis by (simp add: d)
    next
      case other: False
      with Cons.IH [OF rest(1)] Cons.prems rest(2) show ?thesis by (simp add: d)
    qed
  qed
qed simp

lemma resolveArgs_numbers:
  assumes "field_ok (name, def)" "resolveArgs typeName name def given vars = Inr args"
  shows "number_args args"
proof -
  have d: "declared_args (field_label typeName name) given vars (fd_args def) = Inr args"
    using assms(2) by (auto simp: resolveArgs_def Let_def split: option.splits)
  have dist: "distinct (map fst (fd_args def))" using assms(1) by (simp add: field_ok_def)
  have "v = VNull \<or> (\<exists>n. v = VNum n)" if "map_of args ''limit'' = Some v" for v
    using declared_args_coerced [OF d that dist] assms(1) coerceArg_int by (fastforce simp: field_ok_def)
  then show ?thesis using declared_args_keys [OF d dist]
    by (auto simp: number_args_def simp del: map_of_eq_Some_iff split: option.splits gvalue.splits)
qed

lemma property_fits: "fits ps (property src name)"
  by (auto simp: property_def fits_def page_property_def event_property_def contract_property_def text_scalar_def scalar_def
    split: raw.splits gsource.splits option.splits)

lemma property_items:
  "fits ps src \<Longrightarrow> property src name = RList items \<Longrightarrow>
     list_all (fits n) items \<and> (name = ''events'' \<and> int (length items) \<le> ps \<or> name = ''topics'' \<and> length items \<le> 8)"
  by (cases src)
    (auto simp: property_def fits_def page_property_def event_property_def contract_property_def text_scalar_def scalar_def
      few_topics_def list_all_iff split: gsource.splits option.splits if_splits)

lemma field_value_fits:
  assumes "bounded_store s" "field_ok (name, def)" "resolveArgs typeName name def given vars = Inr args" "fits ps src"
    and "(case fd_resolve def of Some r \<Rightarrow> resolve s dp r src args | None \<Rightarrow> Inr (property src name)) = Inr v"
  shows "if ty_list (fd_type def)
    then value_fits (field_slack def * multiplier def (own_limit args) ps) (if fd_paged def then own_limit args else ps) v
    else v = RNone \<or> fits (if fd_paged def then own_limit args else ps) v"
proof (cases "fd_resolve def")
  case None
  then have v: "v = property src name" using assms(5) by simp
  show ?thesis
  proof (cases "ty_list (fd_type def)")
    case True
    have "value_fits (multiplier def (own_limit args) ps) ps v"
    proof (cases v)
      case (RList items)
      then have p: "property src name = RList items" using v by simp
      from property_items [OF assms(4) p, of ps] True None assms(2) show ?thesis
        unfolding RList by (auto simp: value_fits_def multiplier_def field_ok_def)
    qed (use property_fits [of ps src name] v in \<open>auto simp: value_fits_def\<close>)
    with None True assms(2) show ?thesis by (simp add: field_ok_def field_slack_def)
  qed (use None v assms(2) property_fits in \<open>simp add: field_ok_def\<close>)
next
  case (Some r)
  have "number_args args" by (rule resolveArgs_numbers [OF assms(2,3)])
  then have "value_fits (slack r * own_limit args) (if page_resolver r then own_limit args else ps) v"
    using resolve_fits assms(1,5) Some by simp
  note vf = this
  have ok: "fd_paged def = page_resolver r" "ty_list (fd_type def) = list_resolver r" "list_resolver r \<Longrightarrow> fd_size def = Some BySize_limit"
    using Some assms(2) by (simp_all add: field_ok_def)
  show ?thesis
  proof (cases "list_resolver r")
    case True
    then have "multiplier def (own_limit args) ps = own_limit args" using ok by (simp add: multiplier_def)
    with vf ok True Some show ?thesis by (simp add: field_slack_def)
  next
    case False
    have "fits n v" if "value_fits m n v" for m n using that by (cases v) (simp_all add: value_fits_def fits_def)
    with vf ok False show ?thesis by simp
  qed
qed

section \<open>The size of the response\<close>

lemma all_parts_Inr:
  "all_parts rs = Some (es, Inr xs) \<Longrightarrow> list_all2 (\<lambda>r x. \<exists>e. r = Some (e, Inr x)) rs xs"
proof (induction rs arbitrary: es xs)
  case (Cons r rs)
  then show ?case by (auto simp: result_simps split: option.splits prod.splits)
qed simp

lemma map_ran_Inr: "map_ran f r = Some (es, Inr y) \<Longrightarrow> \<exists>x. r = Some (es, Inr x) \<and> y = f x"
  by (auto simp: map_ran_def result_simps split: option.splits prod.splits)

lemma sum_list_bound: "list_all (\<lambda>x. int (f x) \<le> b) xs \<Longrightarrow> int (sum_list (map f xs)) \<le> int (length xs) * b"
  by (induction xs) (auto simp: algebra_simps)

lemma complete_item_bound:
  assumes "complete_item exec name nonNull v sels path = Some (es, Inr out)"
    and "\<And>es out. name \<notin> set SCALARS \<Longrightarrow> exec name sels v path = Some (es, Inr out) \<Longrightarrow> int (response_size out) \<le> below"
    and "0 \<le> below"
  shows "int (response_size out) \<le> below"
  using assms by (auto simp: complete_item_def split: if_splits)

lemma completeValue_bound:
  assumes "completeValue exec ty v sels path = Some (es, Inr out)"
    and exec: "\<And>v path es out. ty_name ty \<notin> set SCALARS \<Longrightarrow> fits cps v \<Longrightarrow> exec (ty_name ty) sels v path = Some (es, Inr out) \<Longrightarrow>
      int (response_size out) \<le> below"
    and "0 \<le> below" and "if ty_list ty then value_fits n cps v else v = RNone \<or> fits cps v" "0 \<le> n"
  shows "int (response_size out) \<le> (if ty_list ty then n else 1) * below"
proof (cases "v \<noteq> RNone \<and> ty_list ty")
  case True
  then obtain items where v: "v = RList items" using assms(1) by (auto simp: completeValue_def split: raw.splits)
  then have len: "int (length items) \<le> n" and fit: "list_all (fits cps) items"
    using assms(4) True by (auto simp: value_fits_def)
  from assms(1) True v obtain xs where xs: "all_parts (map (\<lambda>(i, item).
      complete_item exec (ty_name ty) (ty_itemNonNull ty) item sels (path @ [PIndex i])) (enumerate 0 items)) = Some (es, Inr xs)"
      and out: "out = OList xs" by (auto simp: completeValue_def dest: map_ran_Inr)
  have l2: "list_all2 (\<lambda>(i, item) x. \<exists>e. complete_item exec (ty_name ty) (ty_itemNonNull ty) item sels (path @ [PIndex i]) =
      Some (e, Inr x)) (enumerate 0 items) xs"
    using all_parts_Inr [OF xs] by (simp add: list_all2_map1 split_def)
  then have lx: "length xs = length items" by (auto dest: list_all2_lengthD)
  have "int (response_size x) \<le> below" if xin: "x \<in> set xs" for x
  proof -
    obtain k where k: "k < length xs" "x = xs ! k" using xin by (auto simp: in_set_conv_nth)
    then have "k < length items" using lx by simp
    then have "enumerate 0 items ! k = (k, items ! k)" by (simp add: nth_enumerate_eq)
    with list_all2_nthD2 [OF l2 k(1)]
    have "\<exists>e. complete_item exec (ty_name ty) (ty_itemNonNull ty) (items ! k) sels (path @ [PIndex k]) = Some (e, Inr (xs ! k))"
      by (simp only: split_conv)
    then obtain e where
      "complete_item exec (ty_name ty) (ty_itemNonNull ty) (items ! k) sels (path @ [PIndex k]) = Some (e, Inr (xs ! k))"
      by (rule exE)
    note item = this
    have "fits cps (items ! k)" using fit \<open>k < length items\<close> by (simp add: list_all_length)
    then show ?thesis
      unfolding k(2) by (intro complete_item_bound [OF item exec assms(3)])
  qed
  then have "int (response_size out) \<le> int (length items) * below"
    using sum_list_bound [of response_size below xs] by (simp add: out lx list_all_iff)
  also have "\<dots> \<le> n * below" using len assms(3) by (rule mult_right_mono)
  finally show ?thesis using True by simp
next
  case False
  have c: "complete_item exec (ty_name ty) (ty_nonNull ty) v sels path = Some (es, Inr out)"
    using assms(1) unfolding completeValue_def if_not_P [OF False] .
  show ?thesis
  proof (cases "v = RNone")
    case True
    with c have "response_size out = 0" by (auto simp: complete_item_def split: if_splits)
    then show ?thesis using assms(3,5) by simp
  next
    case nn: False
    with False have nl: "\<not> ty_list ty" by simp
    with nn assms(4) have "fits cps v" by simp
    from complete_item_bound [OF c exec [OF _ this] assms(3)] nl show ?thesis by simp
  qed
qed

definition object_size :: "(string \<times> gout) list \<Rightarrow> nat" where
  "object_size kvs = sum_list (map (\<lambda>(k, v). Suc (response_size v)) kvs)"

lemma response_size_object: "response_size (OObject kvs) = object_size kvs"
  by (simp add: object_size_def)

declare response_size.simps(4) [simp del]
declare response_size_object [simp]

lemma record_set_size: "object_size (record_set k v m) \<le> object_size m + Suc (response_size v)"
proof -
  have "object_size (map_set k v m) \<le> object_size m + Suc (response_size v)"
    by (induction m) (auto simp: object_size_def)
  then show ?thesis by (simp add: record_set_def)
qed

lemma assign_all_size: "length ks = length vs \<Longrightarrow> object_size (assign_all ks vs) \<le> sum_list (map (Suc \<circ> response_size) vs)"
proof -
  have "length ks = length vs \<Longrightarrow>
      object_size (foldl (\<lambda>m (k, v). record_set k v m) m (zip ks vs)) \<le> object_size m + sum_list (map (Suc \<circ> response_size) vs)" for m
  proof (induction ks vs arbitrary: m rule: list_induct2)
    case (Cons k ks v vs)
    show ?case using order_trans [OF Cons.IH [of "record_set k v m"]] record_set_size [of k v m] by simp
  qed simp
  from this [of "[]"] show "length ks = length vs \<Longrightarrow> ?thesis" by (simp add: assign_all_def object_size_def)
qed

lemma catch_field_bound:
  "catch_field ty path r = Some (es, Inr out) \<Longrightarrow> out = ONull \<or> (\<exists>es'. r = Some (es', Inr out))"
  by (auto simp: catch_field_def split: option.splits sum.splits if_splits prod.splits)

text \<open>One field: its value is at most its cost, twice at the root.\<close>

lemma run_field_bound:
  assumes "run_field exec env typeName defs src path key f = Some (es, Inr out)" "map_of gql_schema typeName = Some defs"
    and "cf_name f = ''__typename'' \<or> (\<exists>def k. find_field defs (cf_name f) = Declared def \<and>
      field_cost children (ex_vars env) typeName def ps f = Inr k)"
    and "bounded_store (ex_store env)" "nonneg_vars (ex_vars env)" "nonneg_field f" "fits ps src" "0 \<le> ps"
    and child: "\<And>t p below src path es out. t \<noteq> ''Query'' \<Longrightarrow> children t (cf_selections f) p = Inr below \<Longrightarrow> 0 \<le> p \<Longrightarrow> fits p src \<Longrightarrow>
      exec t (cf_selections f) src path = Some (es, Inr out) \<Longrightarrow> int (response_size out) \<le> below"
    and nonneg: "\<And>t p below. children t (cf_selections f) p = Inr below \<Longrightarrow> 0 \<le> p \<Longrightarrow> 0 \<le> below"
  shows "int (Suc (response_size out)) \<le> over typeName * listed_cost children (ex_vars env) typeName defs ps f"
proof (cases "cf_name f = ''__typename''")
  case True
  with assms(1) have "response_size out = 0" by (auto simp: run_field_def)
  with True show ?thesis by (simp add: listed_cost_def over_def)
next
  case False
  then obtain def k where d: "find_field defs (cf_name f) = Declared def"
      and k: "field_cost children (ex_vars env) typeName def ps f = Inr k" using assms(3) by blast
  have cost: "listed_cost children (ex_vars env) typeName defs ps f = k" using False d k by (simp add: listed_cost_def)
  have ok: "field_ok (cf_name f, def)" by (rule schema_field_ok [OF assms(2) d])
  obtain args where args: "resolveArgs typeName (cf_name f) def (cf_args f) (ex_vars env) = Inr args"
      and inner: "\<not> is_leaf def \<Longrightarrow> \<exists>below. children (ty_name (fd_type def)) (cf_selections f)
         (if fd_paged def then own_limit args else ps) = Inr below \<and> k = 1 + multiplier def (own_limit args) ps * below"
      and leaf: "is_leaf def \<Longrightarrow> k = 1"
    using k by (rule field_cost_Inr) blast
  let ?cps = "if fd_paged def then own_limit args else ps"
  have own: "0 \<le> own_limit args" using own_limit_nonneg [OF args] assms(5,6) by (simp add: nonneg_field_def)
  then have cps: "0 \<le> ?cps" and m0: "0 \<le> multiplier def (own_limit args) ps"
    using assms(8) ok by (auto simp: multiplier_def field_ok_def split: option.splits list_size.splits)
  note sl = schema_slack [OF assms(2) d]
  have s0: "0 \<le> field_slack def * multiplier def (own_limit args) ps" using sl(3) m0 by simp
  have o1: "1 \<le> over typeName" by (simp add: over_def)
  have k1: "1 \<le> k" using leaf inner m0 nonneg [OF _ cps] by (cases "is_leaf def") (auto simp: mult_nonneg_nonneg)
  have ok1: "1 \<le> over typeName * k" using mult_mono [OF o1 k1] o1 by simp
  from assms(1) False d obtain p es0 where "catch_field (fd_type def) p (field_value exec env typeName def src p f) = Some (es0, Inr out)"
    by (auto simp: run_field_def Let_def)
  then consider "out = ONull" | es' where "field_value exec env typeName def src p f = Some (es', Inr out)"
    using catch_field_bound by blast
  then show ?thesis
  proof cases
    case 1
    with ok1 show ?thesis by (simp add: cost)
  next
    case 2
    then obtain v where v: "(case fd_resolve def of Some r \<Rightarrow> resolve (ex_store env) (ex_dates env) r src args
          | None \<Rightarrow> Inr (property src (cf_name f))) = Inr v"
        and cv: "completeValue exec (fd_type def) v (cf_selections f) p = Some (es', Inr out)"
      by (auto simp: field_value_def args split: sum.splits)
    note fit = field_value_fits [OF assms(4) ok args assms(7) v]
    have "int (response_size out) + 1 \<le> over typeName * k"
    proof (cases "is_leaf def")
      case True
      have "int (response_size out) \<le> (if ty_list (fd_type def) then field_slack def * multiplier def (own_limit args) ps else 1) * 0"
        using True by (intro completeValue_bound [OF cv _ _ fit s0]) (simp_all add: is_leaf_def)
      then show ?thesis using ok1 by simp
    next
      case nl: False
      then obtain below where b: "children (ty_name (fd_type def)) (cf_selections f) ?cps = Inr below"
          and kb: "k = 1 + multiplier def (own_limit args) ps * below" using inner by blast
      have below: "0 \<le> below" by (rule nonneg [OF b cps])
      let ?n = "if ty_list (fd_type def) then field_slack def * multiplier def (own_limit args) ps else 1"
      have "int (response_size out) \<le> ?n * below"
        by (rule completeValue_bound [OF cv child [OF sl(1) b cps] below fit s0])
      also have "\<dots> \<le> (over typeName * multiplier def (own_limit args) ps) * below"
      proof (rule mult_right_mono [OF _ below])
        show "?n \<le> over typeName * multiplier def (own_limit args) ps"
        proof (cases "ty_list (fd_type def)")
          case True
          then show ?thesis using mult_right_mono [OF sl(2) m0] by simp
        next
          case False
          then have "multiplier def (own_limit args) ps = 1" by (simp add: multiplier_def)
          with False o1 show ?thesis by simp
        qed
      qed
      finally show ?thesis using o1 by (simp add: kb algebra_simps)
    qed
    then show ?thesis by (simp add: cost)
  qed
qed

lemma sum_list_all2: "list_all2 (\<lambda>x y. int (g y) \<le> h x) xs ys \<Longrightarrow> int (sum_list (map g ys)) \<le> sum_list (map h xs)"
  by (induction rule: list_all2_induct) auto

lemma listed_cost_pos:
  assumes "cf_name f = ''__typename'' \<or> (\<exists>def k. find_field defs (cf_name f) = Declared def \<and>
      field_cost children vars typeName def ps f = Inr k)"
    and "map_of gql_schema typeName = Some defs" "nonneg_vars vars" "nonneg_field f" "0 \<le> ps"
    and nonneg: "\<And>t p below. children t (cf_selections f) p = Inr below \<Longrightarrow> 0 \<le> p \<Longrightarrow> 0 \<le> below"
  shows "0 \<le> listed_cost children vars typeName defs ps f"
proof (cases "cf_name f = ''__typename''")
  case False
  then obtain def k where d: "find_field defs (cf_name f) = Declared def"
      and k: "field_cost children vars typeName def ps f = Inr k" using assms(1) by blast
  obtain args where args: "resolveArgs typeName (cf_name f) def (cf_args f) vars = Inr args"
      and inner: "\<not> is_leaf def \<Longrightarrow> \<exists>below. children (ty_name (fd_type def)) (cf_selections f)
         (if fd_paged def then own_limit args else ps) = Inr below \<and> k = 1 + multiplier def (own_limit args) ps * below"
      and leaf: "is_leaf def \<Longrightarrow> k = 1"
    using k by (rule field_cost_Inr) blast
  have own: "0 \<le> own_limit args" using own_limit_nonneg [OF args] assms(3,4) by (simp add: nonneg_field_def)
  have ok: "field_ok (cf_name f, def)" by (rule schema_field_ok [OF assms(2) d])
  have m0: "0 \<le> multiplier def (own_limit args) ps"
    using own assms(5) ok by (auto simp: multiplier_def field_ok_def split: option.splits list_size.splits)
  have "0 \<le> k"
  proof (cases "is_leaf def")
    case nl: False
    then obtain below where b: "children (ty_name (fd_type def)) (cf_selections f) (if fd_paged def then own_limit args else ps) = Inr below"
        and kb: "k = 1 + multiplier def (own_limit args) ps * below" using inner by blast
    have "0 \<le> below" using own assms(5) by (intro nonneg [OF b]) simp
    with m0 kb show ?thesis by simp
  qed (use leaf in simp)
  then show ?thesis using False d k by (simp add: listed_cost_def)
qed (simp add: listed_cost_def)

lemma walk_bounds:
  "walk levels (ex_doc env) (ex_vars env) lims typeName sels ps = Inr c \<Longrightarrow> nonneg_document (ex_doc env) \<Longrightarrow>
   nonneg_vars (ex_vars env) \<Longrightarrow> nonneg_selections sels \<Longrightarrow> 0 \<le> ps \<Longrightarrow>
   0 \<le> c \<and> (\<forall>src path es out. bounded_store (ex_store env) \<longrightarrow> fits ps src \<longrightarrow>
     executeSelection levels env typeName sels src path = Some (es, Inr out) \<longrightarrow> int (response_size out) \<le> over typeName * c)"
proof (induction levels arbitrary: typeName sels ps c)
  case (Suc l)
  let ?ch = "walk l (ex_doc env) (ex_vars env) lims"
  from Suc.prems(1) obtain defs fs where d: "map_of gql_schema typeName = Some defs"
      and fs: "collectFields (ex_doc env) typeName (ex_vars env) sels [] [] = Inr fs"
      and c: "fields_cost ?ch (ex_vars env) lims typeName defs ps 0 fs = Inr c"
    by (rule walk_Inr) simp
  have nf: "nonneg_fields fs"
    using collectFields_nonneg [OF fs Suc.prems(2,4)] by (simp add: nonneg_fields_def)
  have sum: "c = sum_list (map (\<lambda>(key, f). listed_cost ?ch (ex_vars env) typeName defs ps f) fs)"
    using fields_cost_sum [OF c] by simp
  have each: "nonneg_field f" "0 \<le> listed_cost ?ch (ex_vars env) typeName defs ps f"
      "\<And>t p below. ?ch t (cf_selections f) p = Inr below \<Longrightarrow> 0 \<le> p \<Longrightarrow> 0 \<le> below"
    if f: "(key, f) \<in> set fs" for key f
  proof -
    show n: "nonneg_field f" using nf f by (auto simp: nonneg_fields_def list_all_iff)
    show pos: "0 \<le> below" if "?ch t (cf_selections f) p = Inr below" "0 \<le> p" for t p below
      using Suc.IH [OF that(1) Suc.prems(2,3) _ that(2)] n by (simp add: nonneg_field_def)
    show "0 \<le> listed_cost ?ch (ex_vars env) typeName defs ps f"
      by (rule listed_cost_pos [OF fields_cost_each [OF c f] d Suc.prems(3) n Suc.prems(5) pos])
  qed
  have "int (response_size out) \<le> over typeName * c"
    if s: "bounded_store (ex_store env)" and fit: "fits ps src"
      and run: "executeSelection (Suc l) env typeName sels src path = Some (es, Inr out)" for src path es out
  proof -
    obtain vs where vs: "all_parts (map (\<lambda>(key, f). run_field (executeSelection l env) env typeName defs src path key f) fs) =
        Some (es, Inr vs)" and out: "out = OObject (assign_all (map fst fs) vs)"
      using run by (auto simp: d fs dest: map_ran_Inr)
    have l2: "list_all2 (\<lambda>(key, f) v. \<exists>e. run_field (executeSelection l env) env typeName defs src path key f = Some (e, Inr v)) fs vs"
      using all_parts_Inr [OF vs] by (simp add: list_all2_map1 split_def)
    have "list_all2 (\<lambda>(key, f) v. int (Suc (response_size v)) \<le> over typeName * listed_cost ?ch (ex_vars env) typeName defs ps f) fs vs"
    proof (rule list.rel_mono_strong [OF l2], clarify)
      fix key f v e
      assume f: "(key, f) \<in> set fs" and r: "run_field (executeSelection l env) env typeName defs src path key f = Some (e, Inr v)"
      have "int (response_size o') \<le> below"
        if "t \<noteq> ''Query''" "?ch t (cf_selections f) p = Inr below" "0 \<le> p" "fits p sr"
          "executeSelection l env t (cf_selections f) sr pa = Some (es', Inr o')" for t p below sr pa es' o'
        using Suc.IH [OF that(2) Suc.prems(2,3) _ that(3)] each(1) [OF f] that(1,4,5) s by (simp add: nonneg_field_def over_def)
      from run_field_bound [OF r d fields_cost_each [OF c f] s Suc.prems(3) each(1) [OF f] fit Suc.prems(5) this each(3) [OF f]]
      show "int (Suc (response_size v)) \<le> over typeName * listed_cost ?ch (ex_vars env) typeName defs ps f" by simp
    qed
    then have "int (sum_list (map (\<lambda>v. Suc (response_size v)) vs)) \<le>
        sum_list (map (\<lambda>(key, f). over typeName * listed_cost ?ch (ex_vars env) typeName defs ps f) fs)"
      by (intro sum_list_all2) (simp add: split_def)
    also have "\<dots> = over typeName * c"
      unfolding sum by (simp add: sum_list_const_mult split_def)
    finally have "int (sum_list (map (\<lambda>v. Suc (response_size v)) vs)) \<le> over typeName * c" .
    moreover have "length fs = length vs" using l2 by (rule list_all2_lengthD)
    ultimately show ?thesis using assign_all_size [of "map fst fs" vs] by (simp add: out comp_def)
  qed
  moreover have "0 \<le> c" unfolding sum using each(2) by (intro sum_list_nonneg) auto
  ultimately show ?case by blast
qed simp

end
