(* ===== verification/Event_Source.thy ===== *)
theory Event_Source
  imports Csv Sqlite_Reads
begin

text \<open>
  The store as the API's consumers see it: pages of events. \<open>api_page\<close> is one
  \<open>store.queryEvents({...query, limit, cursor})\<close>; the locale \<open>keyset\<close> is interpreted on the
  pages of events of a well-formed store, so that the CSV export, the event streams, the
  webhook dispatcher and the GraphQL connections rest on one law. \<open>each_page\<close> is
  \<open>eachEventPage\<close> of \<open>packages/api/src/server.ts\<close>.
\<close>

definition set_page :: "event_query \<Rightarrow> string option \<Rightarrow> nat \<Rightarrow> event_query" where
  "set_page q cursor n = q\<lparr>q_limit := Some (of_nat n), q_cursor := (if truthy cursor then cursor else q_cursor q)\<rparr>"

definition api_page ::
    "codec \<Rightarrow> int \<Rightarrow> event_query \<Rightarrow> event_store \<Rightarrow> string option \<Rightarrow> nat \<Rightarrow> (query_error, lens_event list \<times> string option) result" where
  "api_page cd now q s cursor n =
     (case fst (queryEvents cd now (set_page q cursor n) s) of
        Inl e \<Rightarrow> Inl e | Inr p \<Rightarrow> Inr (pg_events p, pg_nextCursor p))"

section \<open>Rows as events\<close>

definition event_of :: "codec \<Rightarrow> event_row \<Rightarrow> lens_event" where
  "event_of cd r = the (rowToEvent cd r)"

definition db_served :: "codec \<Rightarrow> database \<Rightarrow> bool" where
  "db_served cd db = (db_ok cd db \<and> [] \<notin> set (db_ids db))"

lemma served_ids: "db_served cd db \<Longrightarrow> ids_present db"
  by (simp add: db_served_def db_ok_def ids_present_def)

definition store_order :: "event_query \<Rightarrow> sort_order" where
  "store_order q = (if q_order q = Some Asc then Asc else Desc)"

definition matching_events :: "codec \<Rightarrow> database \<Rightarrow> sql_cond list \<Rightarrow> sort_order \<Rightarrow> lens_event list" where
  "matching_events cd db conds order = map (event_of cd) (ordered_rows cd db conds order)"

definition served_page :: "codec \<Rightarrow> database \<Rightarrow> sql_cond list \<Rightarrow> sort_order \<Rightarrow> string option \<Rightarrow> nat \<Rightarrow> lens_event list \<times> string option" where
  "served_page cd db conds order cursor n =
     (let (rows, nxt) = store_page cd db conds order cursor n in (map (event_of cd) rows, nxt))"

lemma served_row:
  assumes "db_served cd db" "r \<in> set (db_events db)"
  shows "rowToEvent cd r = Some (event_of cd r)" "le_id (event_of cd r) = er_id r"
proof -
  have "row_ok cd r" using assms by (auto simp: db_served_def db_ok_def)
  then obtain e where e: "rowToEvent cd r = Some e" "insertParams cd e = r" by (auto simp: row_ok_def)
  then show "rowToEvent cd r = Some (event_of cd r)" by (simp add: event_of_def)
  show "le_id (event_of cd r) = er_id r" using e insertParams_id [of cd e] by (simp add: event_of_def)
qed

lemma ordered_subset: "set (ordered_rows cd db conds order) \<subseteq> set (db_events db)"
  by (auto simp: ordered_rows_def sql_select_def)

lemma matching_id:
  "db_served cd db \<Longrightarrow> k < length (ordered_rows cd db conds order) \<Longrightarrow>
     le_id (matching_events cd db conds order ! k) = er_id (ordered_rows cd db conds order ! k)"
  using served_row(2) [of cd db "ordered_rows cd db conds order ! k"] ordered_subset nth_mem
  by (fastforce simp: matching_events_def)

lemma length_matching [simp]: "length (matching_events cd db conds order) = length (ordered_rows cd db conds order)"
  by (simp add: matching_events_def)

lemma served_page_first:
  "db_served cd db \<Longrightarrow> 0 < n \<Longrightarrow> served_page cd db conds order None n =
     (take n (matching_events cd db conds order), if length (matching_events cd db conds order) > n
      then Some (le_id (matching_events cd db conds order ! (n - 1))) else None)"
  by (simp add: served_page_def store_page_first matching_id) (simp add: matching_events_def take_map)

lemma served_page_later:
  "db_served cd db \<Longrightarrow> 0 < n \<Longrightarrow> k < length (matching_events cd db conds order) \<Longrightarrow>
     served_page cd db conds order (Some (le_id (matching_events cd db conds order ! k))) n =
     (take n (drop (Suc k) (matching_events cd db conds order)), if length (matching_events cd db conds order) > Suc k + n
      then Some (le_id (matching_events cd db conds order ! (k + n))) else None)"
  by (simp add: served_page_def store_page_later matching_id served_ids) (simp add: matching_events_def take_map drop_map)

text \<open>A store whose tables satisfy the invariant, with the codec they were written with.\<close>

typedef served_store = "{(cd, db). db_served cd db}"
  by (rule exI [of _ "(undefined, \<lparr>db_events = [], db_addresses = [], db_hasFts = False, db_fts = [], db_streams = [],
     db_specs = [], db_version = 0\<rparr>)"]) (simp add: db_served_def db_ok_def db_ids_def)

definition served_codec :: "served_store \<Rightarrow> codec" where
  "served_codec s = fst (Rep_served_store s)"

definition served_tables :: "served_store \<Rightarrow> database" where
  "served_tables s = snd (Rep_served_store s)"

lemma served_store_ok: "db_served (served_codec s) (served_tables s)"
  using Rep_served_store [of s] by (simp add: served_codec_def served_tables_def split: prod.splits)

lemma served_store_exists: "db_served cd db \<Longrightarrow> \<exists>s. served_codec s = cd \<and> served_tables s = db"
  by (rule exI [of _ "Abs_served_store (cd, db)"]) (simp add: served_codec_def served_tables_def Abs_served_store_inverse)

interpretation event_keyset: keyset "served_page (served_codec s) (served_tables s) conds order"
    "matching_events (served_codec s) (served_tables s) conds order" le_id
  for s conds order
  by unfold_locales (simp_all add: served_page_first served_page_later served_store_ok)

lemma countCached_db [simp]: "es_db (snd (countCached cd now conds s)) = es_db s"
  by (auto simp: countCached_def Let_def split: option.splits prod.splits)

lemma rows_readable:
  "db_served cd db \<Longrightarrow> set rows \<subseteq> set (db_events db) \<Longrightarrow> option_list (map (rowToEvent cd) rows) = Some (map (event_of cd) rows)"
  by (induction rows) (simp_all add: served_row(1))

lemma query_rows_subset: "set (rp_rows (query_rows cd db conds order rev_scan cursor n)) \<subseteq> set (db_events db)"
  by (auto simp: query_rows_def Let_def sql_select_def dest!: in_set_takeD)

text \<open>What one query of a well-formed store answers; only the search can be refused.\<close>

lemma queryEvents_rows:
  assumes "db_served cd (es_db s)" "truthy (q_search q) \<longrightarrow> es_searchAvailable s"
  defines "p \<equiv> query_rows cd (es_db s) (buildWhere q) (store_order q) (q_direction q = Some Backward) (q_cursor q)
      (normaliseLimit (q_limit q))"
  shows "\<exists>n b. fst (queryEvents cd now q s) = Inr \<lparr>pg_events = map (event_of cd) (rp_rows p), pg_nextCursor = rp_next p,
      pg_prevCursor = rp_prev p, pg_total = n, pg_totalIsEstimate = b\<rparr>"
proof -
  obtain n b s' where c: "countCached cd now (buildWhere q) s = ((n, b), s')" by (metis prod.exhaust)
  then have db: "es_db s' = es_db s" using countCached_db [of cd now "buildWhere q" s] by simp
  have r: "option_list (map (rowToEvent cd) (rp_rows p)) = Some (map (event_of cd) (rp_rows p))"
    unfolding p_def by (rule rows_readable [OF assms(1) query_rows_subset])
  show ?thesis
    using assms(2) r by (auto simp: queryEvents_def Let_def c db p_def store_order_def)
qed

lemma normaliseLimit_nat: "0 < n \<Longrightarrow> n \<le> 1000 \<Longrightarrow> normaliseLimit (Some (of_nat n)) = n"
proof -
  assume n: "0 < n" "n \<le> 1000"
  have "js_trunc (of_nat n) = int n" by (simp add: js_trunc_def)
  then show "normaliseLimit (Some (of_nat n)) = n" using n by (simp add: normaliseLimit_def MAX_QUERY_LIMIT_def)
qed

lemma buildWhere_set_page [simp]: "buildWhere (set_page q c n) = buildWhere q"
  by (simp add: buildWhere_def set_page_def)

lemma api_page_eq:
  assumes "db_served cd (es_db s)" "truthy (q_search q) \<longrightarrow> es_searchAvailable s" "q_direction q \<noteq> Some Backward"
    "0 < n" "n \<le> 1000"
  shows "api_page cd now q s cursor n =
    Inr (served_page cd (es_db s) (buildWhere q) (store_order q) (if truthy cursor then cursor else q_cursor q) n)"
proof -
  obtain m b where m: "fst (queryEvents cd now (set_page q cursor n) s) =
      Inr \<lparr>pg_events = map (event_of cd) (rp_rows (query_rows cd (es_db s) (buildWhere q) (store_order q) False
             (if truthy cursor then cursor else q_cursor q) n)),
        pg_nextCursor = rp_next (query_rows cd (es_db s) (buildWhere q) (store_order q) False
             (if truthy cursor then cursor else q_cursor q) n),
        pg_prevCursor = rp_prev (query_rows cd (es_db s) (buildWhere q) (store_order q) False
             (if truthy cursor then cursor else q_cursor q) n), pg_total = m, pg_totalIsEstimate = b\<rparr>"
    using queryEvents_rows [OF assms(1), of "set_page q cursor n" now] assms(2-5) normaliseLimit_nat [OF assms(4,5)]
    by (auto simp: set_page_def store_order_def buildWhere_def)
  show ?thesis by (simp add: api_page_def m served_page_def store_page_def Let_def)
qed

text \<open>Rows a batch of arrivals cannot touch: those whose ids satisfy what none of its ids does.\<close>

lemma ordered_rows_arrivals:
  assumes "\<forall>e \<in> set es. \<not> P (le_id e)"
  shows "filter (\<lambda>r. P (er_id r)) (ordered_rows cd (snd (insertDecoded io cd es db)) conds order) =
    filter (\<lambda>r. P (er_id r)) (ordered_rows cd db conds order)"
proof -
  let ?db = "snd (insertDecoded io cd es db)"
  have "filter (\<lambda>r. P (er_id r)) (sql_select cd ?db conds) = filter (\<lambda>r. P (er_id r)) (sql_select cd db conds)"
  proof (cases "insert_loop io cd 0 es db")
    case (Inl e)
    then show ?thesis by (simp add: insertDecoded_def transaction_def)
  next
    case (Inr r)
    then have "insert_loop io cd 0 es db = Inr (fst r, snd r)" by simp
    from select_insert_loop [where P = P, OF this assms] Inr
    show ?thesis by (cases r) (simp add: insertDecoded_def transaction_def)
  qed
  then show ?thesis unfolding ordered_rows_def by (metis order_by_id_filter)
qed

lemma insertDecoded_ids_subset: "set (db_ids db) \<subseteq> set (db_ids (snd (insertDecoded io cd es db)))"
proof -
  have one: "insert_one cd e d = (c, d') \<Longrightarrow> set (db_ids d) \<subseteq> set (db_ids d')" for e d c d'
    using insert_one_events [of cd e d c d'] by (auto simp: db_ids_def)
  have loop: "insert_loop io cd n es d = Inr (m, d') \<Longrightarrow> set (db_ids d) \<subseteq> set (db_ids d')" for n d m d'
  proof (induction es arbitrary: n d)
    case (Cons e es)
    obtain c d1 where o: "insert_one cd e d = (c, d1)" by fastforce
    with Cons.prems Cons.IH [of "n + c" d1] one [OF o] show ?case by (auto split: option.splits)
  qed simp
  then show ?thesis by (auto simp: insertDecoded_def transaction_def split: sum.splits)
qed

lemma insertDecoded_new_ids: "set (db_ids (snd (insertDecoded io cd es db))) - set (db_ids db) \<subseteq> le_id ` set es"
proof -
  have one: "insert_one cd e d = (c, d') \<Longrightarrow> set (db_ids d') \<subseteq> insert (le_id e) (set (db_ids d))" for e d c d'
    using insert_one_events [of cd e d c d'] by (auto simp: db_ids_def)
  have loop: "insert_loop io cd n es d = Inr (m, d') \<Longrightarrow> set (db_ids d') \<subseteq> le_id ` set es \<union> set (db_ids d)" for n d m d'
  proof (induction es arbitrary: n d)
    case (Cons e es)
    obtain c d1 where o: "insert_one cd e d = (c, d1)" by fastforce
    with Cons.prems Cons.IH [of "n + c" d1] one [OF o] show ?case by (auto split: option.splits)
  qed simp
  show ?thesis
  proof (cases "insert_loop io cd 0 es db")
    case (Inr r)
    obtain m d' where r: "r = (m, d')" by (cases r)
    from loop [of 0 db m d'] Inr r show ?thesis by (auto simp: insertDecoded_def transaction_def)
  qed (simp add: insertDecoded_def transaction_def)
qed

section \<open>Walking the pages\<close>

definition CSV_PAGE_SIZE :: nat where
  "CSV_PAGE_SIZE = min 500 MAX_QUERY_LIMIT"

text \<open>
  \<open>remaining\<close> is None for infinity; \<open>query\<close> answers one page. None is a walk that needs more
  pages than \<open>fuel\<close>.
\<close>

definition page_size :: "nat option \<Rightarrow> nat" where
  "page_size remaining = (case remaining of None \<Rightarrow> CSV_PAGE_SIZE | Some r \<Rightarrow> min r CSV_PAGE_SIZE)"

definition yield_page :: "'e list \<Rightarrow> ('x, 'e list list) result option \<Rightarrow> ('x, 'e list list) result option" where
  "yield_page es rest = map_option (\<lambda>r. res_bind r (\<lambda>pages. Inr (if es = [] then pages else es # pages))) rest"

fun each_page ::
    "(string option \<Rightarrow> nat \<Rightarrow> ('x, 'e list \<times> string option) result) \<Rightarrow> nat \<Rightarrow> nat option \<Rightarrow> string option \<Rightarrow>
      ('x, 'e list list) result option" where
  "each_page query 0 remaining cursor = None"
| "each_page query (Suc fuel) remaining cursor =
     (if remaining = Some 0 then Some (Inr [])
      else (case query cursor (page_size remaining) of
          Inl e \<Rightarrow> Some (Inl e)
        | Inr (es, nxt) \<Rightarrow> yield_page es
            (if \<not> truthy nxt then Some (Inr [])
             else each_page query fuel (map_option (\<lambda>r. r - length es) remaining) nxt)))"

definition take_some :: "nat option \<Rightarrow> 'a list \<Rightarrow> 'a list" where
  "take_some n xs = (case n of None \<Rightarrow> xs | Some k \<Rightarrow> take k xs)"

lemma take_some_Nil: "take_some r [] = []"
  by (simp add: take_some_def split: option.splits)

lemma page_size_bounds: "remaining \<noteq> Some 0 \<Longrightarrow> 0 < page_size remaining" "page_size remaining \<le> 1000"
  by (auto simp: page_size_def CSV_PAGE_SIZE_def MAX_QUERY_LIMIT_def split: option.splits)

lemma concat_yield: "yield_page es (Some (Inr pages)) = Some (Inr pages') \<Longrightarrow> concat pages' = es @ concat pages"
  by (auto simp: yield_page_def split: if_splits)

lemma take_some_step:
  "n = page_size remaining \<Longrightarrow> take n xs @ take_some (map_option (\<lambda>r. r - length (take n xs)) remaining) (drop n xs) = take_some remaining xs"
proof -
  assume n: "n = page_size remaining"
  show ?thesis
  proof (cases remaining)
    case (Some r)
    have "n \<le> r" using n Some by (simp add: page_size_def)
    show ?thesis
    proof (cases "length xs \<le> n")
      case False
      then have "take n xs @ take (r - n) (drop n xs) = take (n + (r - n)) xs" by (metis take_add)
      with False \<open>n \<le> r\<close> Some show ?thesis by (simp add: take_some_def min_def)
    next
      case True
      with \<open>n \<le> r\<close> Some show ?thesis by (simp add: take_some_def)
    qed
  qed (simp add: take_some_def)
qed

text \<open>A cursor that has passed the first \<open>k\<close> entries.\<close>

definition at_position :: "('e \<Rightarrow> string) \<Rightarrow> 'e list \<Rightarrow> string option \<Rightarrow> nat \<Rightarrow> bool" where
  "at_position key entries cursor k = (if k = 0 then cursor = None
     else k \<le> length entries \<and> cursor = Some (key (entries ! (k - 1))))"

context keyset
begin

lemma page_at:
  assumes "at_position key everything cursor k" "0 < n"
  shows "page cursor n = (take n (drop k everything),
      if length everything > k + n then Some (key (everything ! (k + n - 1))) else None)"
proof (cases k)
  case 0
  then show ?thesis using assms first_page [of n] by (simp add: at_position_def)
next
  case (Suc j)
  then show ?thesis using assms later_page [of n j] by (simp add: at_position_def)
qed

lemma each_page_at:
  assumes "\<And>c n. 0 < n \<Longrightarrow> n \<le> 1000 \<Longrightarrow> query c n = Inr (page c n)" and "\<forall>e \<in> set everything. key e \<noteq> []"
  shows "at_position key everything cursor k \<Longrightarrow> length everything - k < fuel \<Longrightarrow>
    \<exists>pages. each_page query fuel remaining cursor = Some (Inr pages) \<and> concat pages = take_some remaining (drop k everything)"
proof (induction fuel arbitrary: k cursor remaining)
  case (Suc fuel)
  show ?case
  proof (cases "remaining = Some 0")
    case True
    then show ?thesis by (simp add: take_some_def)
  next
    case False
    define n where "n = page_size remaining"
    have n: "0 < n" "n \<le> 1000" using page_size_bounds [of remaining] False by (auto simp: n_def)
    have q: "query cursor n = Inr (take n (drop k everything),
        if length everything > k + n then Some (key (everything ! (k + n - 1))) else None)"
      using assms(1) [OF n, of cursor] page_at [OF Suc.prems(1) n(1)] by simp
    show ?thesis
    proof (cases "length everything > k + n")
      case True
      let ?c = "Some (key (everything ! (k + n - 1)))"
      have t: "truthy ?c" using True assms(2) by (auto simp: truthy_def)
      have p: "at_position key everything ?c (k + n)" using True n by (simp add: at_position_def)
      have f: "length everything - (k + n) < fuel" using Suc.prems(2) True n by linarith
      obtain pages where pages: "each_page query fuel (map_option (\<lambda>r. r - length (take n (drop k everything))) remaining) ?c = Some (Inr pages)"
          "concat pages = take_some (map_option (\<lambda>r. r - length (take n (drop k everything))) remaining) (drop (k + n) everything)"
        using Suc.IH [OF p f] by blast
      have "each_page query (Suc fuel) remaining cursor = yield_page (take n (drop k everything)) (Some (Inr pages))"
        using False q True t pages(1) by (simp flip: n_def)
      moreover have "take n (drop k everything) @ concat pages = take_some remaining (drop k everything)"
        using take_some_step [OF n_def, of "drop k everything"] by (simp add: pages(2) add.commute)
      ultimately show ?thesis by (auto simp: yield_page_def)
    next
      case stop: False
      then have "take n (drop k everything) = drop k everything" by simp
      moreover have "take_some remaining (drop k everything) = drop k everything"
        using take_some_step [OF n_def, of "drop k everything"] stop by (simp add: take_some_Nil)
      moreover have "each_page query (Suc fuel) remaining cursor = yield_page (take n (drop k everything)) (Some (Inr []))"
        using False q stop by (simp add: truthy_def flip: n_def)
      ultimately show ?thesis by (auto simp: yield_page_def)
    qed
  qed
qed simp

end

end
