(* ===== verification/Export.thy ===== *)
theory Export
  imports Event_Source
begin

text \<open>
  The streamed CSV export of \<open>packages/api/src/server.ts\<close>: two walks over the pages of a query,
  one that sizes the header and one that writes the rows. The store may have changed between
  the walks, so each has its own. A failed walk is the error alone: what was already written to
  the socket before it is not kept.
\<close>

definition topicColumnsOf :: "lens_event list \<Rightarrow> nat" where
  "topicColumnsOf events = foldl (\<lambda>m e. max m (length (le_topics e))) MIN_TOPIC_COLUMNS events"

definition export_columns :: "lens_event list list \<Rightarrow> nat" where
  "export_columns pages = foldl (\<lambda>m es. max m (topicColumnsOf es)) MIN_TOPIC_COLUMNS pages"

definition csvRows :: "(rat \<Rightarrow> string) \<Rightarrow> lens_event list \<Rightarrow> nat \<Rightarrow> string list" where
  "csvRows fracs events topicColumns = eventCsvHeader topicColumns # map (\<lambda>e. eventCsvRow fracs e topicColumns) events"

definition export_limit :: "event_query \<Rightarrow> nat option" where
  "export_limit q = map_option (\<lambda>l. nat \<lfloor>l\<rfloor>) (q_limit q)"

definition eachEventPage ::
    "codec \<Rightarrow> int \<Rightarrow> event_store \<Rightarrow> event_query \<Rightarrow> nat \<Rightarrow> (query_error, lens_event list list) result option" where
  "eachEventPage cd now s q fuel = each_page (api_page cd now q s) fuel (export_limit q) (q_cursor q)"

definition csvExport ::
    "codec \<Rightarrow> int \<Rightarrow> event_store \<Rightarrow> event_store \<Rightarrow> event_query \<Rightarrow> nat \<Rightarrow> (query_error, string list) result option" where
  "csvExport cd now s1 s2 q fuel =
     (case eachEventPage cd now s1 q fuel of
        None \<Rightarrow> None
      | Some (Inl e) \<Rightarrow> Some (Inl e)
      | Some (Inr pages) \<Rightarrow>
          map_option (\<lambda>r. res_bind r (\<lambda>rows. Inr (csvRows (cd_fracs cd) (concat rows) (export_columns pages))))
            (eachEventPage cd now s2 q fuel))"

section \<open>Widths\<close>

lemma foldl_max: "foldl (\<lambda>m x. max m (f x)) a xs = Max (insert (a::nat) (f ` set xs))"
proof (induction xs arbitrary: a)
  case (Cons x xs)
  have "Max (insert (max a (f x)) (f ` set xs)) = Max (insert a (insert (f x) (f ` set xs)))"
    by (cases "f ` set xs = {}") (auto simp: max.assoc)
  with Cons show ?case by simp
qed simp

lemma topicColumnsOf_ge: "e \<in> set events \<Longrightarrow> length (le_topics e) \<le> topicColumnsOf events"
  by (simp add: topicColumnsOf_def foldl_max)

lemma export_columns_ge: "e \<in> set (concat pages) \<Longrightarrow> length (le_topics e) \<le> export_columns pages"
proof -
  assume "e \<in> set (concat pages)"
  then obtain es where es: "es \<in> set pages" "e \<in> set es" by auto
  have "topicColumnsOf es \<le> export_columns pages" using es(1) by (simp add: export_columns_def foldl_max)
  with topicColumnsOf_ge [OF es(2)] show ?thesis by simp
qed

lemma csvRows_read:
  "read_csv (concat (csvRows fracs events n)) = Some (header_cells n # map (\<lambda>e. event_cells fracs e n) events)"
proof -
  have "csvRows fracs events n = map csv_line (header_cells n # map (\<lambda>e. event_cells fracs e n) events)"
    by (simp add: csvRows_def eventCsvHeader_line eventCsvRow_line)
  moreover have "read_csv (concat (map csv_line (header_cells n # map (\<lambda>e. event_cells fracs e n) events))) =
      Some (header_cells n # map (\<lambda>e. event_cells fracs e n) events)"
    by (rule read_lines) (auto simp: header_cells_def event_cells_def)
  ultimately show ?thesis by simp
qed

section \<open>The walk of a forward export\<close>

lemma matching_ids_present:
  "db_served cd db \<Longrightarrow> \<forall>e \<in> set (matching_events cd db conds order). le_id e \<noteq> []"
proof
  fix e assume s: "db_served cd db" and "e \<in> set (matching_events cd db conds order)"
  then obtain r where r: "r \<in> set (db_events db)" "e = event_of cd r"
    using ordered_subset [of cd db conds order] by (auto simp: matching_events_def)
  then have "er_id r \<in> set (db_ids db)" by (auto simp: db_ids_def)
  moreover have "[] \<notin> set (db_ids db)" using s by (simp add: db_served_def)
  ultimately show "le_id e \<noteq> []" using served_row(2) [OF s r(1)] r(2) by auto
qed

lemma each_page_no_cursor:
  "(\<And>n. query None n = query' None n) \<Longrightarrow> (\<And>c n. truthy (Some c) \<Longrightarrow> query (Some c) n = query' (Some c) n) \<Longrightarrow>
     cursor = None \<or> truthy cursor \<Longrightarrow> each_page query fuel remaining cursor = each_page query' fuel remaining cursor"
proof (induction fuel arbitrary: remaining cursor)
  case (Suc fuel)
  have "query cursor n = query' cursor n" for n
    using Suc.prems by (cases cursor) auto
  then show ?case
    using Suc.IH [OF Suc.prems(1,2)] by (auto split: sum.splits)
qed simp

lemma eachEventPage_forward:
  assumes "db_served cd (es_db s)" "truthy (q_search q) \<longrightarrow> es_searchAvailable s" "q_direction q \<noteq> Some Backward"
    "\<not> truthy (q_cursor q)" "length (db_events (es_db s)) < fuel"
  shows "\<exists>pages. eachEventPage cd now s q fuel = Some (Inr pages)
    \<and> concat pages = take_some (export_limit q) (matching_events cd (es_db s) (buildWhere q) (store_order q))"
proof -
  obtain d where d: "served_codec d = cd" "served_tables d = es_db s" using served_store_exists [OF assms(1)] by blast
  let ?page = "\<lambda>c n. served_page cd (es_db s) (buildWhere q) (store_order q) (if truthy c then c else q_cursor q) n"
  let ?ev = "matching_events cd (es_db s) (buildWhere q) (store_order q)"
  let ?query = "\<lambda>c n. Inr (served_page cd (es_db s) (buildWhere q) (store_order q) c n)"
  have empty: "served_page cd (es_db s) (buildWhere q) (store_order q) c n =
      served_page cd (es_db s) (buildWhere q) (store_order q) None n" if "\<not> truthy c" for c n
    using that by (simp add: served_page_def store_page_def query_rows_def truthy_def)
  have q1: "each_page (api_page cd now q s) fuel (export_limit q) (q_cursor q) =
      each_page (\<lambda>c n. if n = 0 \<or> n > 1000 then api_page cd now q s c n else ?query c n) fuel (export_limit q) None"
  proof -
    have "each_page (api_page cd now q s) fuel (export_limit q) (q_cursor q) =
        each_page (api_page cd now q s) fuel (export_limit q) None"
      using assms(4) by (cases fuel) (simp_all add: api_page_def set_page_def truthy_def)
    also have "\<dots> = each_page (\<lambda>c n. if n = 0 \<or> n > 1000 then api_page cd now q s c n else ?query c n) fuel (export_limit q) None"
      using empty [OF assms(4)] empty [of None] by (intro each_page_no_cursor)
        (auto simp: api_page_eq [OF assms(1-3)] not_less)
    finally show ?thesis .
  qed
  have "\<exists>pages. each_page (\<lambda>c n. if n = 0 \<or> n > 1000 then api_page cd now q s c n else ?query c n) fuel (export_limit q) None = Some (Inr pages)
      \<and> concat pages = take_some (export_limit q) (drop 0 ?ev)"
  proof (rule event_keyset.each_page_at [of _ d "buildWhere q" "store_order q", unfolded d])
    show "\<forall>e\<in>set ?ev. le_id e \<noteq> []" by (rule matching_ids_present [OF assms(1)])
    show "length ?ev - 0 < fuel" using assms(5) by (simp add: ordered_rows_def sql_select_def le_less_trans [OF length_filter_le])
  qed (auto simp: at_position_def)
  then show ?thesis by (simp add: eachEventPage_def q1)
qed

section \<open>A backward export\<close>

text \<open>
  The walk feeds \<open>nextCursor\<close> back into a query that still carries \<open>direction: 'backward'\<close>, so
  each page ends one row before the last row of the page before it.
\<close>

lemma backward_next:
  assumes "ids_present db" "p < length (ordered_rows cd db conds order)" "0 < p" "0 < n"
  shows "rp_next (query_rows cd db conds order True (Some (er_id (ordered_rows cd db conds order ! p))) n) =
     Some (er_id (ordered_rows cd db conds order ! (p - 1)))"
proof -
  let ?S = "ordered_rows cd db conds order"
  let ?p = "query_rows cd db conds order True (Some (er_id (?S ! p))) n"
  have r: "rp_rows ?p = drop (p - n) (take p ?S)" by (rule backward_rows [OF assms(1,2)])
  have l: "rp_rows ?p \<noteq> []" "last (rp_rows ?p) = ?S ! (p - 1)"
    using assms by (auto simp: r last_conv_nth)
  have "id_before order (er_id (?S ! (p - 1))) (er_id (?S ! p))"
    using ordered_rows_sorted [of db order cd conds] assms by (simp add: ids_present_def sorted_wrt_iff_nth_less)
  then have "existsBeyond cd db conds (id_before order (er_id (?S ! (p - 1))))"
    using assms(2) by (auto simp: existsBeyond_ordered [where order = order])
  moreover have "rp_next ?p = (if rp_rows ?p \<noteq> [] \<and> existsBeyond cd db conds (id_before order (er_id (last (rp_rows ?p))))
      then Some (er_id (last (rp_rows ?p))) else None)"
    by (simp add: query_rows_def Let_def)
  ultimately show ?thesis using l by simp
qed

lemma api_page_backward:
  assumes "db_served cd (es_db s)" "truthy (q_search q) \<longrightarrow> es_searchAvailable s" "q_direction q = Some Backward"
    "0 < n" "n \<le> 1000" "truthy cursor"
  shows "api_page cd now q s cursor n =
    (let p = query_rows cd (es_db s) (buildWhere q) (store_order q) True cursor n
     in Inr (map (event_of cd) (rp_rows p), rp_next p))"
proof -
  obtain m b where m: "fst (queryEvents cd now (set_page q cursor n) s) =
      Inr \<lparr>pg_events = map (event_of cd) (rp_rows (query_rows cd (es_db s) (buildWhere q) (store_order q) True cursor n)),
        pg_nextCursor = rp_next (query_rows cd (es_db s) (buildWhere q) (store_order q) True cursor n),
        pg_prevCursor = rp_prev (query_rows cd (es_db s) (buildWhere q) (store_order q) True cursor n), pg_total = m, pg_totalIsEstimate = b\<rparr>"
    using queryEvents_rows [OF assms(1), of "set_page q cursor n" now] assms(2-6) normaliseLimit_nat [OF assms(4,5)]
    by (auto simp: set_page_def store_order_def buildWhere_def)
  show ?thesis by (simp add: api_page_def m Let_def)
qed

lemma backward_walk:
  assumes "db_served cd (es_db s)" "truthy (q_search q) \<longrightarrow> es_searchAvailable s" "q_direction q = Some Backward"
  defines "S \<equiv> ordered_rows cd (es_db s) (buildWhere q) (store_order q)"
  shows "k < length S \<Longrightarrow> k \<le> 500 \<Longrightarrow> k < fuel \<Longrightarrow>
    each_page (api_page cd now q s) fuel None (Some (er_id (S ! k))) =
      Some (Inr (map (\<lambda>j. map (event_of cd) (take j S)) (rev [1 ..< Suc k])))"
proof (induction k arbitrary: fuel)
  case 0
  obtain f where f: "fuel = Suc f" using 0 by (cases fuel) auto
  have i: "ids_present (es_db s)" by (rule served_ids [OF assms(1)])
  have t: "truthy (Some (er_id (S ! 0)))" using ordered_rows_id [OF i, of 0] 0 by (simp add: truthy_def S_def)
  have r: "rp_rows (query_rows cd (es_db s) (buildWhere q) (store_order q) True (Some (er_id (S ! 0))) 500) = []"
    using backward_rows [OF i, of 0 cd "buildWhere q" "store_order q" 500] 0 by (simp add: S_def)
  then have "rp_next (query_rows cd (es_db s) (buildWhere q) (store_order q) True (Some (er_id (S ! 0))) 500) = None"
    by (simp add: query_rows_def Let_def split: if_splits)
  with r show ?case
    by (simp add: f page_size_def CSV_PAGE_SIZE_def MAX_QUERY_LIMIT_def api_page_backward [OF assms(1-3) _ _ t] Let_def
        truthy_def yield_page_def)
next
  case (Suc k)
  obtain f where f: "fuel = Suc f" using Suc.prems by (cases fuel) auto
  have i: "ids_present (es_db s)" by (rule served_ids [OF assms(1)])
  have t: "truthy (Some (er_id (S ! j)))" if "j < length S" for j
    using ordered_rows_id [OF i, of j] that by (simp add: truthy_def S_def)
  have r: "rp_rows (query_rows cd (es_db s) (buildWhere q) (store_order q) True (Some (er_id (S ! Suc k))) 500) = take (Suc k) S"
    using backward_rows [OF i, of "Suc k" cd "buildWhere q" "store_order q" 500] Suc.prems by (simp add: S_def)
  have n: "rp_next (query_rows cd (es_db s) (buildWhere q) (store_order q) True (Some (er_id (S ! Suc k))) 500) = Some (er_id (S ! k))"
    using backward_next [OF i, of "Suc k" cd "buildWhere q" "store_order q" 500] Suc.prems by (simp add: S_def)
  have "take (Suc k) S \<noteq> []" using Suc.prems by auto
  then show ?case
    using Suc.prems Suc.IH [of f] r n t [of k]
    by (simp add: f page_size_def CSV_PAGE_SIZE_def MAX_QUERY_LIMIT_def api_page_backward [OF assms(1-3) _ _ t] Let_def
        yield_page_def del: upt_Suc) (simp add: upt_Suc)
qed

end
