(* ===== verification/Rate_Limit.thy ===== *)
theory Rate_Limit
  imports Params
begin

text \<open>
  The per-client token buckets of \<open>packages/api/src/rate-limit.ts\<close> and the API-key check of
  \<open>auth.ts\<close>. Token counts and rates are exact rationals; times are milliseconds. The digest
  (\<open>sha256\<close> of \<open>node:crypto\<close>) is the parameter \<open>digest\<close>.
\<close>

section \<open>The limiter\<close>

record bucket =
  bk_tokens :: rat
  bk_updatedAt :: int

record limiter =
  rl_rate :: rat
  rl_capacity :: int
  rl_buckets :: "(string \<times> bucket) list"
  rl_calls :: nat

datatype rate_decision = Allowed | Refused int

definition SWEEP_EVERY :: nat where
  "SWEEP_EVERY = 1024"

definition positive_number :: "js_num \<Rightarrow> bool" where
  "positive_number n = (case n of JsNum r \<Rightarrow> r > 0 | _ \<Rightarrow> False)"

definition at_least_one :: "js_num \<Rightarrow> bool" where
  "at_least_one n = (case n of JsNum r \<Rightarrow> r \<ge> 1 | _ \<Rightarrow> False)"

definition num_of :: "js_num \<Rightarrow> rat" where
  "num_of n = (case n of JsNum r \<Rightarrow> r | _ \<Rightarrow> 0)"

definition new_limiter :: "js_num \<Rightarrow> js_num option \<Rightarrow> (string, limiter) result" where
  "new_limiter requestsPerSecond burst_option =
     (if \<not> positive_number requestsPerSecond then Inl ''rateLimit.requestsPerSecond must be a positive number''
      else
        (let burst = or_else burst_option (JsNum (max 1 (of_int \<lceil>num_of requestsPerSecond\<rceil>))) in
         if \<not> at_least_one burst then Inl ''rateLimit.burst must be at least 1''
         else Inr \<lparr>rl_rate = num_of requestsPerSecond, rl_capacity = \<lfloor>num_of burst\<rfloor>, rl_buckets = [], rl_calls = 0\<rparr>))"

definition refilled :: "rat \<Rightarrow> int \<Rightarrow> bucket \<Rightarrow> int \<Rightarrow> rat" where
  "refilled rate capacity b now =
     min (of_int capacity) (bk_tokens b + of_int (max 0 (now - bk_updatedAt b)) / 1000 * rate)"

definition sweep :: "int \<Rightarrow> limiter \<Rightarrow> limiter" where
  "sweep now l = l\<lparr>rl_buckets :=
     filter (\<lambda>(k, b). \<not> refilled (rl_rate l) (rl_capacity l) b now \<ge> of_int (rl_capacity l)) (rl_buckets l)\<rparr>"

definition take_token :: "string \<Rightarrow> int \<Rightarrow> limiter \<Rightarrow> rate_decision \<times> limiter" where
  "take_token key now l0 =
     (let l1 = l0\<lparr>rl_calls := rl_calls l0 + 1\<rparr>;
          l = (if rl_calls l1 mod SWEEP_EVERY = 0 then sweep now l1 else l1);
          b = or_else (map_of (rl_buckets l) key) \<lparr>bk_tokens = of_int (rl_capacity l), bk_updatedAt = now\<rparr>;
          tokens = refilled (rl_rate l) (rl_capacity l) b now
      in if tokens \<ge> 1
         then (Allowed, l\<lparr>rl_buckets := map_set key \<lparr>bk_tokens = tokens - 1, bk_updatedAt = now\<rparr> (rl_buckets l)\<rparr>)
         else (Refused (max 1 \<lceil>(1 - tokens) / rl_rate l\<rceil>),
               l\<lparr>rl_buckets := map_set key \<lparr>bk_tokens = tokens, bk_updatedAt = now\<rparr> (rl_buckets l)\<rparr>))"

fun take_all :: "(string \<times> int) list \<Rightarrow> limiter \<Rightarrow> rate_decision list \<times> limiter" where
  "take_all [] l = ([], l)"
| "take_all ((key, now) # rs) l =
     (let (d, l1) = take_token key now l; (ds, l2) = take_all rs l1 in (d # ds, l2))"

text \<open>The client a request counts against: \<open>forwarded\<close> is the first \<open>X-Forwarded-For\<close> header.\<close>

definition clientKey :: "string option \<Rightarrow> string option \<Rightarrow> bool \<Rightarrow> string" where
  "clientKey forwarded remoteAddress trustProxy =
     (let first = map_option (\<lambda>f. js_trim (hd (split_on (CHR '','') f))) forwarded
      in if trustProxy \<and> truthy first then the first else or_else remoteAddress ''unknown'')"

section \<open>Its specification: a level per client, never forgotten\<close>

text \<open>
  The specification keeps the level of every client for ever: what a bucket holds now, a full
  one for a client never seen. The limiter's periodic sweep cannot be told from it.
\<close>

definition level :: "limiter \<Rightarrow> int \<Rightarrow> string \<Rightarrow> rat" where
  "level l now key = (case map_of (rl_buckets l) key of None \<Rightarrow> of_int (rl_capacity l)
     | Some b \<Rightarrow> refilled (rl_rate l) (rl_capacity l) b now)"

definition spec_take :: "rat \<Rightarrow> (string \<Rightarrow> rat) \<Rightarrow> string \<Rightarrow> rate_decision \<times> (string \<Rightarrow> rat)" where
  "spec_take rate lv key = (if lv key \<ge> 1 then (Allowed, lv(key := lv key - 1))
     else (Refused (max 1 \<lceil>(1 - lv key) / rate\<rceil>), lv))"

definition spec_refill :: "rat \<Rightarrow> int \<Rightarrow> int \<Rightarrow> (string \<Rightarrow> rat) \<Rightarrow> string \<Rightarrow> rat" where
  "spec_refill rate capacity elapsed lv key = min (of_int capacity) (lv key + of_int elapsed / 1000 * rate)"

fun spec_all :: "rat \<Rightarrow> int \<Rightarrow> int \<Rightarrow> (string \<times> int) list \<Rightarrow> (string \<Rightarrow> rat) \<Rightarrow> rate_decision list" where
  "spec_all rate capacity t [] lv = []"
| "spec_all rate capacity t ((key, now) # rs) lv =
     (let (d, lv') = spec_take rate (spec_refill rate capacity (now - t) lv) key
      in d # spec_all rate capacity now rs lv')"

definition limiter_ok :: "int \<Rightarrow> limiter \<Rightarrow> bool" where
  "limiter_ok t l = (rl_rate l > 0 \<and> rl_capacity l \<ge> 1 \<and>
     list_all (\<lambda>(k, b). 0 \<le> bk_tokens b \<and> bk_tokens b \<le> of_int (rl_capacity l) \<and> bk_updatedAt b \<le> t) (rl_buckets l))"

lemma min_add_again: "0 \<le> (y::rat) \<Longrightarrow> min c (x + y) = min c (min c x + y)"
  by (auto simp: min_def)

lemma refilled_later:
  assumes "rate > 0" "bk_updatedAt b \<le> t" "t \<le> t'"
  shows "refilled rate capacity b t' = min (of_int capacity) (refilled rate capacity b t + of_int (t' - t) / 1000 * rate)"
proof -
  have e: "bk_tokens b + of_int (t' - bk_updatedAt b) / 1000 * rate =
      (bk_tokens b + of_int (t - bk_updatedAt b) / 1000 * rate) + of_int (t' - t) / 1000 * rate"
    by (simp add: field_simps)
  have "0 \<le> (of_int (t' - t) :: rat) / 1000 * rate" using assms(1,3) by simp
  note again = min_add_again [OF this]
  have r: "refilled rate capacity b u = min (of_int capacity) (bk_tokens b + of_int (u - bk_updatedAt b) / 1000 * rate)"
    if "bk_updatedAt b \<le> u" for u
    using that by (simp add: refilled_def)
  have "refilled rate capacity b t' = min (of_int capacity)
      ((bk_tokens b + of_int (t - bk_updatedAt b) / 1000 * rate) + of_int (t' - t) / 1000 * rate)"
    using r [of t'] assms(2,3) unfolding e by linarith
  also have "\<dots> = min (of_int capacity) (refilled rate capacity b t + of_int (t' - t) / 1000 * rate)"
    unfolding r [OF assms(2)] by (rule again)
  finally show ?thesis .
qed

lemma level_later:
  assumes "limiter_ok t l" "t \<le> t'"
  shows "level l t' = spec_refill (rl_rate l) (rl_capacity l) (t' - t) (level l t)"
proof
  fix key
  have r: "rl_rate l > 0" using assms(1) by (simp add: limiter_ok_def)
  show "level l t' key = spec_refill (rl_rate l) (rl_capacity l) (t' - t) (level l t) key"
  proof (cases "map_of (rl_buckets l) key")
    case None
    have "0 \<le> (of_int (t' - t) :: rat) / 1000 * rl_rate l" using r assms(2) by simp
    with None show ?thesis by (simp add: level_def spec_refill_def min_def)
  next
    case (Some b)
    then have "bk_updatedAt b \<le> t"
      using assms(1) by (auto simp: limiter_ok_def list_all_iff dest!: map_of_SomeD)
    with Some show ?thesis using refilled_later [OF r _ assms(2)] by (simp add: level_def spec_refill_def)
  qed
qed

lemma map_of_filter_some: "distinct (map fst m) \<Longrightarrow> map_of (filter P m) k = (case map_of m k of None \<Rightarrow> None
    | Some v \<Rightarrow> if P (k, v) then Some v else None)"
proof (induction m)
  case (Cons kv m)
  have "fst kv \<notin> fst ` set m \<Longrightarrow> map_of m (fst kv) = None" by (simp add: map_of_eq_None_iff)
  with Cons show ?case by (cases kv) (auto split: option.splits)
qed simp

definition buckets_distinct :: "limiter \<Rightarrow> bool" where
  "buckets_distinct l = distinct (map fst (rl_buckets l))"

lemma level_calls [simp]: "level (l\<lparr>rl_calls := n\<rparr>) = level l"
  by (auto simp: level_def fun_eq_iff split: option.splits)

lemma level_sweep:
  assumes "buckets_distinct l"
  shows "level (sweep now l) now = level l now"
proof
  fix key
  show "level (sweep now l) now key = level l now key"
    using assms by (auto simp: level_def sweep_def buckets_distinct_def map_of_filter_some refilled_def split: option.splits)
qed

lemma sweep_ok: "limiter_ok t l \<Longrightarrow> limiter_ok t (sweep now l)"
  by (auto simp: limiter_ok_def sweep_def list_all_iff)

lemma sweep_distinct: "buckets_distinct l \<Longrightarrow> buckets_distinct (sweep now l)"
  by (simp add: buckets_distinct_def sweep_def distinct_map_filter)

lemma level_bounds:
  assumes "limiter_ok t l"
  shows "0 \<le> level l t' key" "level l t' key \<le> of_int (rl_capacity l)"
proof -
  have r: "rl_rate l > 0" "rl_capacity l \<ge> 1" using assms by (simp_all add: limiter_ok_def)
  have b: "0 \<le> bk_tokens b" if "map_of (rl_buckets l) key = Some b" for b
    using assms that by (auto simp: limiter_ok_def list_all_iff dest!: map_of_SomeD)
  have "0 \<le> of_int (max 0 (t' - bk_updatedAt b)) / 1000 * rl_rate l" for b using r by simp
  with r b show "0 \<le> level l t' key"
    by (auto simp: level_def refilled_def split: option.splits intro!: add_nonneg_nonneg)
  show "level l t' key \<le> of_int (rl_capacity l)" by (auto simp: level_def refilled_def split: option.splits)
qed

lemma map_set_set: "set (map_set k v m) \<subseteq> insert (k, v) (set m)"
  by (induction m) (auto split: if_splits)

text \<open>One request refines one step of the specification and keeps the invariant.\<close>

lemma take_refines:
  assumes "limiter_ok t l" "buckets_distinct l" "t \<le> now" and take: "take_token key now l = (d, l')"
  shows "(d, level l' now) = spec_take (rl_rate l) (level l now) key"
    and "limiter_ok now l'" and "buckets_distinct l'" and "rl_rate l' = rl_rate l" and "rl_capacity l' = rl_capacity l"
proof -
  define m where "m = (if (rl_calls l + 1) mod SWEEP_EVERY = 0 then sweep now (l\<lparr>rl_calls := rl_calls l + 1\<rparr>)
      else l\<lparr>rl_calls := rl_calls l + 1\<rparr>)"
  have s: "buckets_distinct (l\<lparr>rl_calls := rl_calls l + 1\<rparr>)" "limiter_ok now (l\<lparr>rl_calls := rl_calls l + 1\<rparr>)"
    using assms(1-3) by (auto simp: buckets_distinct_def limiter_ok_def list_all_iff)
  have m: "level m now = level l now" "buckets_distinct m" "limiter_ok now m" "rl_rate m = rl_rate l" "rl_capacity m = rl_capacity l"
    using level_sweep [OF s(1)] sweep_distinct [OF s(1)] sweep_ok [OF s(2)] s by (simp_all add: m_def sweep_def)
  define tk where "tk = refilled (rl_rate m) (rl_capacity m)
      (or_else (map_of (rl_buckets m) key) \<lparr>bk_tokens = of_int (rl_capacity m), bk_updatedAt = now\<rparr>) now"
  have tk: "tk = level l now key"
    unfolding m(1) [symmetric] by (auto simp: tk_def level_def refilled_def split: option.splits)
  have d: "d = (if tk \<ge> 1 then Allowed else Refused (max 1 \<lceil>(1 - tk) / rl_rate m\<rceil>))"
      "l' = m\<lparr>rl_buckets := map_set key \<lparr>bk_tokens = (if tk \<ge> 1 then tk - 1 else tk), bk_updatedAt = now\<rparr> (rl_buckets m)\<rparr>"
    using take by (auto simp: take_token_def Let_def m_def tk_def split: if_splits)
  have b: "0 \<le> tk" "tk \<le> of_int (rl_capacity l)"
    using level_bounds [OF assms(1), of now key] by (simp_all add: tk)
  have lv: "level l' now k = (if k = key then if tk \<ge> 1 then tk - 1 else tk else level m now k)" for k
    using b by (auto simp: d(2) level_def refilled_def m(4,5) split: option.splits)
  show "(d, level l' now) = spec_take (rl_rate l) (level l now) key"
    using lv by (auto simp: spec_take_def d(1) tk m fun_eq_iff)
  show "limiter_ok now l'"
    using m(3) b map_set_set [of key "\<lparr>bk_tokens = (if tk \<ge> 1 then tk - 1 else tk), bk_updatedAt = now\<rparr>" "rl_buckets m"]
    by (force simp: limiter_ok_def d(2) list_all_iff m(5))
  show "buckets_distinct l'" using m(2) by (simp add: buckets_distinct_def d(2) distinct_map_set)
  show "rl_rate l' = rl_rate l" "rl_capacity l' = rl_capacity l" by (simp_all add: d(2) m)
qed

lemma take_all_refines:
  "limiter_ok t l \<Longrightarrow> buckets_distinct l \<Longrightarrow> sorted (t # map snd rs) \<Longrightarrow>
     fst (take_all rs l) = spec_all (rl_rate l) (rl_capacity l) t rs (level l t)"
proof (induction rs arbitrary: t l)
  case (Cons r rs)
  obtain key now where r: "r = (key, now)" by (cases r)
  obtain d l' where d: "take_token key now l = (d, l')" by (cases "take_token key now l")
  have n: "t \<le> now" using Cons.prems(3) r by simp
  note T = take_refines [OF Cons.prems(1,2) n d]
  have "fst (take_all rs l') = spec_all (rl_rate l) (rl_capacity l) now rs (level l' now)"
    using Cons.IH [OF T(2,3)] Cons.prems(3) r T(4,5) by simp
  moreover have "spec_take (rl_rate l) (spec_refill (rl_rate l) (rl_capacity l) (now - t) (level l t)) key = (d, level l' now)"
    using T(1) level_later [OF Cons.prems(1) n] by simp
  ultimately show ?case by (simp add: r d split: prod.splits) (auto split: prod.splits)
qed simp

section \<open>The bound on a window\<close>

fun granted :: "string \<Rightarrow> (string \<times> int) list \<Rightarrow> rate_decision list \<Rightarrow> nat" where
  "granted key ((k, t) # rs) (d # ds) = (if k = key \<and> d = Allowed then 1 else 0) + granted key rs ds"
| "granted key _ _ = 0"

lemma take_level:
  assumes "limiter_ok t l" "buckets_distinct l" "t \<le> now" "take_token k now l = (d, l')"
  shows "level l' now key + (if k = key \<and> d = Allowed then 1 else 0) = level l now key"
  using take_refines(1) [OF assms] by (auto simp: spec_take_def split: if_splits)

lemma window_bound:
  "limiter_ok t l \<Longrightarrow> buckets_distinct l \<Longrightarrow> sorted (t # map snd rs) \<Longrightarrow>
     of_nat (granted key rs (fst (take_all rs l))) \<le> level l t key + of_int (last (t # map snd rs) - t) / 1000 * rl_rate l"
proof (induction rs arbitrary: t l)
  case Nil
  then show ?case using level_bounds(1) [OF Nil(1)] by simp
next
  case (Cons r rs)
  obtain k now where r: "r = (k, now)" by (cases r)
  obtain d l' where d: "take_token k now l = (d, l')" by (cases "take_token k now l")
  have n: "t \<le> now" using Cons.prems(3) r by simp
  note T = take_refines [OF Cons.prems(1,2) n d]
  have IH: "of_nat (granted key rs (fst (take_all rs l'))) \<le> level l' now key + of_int (last (now # map snd rs) - now) / 1000 * rl_rate l"
    using Cons.IH [OF T(2,3)] Cons.prems(3) r T(4) by simp
  have lv: "level l now key \<le> level l t key + of_int (now - t) / 1000 * rl_rate l"
    using level_later [OF Cons.prems(1) n] by (simp add: spec_refill_def)
  have e: "(of_int (last (now # map snd rs) - t) :: rat) / 1000 * rl_rate l =
      of_int (last (now # map snd rs) - now) / 1000 * rl_rate l + of_int (now - t) / 1000 * rl_rate l"
    by (simp add: field_simps)
  have g: "of_nat (granted key (r # rs) (fst (take_all (r # rs) l))) =
      (if k = key \<and> d = Allowed then 1 else 0) + (of_nat (granted key rs (fst (take_all rs l'))) :: rat)"
    by (simp add: r d split: prod.splits)
  have la: "last (t # map snd (r # rs)) = last (now # map snd rs)" by (simp add: r)
  show ?case
    using IH lv take_level [OF Cons.prems(1,2) n d, of key] unfolding g la e by linarith
qed

text \<open>A refused client that waits the advertised seconds is allowed.\<close>

lemma retry_suffices:
  assumes "limiter_ok t l" "buckets_distinct l" "t \<le> now" "take_token key now l = (Refused secs, l')"
    and "now + 1000 * secs \<le> later"
  shows "fst (take_token key later l') = Allowed"
proof -
  note T = take_refines [OF assms(1-4)]
  have lv: "level l' now key = level l now key" "\<not> level l now key \<ge> 1" "secs = max 1 \<lceil>(1 - level l now key) / rl_rate l\<rceil>"
    using T(1) by (auto simp: spec_take_def split: if_splits)
  have r: "rl_rate l > 0" "rl_capacity l \<ge> 1" using assms(1) by (simp_all add: limiter_ok_def)
  have "(1 - level l now key) / rl_rate l \<le> of_int secs" using lv(3) by (simp add: ceiling_le_iff [symmetric])
  then have s: "1 - level l now key \<le> of_int secs * rl_rate l" using r by (simp add: pos_divide_le_eq)
  have "now \<le> later" using assms(5) lv(3) by linarith
  obtain d l2 where d: "take_token key later l' = (d, l2)" by (cases "take_token key later l'")
  have "(of_int secs :: rat) \<le> of_int (later - now) / 1000" using assms(5)
    by (metis add_le_imp_le_left add.commute diff_add_cancel of_int_le_iff of_int_mult of_int_numeral pos_le_divide_eq zero_less_numeral mult.commute)
  then have "of_int secs * rl_rate l \<le> of_int (later - now) / 1000 * rl_rate l"
    using r by (intro mult_right_mono) simp_all
  then have "1 \<le> level l now key + of_int (later - now) / 1000 * rl_rate l" using s by linarith
  then have "1 \<le> level l' later key"
    using r level_later [OF T(2) \<open>now \<le> later\<close>] T(4,5) lv(1) by (simp only: spec_refill_def min.bounded_iff) simp
  then show ?thesis
    using take_refines(1) [OF T(2,3) \<open>now \<le> later\<close> d] d by (simp add: spec_take_def)
qed

lemma new_limiter_ok: "new_limiter rps burst = Inr l \<Longrightarrow> limiter_ok t l \<and> buckets_distinct l \<and> level l t key = of_int (rl_capacity l)"
  by (auto simp: new_limiter_def Let_def limiter_ok_def buckets_distinct_def level_def positive_number_def at_least_one_def
      num_of_def le_floor_iff split: if_splits js_num.splits)

section \<open>API keys\<close>

definition api_keys :: "(string \<Rightarrow> 'd) \<Rightarrow> string list \<Rightarrow> 'd list" where
  "api_keys digest keys = map digest (filter (\<lambda>k. k \<noteq> []) (map js_trim keys))"

definition auth_enabled :: "'d list \<Rightarrow> bool" where
  "auth_enabled digests = (length digests > 0)"

text \<open>The token of \<open>/^Bearer\s+(.+)$/i\<close> on a trimmed header value, which has no line break.\<close>

definition bearer_token :: "string \<Rightarrow> string option" where
  "bearer_token header =
     (if js_lower (take 6 header) = ''bearer'' \<and> drop 6 header \<noteq> [] \<and> is_ws (hd (drop 6 header)) \<and>
         dropWhile is_ws (drop 6 header) \<noteq> []
      then Some (js_trim (dropWhile is_ws (drop 6 header))) else None)"

definition presentedKey :: "string option \<Rightarrow> string option \<Rightarrow> string option" where
  "presentedKey x_api_key authorization =
     (let direct = map_option js_trim x_api_key
      in if truthy direct then direct
         else if truthy authorization then bearer_token (js_trim (the authorization)) else None)"

fun compare_all :: "'d list \<Rightarrow> 'd \<Rightarrow> bool \<Rightarrow> bool" where
  "compare_all [] candidate ok = ok"
| "compare_all (known # ds) candidate ok = compare_all ds candidate (known = candidate \<or> ok)"

definition isAuthorized :: "(string \<Rightarrow> 'd) \<Rightarrow> 'd list \<Rightarrow> string option \<Rightarrow> string option \<Rightarrow> bool" where
  "isAuthorized digest digests x_api_key authorization =
     (if \<not> auth_enabled digests then True
      else (let presented = presentedKey x_api_key authorization
            in if \<not> truthy presented then False else compare_all digests (digest (the presented)) False))"

lemma compare_all_iff: "compare_all ds c ok \<longleftrightarrow> ok \<or> c \<in> set ds"
  by (induction ds c ok rule: compare_all.induct) auto

text \<open>With keys configured, a request passes exactly when the key it presents is one of them.\<close>

lemma isAuthorized_iff:
  assumes "inj digest" "filter (\<lambda>k. k \<noteq> []) (map js_trim keys) \<noteq> []"
  shows "isAuthorized digest (api_keys digest keys) x a \<longleftrightarrow>
    (\<exists>k. presentedKey x a = Some k \<and> k \<noteq> [] \<and> k \<in> js_trim ` set keys)"
proof -
  let ?known = "filter (\<lambda>k. k \<noteq> []) (map js_trim keys)"
  have m: "digest k \<in> digest ` set ?known \<longleftrightarrow> k \<in> set ?known" for k
    using assms(1) by (rule inj_image_mem_iff)
  have e: "auth_enabled (api_keys digest keys)"
    unfolding auth_enabled_def api_keys_def using assms(2) by (simp only: length_map length_greater_0_conv simp_thms)
  have k: "set (api_keys digest keys) = digest ` set ?known" by (simp add: api_keys_def)
  show ?thesis
    using m by (cases "presentedKey x a") (auto simp: isAuthorized_def e k Let_def compare_all_iff truthy_def)
qed

end
