(* ===== verification/Server_Http.thy ===== *)
theory Server_Http
  imports Export Rate_Limit
begin

text \<open>
  The HTTP vocabulary of \<open>packages/api/src/server.ts\<close>: paths and routes, percent decoding,
  content codings, entity tags, the \<open>Last-Event-ID\<close> of a reconnecting stream, request bodies
  and the heads of responses. A header that may be repeated is the list of its values.
\<close>

section \<open>Paths\<close>

definition SLASH :: char where
  "SLASH = CHR ''/''"

definition strip_slashes :: "string \<Rightarrow> string" where
  "strip_slashes p = rev (dropWhile (\<lambda>c. c = SLASH) (rev p))"

definition request_path :: "string \<Rightarrow> string" where
  "request_path pathname = (let p = strip_slashes pathname in if p = [] then ''/'' else p)"

text \<open>A route pattern: fixed segments, and captures of one segment that is not empty.\<close>

datatype segment = Fixed string | Capture

fun match_segments :: "segment list \<Rightarrow> string list \<Rightarrow> string list option" where
  "match_segments [] [] = Some []"
| "match_segments (Fixed t # ps) (s # ss) = (if s = t then match_segments ps ss else None)"
| "match_segments (Capture # ps) (s # ss) = (if s = [] then None else map_option ((#) s) (match_segments ps ss))"
| "match_segments _ _ = None"

definition route_match :: "segment list \<Rightarrow> string \<Rightarrow> string list option" where
  "route_match pattern path = (case path of [] \<Rightarrow> None
     | c # r \<Rightarrow> if c = SLASH then match_segments pattern (split_on SLASH r) else None)"

section \<open>Percent decoding\<close>

text \<open>An em dash, as its bytes: the texts of the model have no character above U+00FF.\<close>

definition EM_DASH :: string where
  "EM_DASH = [CHR 0xE2, CHR 0x80, CHR 0x94]"

definition push_opt :: "char \<Rightarrow> string option \<Rightarrow> string option" where
  "push_opt c r = map_option ((#) c) r"

text \<open>The escaped bytes; None where an escape is malformed.\<close>

fun percent_bytes :: "string \<Rightarrow> string option" where
  "percent_bytes [] = Some []"
| "percent_bytes (c # cs) =
     (if c \<noteq> CHR 0x25 then push_opt c (percent_bytes cs)
      else (case cs of a # b # r \<Rightarrow>
              if is_hex a \<and> is_hex b then push_opt (char_of (16 * digit_val a + digit_val b)) (percent_bytes r) else None
            | _ \<Rightarrow> None))"

definition byte_in :: "nat \<Rightarrow> nat \<Rightarrow> char \<Rightarrow> bool" where
  "byte_in lo hi c = (lo \<le> of_char c \<and> of_char c \<le> hi)"

definition continuation :: "char \<Rightarrow> bool" where
  "continuation = byte_in 0x80 0xBF"

text \<open>
  The bytes as UTF-8; None where they are not. A character above U+00FF, which the texts of the
  model do not have, is kept as its bytes.
\<close>

fun utf8_text :: "string \<Rightarrow> string option" where
  "utf8_text [] = Some []"
| "utf8_text (a # r) =
     (if byte_in 0 0x7F a then push_opt a (utf8_text r)
      else if byte_in 0xC2 0xDF a then
        (case r of b # r1 \<Rightarrow>
            if continuation b
            then (if byte_in 0xC2 0xC3 a
                  then push_opt (char_of ((of_char a - 0xC0) * 64 + (of_char b - 0x80 :: nat))) (utf8_text r1)
                  else push_opt a (push_opt b (utf8_text r1)))
            else None
         | [] \<Rightarrow> None)
      else if byte_in 0xE0 0xEF a then
        (case r of b # c # r1 \<Rightarrow>
            if continuation b \<and> continuation c \<and> (a = CHR 0xE0 \<longrightarrow> byte_in 0xA0 0xBF b) \<and> (a = CHR 0xED \<longrightarrow> byte_in 0x80 0x9F b)
            then push_opt a (push_opt b (push_opt c (utf8_text r1))) else None
         | _ \<Rightarrow> None)
      else if byte_in 0xF0 0xF4 a then
        (case r of b # c # d # r1 \<Rightarrow>
            if continuation b \<and> continuation c \<and> continuation d \<and> (a = CHR 0xF0 \<longrightarrow> byte_in 0x90 0xBF b) \<and>
               (a = CHR 0xF4 \<longrightarrow> byte_in 0x80 0x8F b)
            then push_opt a (push_opt b (push_opt c (push_opt d (utf8_text r1)))) else None
         | _ \<Rightarrow> None)
      else None)"

definition decodeURIComponent :: "string \<Rightarrow> string option" where
  "decodeURIComponent s = Option.bind (percent_bytes s) utf8_text"

section \<open>Content codings\<close>

datatype content_coding = Gzip | Deflate

definition coding_name :: "content_coding \<Rightarrow> string" where
  "coding_name c = (case c of Gzip \<Rightarrow> ''gzip'' | Deflate \<Rightarrow> ''deflate'')"

text \<open>The regular expression: an item that is the name, up to white space and its parameters.\<close>

definition names_coding :: "string \<Rightarrow> string \<Rightarrow> bool" where
  "names_coding name header = list_ex (\<lambda>item.
     let t = dropWhile is_ws item; rest = dropWhile is_ws (drop (length name) t)
     in js_lower (take (length name) t) = name \<and> (rest = [] \<or> hd rest = CHR '';''))
     (split_on (CHR '','') header)"

definition pickEncoding :: "string list \<Rightarrow> content_coding option" where
  "pickEncoding accept =
     (let header = js_join '','' accept in
      if names_coding ''gzip'' header then Some Gzip
      else if names_coding ''deflate'' header then Some Deflate else None)"

section \<open>Entity tags\<close>

definition NL :: string where
  "NL = [CHR 0x0A]"

definition filter_text :: "url_params \<Rightarrow> string" where
  "filter_text ps = js_join ''&'' (map (\<lambda>(k, v). k @ ''='' @ v) (sort_key fst ps))"

definition entityTag :: "(string \<Rightarrow> string) \<Rightarrow> string option \<Rightarrow> string \<Rightarrow> url_params \<Rightarrow> string \<Rightarrow> string" where
  "entityTag sha1 newest path ps kind =
     ''W/'' @ quoted (sha1 (or_else newest [] @ NL @ path @ NL @ filter_text ps @ NL @ kind))"

definition opaque_tag :: "string \<Rightarrow> string" where
  "opaque_tag tag = (let t = js_trim tag in if starts_with ''W/'' t then drop 2 t else t)"

definition matchesEntityTag :: "string option \<Rightarrow> string \<Rightarrow> bool" where
  "matchesEntityTag header etag =
     (truthy header \<and>
      list_ex (\<lambda>candidate. js_trim candidate = ''*'' \<or> opaque_tag candidate = opaque_tag etag)
        (split_on (CHR '','') (the header)))"

section \<open>Resuming a stream, and request bodies\<close>

definition lastEventId :: "string option \<Rightarrow> url_params \<Rightarrow> string option" where
  "lastEventId header ps =
     (let v = js_trim (case header of Some h \<Rightarrow> h | None \<Rightarrow> or_else (params_get ps ''lastEventId'') [])
      in if v \<noteq> [] \<and> length v \<le> 200 then Some v else None)"

definition MAX_BODY_BYTES :: nat where
  "MAX_BODY_BYTES = 100 * 1024"

fun read_chunks :: "nat \<Rightarrow> string list \<Rightarrow> string \<Rightarrow> (api_error, string) result" where
  "read_chunks n [] acc = Inr acc"
| "read_chunks n (chunk # chunks) acc =
     (if n + length chunk > MAX_BODY_BYTES
      then Inl (api_error_of 413 ''payload_too_large'' (''The request body must be at most '' @ show_nat MAX_BODY_BYTES @ '' bytes.'') None None)
      else read_chunks (n + length chunk) chunks (acc @ chunk))"

text \<open>\<open>parse_json\<close> is \<open>JSON.parse\<close> on the UTF-8 text of the bytes.\<close>

definition readJsonBody :: "(string \<Rightarrow> json option) \<Rightarrow> string list \<Rightarrow> (api_error, json) result" where
  "readJsonBody parse_json chunks =
     res_bind (read_chunks 0 chunks []) (\<lambda>body.
       if js_trim body = [] then Inl (badRequest ''A JSON request body is required.'' None)
       else (case parse_json body of
           None \<Rightarrow> Inl (badRequest ''The request body is not valid JSON.'' None) | Some j \<Rightarrow> Inr j))"

section \<open>Heads of responses\<close>

type_synonym http_headers = "(string \<times> string) list"

definition COMPRESSION_THRESHOLD_BYTES :: nat where
  "COMPRESSION_THRESHOLD_BYTES = 1024"

definition coding_header :: "content_coding option \<Rightarrow> http_headers" where
  "coding_header c = (case c of None \<Rightarrow> [] | Some e \<Rightarrow> [(''Content-Encoding'', coding_name e)])"

text \<open>\<open>packed\<close> is the length of the payload under a coding, \<open>etag\<close> the validator of the route.\<close>

definition send_coding :: "nat \<Rightarrow> string list \<Rightarrow> content_coding option" where
  "send_coding rawBytes acceptEncoding =
     (if rawBytes \<ge> COMPRESSION_THRESHOLD_BYTES then pickEncoding acceptEncoding else None)"

definition send_headers ::
    "(content_coding \<Rightarrow> string \<Rightarrow> nat) \<Rightarrow> string \<Rightarrow> string option \<Rightarrow> string list \<Rightarrow> string option \<Rightarrow> http_headers" where
  "send_headers packed payload contentType acceptEncoding etag =
     (let rawBytes = byteLength payload; coding = send_coding rawBytes acceptEncoding
      in [(''Content-Type'', or_else contentType ''application/json; charset=utf-8''),
          (''Content-Length'', show_nat (case coding of None \<Rightarrow> rawBytes | Some e \<Rightarrow> packed e payload))]
         @ coding_header coding @ [(''Vary'', ''Accept, Accept-Encoding'')]
         @ (case etag of Some t \<Rightarrow> [(''ETag'', t), (''Cache-Control'', ''no-cache'')] | None \<Rightarrow> [(''Cache-Control'', ''no-store'')]))"

definition csv_headers :: "string \<Rightarrow> string list \<Rightarrow> http_headers" where
  "csv_headers filename acceptEncoding =
     [(''Content-Type'', ''text/csv; charset=utf-8''), (''Content-Disposition'', ''attachment; filename='' @ quoted filename)]
     @ coding_header (pickEncoding acceptEncoding)
     @ [(''Vary'', ''Accept, Accept-Encoding''), (''Cache-Control'', ''no-store'')]"

section \<open>Lemmas\<close>

text \<open>The order of different parameters does not matter, the order of repeated ones does.\<close>

lemma filter_text_cong:
  assumes "\<And>k. params_getAll p k = params_getAll q k"
  shows "filter_text p = filter_text q"
proof -
  have f: "filter (\<lambda>kv. fst kv = k) p = filter (\<lambda>kv. fst kv = k) q" for k
  proof -
    have e: "filter (\<lambda>kv. fst kv = k) m = map (Pair k) (params_getAll m k)" for m :: url_params
      by (induction m) (auto simp: params_getAll_def)
    show ?thesis by (simp only: e assms)
  qed
  have "mset p = mset q"
  proof (rule multiset_eqI)
    fix x :: "string \<times> string"
    have c: "count (mset m) x = count (mset (filter (\<lambda>kv. fst kv = fst x) m)) x" for m :: url_params
      by (induction m) auto
    show "count (mset p) x = count (mset q) x" unfolding c [of p] c [of q] f ..
  qed
  moreover have "filter (\<lambda>x. fst k = fst x) (sort_key fst p) = filter (\<lambda>x. fst k = fst x) q" for k :: "string \<times> string"
    using sort_key_stable [of fst "fst k" p] f [of "fst k"] by (simp only: eq_commute [of "fst k"])
  ultimately have "sort_key fst q = sort_key fst p" by (intro properties_for_sort_key) simp_all
  then show ?thesis by (simp add: filter_text_def)
qed

lemma matches_own_tag: "CHR '','' \<notin> set etag \<Longrightarrow> etag \<noteq> [] \<Longrightarrow> matchesEntityTag (Some etag) etag"
  by (simp add: matchesEntityTag_def split_on_none truthy_def)

end
