(* ===== verification/Typed_Spec.thy ===== *)
theory Typed_Spec
  imports Sqlite_Reads
begin

text \<open>
  Spec-aware decoding (\<open>packages/store/src/spec.ts\<close>): the decoder of a contract's events, and the
  per-process cache of decoders. What the Stellar SDK does is the record \<open>sdk\<close>: reading an
  entry from its base64 XDR, and \<open>Spec.parseEvent\<close>, which matches an event against the entries.
\<close>

section \<open>Specs\<close>

text \<open>A type of a spec: the arm of the union without its \<open>scSpecType\<close> prefix.\<close>

datatype spec_type =
    TOption spec_type
  | TResult spec_type spec_type
  | TVec spec_type
  | TMap spec_type spec_type
  | TTuple "spec_type list"
  | TBytesN nat
  | TUdt string
  | TArm string

fun typeName :: "spec_type \<Rightarrow> string" where
  "typeName (TOption t) = ''Option<'' @ typeName t @ ''>''"
| "typeName (TResult t e) = ''Result<'' @ typeName t @ '', '' @ typeName e @ ''>''"
| "typeName (TVec t) = ''Vec<'' @ typeName t @ ''>''"
| "typeName (TMap k v) = ''Map<'' @ typeName k @ '', '' @ typeName v @ ''>''"
| "typeName (TTuple ts) = ''('' @ js_join '', '' (map typeName ts) @ '')''"
| "typeName (TBytesN n) = ''BytesN<'' @ show_nat n @ ''>''"
| "typeName (TUdt name) = name"
| "typeName (TArm arm) =
     (if arm \<in> {''Address'', ''MuxedAddress'', ''String'', ''Symbol'', ''Bytes'', ''Timepoint'', ''Duration'', ''Error'', ''Val''}
      then arm else if arm = ''Void'' then ''()'' else js_lower arm)"

datatype data_format = SingleValue | VecValue | MapValue

record spec_param =
  pm_name :: string
  pm_type :: spec_type
  pm_topic :: bool

record spec_event =
  ev_name :: string
  ev_lib :: string
  ev_prefixTopics :: "string list"
  ev_params :: "spec_param list"
  ev_format :: data_format

datatype spec_entry = EventEntry spec_event | OtherEntry string

section \<open>The built-in spec of the Stellar Asset Contract\<close>

definition asset_event :: "string \<Rightarrow> (string \<times> spec_type \<times> bool) list \<Rightarrow> data_format \<Rightarrow> spec_entry" where
  "asset_event name params fmt = EventEntry \<lparr>ev_name = name, ev_lib = ''stellar-asset'', ev_prefixTopics = [name],
     ev_params = map (\<lambda>(p, t, topic). \<lparr>pm_name = p, pm_type = t, pm_topic = topic\<rparr>) params, ev_format = fmt\<rparr>"

definition asset_topic :: "string \<Rightarrow> string \<times> spec_type \<times> bool" where
  "asset_topic name = (name, TArm ''Address'', True)"

definition asset_code :: "string \<times> spec_type \<times> bool" where
  "asset_code = (''sep0011_asset'', TArm ''String'', True)"

definition asset_amount :: "string \<times> spec_type \<times> bool" where
  "asset_amount = (''amount'', TArm ''I128'', False)"

definition asset_muxed :: "string \<times> spec_type \<times> bool" where
  "asset_muxed = (''to_muxed_id'', TOption (TArm ''U64''), False)"

definition STELLAR_ASSET_SPEC_ENTRIES :: "spec_entry list" where
  "STELLAR_ASSET_SPEC_ENTRIES =
    [asset_event ''transfer'' [asset_topic ''from'', asset_topic ''to'', asset_code, asset_amount] SingleValue,
     asset_event ''transfer'' [asset_topic ''from'', asset_topic ''to'', asset_code, asset_amount, asset_muxed] MapValue,
     asset_event ''approve'' [asset_topic ''from'', asset_topic ''spender'', asset_code, asset_amount,
       (''expiration_ledger'', TArm ''U32'', False)] VecValue,
     asset_event ''mint'' [asset_topic ''admin'', asset_topic ''to'', asset_code, asset_amount] SingleValue,
     asset_event ''mint'' [asset_topic ''to'', asset_code, asset_amount] SingleValue,
     asset_event ''mint'' [asset_topic ''to'', asset_code, asset_amount, asset_muxed] MapValue,
     asset_event ''clawback'' [asset_topic ''admin'', asset_topic ''from'', asset_code, asset_amount] SingleValue,
     asset_event ''clawback'' [asset_topic ''from'', asset_code, asset_amount] SingleValue,
     asset_event ''burn'' [asset_topic ''from'', asset_code, asset_amount] SingleValue,
     asset_event ''set_admin'' [asset_topic ''admin'', asset_code, (''new_admin'', TArm ''Address'', False)] SingleValue,
     asset_event ''set_admin'' [asset_code, (''new_admin'', TArm ''Address'', False)] SingleValue,
     asset_event ''set_authorized'' [asset_topic ''admin'', asset_topic ''id'', asset_code, (''authorize'', TArm ''Bool'', False)] SingleValue,
     asset_event ''set_authorized'' [asset_topic ''id'', asset_code, (''authorize'', TArm ''Bool'', False)] SingleValue,
     asset_event ''fee'' [asset_topic ''from'', asset_amount] SingleValue]"

section \<open>The decoder of one contract\<close>

text \<open>A failed \<open>sk_parse_event\<close> is an exception; None is an event that matches no declaration.\<close>

record sdk =
  sk_entry :: "string \<Rightarrow> (string, spec_entry) result"
  sk_parse_event :: "spec_entry list \<Rightarrow> string list \<Rightarrow> string \<Rightarrow> (string, (string \<times> (string \<times> native) list) option) result"
  sk_key_text :: "native \<Rightarrow> string"

record typed_field =
  tf_name :: string
  tf_type :: string
  tf_location :: string
  tf_value :: json

record typed_event =
  te_name :: string
  te_source :: string
  te_fields :: "typed_field list"

record typed_decoder =
  dc_source :: string
  dc_entries :: "spec_entry list"
  dc_events :: "spec_event list"

definition spec_events :: "spec_entry list \<Rightarrow> spec_event list" where
  "spec_events entries = concat (map (\<lambda>e. case e of EventEntry ev \<Rightarrow> [ev] | OtherEntry _ \<Rightarrow> []) entries)"

definition new_decoder :: "string \<Rightarrow> spec_entry list \<Rightarrow> typed_decoder" where
  "new_decoder source entries = \<lparr>dc_source = source, dc_entries = entries, dc_events = spec_events entries\<rparr>"

fun read_entries :: "sdk \<Rightarrow> string list \<Rightarrow> (string, spec_entry list) result" where
  "read_entries sdk [] = Inr []"
| "read_entries sdk (x # xs) = res_bind (sk_entry sdk x) (\<lambda>e. res_bind (read_entries sdk xs) (\<lambda>es. Inr (e # es)))"

definition fromRecord :: "sdk \<Rightarrow> spec_row \<Rightarrow> (string, typed_decoder option) result" where
  "fromRecord sdk r =
     (if sr_source r = ''stellar-asset'' then Inr (Some (new_decoder ''stellar-asset'' STELLAR_ASSET_SPEC_ENTRIES))
      else if sr_source r \<noteq> ''wasm'' \<or> sr_entries_xdr r = [] then Inr None
      else res_bind (read_entries sdk (sr_entries_xdr r)) (\<lambda>es. Inr (Some (new_decoder ''wasm'' es))))"

definition decoder_eventCount :: "typed_decoder \<Rightarrow> nat" where
  "decoder_eventCount d = length (dc_events d)"

definition eventNames :: "typed_decoder \<Rightarrow> string list" where
  "eventNames d = js_set (map ev_name (dc_events d))"

text \<open>
  The value of a parameter: an own property, or a member of \<open>Object.prototype\<close>, which the
  operator \<open>in\<close> finds too.
\<close>

definition parsed_value :: "sdk \<Rightarrow> (string \<times> native) list \<Rightarrow> string \<Rightarrow> json option" where
  "parsed_value sdk data name = (case map_of data name of
       Some v \<Rightarrow> Some (toJsonSafe (sk_key_text sdk) v)
     | None \<Rightarrow> if in_record name data then Some (if name = ''__proto__'' then JObj [] else JNull) else None)"

definition declares :: "string \<Rightarrow> (string \<times> native) list \<Rightarrow> spec_event \<Rightarrow> bool" where
  "declares name data e = (ev_name e = name \<and> list_all (\<lambda>k. k \<in> pm_name ` set (ev_params e)) (map fst data))"

fun typed_fields :: "sdk \<Rightarrow> (string \<times> native) list \<Rightarrow> spec_param list \<Rightarrow> typed_field list" where
  "typed_fields sdk data [] = []"
| "typed_fields sdk data (p # ps) =
     (case parsed_value sdk data (pm_name p) of
        None \<Rightarrow> typed_fields sdk data ps
      | Some v \<Rightarrow> \<lparr>tf_name = pm_name p, tf_type = typeName (pm_type p),
          tf_location = (if pm_topic p then ''topic'' else ''data''), tf_value = v\<rparr> # typed_fields sdk data ps)"

definition typed_decode :: "sdk \<Rightarrow> typed_decoder \<Rightarrow> lens_event \<Rightarrow> typed_event option" where
  "typed_decode sdk d e =
     (if dc_events d = [] then None
      else (case sk_parse_event sdk (dc_entries d) (le_topicsXdr e) (le_valueXdr e) of
          Inl _ \<Rightarrow> None
        | Inr None \<Rightarrow> None
        | Inr (Some (name, data)) \<Rightarrow>
            (let declared = find (declares name data) (dc_events d)
             in Some \<lparr>te_name = name, te_source = dc_source d,
                  te_fields = typed_fields sdk data (case declared of None \<Rightarrow> [] | Some ev \<Rightarrow> ev_params ev)\<rparr>)))"

section \<open>The cache\<close>

record spec_cache =
  sc_ttlMs :: int
  sc_entries :: "(string \<times> int \<times> typed_decoder option) list"

definition new_spec_cache :: "int option \<Rightarrow> spec_cache" where
  "new_spec_cache ttlMs = \<lparr>sc_ttlMs = or_else ttlMs 60000, sc_entries = []\<rparr>"

text \<open>A failed load, and stored entries that do not parse, count as no spec.\<close>

definition loaded_decoder :: "sdk \<Rightarrow> (string, spec_row option) result \<Rightarrow> typed_decoder option" where
  "loaded_decoder sdk answer = (case answer of
       Inr (Some r) \<Rightarrow> (case fromRecord sdk r of Inr d \<Rightarrow> d | Inl _ \<Rightarrow> None)
     | _ \<Rightarrow> None)"

definition cache_get ::
    "sdk \<Rightarrow> (string \<Rightarrow> (string, spec_row option) result) \<Rightarrow> int \<Rightarrow> string \<Rightarrow> spec_cache \<Rightarrow> typed_decoder option \<times> spec_cache" where
  "cache_get sdk load now contractId c =
     (let fetch = (let d = loaded_decoder sdk (load contractId)
                   in (d, c\<lparr>sc_entries := map_set contractId (now, d) (sc_entries c)\<rparr>))
      in case map_of (sc_entries c) contractId of
           Some (stamp, d) \<Rightarrow> if now - stamp < sc_ttlMs c then (d, c) else fetch
         | None \<Rightarrow> fetch)"

fun cache_all ::
    "sdk \<Rightarrow> (string \<Rightarrow> (string, spec_row option) result) \<Rightarrow> int \<Rightarrow> string list \<Rightarrow> spec_cache \<Rightarrow>
      (string \<times> typed_decoder option) list \<times> spec_cache" where
  "cache_all sdk load now [] c = ([], c)"
| "cache_all sdk load now (i # ids) c =
     (let (d, c1) = cache_get sdk load now i c; (ds, c2) = cache_all sdk load now ids c1
      in ((i, d) # ds, c2))"

text \<open>Each event with its typed view, where there is one.\<close>

definition annotate ::
    "sdk \<Rightarrow> (string \<Rightarrow> (string, spec_row option) result) \<Rightarrow> int \<Rightarrow> lens_event list \<Rightarrow> spec_cache \<Rightarrow>
      (lens_event \<times> typed_event option) list \<times> spec_cache" where
  "annotate sdk load now events c =
     (let (decoders, c) = cache_all sdk load now (js_set (map le_contractId events)) c
      in (map (\<lambda>e. (e, case map_of decoders (le_contractId e) of Some (Some d) \<Rightarrow> typed_decode sdk d e | _ \<Rightarrow> None)) events, c))"

definition cache_clear :: "string option \<Rightarrow> spec_cache \<Rightarrow> spec_cache" where
  "cache_clear contractId c = (case contractId of
       None \<Rightarrow> c\<lparr>sc_entries := []\<rparr>
     | Some i \<Rightarrow> c\<lparr>sc_entries := filter (\<lambda>(j, e). j \<noteq> i) (sc_entries c)\<rparr>)"

section \<open>What the typed view shows\<close>

lemma typed_fields_names:
  "map tf_name (typed_fields sdk data ps) = filter (\<lambda>n. in_record n data) (map pm_name ps)"
  by (induction ps) (auto simp: parsed_value_def in_record_def split: option.splits dest: map_of_SomeD
    intro: rev_image_eqI simp: map_of_eq_None_iff)

lemma typed_fields_each:
  "f \<in> set (typed_fields sdk data ps) \<Longrightarrow> \<exists>p \<in> set ps. tf_name f = pm_name p \<and> tf_type f = typeName (pm_type p) \<and>
     parsed_value sdk data (pm_name p) = Some (tf_value f)"
  by (induction ps) (auto split: option.splits)

lemma typed_decode_Some:
  assumes "typed_decode sdk d e = Some t"
  obtains data where "sk_parse_event sdk (dc_entries d) (le_topicsXdr e) (le_valueXdr e) = Inr (Some (te_name t, data))"
    "te_source t = dc_source d"
    "te_fields t = typed_fields sdk data (case find (declares (te_name t) data) (dc_events d) of None \<Rightarrow> [] | Some ev \<Rightarrow> ev_params ev)"
  using assms by (auto simp: typed_decode_def Let_def split: if_splits sum.splits option.splits)

lemma annotate_events: "map fst (fst (annotate sdk load now events c)) = events"
  by (simp add: annotate_def Let_def split_beta o_def)

lemma annotate_ids: "map (le_id \<circ> fst) (fst (annotate sdk load now events c)) = map le_id events"
  using arg_cong [OF annotate_events, of "map le_id"] by simp

section \<open>How old a cached decoder can be\<close>

text \<open>\<open>db_at\<close> is what the store answers over time; every entry is an answer of its time.\<close>

definition cache_ok :: "sdk \<Rightarrow> (int \<Rightarrow> string \<Rightarrow> (string, spec_row option) result) \<Rightarrow> int \<Rightarrow> spec_cache \<Rightarrow> bool" where
  "cache_ok sdk db_at t c = (distinct (map fst (sc_entries c)) \<and>
     list_all (\<lambda>(i, stamp, d). stamp \<le> t \<and> d = loaded_decoder sdk (db_at stamp i)) (sc_entries c))"

lemma cache_ok_later: "cache_ok sdk db_at t c \<Longrightarrow> t \<le> t' \<Longrightarrow> cache_ok sdk db_at t' c"
  by (force simp: cache_ok_def list_all_iff)

lemma map_set_all: "list_all P m \<Longrightarrow> P (k, v) \<Longrightarrow> list_all P (map_set k v m)"
  by (induction m) auto

lemma cache_get_fresh:
  assumes "cache_ok sdk db_at now c" "0 < sc_ttlMs c" "cache_get sdk (db_at now) now i c = (d, c')"
  shows "cache_ok sdk db_at now c'" "sc_ttlMs c' = sc_ttlMs c"
    "\<exists>stamp. now - sc_ttlMs c < stamp \<and> stamp \<le> now \<and> d = loaded_decoder sdk (db_at stamp i)"
proof -
  have fetch: "cache_ok sdk db_at now (c\<lparr>sc_entries := map_set i (now, loaded_decoder sdk (db_at now i)) (sc_entries c)\<rparr>)"
    using assms(1) by (auto simp: cache_ok_def distinct_map_set intro!: map_set_all)
  have entry: "stamp \<le> now \<and> e = loaded_decoder sdk (db_at stamp i)" if "map_of (sc_entries c) i = Some (stamp, e)" for stamp e
    using assms(1) map_of_SomeD [OF that] by (auto simp: cache_ok_def list_all_iff)
  show "cache_ok sdk db_at now c'" "sc_ttlMs c' = sc_ttlMs c"
    using assms(1,3) fetch by (auto simp: cache_get_def Let_def split: option.splits if_splits)
  show "\<exists>stamp. now - sc_ttlMs c < stamp \<and> stamp \<le> now \<and> d = loaded_decoder sdk (db_at stamp i)"
  proof (cases "\<exists>stamp e. map_of (sc_entries c) i = Some (stamp, e) \<and> now - stamp < sc_ttlMs c")
    case True
    then obtain stamp e where e: "map_of (sc_entries c) i = Some (stamp, e)" "now - stamp < sc_ttlMs c" by blast
    then have "d = e" using assms(3) by (simp add: cache_get_def Let_def)
    with entry [OF e(1)] e(2) show ?thesis by (intro exI [of _ stamp]) auto
  next
    case False
    then have "d = loaded_decoder sdk (db_at now i)"
      using assms(3) by (auto simp: cache_get_def Let_def split: option.splits if_splits)
    then show ?thesis using assms(2) by (intro exI [of _ now]) auto
  qed
qed

end
