(* ===== verification/Event_Order.thy ===== *)
theory Event_Order
  imports Event_Source
begin

text \<open>
  The rows of an ascending query by position: those after an id and those between two ids, and
  the page a cursor reads of them. The event streams and the webhook dispatcher, which both
  follow the store by its newest id, rest on these lemmas.
\<close>

section \<open>Rows between two ids\<close>

text \<open>The rows a stream has passed between two positions, in the order of the ids.\<close>

definition rows_between :: "codec \<Rightarrow> database \<Rightarrow> event_query \<Rightarrow> string \<Rightarrow> string \<Rightarrow> event_row list" where
  "rows_between cd db q lo hi = filter (\<lambda>r. lo < er_id r \<and> er_id r \<le> hi) (ordered_rows cd db (buildWhere q) Asc)"

definition rows_after_id :: "codec \<Rightarrow> database \<Rightarrow> event_query \<Rightarrow> string \<Rightarrow> event_row list" where
  "rows_after_id cd db q lo = filter (\<lambda>r. lo < er_id r) (ordered_rows cd db (buildWhere q) Asc)"

lemma filter_between_split:
  fixes a b c :: string
  shows "sorted_wrt (\<lambda>x y. f x < f y) xs \<Longrightarrow> a \<le> b \<Longrightarrow> b \<le> c \<Longrightarrow>
    filter (\<lambda>x. a < f x \<and> f x \<le> c) xs = filter (\<lambda>x. a < f x \<and> f x \<le> b) xs @ filter (\<lambda>x. b < f x \<and> f x \<le> c) xs"
proof (induction xs)
  case (Cons x xs)
  have "b < f x \<Longrightarrow> filter (\<lambda>x. a < f x \<and> f x \<le> b) xs = []"
    using Cons.prems(1) by (force simp: filter_empty_conv)
  with Cons show ?case by auto
qed simp

lemma rows_sorted:
  assumes "distinct (db_ids db)"
  shows "sorted_wrt (\<lambda>x y. er_id x < er_id y) (ordered_rows cd db conds Asc)"
  using ordered_rows_sorted [OF assms, of Asc cd conds] by (simp add: id_before_def)

lemma rows_between_split:
  assumes "distinct (db_ids db)" "a \<le> b" "b \<le> c"
  shows "rows_between cd db q a c = rows_between cd db q a b @ rows_between cd db q b c"
  unfolding rows_between_def by (rule filter_between_split [OF rows_sorted [OF assms(1)] assms(2,3)])

lemma filter_upto_nth:
  fixes f :: "'a \<Rightarrow> 'b::linorder"
  shows "sorted_wrt (\<lambda>x y. f x < f y) xs \<Longrightarrow> k < length xs \<Longrightarrow> filter (\<lambda>x. f x \<le> f (xs ! k)) xs = take (Suc k) xs"
proof (induction xs arbitrary: k)
  case (Cons x xs)
  show ?case
  proof (cases k)
    case 0
    have "filter (\<lambda>y. f y \<le> f x) xs = []" using Cons.prems(1) by (auto simp: filter_empty_conv not_le)
    with 0 show ?thesis by simp
  next
    case (Suc j)
    then have "f x < f (xs ! j)" "filter (\<lambda>y. f y \<le> f (xs ! j)) xs = take (Suc j) xs"
      using Cons by auto
    with Suc show ?thesis by simp
  qed
qed simp

lemma rows_between_take:
  assumes "distinct (db_ids db)" and "rows = take n (rows_after_id cd db q lo)" and "rows \<noteq> []"
  shows "rows_between cd db q lo (er_id (last rows)) = rows" and "lo < er_id (last rows)"
proof -
  let ?F = "rows_after_id cd db q lo"
  define k where "k = length rows - 1"
  have k: "k < length ?F" "rows = take (Suc k) ?F" "last rows = ?F ! k"
    using assms(2,3) by (auto simp: k_def last_conv_nth min_def)
  have srt: "sorted_wrt (\<lambda>x y. er_id x < er_id y) ?F"
    unfolding rows_after_id_def using rows_sorted [OF assms(1)] by (rule sorted_wrt_filter)
  show "lo < er_id (last rows)" using nth_mem [OF k(1)] by (simp add: k(3) rows_after_id_def)
  have "filter (\<lambda>r. er_id r \<le> er_id (?F ! k)) ?F = take (Suc k) ?F" by (rule filter_upto_nth [OF srt k(1)])
  then show "rows_between cd db q lo (er_id (last rows)) = rows"
    unfolding k(3) unfolding k(2) by (simp add: rows_between_def rows_after_id_def conj_commute)
qed

lemma rows_after_split:
  assumes "distinct (db_ids db)" "lo \<le> mid"
  shows "rows_after_id cd db q lo = rows_between cd db q lo mid @ rows_after_id cd db q mid"
proof -
  have "filter (\<lambda>r. lo < er_id r) S = filter (\<lambda>r. lo < er_id r \<and> er_id r \<le> mid) S @ filter (\<lambda>r. mid < er_id r) S"
    if "sorted_wrt (\<lambda>x y. er_id x < er_id y) S" for S
    using that
  proof (induction S)
    case (Cons x S)
    have "mid < er_id x \<Longrightarrow> filter (\<lambda>r. lo < er_id r \<and> er_id r \<le> mid) S = []"
      using Cons.prems by (force simp: filter_empty_conv)
    with Cons assms(2) show ?case by auto
  qed simp
  from this [OF rows_sorted [OF assms(1)]] show ?thesis unfolding rows_after_id_def rows_between_def .
qed

lemma rows_after_take:
  assumes "distinct (db_ids db)" "rows = take n (rows_after_id cd db q lo)" "rows \<noteq> []"
  shows "rows_after_id cd db q (er_id (last rows)) = drop n (rows_after_id cd db q lo)"
proof -
  note b = rows_between_take [OF assms]
  have "rows_after_id cd db q lo = rows @ rows_after_id cd db q (er_id (last rows))"
    using rows_after_split [OF assms(1) less_imp_le [OF b(2)], of cd q] b(1) by simp
  then show ?thesis using assms(2) by (metis append_take_drop_id same_append_eq)
qed

lemma rows_events_ids:
  assumes "db_served cd db" "set rows \<subseteq> set (rows_after_id cd db q lo)"
  shows "map le_id (map (event_of cd) rows) = map er_id rows"
proof (simp, intro ballI)
  fix r assume "r \<in> set rows"
  then have "r \<in> set (db_events db)"
    using assms(2) ordered_subset [of cd db "buildWhere q" Asc] by (auto simp: rows_after_id_def)
  then show "le_id (event_of cd r) = er_id r" by (rule served_row(2) [OF assms(1)])
qed

section \<open>The page after a cursor\<close>

definition cursor_text :: "string option \<Rightarrow> string" where
  "cursor_text c = (case c of None \<Rightarrow> [] | Some t \<Rightarrow> t)"

lemma asc_page:
  assumes "db_served cd (es_db s)" "truthy (q_search q) \<longrightarrow> es_searchAvailable s" "store_order q = Asc" "q_direction q \<noteq> Some Backward"
  defines "F \<equiv> rows_after_id cd (es_db s) q (cursor_text (q_cursor q))" and "n \<equiv> normaliseLimit (q_limit q)"
  shows "\<exists>prv tot est. fst (queryEvents cd now q s) = Inr \<lparr>pg_events = map (event_of cd) (take n F),
      pg_nextCursor = (if length F > n then Some (er_id (F ! (n - 1))) else None),
      pg_prevCursor = prv, pg_total = tot, pg_totalIsEstimate = est\<rparr>"
proof -
  let ?S = "ordered_rows cd (es_db s) (buildWhere q) Asc"
  have n: "0 < n" using normaliseLimit_bounds(1) [of "q_limit q"] by (simp add: n_def)
  have "filter (\<lambda>r. truthy (q_cursor q) \<longrightarrow> id_before Asc (the (q_cursor q)) (er_id r)) ?S = F"
  proof (cases "truthy (q_cursor q)")
    case False
    have "\<forall>r \<in> set ?S. [] < er_id r"
    proof
      fix r assume "r \<in> set ?S"
      then have "er_id r \<in> set (db_ids (es_db s))"
        using ordered_subset [of cd "es_db s" "buildWhere q" Asc] by (auto simp: db_ids_def)
      then have "er_id r \<noteq> []" using assms(1) by (auto simp: db_served_def)
      then show "[] < er_id r" by (cases "er_id r") simp_all
    qed
    with False show ?thesis by (auto simp: F_def rows_after_id_def cursor_text_def truthy_def split: option.splits)
  next
    case True
    then show ?thesis by (auto simp: F_def rows_after_id_def cursor_text_def truthy_def id_before_def split: option.splits)
  qed
  note rows = forward_rows [of cd "es_db s" "buildWhere q" Asc "q_cursor q" n, unfolded this]
    forward_next [of cd "es_db s" "buildWhere q" Asc "q_cursor q" n, unfolded this]
  show ?thesis
    using queryEvents_rows [OF assms(1,2), of now] rows n assms(3,4) by (auto simp: n_def Let_def)
qed

end
