(* ===== verification/Stream_Hub.thy ===== *)
theory Stream_Hub
  imports Event_Order
begin

text \<open>
  The event streams (\<open>packages/api/src/stream.ts\<close>): subscriptions, the shared poll and the
  drain of one stream, with the socket as the events written to it. \<open>annotate\<close> is the typed
  decoder of the store package, which returns the same events with more fields. The timers
  and the head of the response are not part of the state.
\<close>

record stream_options =
  so_pollIntervalMs :: int
  so_heartbeatMs :: int
  so_maxStreams :: nat
  so_batchSize :: nat

definition stream_defaults :: "int option \<Rightarrow> int option \<Rightarrow> nat option \<Rightarrow> nat option \<Rightarrow> stream_options" where
  "stream_defaults pollIntervalMs heartbeatMs maxStreams batchSize =
     \<lparr>so_pollIntervalMs = or_else pollIntervalMs 1000, so_heartbeatMs = or_else heartbeatMs 15000,
      so_maxStreams = or_else maxStreams 1000, so_batchSize = or_else batchSize 100\<rparr>"

record subscriber =
  sb_query :: event_query
  sb_lastId :: string
  sb_draining :: bool
  sb_open :: bool
  sb_needDrain :: bool
  sb_sent :: "lens_event list"

record hub =
  hb_subscribers :: "(nat \<times> subscriber) list"
  hb_serial :: nat
  hb_timers :: bool
  hb_polling :: bool

definition new_hub :: hub where
  "new_hub = \<lparr>hb_subscribers = [], hb_serial = 0, hb_timers = False, hb_polling = False\<rparr>"

section \<open>Opening and closing\<close>

definition hub_start :: "hub \<Rightarrow> hub" where
  "hub_start h = h\<lparr>hb_timers := True\<rparr>"

definition hub_stop :: "hub \<Rightarrow> hub" where
  "hub_stop h = h\<lparr>hb_timers := False\<rparr>"

text \<open>A HEAD request gets the headers only. The result names the new stream.\<close>

definition subscribe ::
    "stream_options \<Rightarrow> database \<Rightarrow> bool \<Rightarrow> event_query \<Rightarrow> string option \<Rightarrow> hub \<Rightarrow> (api_error, nat option) result \<times> hub" where
  "subscribe opts db isHead q after h =
     (if length (hb_subscribers h) \<ge> so_maxStreams opts
      then (Inl (unavailable (''At most '' @ show_nat (so_maxStreams opts) @ '' event streams may be open at once.'') 5), h)
      else
        (let lastId = (case after of Some a \<Rightarrow> a | None \<Rightarrow> or_else (getLatestEventId db) []) in
         if isHead then (Inr None, h)
         else (Inr (Some (hb_serial h)),
           hub_start (h\<lparr>hb_serial := hb_serial h + 1,
             hb_subscribers := hb_subscribers h @ [(hb_serial h, \<lparr>sb_query = q, sb_lastId = lastId, sb_draining = False,
               sb_open = True, sb_needDrain = False, sb_sent = []\<rparr>)]\<rparr>))))"

definition on_close :: "nat \<Rightarrow> hub \<Rightarrow> hub" where
  "on_close i h =
     (let h = h\<lparr>hb_subscribers := filter (\<lambda>(j, s). j \<noteq> i) (hb_subscribers h)\<rparr>
      in if length (hb_subscribers h) = 0 then hub_stop h else h)"

definition closeAll :: "hub \<Rightarrow> hub" where
  "closeAll h = hub_stop (h\<lparr>hb_subscribers := []\<rparr>)"

section \<open>Draining\<close>

definition drain_query :: "nat \<Rightarrow> subscriber \<Rightarrow> event_query" where
  "drain_query batch sub = (sb_query sub)\<lparr>q_order := Some Asc, q_direction := Some Forward, q_limit := Some (of_nat batch),
     q_skipTotal := True, q_cursor := (if sb_lastId sub \<noteq> [] then Some (sb_lastId sub) else q_cursor (sb_query sub))\<rparr>"

text \<open>Writing the annotated events of a page; the position follows the ids of the page.\<close>

fun write_events :: "nat \<Rightarrow> lens_event list \<Rightarrow> lens_event list \<Rightarrow> subscriber \<Rightarrow> subscriber" where
  "write_events i page [] sub = sub"
| "write_events i page (e # es) sub =
     write_events (i + 1) page es
       (sub\<lparr>sb_sent := sb_sent sub @ [e], sb_lastId := (case nth_opt page i of Some p \<Rightarrow> le_id p | None \<Rightarrow> le_id e)\<rparr>)"

text \<open>One turn of the loop; True asks for another one.\<close>

definition drain_turn ::
    "(lens_event list \<Rightarrow> lens_event list) \<Rightarrow> codec \<Rightarrow> int \<Rightarrow> nat \<Rightarrow> event_store \<Rightarrow> string \<Rightarrow> subscriber \<Rightarrow> subscriber \<times> bool" where
  "drain_turn annotate cd now batch s latest sub =
     (if \<not> sb_open sub \<or> sb_needDrain sub then (sub, False)
      else (case fst (queryEvents cd now (drain_query batch sub) s) of
          Inl e \<Rightarrow> (sub, False)
        | Inr page \<Rightarrow>
            (let sub = write_events 0 (pg_events page) (annotate (pg_events page)) sub in
             if \<not> truthy (pg_nextCursor page)
             then (if latest > sb_lastId sub then sub\<lparr>sb_lastId := latest\<rparr> else sub, False)
             else (sub, True))))"

fun drain_loop ::
    "(lens_event list \<Rightarrow> lens_event list) \<Rightarrow> codec \<Rightarrow> int \<Rightarrow> nat \<Rightarrow> event_store \<Rightarrow> string \<Rightarrow> nat \<Rightarrow> subscriber \<Rightarrow> subscriber option" where
  "drain_loop annotate cd now batch s latest 0 sub = None"
| "drain_loop annotate cd now batch s latest (Suc fuel) sub =
     (let (sub, continue) = drain_turn annotate cd now batch s latest sub
      in if continue then drain_loop annotate cd now batch s latest fuel sub else Some sub)"

definition drain ::
    "(lens_event list \<Rightarrow> lens_event list) \<Rightarrow> codec \<Rightarrow> int \<Rightarrow> nat \<Rightarrow> event_store \<Rightarrow> string \<Rightarrow> nat \<Rightarrow> subscriber \<Rightarrow> subscriber option" where
  "drain annotate cd now batch s latest fuel sub =
     (if sb_draining sub then Some sub
      else map_option (\<lambda>sub. sub\<lparr>sb_draining := False\<rparr>)
        (drain_loop annotate cd now batch s latest fuel (sub\<lparr>sb_draining := True\<rparr>)))"

fun poll_streams ::
    "(lens_event list \<Rightarrow> lens_event list) \<Rightarrow> codec \<Rightarrow> int \<Rightarrow> nat \<Rightarrow> event_store \<Rightarrow> string \<Rightarrow> nat \<Rightarrow> (nat \<times> subscriber) list \<Rightarrow>
      (nat \<times> subscriber) list option" where
  "poll_streams annotate cd now batch s latest fuel [] = Some []"
| "poll_streams annotate cd now batch s latest fuel ((i, sub) # subs) =
     (case (if latest > sb_lastId sub then drain annotate cd now batch s latest fuel sub else Some sub) of
        None \<Rightarrow> None
      | Some sub' \<Rightarrow> map_option ((#) (i, sub')) (poll_streams annotate cd now batch s latest fuel subs))"

definition poll ::
    "(lens_event list \<Rightarrow> lens_event list) \<Rightarrow> codec \<Rightarrow> int \<Rightarrow> nat \<Rightarrow> event_store \<Rightarrow> nat \<Rightarrow> hub \<Rightarrow> hub option" where
  "poll annotate cd now batch s fuel h =
     (if hb_polling h then Some h
      else (case getLatestEventId (es_db s) of
          None \<Rightarrow> Some h
        | Some latest \<Rightarrow> map_option (\<lambda>subs. h\<lparr>hb_subscribers := subs\<rparr>)
            (poll_streams annotate cd now batch s latest fuel (hb_subscribers h))))"

section \<open>What one turn sends\<close>

lemma write_events_all:
  "length es = length page - i \<Longrightarrow> i \<le> length page \<Longrightarrow>
     write_events i page es sub = sub\<lparr>sb_sent := sb_sent sub @ es,
       sb_lastId := (if es = [] then sb_lastId sub else le_id (last page))\<rparr>"
proof (induction i page es sub rule: write_events.induct)
  case (2 i page e es sub)
  then have "i < length page" by simp
  moreover have "es = [] \<Longrightarrow> page ! i = last page"
  proof -
    assume "es = []"
    then have "length page - 1 = i" using 2(2) \<open>i < length page\<close> by simp
    then show "page ! i = last page" using \<open>i < length page\<close> by (subst last_conv_nth) auto
  qed
  ultimately show ?case using 2 by (auto simp: nth_opt_def)
qed simp

definition annotator :: "(lens_event list \<Rightarrow> lens_event list) \<Rightarrow> bool" where
  "annotator annotate = (\<forall>es. map le_id (annotate es) = map le_id es)"

lemma annotator_length: "annotator annotate \<Longrightarrow> length (annotate es) = length es"
  unfolding annotator_def by (metis length_map)

lemma annotator_ids: "annotator annotate \<Longrightarrow> map le_id (annotate es) = map le_id es"
  by (simp add: annotator_def)

definition stream_ready :: "codec \<Rightarrow> event_store \<Rightarrow> event_query \<Rightarrow> bool" where
  "stream_ready cd s q = (db_served cd (es_db s) \<and> (truthy (q_search q) \<longrightarrow> es_searchAvailable s) \<and> \<not> truthy (q_cursor q))"

lemma buildWhere_drain [simp]: "buildWhere (drain_query batch sub) = buildWhere (sb_query sub)"
  by (simp add: buildWhere_def drain_query_def)

lemma drain_page:
  fixes batch :: nat
  assumes "stream_ready cd s (sb_query sub)"
  defines "F \<equiv> rows_after_id cd (es_db s) (sb_query sub) (sb_lastId sub)" and "n \<equiv> normaliseLimit (Some (of_nat batch))"
  shows "\<exists>prv tot est. fst (queryEvents cd now (drain_query batch sub) s) = Inr \<lparr>pg_events = map (event_of cd) (take n F),
      pg_nextCursor = (if length F > n then Some (er_id (F ! (n - 1))) else None),
      pg_prevCursor = prv, pg_total = tot, pg_totalIsEstimate = est\<rparr>"
proof -
  let ?q = "drain_query batch sub"
  have q: "db_served cd (es_db s)" "truthy (q_search ?q) \<longrightarrow> es_searchAvailable s" "store_order ?q = Asc"
      "q_direction ?q \<noteq> Some Backward" "or_else (q_cursor ?q) [] = sb_lastId sub \<or> \<not> truthy (q_cursor ?q) \<and> sb_lastId sub = []"
      "q_limit ?q = Some (of_nat batch)"
    using assms(1) by (auto simp: stream_ready_def drain_query_def store_order_def)
  then have "cursor_text (q_cursor ?q) = sb_lastId sub" by (auto simp: cursor_text_def truthy_def split: option.splits)
  then have "rows_after_id cd (es_db s) ?q (cursor_text (q_cursor ?q)) = F"
    by (simp add: F_def rows_after_id_def)
  from asc_page [OF q(1-4), of now, unfolded this q(6), folded n_def] show ?thesis .
qed

text \<open>
  A turn on an open socket sends exactly the matching rows between the old position and the
  new one, and stops only when no matching row lies after the new position.
\<close>

lemma drain_turn_sends:
  fixes batch :: nat
  assumes "stream_ready cd s (sb_query sub)" "annotator annotate" "sb_open sub" "\<not> sb_needDrain sub"
  defines "F \<equiv> rows_after_id cd (es_db s) (sb_query sub) (sb_lastId sub)" and "n \<equiv> normaliseLimit (Some (of_nat batch))"
  shows "\<exists>sub' continue. drain_turn annotate cd now batch s latest sub = (sub', continue)
    \<and> sub' = sub\<lparr>sb_sent := sb_sent sub @ annotate (map (event_of cd) (take n F)), sb_lastId := sb_lastId sub'\<rparr>
    \<and> (continue \<longleftrightarrow> length F > n)
    \<and> sb_lastId sub \<le> sb_lastId sub'
    \<and> map er_id (take n F) = map er_id (rows_between cd (es_db s) (sb_query sub) (sb_lastId sub) (sb_lastId sub'))
    \<and> (continue \<longrightarrow> rows_after_id cd (es_db s) (sb_query sub) (sb_lastId sub') = drop n F)
    \<and> (\<not> continue \<longrightarrow> latest \<le> sb_lastId sub')
    \<and> (sb_lastId sub' = sb_lastId sub \<or> sb_lastId sub' = latest \<or> sb_lastId sub' \<in> set (db_ids (es_db s)))"
proof -
  let ?db = "es_db s" and ?q = "sb_query sub" and ?lo = "sb_lastId sub"
  let ?evs = "map (event_of cd) (take n F)"
  have served: "db_served cd ?db" using assms(1) by (simp add: stream_ready_def)
  then have dist: "distinct (db_ids ?db)" by (simp add: db_served_def db_ok_def)
  have n: "0 < n" using normaliseLimit_bounds(1) [of "Some (of_nat batch)"] by (simp add: n_def)
  obtain prv tot est where page: "fst (queryEvents cd now (drain_query batch sub) s) = Inr \<lparr>pg_events = ?evs,
      pg_nextCursor = (if length F > n then Some (er_id (F ! (n - 1))) else None),
      pg_prevCursor = prv, pg_total = tot, pg_totalIsEstimate = est\<rparr>"
    using drain_page [OF assms(1), of now batch] by (auto simp: F_def n_def)
  have Fsub: "set F \<subseteq> set (db_events ?db)"
    using ordered_subset by (fastforce simp: F_def rows_after_id_def)
  define mid where "mid = (if take n F = [] then ?lo else er_id (last (take n F)))"
  have w: "write_events 0 ?evs (annotate ?evs) sub = sub\<lparr>sb_sent := sb_sent sub @ annotate ?evs, sb_lastId := mid\<rparr>"
  proof -
    have "take n F \<noteq> [] \<Longrightarrow> le_id (last ?evs) = er_id (last (take n F))"
      using served_row(2) [OF served, of "last (take n F)"] Fsub last_in_set [of "take n F"] set_take_subset [of n F]
      by (simp add: last_map subset_iff)
    moreover have "annotate ?evs = [] \<longleftrightarrow> take n F = []"
      using annotator_length [OF assms(2), of ?evs] by (metis length_0_conv length_map)
    ultimately show ?thesis
      using annotator_length [OF assms(2), of ?evs] by (subst write_events_all) (auto simp: mid_def)
  qed
  have between: "rows_between cd ?db ?q ?lo mid = take n F" and lo: "?lo \<le> mid"
  proof -
    show "rows_between cd ?db ?q ?lo mid = take n F"
    proof (cases "take n F = []")
      case True
      then have "mid = ?lo" by (simp add: mid_def)
      then have "rows_between cd ?db ?q ?lo mid = []" by (auto simp: rows_between_def filter_empty_conv)
      then show ?thesis unfolding True .
    qed (use rows_between_take(1) [OF dist, of "take n F" n cd ?q ?lo] in \<open>simp add: mid_def F_def\<close>)
    show "?lo \<le> mid"
      using rows_between_take(2) [OF dist, of "take n F" n cd ?q ?lo] by (auto simp: mid_def F_def)
  qed
  have rest: "rows_after_id cd ?db ?q mid = drop n F"
    using rows_after_take [OF dist, of "take n F" n cd ?q ?lo] n by (auto simp: mid_def F_def)
  have mid: "mid = ?lo \<or> mid \<in> set (db_ids ?db)"
    using Fsub last_in_set [of "take n F"] set_take_subset [of n F] by (auto simp: mid_def db_ids_def subset_iff)
  show ?thesis
  proof (cases "length F > n")
    case True
    then have "F ! (n - 1) \<in> set (db_events ?db)" using Fsub nth_mem [of "n - 1" F] by auto
    then have "truthy (Some (er_id (F ! (n - 1))))"
      using served by (auto simp: truthy_def db_served_def db_ids_def image_iff)
    then have "drain_turn annotate cd now batch s latest sub = (sub\<lparr>sb_sent := sb_sent sub @ annotate ?evs, sb_lastId := mid\<rparr>, True)"
      using assms(3,4) page w True by (simp add: drain_turn_def Let_def)
    then show ?thesis using True between lo rest mid by auto
  next
    case False
    define hi where "hi = (if latest > mid then latest else mid)"
    have "drain_turn annotate cd now batch s latest sub = (sub\<lparr>sb_sent := sb_sent sub @ annotate ?evs, sb_lastId := hi\<rparr>, False)"
      using assms(3,4) page w False by (simp add: drain_turn_def Let_def truthy_def hi_def)
    moreover have "rows_between cd ?db ?q ?lo hi = take n F"
    proof -
      have "rows_after_id cd ?db ?q mid = []" using rest False by simp
      then have "rows_between cd ?db ?q mid hi = []" by (auto simp: rows_after_id_def rows_between_def filter_empty_conv)
      moreover have "mid \<le> hi" by (auto simp: hi_def)
      ultimately show ?thesis using rows_between_split [OF dist lo, of hi cd ?q] between by simp
    qed
    moreover have "?lo \<le> hi" "latest \<le> hi" using lo by (auto simp: hi_def)
    ultimately show ?thesis using False mid by (auto simp: hi_def)
  qed
qed

section \<open>Streams while events arrive\<close>

text \<open>
  A stream and its store: a batch of events arrives (each id above every stored one), a drain
  begins with the newest id at that moment, takes a turn, or ends; the socket fills, empties or
  closes at any time.
\<close>

type_synonym stream_config = "event_store \<times> subscriber \<times> string option"

inductive stream_step :: "(lens_event list \<Rightarrow> lens_event list) \<Rightarrow> codec \<Rightarrow> nat \<Rightarrow> stream_config \<Rightarrow> stream_config \<Rightarrow> bool"
  for annotate cd batch where
  arrive: "\<forall>e \<in> set es. \<forall>i \<in> set (db_ids (es_db s)). i < le_id e \<Longrightarrow> \<forall>e \<in> set es. le_id e \<noteq> [] \<Longrightarrow>
    stream_step annotate cd batch (s, sub, flight) (s\<lparr>es_db := snd (insertDecoded io cd es (es_db s))\<rparr>, sub, flight)"
| begin_drain: "getLatestEventId (es_db s) = Some latest \<Longrightarrow> \<not> sb_draining sub \<Longrightarrow>
    stream_step annotate cd batch (s, sub, None) (s, sub\<lparr>sb_draining := True\<rparr>, Some latest)"
| turn: "drain_turn annotate cd now batch s latest sub = (sub', continue) \<Longrightarrow>
    stream_step annotate cd batch (s, sub, Some latest)
      (s, if continue then sub' else sub'\<lparr>sb_draining := False\<rparr>, if continue then Some latest else None)"
| socket: "stream_step annotate cd batch (s, sub, flight) (s, sub\<lparr>sb_needDrain := b, sb_open := stay \<and> sb_open sub\<rparr>, flight)"

text \<open>What has been sent is what matches between the start and the position: no gap, no repetition.\<close>

definition stream_inv :: "codec \<Rightarrow> event_query \<Rightarrow> string \<Rightarrow> stream_config \<Rightarrow> bool" where
  "stream_inv cd q start st = (case st of (s, sub, flight) \<Rightarrow>
     stream_ready cd s q \<and> sb_query sub = q \<and> start \<le> sb_lastId sub
     \<and> map le_id (sb_sent sub) = map er_id (rows_between cd (es_db s) q start (sb_lastId sub))
     \<and> (sb_lastId sub = start \<or> (\<exists>i \<in> set (db_ids (es_db s)). sb_lastId sub \<le> i))
     \<and> (case flight of None \<Rightarrow> True | Some l \<Rightarrow> l \<in> set (db_ids (es_db s))))"

lemma latest_present:
  assumes "getLatestEventId db = Some latest"
  shows "latest \<in> set (db_ids db)" and "i \<in> set (db_ids db) \<Longrightarrow> i \<le> latest"
proof -
  have ne: "db_ids db \<noteq> []" and l: "latest = last (sort (db_ids db))"
    using assms by (auto simp: getLatestEventId_def db_ids_def split: if_splits)
  have s: "sort (db_ids db) \<noteq> []" using ne by (metis set_empty set_sort)
  show "latest \<in> set (db_ids db)" using last_in_set [OF s] by (simp add: l)
  have "\<forall>x \<in> set (sort (db_ids db)). x \<le> last (sort (db_ids db))"
    using sorted_sort [of "db_ids db"] s
    by (metis append_butlast_last_id in_set_conv_decomp order_refl rotate1.simps(2) set_ConsD set_rotate1 sorted_append list.set_intros(1))
  then show "i \<in> set (db_ids db) \<Longrightarrow> i \<le> latest" by (simp add: l)
qed

lemma stream_inv_step:
  assumes "stream_step annotate cd batch st st'" "stream_inv cd q start st" "annotator annotate" "codec_ok cd"
  shows "stream_inv cd q start st'"
  using assms(1,2)
proof (cases rule: stream_step.cases)
  case (arrive es s sub flight io)
  let ?db = "es_db s" and ?db' = "snd (insertDecoded io cd es (es_db s))"
  have inv: "stream_ready cd s q" "sb_query sub = q" "start \<le> sb_lastId sub"
      "map le_id (sb_sent sub) = map er_id (rows_between cd ?db q start (sb_lastId sub))"
      "sb_lastId sub = start \<or> (\<exists>i \<in> set (db_ids ?db). sb_lastId sub \<le> i)"
      "case flight of None \<Rightarrow> True | Some l \<Rightarrow> l \<in> set (db_ids ?db)"
    using assms(2) arrive(1) by (simp_all add: stream_inv_def)
  have ids: "set (db_ids ?db) \<subseteq> set (db_ids ?db')" by (rule insertDecoded_ids_subset)
  have new: "le_id ` set es \<supseteq> set (db_ids ?db') - set (db_ids ?db)" by (rule insertDecoded_new_ids)
  have "\<forall>e \<in> set es. \<not> (start < le_id e \<and> le_id e \<le> sb_lastId sub)"
  proof
    fix e assume e: "e \<in> set es"
    from inv(5) show "\<not> (start < le_id e \<and> le_id e \<le> sb_lastId sub)"
    proof
      assume "\<exists>i \<in> set (db_ids ?db). sb_lastId sub \<le> i"
      then obtain i where "i \<in> set (db_ids ?db)" "sb_lastId sub \<le> i" by blast
      moreover from this(1) e arrive(3) have "i < le_id e" by blast
      ultimately show ?thesis by (auto dest: le_less_trans)
    qed auto
  qed
  from ordered_rows_arrivals [where P = "\<lambda>i. start < i \<and> i \<le> sb_lastId sub", OF this]
  have "rows_between cd ?db' q start (sb_lastId sub) = rows_between cd ?db q start (sb_lastId sub)"
    by (simp add: rows_between_def)
  moreover have "db_served cd ?db'"
  proof -
    have "[] \<notin> set (db_ids ?db)" "db_ok cd ?db'"
      using inv(1) insertDecoded_ok [OF assms(4), of ?db io es] by (simp_all add: stream_ready_def db_served_def)
    moreover have "[] \<notin> le_id ` set es" using arrive(4) by force
    ultimately show ?thesis using new by (auto simp: db_served_def)
  qed
  ultimately show ?thesis
    using inv ids by (auto simp: stream_inv_def arrive(2) stream_ready_def split: option.splits)
next
  case (begin_drain s latest sub)
  have "latest \<in> set (db_ids (es_db s))" by (rule latest_present [OF begin_drain(3)])
  then show ?thesis using assms(2) by (simp add: stream_inv_def begin_drain(1,2))
next
  case (turn now s latest sub sub' continue)
  have inv: "stream_ready cd s q" "sb_query sub = q" "start \<le> sb_lastId sub"
      "map le_id (sb_sent sub) = map er_id (rows_between cd (es_db s) q start (sb_lastId sub))"
      "sb_lastId sub = start \<or> (\<exists>i \<in> set (db_ids (es_db s)). sb_lastId sub \<le> i)" "latest \<in> set (db_ids (es_db s))"
    using assms(2) turn(1) by (simp_all add: stream_inv_def)
  have dist: "distinct (db_ids (es_db s))" using inv(1) by (simp add: stream_ready_def db_served_def db_ok_def)
  have "stream_inv cd q start (s, sub', Some latest)"
  proof (cases "sb_open sub \<and> \<not> sb_needDrain sub \<and> is_ok (fst (queryEvents cd now (drain_query batch sub) s))")
    case False
    then have "sub' = sub" using turn(3) by (auto simp: drain_turn_def is_ok_def split: sum.splits if_splits)
    then show ?thesis using inv by (simp add: stream_inv_def)
  next
    case True
    let ?F = "take (normaliseLimit (Some (of_nat batch))) (rows_after_id cd (es_db s) q (sb_lastId sub))"
    have t: "sub' = sub\<lparr>sb_sent := sb_sent sub @ annotate (map (event_of cd) ?F), sb_lastId := sb_lastId sub'\<rparr>"
        "sb_lastId sub \<le> sb_lastId sub'"
        "map er_id ?F = map er_id (rows_between cd (es_db s) q (sb_lastId sub) (sb_lastId sub'))"
        "sb_lastId sub' = sb_lastId sub \<or> sb_lastId sub' = latest \<or> sb_lastId sub' \<in> set (db_ids (es_db s))"
      using drain_turn_sends [OF _ assms(3), of cd s sub now batch latest] True turn(3) inv(1,2) by auto
    have ev: "map le_id (map (event_of cd) ?F) = map er_id ?F"
    proof (rule rows_events_ids [OF _ set_take_subset])
      show "db_served cd (es_db s)" using inv(1) unfolding stream_ready_def by (rule conjunct1)
    qed
    have "map le_id (sb_sent sub') = map le_id (sb_sent sub) @ map er_id ?F"
      by (subst t(1)) (use annotator_ids [OF assms(3), of "map (event_of cd) ?F"] ev in simp)
    then have "map le_id (sb_sent sub') = map er_id (rows_between cd (es_db s) q start (sb_lastId sub'))"
      using inv(4) t(3) rows_between_split [OF dist inv(3) t(2), of cd q] by simp
    moreover have "sb_query sub' = q" using t(1) inv(2) by (metis subscriber.select_convs(1) subscriber.surjective subscriber.update_convs(2,6))
    ultimately show ?thesis using inv t by (auto simp: stream_inv_def)
  qed
  then show ?thesis by (simp add: stream_inv_def turn(2))
next
  case (socket s sub flight b stay)
  then show ?thesis using assms(2) by (simp add: stream_inv_def)
qed

section \<open>Catching up\<close>

text \<open>A drain whose socket accepts everything ends, having sent all the stream was owed.\<close>

lemma drain_loop_complete:
  assumes "annotator annotate"
  shows "stream_ready cd s (sb_query sub) \<Longrightarrow> sb_open sub \<Longrightarrow> \<not> sb_needDrain sub \<Longrightarrow>
    length (rows_after_id cd (es_db s) (sb_query sub) (sb_lastId sub)) < fuel \<Longrightarrow>
    \<exists>sub'. drain_loop annotate cd now batch s latest fuel sub = Some sub'
      \<and> map le_id (sb_sent sub') = map le_id (sb_sent sub) @ map er_id (rows_after_id cd (es_db s) (sb_query sub) (sb_lastId sub))
      \<and> latest \<le> sb_lastId sub'"
proof (induction fuel arbitrary: sub)
  case (Suc fuel)
  let ?F = "rows_after_id cd (es_db s) (sb_query sub) (sb_lastId sub)" and ?n = "normaliseLimit (Some (of_nat batch))"
  have n: "0 < ?n" by (rule less_le_trans [OF zero_less_one normaliseLimit_bounds(1)])
  obtain sub1 continue where t: "drain_turn annotate cd now batch s latest sub = (sub1, continue)"
      "sub1 = sub\<lparr>sb_sent := sb_sent sub @ annotate (map (event_of cd) (take ?n ?F)), sb_lastId := sb_lastId sub1\<rparr>"
      "continue \<longleftrightarrow> length ?F > ?n"
      "continue \<longrightarrow> rows_after_id cd (es_db s) (sb_query sub) (sb_lastId sub1) = drop ?n ?F"
      "\<not> continue \<longrightarrow> latest \<le> sb_lastId sub1"
    using drain_turn_sends [OF Suc.prems(1) assms Suc.prems(2,3), of now batch latest] by blast
  have served: "db_served cd (es_db s)" using Suc.prems(1) by (simp add: stream_ready_def)
  have sent: "map le_id (sb_sent sub1) = map le_id (sb_sent sub) @ map er_id (take ?n ?F)"
    by (subst t(2)) (use annotator_ids [OF assms] rows_events_ids [OF served set_take_subset] in simp)
  have same: "sb_query sub1 = sb_query sub" "sb_open sub1 = sb_open sub" "sb_needDrain sub1 = sb_needDrain sub"
    by (subst t(2), simp)+
  show ?case
  proof (cases continue)
    case True
    have "length (drop ?n ?F) < fuel" using Suc.prems(4) True t(3) n by auto
    then obtain sub' where "drain_loop annotate cd now batch s latest fuel sub1 = Some sub'"
        "map le_id (sb_sent sub') = map le_id (sb_sent sub1) @ map er_id (drop ?n ?F)" "latest \<le> sb_lastId sub'"
      using Suc.IH [of sub1] Suc.prems(1-3) same t(4) True by auto
    moreover have "map er_id (take ?n ?F) @ map er_id (drop ?n ?F) = map er_id ?F"
      by (simp flip: map_append)
    ultimately show ?thesis using True t(1) sent by auto
  qed (use t sent in \<open>auto simp: not_less\<close>)
qed simp

end
