(* ===== verification/Webhook_Target.thy ===== *)
theory Webhook_Target
  imports Params Store_Types "HOL-Library.Word"
begin

text \<open>
  The targets of webhooks and the signature of a delivery (\<open>packages/api/src/webhooks.ts\<close>):
  which addresses are private, which URLs are accepted, the guarded name lookup, and the
  \<open>X-Lens-Signature\<close> header. The URL parser, the IPv6 syntax test of \<open>isIP\<close>, the resolver and
  HMAC-SHA256 belong to Node and are parameters.
\<close>

section \<open>Addresses\<close>

definition octet_text :: "string \<Rightarrow> bool" where
  "octet_text s = (s \<noteq> [] \<and> list_all is_digit s \<and> (hd s = CHR ''0'' \<longrightarrow> length s = 1) \<and> length s \<le> 3 \<and> read_base 10 s < 256)"

definition is_ipv4 :: "string \<Rightarrow> bool" where
  "is_ipv4 s = (let ps = split_on (CHR ''.'') s in length ps = 4 \<and> list_all octet_text ps)"

definition isIP :: "(string \<Rightarrow> bool) \<Rightarrow> string \<Rightarrow> nat" where
  "isIP is_ipv6 s = (if is_ipv4 s then 4 else if is_ipv6 s then 6 else 0)"

text \<open>A number of the parsed address; a part that is absent or not a number compares as false.\<close>

definition part_is :: "js_num list \<Rightarrow> nat \<Rightarrow> (rat \<Rightarrow> bool) \<Rightarrow> bool" where
  "part_is parts i P = (i < length parts \<and> (case parts ! i of JsNum r \<Rightarrow> P r | _ \<Rightarrow> False))"

definition isPrivateIPv4 :: "string \<Rightarrow> bool" where
  "isPrivateIPv4 ip =
     (let parts = map js_Number (split_on (CHR ''.'') ip); a = part_is parts 0; b = part_is parts 1
      in a (\<lambda>x. x = 0) \<or> a (\<lambda>x. x = 10) \<or> a (\<lambda>x. x = 127)
       \<or> (a (\<lambda>x. x = 100) \<and> b (\<lambda>x. x \<ge> 64) \<and> b (\<lambda>x. x \<le> 127))
       \<or> (a (\<lambda>x. x = 169) \<and> b (\<lambda>x. x = 254))
       \<or> (a (\<lambda>x. x = 172) \<and> b (\<lambda>x. x \<ge> 16) \<and> b (\<lambda>x. x \<le> 31))
       \<or> (a (\<lambda>x. x = 192) \<and> b (\<lambda>x. x = 168))
       \<or> (a (\<lambda>x. x = 192) \<and> b (\<lambda>x. x = 0) \<and> part_is parts 2 (\<lambda>x. x = 0))
       \<or> (a (\<lambda>x. x = 198) \<and> (b (\<lambda>x. x = 18) \<or> b (\<lambda>x. x = 19)))
       \<or> a (\<lambda>x. x \<ge> 224))"

text \<open>
  The mapped forms: up to five groups of at most four zeros with their colons, an optional
  colon, \<open>ffff:\<close> and the embedded address. \<open>after_zeros\<close> lists every way to take the groups.
\<close>

definition zero_group :: "string \<Rightarrow> string option" where
  "zero_group s = (let r = dropWhile (\<lambda>c. c = CHR ''0'') s
     in if length s - length r \<le> 4 \<and> r \<noteq> [] \<and> hd r = CHR '':'' then Some (tl r) else None)"

fun after_zeros :: "nat \<Rightarrow> string \<Rightarrow> string list" where
  "after_zeros 0 s = [s]"
| "after_zeros (Suc n) s = s # (case zero_group s of None \<Rightarrow> [] | Some r \<Rightarrow> after_zeros n r)"

definition strip_prefix :: "string \<Rightarrow> string \<Rightarrow> string option" where
  "strip_prefix p s = (if starts_with p s then Some (drop (length p) s) else None)"

definition mapped_tails :: "string \<Rightarrow> string list" where
  "mapped_tails s = List.map_filter (strip_prefix ''ffff:'')
     (concat (map (\<lambda>r. [r] @ (if starts_with '':'' r then [tl r] else [])) (after_zeros 5 s)))"

definition dotted_digits :: "string \<Rightarrow> bool" where
  "dotted_digits s = (let ps = split_on (CHR ''.'') s in length ps = 4 \<and> list_all (\<lambda>p. p \<noteq> [] \<and> list_all is_digit p) ps)"

definition is_hex_lower :: "char \<Rightarrow> bool" where
  "is_hex_lower c = (is_digit c \<or> ch_range (CHR ''a'') (CHR ''f'') c)"

definition hex_group :: "string \<Rightarrow> bool" where
  "hex_group s = (1 \<le> length s \<and> length s \<le> 4 \<and> list_all is_hex_lower s)"

definition hex_pair :: "string \<Rightarrow> (nat \<times> nat) option" where
  "hex_pair s = (case split_on (CHR '':'') s of
       [h, l] \<Rightarrow> if hex_group h \<and> hex_group l then Some (read_base 16 h, read_base 16 l) else None
     | _ \<Rightarrow> None)"

definition dotted :: "nat \<Rightarrow> nat \<Rightarrow> nat \<Rightarrow> nat \<Rightarrow> string" where
  "dotted a b c d = show_nat a @ ''.'' @ show_nat b @ ''.'' @ show_nat c @ ''.'' @ show_nat d"

definition first_some :: "('a \<Rightarrow> 'b option) \<Rightarrow> 'a list \<Rightarrow> 'b option" where
  "first_some f xs = (case List.map_filter f xs of [] \<Rightarrow> None | y # _ \<Rightarrow> Some y)"

text \<open>\<open>parseInt(first group, 16)\<close>: the leading hexadecimal digits.\<close>

definition parse_hex_prefix :: "string \<Rightarrow> nat" where
  "parse_hex_prefix s = read_base 16 (takeWhile is_hex s)"

definition isPrivateAddress :: "(string \<Rightarrow> bool) \<Rightarrow> string \<Rightarrow> bool" where
  "isPrivateAddress is_ipv6 ip =
     (let version = isIP is_ipv6 ip in
      if version = 4 then isPrivateIPv4 ip
      else if version \<noteq> 6 then True
      else
        (let lower = js_lower ip in
         case first_some (\<lambda>t. if dotted_digits t then Some t else None) (mapped_tails lower) of
           Some t \<Rightarrow> isPrivateIPv4 t
         | None \<Rightarrow>
            (case first_some hex_pair (mapped_tails lower) of
               Some (hi, lo) \<Rightarrow> isPrivateIPv4 (dotted (hi div 256) (hi mod 256) (lo div 256) (lo mod 256))
             | None \<Rightarrow>
                 if lower = ''::'' \<or> lower = ''::1'' then True
                 else
                   (let first = (of_nat (if starts_with ''::'' lower then 0
                          else parse_hex_prefix (hd (split_on (CHR '':'') lower))) :: 32 word)
                    in and first 0xfe00 = 0xfc00 \<or> and first 0xffc0 = 0xfe80 \<or> and first 0xff00 = 0xff00))))"

section \<open>URLs\<close>

record web_url =
  wu_protocol :: string
  wu_username :: string
  wu_password :: string
  wu_hostname :: string
  wu_text :: string

definition LOCAL_SUFFIXES :: "string list" where
  "LOCAL_SUFFIXES = [''.localhost'', ''.local'', ''.internal'', ''.localdomain'', ''.home.arpa'']"

definition MAX_URL_LENGTH :: nat where
  "MAX_URL_LENGTH = 2048"

definition strip_brackets :: "string \<Rightarrow> string" where
  "strip_brackets s =
     (let s1 = (if starts_with ''['' s then tl s else s)
      in if s1 \<noteq> [] \<and> last s1 = CHR '']'' then butlast s1 else s1)"

definition bareHostname :: "web_url \<Rightarrow> string" where
  "bareHostname url = js_lower (strip_brackets (wu_hostname url))"

definition url_error :: "string \<Rightarrow> api_error" where
  "url_error message = badRequest (quoted ''url'' @ message) (Some ''url'')"

text \<open>\<open>raw\<close> is the JSON value of the field, None where it is absent.\<close>

definition parseWebhookUrl ::
    "(string \<Rightarrow> bool) \<Rightarrow> (string \<Rightarrow> web_url option) \<Rightarrow> json option \<Rightarrow> bool \<Rightarrow> (api_error, web_url) result" where
  "parseWebhookUrl is_ipv6 parse_url raw allowPrivate =
     (case raw of
        Some (JStr text) \<Rightarrow>
          if js_trim text = [] then Inl (url_error '' is required.'')
          else if length text > MAX_URL_LENGTH
          then Inl (url_error ('' must be at most '' @ show_nat MAX_URL_LENGTH @ '' characters.''))
          else (case parse_url text of
              None \<Rightarrow> Inl (url_error '' is not a valid URL.'')
            | Some url \<Rightarrow>
                if wu_protocol url \<noteq> ''http:'' \<and> wu_protocol url \<noteq> ''https:''
                then Inl (url_error '' must use http or https.'')
                else if wu_username url \<noteq> [] \<or> wu_password url \<noteq> []
                then Inl (url_error '' must not contain credentials.'')
                else if \<not> allowPrivate \<and> (bareHostname url = ''localhost'' \<or> list_ex (\<lambda>s. ends_with s (bareHostname url)) LOCAL_SUFFIXES)
                then Inl (url_error '' must not point at a local or internal host.'')
                else if \<not> allowPrivate \<and> isIP is_ipv6 (bareHostname url) \<noteq> 0 \<and> isPrivateAddress is_ipv6 (bareHostname url)
                then Inl (url_error '' must not point at a private or reserved address.'')
                else Inr url)
      | _ \<Rightarrow> Inl (url_error '' is required.''))"

text \<open>\<open>resolve\<close> is the name lookup: None where it fails.\<close>

definition assertResolvesPublicly ::
    "(string \<Rightarrow> bool) \<Rightarrow> (string \<Rightarrow> string list option) \<Rightarrow> web_url \<Rightarrow> (api_error, unit) result" where
  "assertResolvesPublicly is_ipv6 resolve url =
     (let host = bareHostname url in
      if isIP is_ipv6 host \<noteq> 0 then Inr ()
      else (case resolve host of
          None \<Rightarrow> Inl (url_error ('' host '' @ quoted host @ '' could not be resolved.''))
        | Some addresses \<Rightarrow>
            if length addresses = 0 \<or> list_ex (isPrivateAddress is_ipv6) addresses
            then Inl (url_error '' must not resolve to a private or reserved address.'')
            else Inr ()))"

datatype lookup_error = LookupFailed | Blocked

definition guardedLookup ::
    "(string \<Rightarrow> bool) \<Rightarrow> (string \<Rightarrow> string list option) \<Rightarrow> bool \<Rightarrow> string \<Rightarrow> (lookup_error, string list) result" where
  "guardedLookup is_ipv6 resolve allowPrivate hostname =
     (case resolve hostname of
        None \<Rightarrow> Inl LookupFailed
      | Some addresses \<Rightarrow>
          if \<not> allowPrivate \<and> list_ex (isPrivateAddress is_ipv6) addresses then Inl Blocked else Inr addresses)"

section \<open>Signatures\<close>

definition bytes_hex :: "nat list \<Rightarrow> string" where
  "bytes_hex bs = concat (map (\<lambda>b. [digit_char (b div 16), digit_char (b mod 16)]) bs)"

text \<open>\<open>Buffer.from(text, 'hex')\<close> stops at the first pair that is not hexadecimal.\<close>

fun hex_bytes :: "string \<Rightarrow> nat list" where
  "hex_bytes (a # b # r) = (if is_hex a \<and> is_hex b then (digit_val a * 16 + digit_val b) # hex_bytes r else [])"
| "hex_bytes _ = []"

type_synonym hmac = "string \<Rightarrow> string \<Rightarrow> nat list"

definition signed_text :: "int \<Rightarrow> string \<Rightarrow> string" where
  "signed_text timestamp body = show_int timestamp @ ''.'' @ body"

definition sign_body :: "hmac \<Rightarrow> string \<Rightarrow> int \<Rightarrow> string \<Rightarrow> string" where
  "sign_body hmac secret timestamp body = bytes_hex (hmac secret (signed_text timestamp body))"

definition signature_header :: "hmac \<Rightarrow> string \<Rightarrow> int \<Rightarrow> string \<Rightarrow> string" where
  "signature_header hmac secret timestamp body = ''t='' @ show_int timestamp @ '',v1='' @ sign_body hmac secret timestamp body"

text \<open>
  One \<open>key=value\<close> of the header; without \<open>=\<close>, \<open>indexOf\<close> is -1, so the key loses its last
  character and the value is the whole text.
\<close>

definition header_entry :: "string \<Rightarrow> string \<times> string" where
  "header_entry kv =
     (if CHR ''='' \<in> set kv
      then (js_trim (takeWhile (\<lambda>c. c \<noteq> CHR ''='') kv), js_trim (tl (dropWhile (\<lambda>c. c \<noteq> CHR ''='') kv)))
      else (js_trim (butlast kv), js_trim kv))"

definition header_part :: "string \<Rightarrow> string \<Rightarrow> string option" where
  "header_part header k = map_of (rev (map header_entry (split_on (CHR '','') header))) k"

definition verifyWebhookSignature :: "hmac \<Rightarrow> string \<Rightarrow> string \<Rightarrow> string \<Rightarrow> int \<Rightarrow> int \<Rightarrow> bool" where
  "verifyWebhookSignature hmac secret header body toleranceSeconds nowSeconds =
     (case header_part header ''t'' of
        None \<Rightarrow> False
      | Some ts \<Rightarrow>
         (case js_Number ts of
            JsNum r \<Rightarrow>
              (let t = \<lfloor>r\<rfloor>; v1 = header_part header ''v1'' in
               if \<not> rat_is_int r \<or> \<not> truthy v1 \<or> \<bar>nowSeconds - t\<bar> > toleranceSeconds then False
               else hex_bytes (sign_body hmac secret t body) = hex_bytes (the v1))
          | _ \<Rightarrow> False))"

section \<open>The private blocks\<close>

text \<open>The IPv4 address as a 32-bit word, and the reserved blocks as a base and a prefix length.\<close>

definition ipv4_nat :: "nat \<Rightarrow> nat \<Rightarrow> nat \<Rightarrow> nat \<Rightarrow> nat" where
  "ipv4_nat a b c d = ((a * 256 + b) * 256 + c) * 256 + d"

definition ipv4_word :: "nat \<Rightarrow> nat \<Rightarrow> nat \<Rightarrow> nat \<Rightarrow> 32 word" where
  "ipv4_word a b c d = of_nat (ipv4_nat a b c d)"

definition in_block :: "32 word \<Rightarrow> 32 word \<times> nat \<Rightarrow> bool" where
  "in_block w blk = (drop_bit (32 - snd blk) w = drop_bit (32 - snd blk) (fst blk))"

definition PRIVATE_BLOCKS :: "(32 word \<times> nat) list" where
  "PRIVATE_BLOCKS = [(ipv4_word 0 0 0 0, 8), (ipv4_word 10 0 0 0, 8), (ipv4_word 127 0 0 0, 8), (ipv4_word 100 64 0 0, 10),
     (ipv4_word 169 254 0 0, 16), (ipv4_word 172 16 0 0, 12), (ipv4_word 192 168 0 0, 16), (ipv4_word 192 0 0 0, 24),
     (ipv4_word 198 18 0 0, 15), (ipv4_word 224 0 0 0, 3)]"

lemma show_nat_no: "\<not> is_digit c \<Longrightarrow> c \<notin> set (show_nat n)"
  by (auto dest: show_nat_digits)

lemma not_digit_char [simp]: "\<not> is_digit (CHR ''.'')" "\<not> is_digit (CHR '','')" "\<not> is_digit (CHR ''='')" "\<not> is_digit (CHR '':'')"
  by (simp_all add: is_digit_def ch_range_def)

lemma split_dotted: "split_on (CHR ''.'') (dotted a b c d) = [show_nat a, show_nat b, show_nat c, show_nat d]"
  by (simp add: dotted_def split_on_first split_on_none show_nat_no)

lemma isPrivateIPv4_dotted:
  "isPrivateIPv4 (dotted a b c d) \<longleftrightarrow>
     a = 0 \<or> a = 10 \<or> a = 127 \<or> (a = 100 \<and> 64 \<le> b \<and> b \<le> 127) \<or> (a = 169 \<and> b = 254) \<or> (a = 172 \<and> 16 \<le> b \<and> b \<le> 31)
     \<or> (a = 192 \<and> b = 168) \<or> (a = 192 \<and> b = 0 \<and> c = 0) \<or> (a = 198 \<and> (b = 18 \<or> b = 19)) \<or> a \<ge> 224"
proof -
  have p: "part_is (map js_Number [show_nat a, show_nat b, show_nat c, show_nat d]) i P =
      (i < 4 \<and> P (of_nat ([a, b, c, d] ! i)))" for i P
    by (auto simp: part_is_def js_Number_show_nat less_Suc_eq numeral_eq_Suc)
  have n: "(of_nat x :: rat) = numeral k \<longleftrightarrow> x = numeral k" "(numeral k :: rat) \<le> of_nat x \<longleftrightarrow> numeral k \<le> x"
      "(of_nat x :: rat) \<le> numeral k \<longleftrightarrow> x \<le> numeral k" for x k
    by (metis of_nat_eq_iff of_nat_numeral, metis of_nat_le_iff of_nat_numeral, metis of_nat_le_iff of_nat_numeral)
  show ?thesis unfolding isPrivateIPv4_def split_dotted Let_def p by (simp add: n)
qed

lemma in_block_nat:
  assumes "x < 2 ^ 32" "y < 2 ^ 32"
  shows "in_block (of_nat x) (of_nat y, n) \<longleftrightarrow> x div 2 ^ (32 - n) = y div 2 ^ (32 - n)"
proof -
  have "unat (drop_bit k (of_nat z :: 32 word)) = z div 2 ^ k" if "z < 2 ^ 32" for z k
    using that unfolding unat_drop_bit_eq by (simp only: drop_bit_eq_div unat_of_nat take_bit_eq_mod) simp
  then show ?thesis using assms by (simp add: in_block_def word_unat_eq_iff)
qed

lemma div_is: "0 < k \<Longrightarrow> (n::nat) div k = q \<longleftrightarrow> q * k \<le> n \<and> n < Suc q * k"
  by (metis div_less_iff_less_mult less_Suc_eq_le less_eq_div_iff_mult_less_eq order_antisym_conv order_refl)

lemma div_mult_add: "0 < k \<Longrightarrow> (a * (m * k) + b) div k = a * m + b div (k::nat)"
proof -
  assume "0 < k"
  then have "(b + (a * m) * k) div k = a * m + b div k" by (simp only: div_mult_self1)
  moreover have "a * (m * k) + b = b + (a * m) * k" by simp
  ultimately show ?thesis by (simp only:)
qed

lemma ipv4_div:
  assumes "b < 256" "c < 256" "d < 256"
  shows "ipv4_nat a b c d div 16777216 = a"
    and "ipv4_nat a b c d div 65536 = a * 256 + b"
    and "ipv4_nat a b c d div 256 = (a * 256 + b) * 256 + c"
    and "ipv4_nat a b c d div 4194304 = a * 4 + b div 64"
    and "ipv4_nat a b c d div 1048576 = a * 16 + b div 16"
    and "ipv4_nat a b c d div 131072 = a * 128 + b div 2"
    and "ipv4_nat a b c d div 536870912 = a div 32"
proof -
  let ?x = "ipv4_nat a b c d"
  have c: "?x div 256 = (a * 256 + b) * 256 + c"
    unfolding ipv4_nat_def using assms by simp
  have b: "?x div 65536 = a * 256 + b"
  proof -
    have "?x div 65536 = ?x div 256 div 256" by (simp flip: div_mult2_eq)
    also have "\<dots> = a * 256 + b" unfolding c using assms by simp
    finally show ?thesis .
  qed
  have a: "?x div 16777216 = a"
  proof -
    have "?x div 16777216 = ?x div 65536 div 256" by (simp flip: div_mult2_eq)
    also have "\<dots> = a" unfolding b using assms by simp
    finally show ?thesis .
  qed
  show "?x div 256 = (a * 256 + b) * 256 + c" "?x div 65536 = a * 256 + b" "?x div 16777216 = a" by (fact c b a)+
  have "?x div 4194304 = ?x div 65536 div 64" by (simp flip: div_mult2_eq)
  then show "?x div 4194304 = a * 4 + b div 64" unfolding b using div_mult_add [of 64 a 4 b] by simp
  have "?x div 1048576 = ?x div 65536 div 16" by (simp flip: div_mult2_eq)
  then show "?x div 1048576 = a * 16 + b div 16" unfolding b using div_mult_add [of 16 a 16 b] by simp
  have "?x div 131072 = ?x div 65536 div 2" by (simp flip: div_mult2_eq)
  then show "?x div 131072 = a * 128 + b div 2" unfolding b using div_mult_add [of 2 a 128 b] by simp
  have "?x div 536870912 = ?x div 16777216 div 32" by (simp flip: div_mult2_eq)
  then show "?x div 536870912 = a div 32" unfolding a .
qed

lemma ipv4_nat_bound: "a < 256 \<Longrightarrow> b < 256 \<Longrightarrow> c < 256 \<Longrightarrow> d < 256 \<Longrightarrow> ipv4_nat a b c d < 2 ^ 32"
  by (simp add: ipv4_nat_def)

lemma in_block_octets:
  assumes "a < 256" "b < 256" "c < 256" "d < 256" "y < 2 ^ 32"
  shows "in_block (ipv4_word a b c d) (of_nat y, n) \<longleftrightarrow> ipv4_nat a b c d div 2 ^ (32 - n) = y div 2 ^ (32 - n)"
  using in_block_nat [OF ipv4_nat_bound [OF assms(1-4)] assms(5), of n] by (simp add: ipv4_word_def)

lemma quot_rem_eq: "q < m \<Longrightarrow> r < m \<Longrightarrow> a * m + q = e * m + r \<longleftrightarrow> a = e \<and> q = (r::nat)"
  by (metis add_right_cancel div_mult_self3 div_less mod_less mod_mult_self3 add_0_right less_nat_zero_code)

lemma private_blocks_octets:
  assumes "a < 256" "b < 256" "c < 256" "d < 256"
  shows "list_ex (in_block (ipv4_word a b c d)) PRIVATE_BLOCKS \<longleftrightarrow> isPrivateIPv4 (dotted a b c d)"
proof -
  note d = ipv4_div [OF assms(2-4), of a]
  have block: "in_block (ipv4_word a b c d) (ipv4_word e f g h, n) \<longleftrightarrow>
      ipv4_nat a b c d div 2 ^ (32 - n) = ipv4_nat e f g h div 2 ^ (32 - n)"
    if "e < 256" "f < 256" "g < 256" "h < 256" for e f g h n
    using in_block_octets [OF assms ipv4_nat_bound [OF that], of n] by (simp add: ipv4_word_def)
  have "in_block (ipv4_word a b c d) (ipv4_word 0 0 0 0, 8) \<longleftrightarrow> a = 0"
      "in_block (ipv4_word a b c d) (ipv4_word 10 0 0 0, 8) \<longleftrightarrow> a = 10"
      "in_block (ipv4_word a b c d) (ipv4_word 127 0 0 0, 8) \<longleftrightarrow> a = 127"
    by (simp_all add: block d) (simp_all add: ipv4_nat_def)
  moreover have "in_block (ipv4_word a b c d) (ipv4_word 100 64 0 0, 10) \<longleftrightarrow> a = 100 \<and> 64 \<le> b \<and> b \<le> 127"
  proof -
    have "in_block (ipv4_word a b c d) (ipv4_word 100 64 0 0, 10) \<longleftrightarrow> a * 4 + b div 64 = 401"
      by (simp add: block d) (simp add: ipv4_nat_def)
    moreover have "b div 64 = 1 \<longleftrightarrow> 64 \<le> b \<and> b \<le> 127" using div_is [of 64 b 1] by auto
    ultimately show ?thesis using assms(2) quot_rem_eq [of "b div 64" 4 1 a 100] by simp
  qed
  moreover have "in_block (ipv4_word a b c d) (ipv4_word 169 254 0 0, 16) \<longleftrightarrow> a = 169 \<and> b = 254"
    using assms(2) quot_rem_eq [of b 256 254 a 169] by (simp add: block d) (simp add: ipv4_nat_def)
  moreover have "in_block (ipv4_word a b c d) (ipv4_word 172 16 0 0, 12) \<longleftrightarrow> a = 172 \<and> 16 \<le> b \<and> b \<le> 31"
  proof -
    have "in_block (ipv4_word a b c d) (ipv4_word 172 16 0 0, 12) \<longleftrightarrow> a * 16 + b div 16 = 2753"
      by (simp add: block d) (simp add: ipv4_nat_def)
    moreover have "b div 16 = 1 \<longleftrightarrow> 16 \<le> b \<and> b \<le> 31" using div_is [of 16 b 1] by auto
    ultimately show ?thesis using assms(2) quot_rem_eq [of "b div 16" 16 1 a 172] by simp
  qed
  moreover have "in_block (ipv4_word a b c d) (ipv4_word 192 168 0 0, 16) \<longleftrightarrow> a = 192 \<and> b = 168"
    using assms(2) quot_rem_eq [of b 256 168 a 192] by (simp add: block d) (simp add: ipv4_nat_def)
  moreover have "in_block (ipv4_word a b c d) (ipv4_word 192 0 0 0, 24) \<longleftrightarrow> a = 192 \<and> b = 0 \<and> c = 0"
  proof -
    have "in_block (ipv4_word a b c d) (ipv4_word 192 0 0 0, 24) \<longleftrightarrow> (a * 256 + b) * 256 + c = (192 * 256 + 0) * 256 + 0"
      using block [of 192 0 0 0 24] unfolding d(3) [symmetric] by (simp add: ipv4_nat_def [of 192])
    also have "\<dots> \<longleftrightarrow> a * 256 + b = 192 * 256 + 0 \<and> c = 0" by (rule quot_rem_eq) (use assms(3) in simp_all)
    also have "a * 256 + b = 192 * 256 + 0 \<longleftrightarrow> a = 192 \<and> b = 0" by (rule quot_rem_eq) (use assms(2) in simp_all)
    finally show ?thesis by simp
  qed
  moreover have "in_block (ipv4_word a b c d) (ipv4_word 198 18 0 0, 15) \<longleftrightarrow> a = 198 \<and> (b = 18 \<or> b = 19)"
  proof -
    have "in_block (ipv4_word a b c d) (ipv4_word 198 18 0 0, 15) \<longleftrightarrow> a * 128 + b div 2 = 25353"
      by (simp add: block d) (simp add: ipv4_nat_def)
    moreover have "b div 2 = 9 \<longleftrightarrow> b = 18 \<or> b = 19" using div_is [of 2 b 9] by auto
    ultimately show ?thesis using assms(2) quot_rem_eq [of "b div 2" 128 9 a 198] by simp
  qed
  moreover have "in_block (ipv4_word a b c d) (ipv4_word 224 0 0 0, 3) \<longleftrightarrow> a \<ge> 224"
  proof -
    have "in_block (ipv4_word a b c d) (ipv4_word 224 0 0 0, 3) \<longleftrightarrow> a div 32 = 7"
      by (simp add: block d) (simp add: ipv4_nat_def)
    with assms(1) show ?thesis using div_is [of 32 a 7] by auto
  qed
  ultimately show ?thesis by (simp add: PRIVATE_BLOCKS_def isPrivateIPv4_dotted)
qed

lemma is_ipv4_dotted:
  assumes "a < 256" "b < 256" "c < 256" "d < 256"
  shows "is_ipv4 (dotted a b c d)"
proof -
  have "octet_text (show_nat n)" if "n < 256" for n
  proof -
    consider "n < 10" | "10 \<le> n" "n < 100" | "100 \<le> n" by linarith
    then show ?thesis
    proof cases
      case 1
      then show ?thesis by (simp add: octet_text_def read_show_nat) (simp add: show_nat_def show_base.simps [of 10])
    next
      case 2
      then have "show_nat n = [digit_char (n div 10), digit_char (n mod 10)]" "n div 10 < 10" "n div 10 \<noteq> 0"
        by (simp_all add: show_nat_def show_base.simps [of 10])
      moreover have "digit_char (n div 10) \<noteq> CHR ''0''"
        using digit_val_digit_char [of "n div 10"] calculation(2,3) by (auto simp: digit_val_def is_digit_def ch_range_def)
      ultimately show ?thesis using that read_show_nat [of n] show_nat_all_digits [of n] by (simp add: octet_text_def)
    next
      case 3
      then have e: "show_nat n = [digit_char (n div 100), digit_char (n div 10 mod 10), digit_char (n mod 10)]"
          "n div 100 < 10" "n div 100 \<noteq> 0"
      proof -
        have "n div 10 div 10 = n div 100" by (simp flip: div_mult2_eq)
        moreover have "n div 100 < 10" "\<not> n div 10 < 10" using 3 that by linarith+
        ultimately show "show_nat n = [digit_char (n div 100), digit_char (n div 10 mod 10), digit_char (n mod 10)]"
            "n div 100 < 10" "n div 100 \<noteq> 0"
          using 3 by (simp_all add: show_nat_def show_base.simps [of 10])
      qed
      moreover have "digit_char (n div 100) \<noteq> CHR ''0''"
        using digit_val_digit_char [of "n div 100"] e(2,3) by (auto simp: digit_val_def is_digit_def ch_range_def)
      ultimately show ?thesis using that read_show_nat [of n] show_nat_all_digits [of n] by (simp add: octet_text_def)
    qed
  qed
  then show ?thesis using assms by (simp add: is_ipv4_def split_dotted)
qed

section \<open>The signature of a delivery verifies\<close>

definition hmac_bytes :: "hmac \<Rightarrow> bool" where
  "hmac_bytes hmac = (\<forall>secret text. hmac secret text \<noteq> [] \<and> list_all (\<lambda>b. b < 256) (hmac secret text))"

lemma is_hex_digit_char: "d < 16 \<Longrightarrow> is_hex (digit_char d)"
  using hex_digit_hex by (simp add: hex_digit_def)

lemma hex_bytes_hex: "list_all (\<lambda>b. b < 256) bs \<Longrightarrow> hex_bytes (bytes_hex bs) = bs"
proof (induction bs)
  case (Cons b bs)
  then have "b div 16 < 16" using div_is [of 16 b] by (simp add: less_mult_imp_div_less)
  with Cons show ?case by (simp add: bytes_hex_def is_hex_digit_char digit_val_digit_char)
qed (simp add: bytes_hex_def)

lemma bytes_hex_chars: "list_all (\<lambda>b. b < 256) bs \<Longrightarrow> c \<in> set (bytes_hex bs) \<Longrightarrow> is_hex c"
  by (induction bs) (auto simp: bytes_hex_def is_hex_digit_char)

lemma header_entry_pair:
  assumes "CHR ''='' \<notin> set k" "\<forall>c \<in> set k. \<not> is_ws c" "\<forall>c \<in> set v. \<not> is_ws c"
  shows "header_entry (k @ CHR ''='' # v) = (k, v)"
proof -
  have "takeWhile (\<lambda>c. c \<noteq> CHR ''='') (k @ CHR ''='' # v) = k" "dropWhile (\<lambda>c. c \<noteq> CHR ''='') (k @ CHR ''='' # v) = CHR ''='' # v"
    using assms(1) by (induction k) auto
  then show ?thesis using assms by (simp add: header_entry_def js_trim_no_ws)
qed

lemma hex_not_ws: "is_hex c \<Longrightarrow> \<not> is_ws c" and hex_not_comma: "is_hex c \<Longrightarrow> c \<noteq> CHR '',''"
  by (auto simp: is_hex_def is_digit_def ch_range_def is_ws_def)

text \<open>What \<open>deliver\<close> writes into the header is read back part by part.\<close>

lemma header_part_signature:
  assumes "hmac_bytes hmac"
  shows "header_part (signature_header hmac secret timestamp body) ''t'' = Some (show_int timestamp)"
    and "header_part (signature_header hmac secret timestamp body) ''v1'' = Some (sign_body hmac secret timestamp body)"
proof -
  let ?t = "''t='' @ show_int timestamp" and ?v = "''v1='' @ sign_body hmac secret timestamp body"
  have hex: "is_hex c" if "c \<in> set (sign_body hmac secret timestamp body)" for c
    using assms bytes_hex_chars that by (auto simp: hmac_bytes_def sign_body_def)
  have t: "CHR '','' \<notin> set ?t" by (auto dest: show_int_chars)
  have v: "CHR '','' \<notin> set ?v" using hex hex_not_comma by auto
  have "split_on (CHR '','') (signature_header hmac secret timestamp body) = [?t, ?v]"
    using split_on_first [OF t, of ?v] split_on_none [OF v] by (simp add: signature_header_def)
  moreover have "header_entry ?t = (''t'', show_int timestamp)"
  proof -
    have "\<not> is_ws c" if "c \<in> set (show_int timestamp)" for c
      using show_int_chars [OF that] digit_not_ws by (auto simp: is_ws_def)
    then show ?thesis using header_entry_pair [of "''t''" "show_int timestamp"] by (simp add: is_ws_def)
  qed
  moreover have "header_entry ?v = (''v1'', sign_body hmac secret timestamp body)"
    using header_entry_pair [of "''v1''" "sign_body hmac secret timestamp body"] hex hex_not_ws by (auto simp: is_ws_def)
  ultimately show "header_part (signature_header hmac secret timestamp body) ''t'' = Some (show_int timestamp)"
      "header_part (signature_header hmac secret timestamp body) ''v1'' = Some (sign_body hmac secret timestamp body)"
    by (simp_all add: header_part_def)
qed

lemma verify_signature:
  assumes "hmac_bytes hmac"
  shows "verifyWebhookSignature hmac secret' (signature_header hmac secret timestamp body) body' tolerance now \<longleftrightarrow>
    \<bar>now - timestamp\<bar> \<le> tolerance \<and> hmac secret' (signed_text timestamp body') = hmac secret (signed_text timestamp body)"
proof -
  have h: "hex_bytes (sign_body hmac s timestamp b) = hmac s (signed_text timestamp b)" for s b
    using assms by (simp add: sign_body_def hex_bytes_hex hmac_bytes_def)
  have "sign_body hmac secret timestamp body \<noteq> []"
    using assms h [of secret body] by (metis hmac_bytes_def hex_bytes.simps(2))
  then show ?thesis
    unfolding verifyWebhookSignature_def header_part_signature [OF assms]
    by (auto simp: js_Number_show_int Let_def truthy_def h)
qed

end
