(* ===== verification/Webhooks.thy ===== *)
theory Webhooks
  imports Webhook_Target Event_Order
begin

text \<open>
  The webhook manager (\<open>packages/api/src/webhooks.ts\<close>): the delivery limiters, registration,
  and the dispatcher that pumps the events of the store into a subscription. \<open>post\<close> answers the
  HTTP request of an attempt (a status, or the message of the error), \<open>halted\<close> says at which of
  its checks a delivery finds the manager stopped or the subscription removed. Ids, secrets and
  times come from outside.
\<close>

section \<open>Rate limiting\<close>

record rate_limiter =
  wl_perMinute :: nat
  wl_capacity :: int
  wl_tokens :: rat
  wl_last :: int

definition new_rate_limiter :: "nat \<Rightarrow> int \<Rightarrow> rate_limiter" where
  "new_rate_limiter perMinute now =
     (let capacity = max 1 \<lceil>(of_nat perMinute :: rat) / 10\<rceil>
      in \<lparr>wl_perMinute = perMinute, wl_capacity = capacity, wl_tokens = of_int capacity, wl_last = now\<rparr>)"

definition refill :: "int \<Rightarrow> rate_limiter \<Rightarrow> rate_limiter" where
  "refill now l = l\<lparr>wl_tokens := min (of_int (wl_capacity l))
       (wl_tokens l + of_int ((now - wl_last l) * int (wl_perMinute l)) / 60000), wl_last := now\<rparr>"

definition waitMs :: "int \<Rightarrow> rate_limiter \<Rightarrow> int \<times> rate_limiter" where
  "waitMs now l =
     (let l = refill now l
      in (if wl_tokens l \<ge> 1 then 0 else \<lceil>(1 - wl_tokens l) * 60000 / of_nat (wl_perMinute l)\<rceil>, l))"

definition consume :: "int \<Rightarrow> rate_limiter \<Rightarrow> rate_limiter" where
  "consume now l = (let l = refill now l in l\<lparr>wl_tokens := wl_tokens l - 1\<rparr>)"

text \<open>The wait for both budgets, with a timer that fires when asked; None is a loop longer than \<open>fuel\<close>.\<close>

fun throttle :: "nat \<Rightarrow> int \<Rightarrow> rate_limiter \<Rightarrow> rate_limiter \<Rightarrow> (int \<times> rate_limiter \<times> rate_limiter) option" where
  "throttle 0 now own host = None"
| "throttle (Suc fuel) now own host =
     (let (w1, own) = waitMs now own; (w2, host) = waitMs now host; wait = max w1 w2
      in if wait = 0 then Some (now, consume now own, consume now host)
         else throttle fuel (now + wait) own host)"

section \<open>The manager's state\<close>

record webhook_options =
  wo_authToken :: "string option"
  wo_allowPrivateNetworks :: bool
  wo_maxSubscriptions :: nat
  wo_maxSubscriptionsPerHost :: nat
  wo_maxDeliveriesPerMinute :: nat
  wo_maxDeliveriesPerMinutePerHost :: nat
  wo_maxAttempts :: nat
  wo_retryBaseMs :: int
  wo_batchSize :: nat
  wo_deadLetterLimit :: nat

definition webhook_defaults :: "string option \<Rightarrow> webhook_options" where
  "webhook_defaults authToken =
     \<lparr>wo_authToken = authToken, wo_allowPrivateNetworks = False, wo_maxSubscriptions = 100, wo_maxSubscriptionsPerHost = 5,
      wo_maxDeliveriesPerMinute = 60, wo_maxDeliveriesPerMinutePerHost = 120, wo_maxAttempts = 5, wo_retryBaseMs = 1000,
      wo_batchSize = 50, wo_deadLetterLimit = 100\<rparr>"

definition MAX_RETRY_DELAY_MS :: int where
  "MAX_RETRY_DELAY_MS = 5 * 60000"

definition MIN_SECRET_LENGTH :: nat where
  "MIN_SECRET_LENGTH = 16"

record webhook_filter =
  wf_contractId :: "string option"
  wf_topics :: "string option list option"
  wf_address :: "string option"

record dead_letter =
  dl_id :: string
  dl_eventId :: string
  dl_attempts :: nat
  dl_lastError :: string
  dl_failedAt :: string

record subscription =
  ws_id :: string
  ws_url :: web_url
  ws_filter :: webhook_filter
  ws_secret :: string
  ws_createdAt :: string
  ws_cursor :: "string option"
  ws_busy :: bool
  ws_removed :: bool
  ws_limiter :: rate_limiter
  ws_delivered :: nat
  ws_deadLettered :: nat
  ws_deadLetters :: "dead_letter list"

record manager =
  wm_subs :: "(string \<times> subscription) list"
  wm_hostLimiters :: "(string \<times> rate_limiter) list"
  wm_timer :: bool
  wm_stopped :: bool

definition new_manager :: manager where
  "new_manager = \<lparr>wm_subs = [], wm_hostLimiters = [], wm_timer = False, wm_stopped = False\<rparr>"

definition wh_start :: "manager \<Rightarrow> manager" where
  "wh_start m = (if wm_timer m \<or> wm_stopped m then m else m\<lparr>wm_timer := True\<rparr>)"

definition wh_stop :: "manager \<Rightarrow> manager" where
  "wh_stop m = m\<lparr>wm_stopped := True, wm_timer := False\<rparr>"

section \<open>The management operations\<close>

text \<open>The token of \<open>/^Bearer\s+(.+)$/i\<close>, trimmed; empty where the header does not match.\<close>

definition bearer_text :: "string option \<Rightarrow> string" where
  "bearer_text header =
     (let h = or_else header [] in
      if js_lower (take 6 h) = ''bearer'' \<and> drop 6 h \<noteq> [] \<and> is_ws (hd (drop 6 h))
      then js_trim (drop 6 h) else [])"

definition wh_authorize :: "webhook_options \<Rightarrow> string option \<Rightarrow> (api_error, unit) result" where
  "wh_authorize opts header = (case wo_authToken opts of
       None \<Rightarrow> Inr ()
     | Some token \<Rightarrow> if bearer_text header = token then Inr ()
         else Inl (api_error_of 401 ''unauthorized'' ''A valid bearer token is required for /webhooks.'' None None))"

definition filter_error :: "string \<Rightarrow> api_error" where
  "filter_error message = badRequest message (Some ''filter'')"

definition FILTER_KEYS :: "string list" where
  "FILTER_KEYS = [''contractId'', ''topics'', ''address'']"

definition string_field :: "(string \<times> json) list \<Rightarrow> string \<Rightarrow> (api_error, url_params) result" where
  "string_field input k = (case map_of input k of
       None \<Rightarrow> Inr []
     | Some (JStr s) \<Rightarrow> Inr [(k, s)]
     | Some _ \<Rightarrow> Inl (filter_error (quoted (''filter.'' @ k) @ '' must be a string.'')))"

fun topic_texts :: "json list \<Rightarrow> string list option" where
  "topic_texts [] = Some []"
| "topic_texts (JNull # js) = map_option ((#) ''*'') (topic_texts js)"
| "topic_texts (JStr s # js) = map_option ((#) s) (topic_texts js)"
| "topic_texts (_ # js) = None"

definition topics_field :: "(string \<times> json) list \<Rightarrow> (api_error, url_params) result" where
  "topics_field input =
     (let bad = Inl (filter_error (quoted ''filter.topics'' @ '' must be an array of strings (null for a wildcard).'')) in
      case map_of input ''topics'' of
        None \<Rightarrow> Inr []
      | Some (JArr js) \<Rightarrow> (case topic_texts js of None \<Rightarrow> bad | Some ts \<Rightarrow> Inr (map (\<lambda>t. (''topic'', t)) ts))
      | Some _ \<Rightarrow> bad)"

definition parseFilter :: "(string \<Rightarrow> int option) \<Rightarrow> json option \<Rightarrow> (api_error, webhook_filter) result" where
  "parseFilter date_parse raw = (case raw of
       None \<Rightarrow> Inr \<lparr>wf_contractId = None, wf_topics = None, wf_address = None\<rparr>
     | Some (JObj input) \<Rightarrow>
         (case find (\<lambda>(k, v). k \<notin> set FILTER_KEYS) input of
            Some (k, v) \<Rightarrow> Inl (filter_error (''Unknown filter field '' @ quoted k @ ''. Supported: contractId, topics, address.''))
          | None \<Rightarrow>
              res_bind (string_field input ''contractId'') (\<lambda>p1. res_bind (string_field input ''address'') (\<lambda>p2.
              res_bind (topics_field input) (\<lambda>p3. res_bind (parseEventQuery date_parse (p1 @ p2 @ p3)) (\<lambda>q.
              res_bind (case map_of input ''contractId'' of
                  Some (JStr c) \<Rightarrow> res_bind (assertContractId c) (\<lambda>c. Inr (Some c)) | _ \<Rightarrow> Inr None) (\<lambda>c.
                Inr \<lparr>wf_contractId = c, wf_topics = (if p3 = [] then None else Some (q_topics q)),
                  wf_address = non_empty (q_address q)\<rparr>))))))
     | Some _ \<Rightarrow> Inl (filter_error (quoted ''filter'' @ '' must be an object.'')))"

definition filter_query :: "webhook_filter \<Rightarrow> event_query" where
  "filter_query f = empty_query\<lparr>q_contractId := wf_contractId f, q_topics := or_else (wf_topics f) [],
     q_address := wf_address f\<rparr>"

definition too_many :: "string \<Rightarrow> api_error" where
  "too_many message = api_error_of 429 ''too_many_webhooks'' message None None"

definition on_host :: "string \<Rightarrow> manager \<Rightarrow> nat" where
  "on_host host m = length (filter (\<lambda>(i, s). bareHostname (ws_url s) = host) (wm_subs m))"

definition secret_of :: "string \<Rightarrow> json option \<Rightarrow> (api_error, string) result" where
  "secret_of fresh raw = (case raw of
       None \<Rightarrow> Inr fresh
     | Some (JStr s) \<Rightarrow> if length s \<ge> MIN_SECRET_LENGTH then Inr s
         else Inl (badRequest (quoted ''secret'' @ '' must be a string of at least '' @ show_nat MIN_SECRET_LENGTH @ '' characters.'') (Some ''secret''))
     | Some _ \<Rightarrow> Inl (badRequest (quoted ''secret'' @ '' must be a string of at least '' @ show_nat MIN_SECRET_LENGTH @ '' characters.'') (Some ''secret'')))"

text \<open>
  What registration takes from outside: the URL parser, the resolver, \<open>Date.parse\<close>, the fresh
  id and secret, the time, and the answer of the store's newest-match query.
\<close>

record register_env =
  rg_is_ipv6 :: "string \<Rightarrow> bool"
  rg_parse_url :: "string \<Rightarrow> web_url option"
  rg_resolve :: "string \<Rightarrow> string list option"
  rg_date_parse :: "string \<Rightarrow> int option"
  rg_id :: string
  rg_secret :: string
  rg_now :: int
  rg_nowText :: string
  rg_newest :: "event_query \<Rightarrow> (query_error, lens_event list) result"

datatype register_error = RegisterRefused api_error | StoreFailed query_error

definition refused :: "(api_error, 'a) result \<Rightarrow> (register_error, 'a) result" where
  "refused r = (case r of Inl e \<Rightarrow> Inl (RegisterRefused e) | Inr a \<Rightarrow> Inr a)"

definition new_subscription :: "webhook_options \<Rightarrow> register_env \<Rightarrow> web_url \<Rightarrow> webhook_filter \<Rightarrow> string \<Rightarrow> lens_event list \<Rightarrow> subscription" where
  "new_subscription opts env url flt secret newest =
     \<lparr>ws_id = rg_id env, ws_url = url, ws_filter = flt, ws_secret = secret, ws_createdAt = rg_nowText env,
      ws_cursor = (case newest of [] \<Rightarrow> None | e # _ \<Rightarrow> Some (le_id e)), ws_busy = False, ws_removed = False,
      ws_limiter = new_rate_limiter (wo_maxDeliveriesPerMinute opts) (rg_now env), ws_delivered = 0, ws_deadLettered = 0,
      ws_deadLetters = []\<rparr>"

definition register :: "webhook_options \<Rightarrow> register_env \<Rightarrow> json \<Rightarrow> manager \<Rightarrow> (register_error, subscription) result \<times> manager" where
  "register opts env input m =
     (case (case input of
          JObj body \<Rightarrow>
            res_bind (refused (parseWebhookUrl (rg_is_ipv6 env) (rg_parse_url env) (map_of body ''url'') (wo_allowPrivateNetworks opts))) (\<lambda>url.
            res_bind (refused (if wo_allowPrivateNetworks opts then Inr ()
                else assertResolvesPublicly (rg_is_ipv6 env) (rg_resolve env) url)) (\<lambda>_.
            res_bind (refused (parseFilter (rg_date_parse env) (map_of body ''filter''))) (\<lambda>flt.
            res_bind (refused (secret_of (rg_secret env) (map_of body ''secret''))) (\<lambda>secret.
            if length (wm_subs m) \<ge> wo_maxSubscriptions opts
            then Inl (RegisterRefused (too_many (''At most '' @ show_nat (wo_maxSubscriptions opts) @ '' webhooks can be registered.'')))
            else if on_host (bareHostname url) m \<ge> wo_maxSubscriptionsPerHost opts
            then Inl (RegisterRefused (too_many (''At most '' @ show_nat (wo_maxSubscriptionsPerHost opts) @ '' webhooks can target one host.'')))
            else (case rg_newest env ((filter_query flt)\<lparr>q_order := Some Desc, q_limit := Some 1\<rparr>) of
                Inl e \<Rightarrow> Inl (StoreFailed e)
              | Inr newest \<Rightarrow> Inr (new_subscription opts env url flt secret newest))))))
        | _ \<Rightarrow> Inl (RegisterRefused (badRequest ''The request body must be a JSON object.'' None))) of
        Inl e \<Rightarrow> (Inl e, m)
      | Inr sub \<Rightarrow> (Inr sub, m\<lparr>wm_subs := map_set (ws_id sub) sub (wm_subs m)\<rparr>))"

definition wh_find :: "string \<Rightarrow> manager \<Rightarrow> (api_error, subscription) result" where
  "wh_find i m = (case map_of (wm_subs m) i of
       None \<Rightarrow> Inl (notFound (''No webhook with id '' @ quoted i @ ''.'')) | Some s \<Rightarrow> Inr s)"

record webhook_view =
  wv_id :: string
  wv_url :: string
  wv_filter :: webhook_filter
  wv_createdAt :: string
  wv_delivered :: nat
  wv_deadLettered :: nat

definition wh_view :: "subscription \<Rightarrow> webhook_view" where
  "wh_view s = \<lparr>wv_id = ws_id s, wv_url = wu_text (ws_url s), wv_filter = ws_filter s, wv_createdAt = ws_createdAt s,
     wv_delivered = ws_delivered s, wv_deadLettered = ws_deadLettered s\<rparr>"

definition wh_list :: "manager \<Rightarrow> webhook_view list" where
  "wh_list m = map (\<lambda>(i, s). wh_view s) (wm_subs m)"

definition wh_get :: "string \<Rightarrow> manager \<Rightarrow> (api_error, webhook_view) result" where
  "wh_get i m = res_bind (wh_find i m) (\<lambda>s. Inr (wh_view s))"

definition wh_remove :: "string \<Rightarrow> manager \<Rightarrow> (api_error, unit) result \<times> manager" where
  "wh_remove i m = (case wh_find i m of
       Inl e \<Rightarrow> (Inl e, m)
     | Inr s \<Rightarrow> (Inr (), m\<lparr>wm_subs := filter (\<lambda>(j, s). j \<noteq> i) (wm_subs m)\<rparr>))"

definition wh_deadLetters :: "string \<Rightarrow> manager \<Rightarrow> (api_error, dead_letter list) result" where
  "wh_deadLetters i m = res_bind (wh_find i m) (\<lambda>s. Inr (ws_deadLetters s))"

definition hostLimiter :: "webhook_options \<Rightarrow> int \<Rightarrow> string \<Rightarrow> manager \<Rightarrow> rate_limiter \<times> manager" where
  "hostLimiter opts now host m = (case map_of (wm_hostLimiters m) host of
       Some l \<Rightarrow> (l, m)
     | None \<Rightarrow> (let l = new_rate_limiter (wo_maxDeliveriesPerMinutePerHost opts) now
         in (l, m\<lparr>wm_hostLimiters := map_set host l (wm_hostLimiters m)\<rparr>)))"

section \<open>Delivery\<close>

definition retryable :: "nat \<Rightarrow> bool" where
  "retryable status = (status \<ge> 500 \<or> status = 408 \<or> status = 429)"

datatype delivery_outcome = Delivered | Halted | Dead nat string

datatype delivery_action = Throttled | Posted nat | Slept int

definition retry_wait :: "webhook_options \<Rightarrow> nat \<Rightarrow> int" where
  "retry_wait opts attempt = min (wo_retryBaseMs opts * 2 ^ (attempt - 1)) MAX_RETRY_DELAY_MS"

definition prepend :: "'b list \<Rightarrow> 'a \<times> 'b list \<Rightarrow> 'a \<times> 'b list" where
  "prepend bs r = (fst r, bs @ snd r)"

text \<open>
  The loop over the attempts of one event, with what it does; check \<open>2 * attempt\<close> follows the
  throttle of the attempt and check \<open>2 * attempt + 1\<close> the sleep after it.
\<close>

function deliver_loop ::
    "webhook_options \<Rightarrow> (nat \<Rightarrow> (string, nat) result) \<Rightarrow> (nat \<Rightarrow> bool) \<Rightarrow> nat \<Rightarrow> nat \<Rightarrow> string \<Rightarrow>
      delivery_outcome \<times> delivery_action list" where
  "deliver_loop opts post halted attempt attempts lastError =
     (if attempt > wo_maxAttempts opts then (Dead attempts lastError, [])
      else if halted (2 * attempt) then (Halted, [Throttled])
      else
        let again = (\<lambda>err.
          if attempt < wo_maxAttempts opts
          then (if halted (2 * attempt + 1) then (Halted, [Slept (retry_wait opts attempt)])
                else prepend [Slept (retry_wait opts attempt)] (deliver_loop opts post halted (attempt + 1) attempt err))
          else deliver_loop opts post halted (attempt + 1) attempt err)
        in prepend [Throttled, Posted attempt]
          (case post attempt of
             Inr status \<Rightarrow>
               if 200 \<le> status \<and> status < 300 then (Delivered, [])
               else if \<not> retryable status then (Dead attempt (''HTTP '' @ show_nat status), [])
               else again (''HTTP '' @ show_nat status)
           | Inl message \<Rightarrow> again message))"
  by pat_completeness auto
termination
  by (relation "measure (\<lambda>(opts, post, halted, attempt, attempts, lastError). Suc (wo_maxAttempts opts) - attempt)") auto

declare deliver_loop.simps [simp del]

definition record_dead :: "webhook_options \<Rightarrow> dead_letter \<Rightarrow> subscription \<Rightarrow> subscription" where
  "record_dead opts dl sub =
     (let letters = ws_deadLetters sub @ [dl]
      in sub\<lparr>ws_deadLettered := ws_deadLettered sub + 1,
         ws_deadLetters := drop (length letters - wo_deadLetterLimit opts) letters\<rparr>)"

definition deliver ::
    "webhook_options \<Rightarrow> (nat \<Rightarrow> (string, nat) result) \<Rightarrow> (nat \<Rightarrow> bool) \<Rightarrow> (lens_event \<Rightarrow> string \<times> string) \<Rightarrow> lens_event \<Rightarrow> subscription \<Rightarrow>
      (delivery_outcome \<times> delivery_action list) \<times> subscription" where
  "deliver opts post halted stamp event sub =
     (let r = deliver_loop opts post halted 1 0 ''unknown error''
      in (r, case fst r of
           Delivered \<Rightarrow> sub\<lparr>ws_delivered := ws_delivered sub + 1\<rparr>
         | Halted \<Rightarrow> sub
         | Dead attempts lastError \<Rightarrow> record_dead opts \<lparr>dl_id = fst (stamp event), dl_eventId = le_id event, dl_attempts = attempts,
             dl_lastError = lastError, dl_failedAt = snd (stamp event)\<rparr> sub))"

section \<open>The dispatcher\<close>

text \<open>
  The world a dispatch runs in: the answers to the attempts of each event, the halts seen at
  the checks of each event (check 0 is the one before the event), and the ids and times of
  dead letters.
\<close>

record dispatch_env =
  de_post :: "lens_event \<Rightarrow> nat \<Rightarrow> (string, nat) result"
  de_halted :: "lens_event \<Rightarrow> nat \<Rightarrow> bool"
  de_stamp :: "lens_event \<Rightarrow> string \<times> string"

type_synonym delivery_log = "(string \<times> delivery_outcome \<times> delivery_action list) list"

fun deliver_events ::
    "webhook_options \<Rightarrow> dispatch_env \<Rightarrow> lens_event list \<Rightarrow> subscription \<Rightarrow> (bool \<times> delivery_log) \<times> subscription" where
  "deliver_events opts env [] sub = ((False, []), sub)"
| "deliver_events opts env (e # es) sub =
     (if de_halted env e 0 then ((True, []), sub)
      else
        let (r, sub) = deliver opts (de_post env e) (de_halted env e) (de_stamp env) e sub;
            sub = sub\<lparr>ws_cursor := Some (le_id e)\<rparr>;
            ((stopped, dlog), sub) = deliver_events opts env es sub
        in ((stopped, (le_id e, r) # dlog), sub))"

definition pump_query :: "webhook_options \<Rightarrow> subscription \<Rightarrow> event_query" where
  "pump_query opts sub = (filter_query (ws_filter sub))\<lparr>q_order := Some Asc, q_limit := Some (of_nat (wo_batchSize opts)),
     q_cursor := (if truthy (ws_cursor sub) then ws_cursor sub else None)\<rparr>"

fun pump_loop ::
    "webhook_options \<Rightarrow> dispatch_env \<Rightarrow> codec \<Rightarrow> int \<Rightarrow> event_store \<Rightarrow> nat \<Rightarrow> subscription \<Rightarrow> (delivery_log \<times> subscription) option" where
  "pump_loop opts env cd now s 0 sub = None"
| "pump_loop opts env cd now s (Suc fuel) sub =
     (case fst (queryEvents cd now (pump_query opts sub) s) of
        Inl e \<Rightarrow> Some ([], sub)
      | Inr page \<Rightarrow>
          (let ((stopped, dlog), sub) = deliver_events opts env (pg_events page) sub in
           if stopped \<or> \<not> truthy (pg_nextCursor page) \<or> pg_events page = [] then Some (dlog, sub)
           else map_option (\<lambda>(l, s). (dlog @ l, s)) (pump_loop opts env cd now s fuel sub)))"

definition pump ::
    "webhook_options \<Rightarrow> dispatch_env \<Rightarrow> codec \<Rightarrow> int \<Rightarrow> event_store \<Rightarrow> bool \<Rightarrow> nat \<Rightarrow> subscription \<Rightarrow> (delivery_log \<times> subscription) option" where
  "pump opts env cd now s stopped fuel sub =
     (if ws_busy sub \<or> ws_removed sub \<or> stopped then Some ([], sub)
      else map_option (\<lambda>(l, sub). (l, sub\<lparr>ws_busy := False\<rparr>)) (pump_loop opts env cd now s fuel (sub\<lparr>ws_busy := True\<rparr>)))"

section \<open>What a delivery does\<close>

fun post_attempts :: "delivery_action list \<Rightarrow> nat list" where
  "post_attempts [] = []"
| "post_attempts (Posted n # as) = n # post_attempts as"
| "post_attempts (_ # as) = post_attempts as"

lemma post_attempts_append [simp]: "post_attempts (as @ bs) = post_attempts as @ post_attempts bs"
  by (induction as rule: post_attempts.induct) auto

lemma upt_cons: "a # [Suc a ..< k] = [a ..< max k (Suc a)]"
  by (auto simp: upt_conv_Cons max_def)

lemma deliver_loop_posts:
  "1 \<le> attempt \<Longrightarrow> \<exists>k. post_attempts (snd (deliver_loop opts post halted attempt attempts err)) = [attempt ..< k]
     \<and> k \<le> max attempt (Suc (wo_maxAttempts opts))"
proof (induction opts post halted attempt attempts err rule: deliver_loop.induct)
  case (1 opts post halted attempt attempts err)
  show ?case
  proof (cases "attempt > wo_maxAttempts opts \<or> halted (2 * attempt)")
    case True
    then show ?thesis by (subst deliver_loop.simps) (auto intro!: exI [of _ attempt])
  next
    case False
    have last: "\<exists>k. [attempt] = [attempt ..< k] \<and> k \<le> max attempt (Suc (wo_maxAttempts opts))"
      using False by (intro exI [of _ "Suc attempt"]) auto
    have more: "\<exists>k. attempt # post_attempts (snd (deliver_loop opts post halted (attempt + 1) attempt e)) = [attempt ..< k]
        \<and> k \<le> max attempt (Suc (wo_maxAttempts opts))"
      if nh: "attempt < wo_maxAttempts opts \<Longrightarrow> \<not> halted (2 * attempt + 1)" for e
    proof -
      obtain k where k: "post_attempts (snd (deliver_loop opts post halted (attempt + 1) attempt e)) = [Suc attempt ..< k]"
          "k \<le> max (Suc attempt) (Suc (wo_maxAttempts opts))"
      proof (cases "attempt < wo_maxAttempts opts")
        case True
        then show ?thesis using "1.IH"(1) [OF _ _ True nh [OF True], of e] False that by auto
      next
        case stop: False
        then have "deliver_loop opts post halted (attempt + 1) attempt e = (Dead attempt e, [])"
          by (subst deliver_loop.simps) simp
        then show ?thesis using that [of "Suc attempt"] by simp
      qed
      then show ?thesis using upt_cons [of attempt k] False by (intro exI [of _ "max k (Suc attempt)"]) auto
    qed
    show ?thesis
      using False last more
      by (subst deliver_loop.simps) (auto simp: prepend_def Let_def split: sum.splits)
  qed
qed

text \<open>Without a halt an event ends delivered or dead-lettered; dead letters count the attempts.\<close>

lemma deliver_loop_outcome:
  "\<forall>i. \<not> halted i \<Longrightarrow> fst (deliver_loop opts post halted attempt attempts err) \<noteq> Halted"
proof (induction opts post halted attempt attempts err rule: deliver_loop.induct)
  case (1 opts post halted attempt attempts err)
  have stop: "fst (deliver_loop opts post halted (attempt + 1) attempt e) \<noteq> Halted" if "\<not> attempt < wo_maxAttempts opts" for e
    using that by (subst deliver_loop.simps) simp
  have more: "fst (deliver_loop opts post halted (attempt + 1) attempt e) \<noteq> Halted" for e
  proof (cases "attempt < wo_maxAttempts opts")
    case True
    show ?thesis by (rule "1.IH"(1) [OF _ _ True _ "1.prems"]) (use True "1.prems" in auto)
  qed (rule stop)
  show ?case
    using "1.prems" more by (subst deliver_loop.simps) (simp add: prepend_def Let_def split: sum.splits)
qed

definition never_halted :: "dispatch_env \<Rightarrow> bool" where
  "never_halted env = (\<forall>e i. \<not> de_halted env e i)"

definition settled_count :: "subscription \<Rightarrow> nat" where
  "settled_count sub = ws_delivered sub + ws_deadLettered sub"

lemma deliver_settles:
  assumes "\<forall>i. \<not> halted i" and "deliver opts post halted stamp e sub = (r, sub')"
  shows "settled_count sub' = settled_count sub + 1" "fst r \<noteq> Halted" "\<exists>k \<le> Suc (wo_maxAttempts opts). post_attempts (snd r) = [1 ..< k]"
    "ws_filter sub' = ws_filter sub" "ws_removed sub' = ws_removed sub" "ws_busy sub' = ws_busy sub"
proof -
  have r: "r = deliver_loop opts post halted 1 0 ''unknown error''" using assms(2) by (auto simp: deliver_def Let_def)
  show "fst r \<noteq> Halted" using deliver_loop_outcome [OF assms(1)] by (simp add: r)
  then show "settled_count sub' = settled_count sub + 1" "ws_filter sub' = ws_filter sub" "ws_removed sub' = ws_removed sub"
      "ws_busy sub' = ws_busy sub"
    using assms(2) by (auto simp: deliver_def Let_def settled_count_def record_dead_def split: delivery_outcome.splits)
  show "\<exists>k \<le> Suc (wo_maxAttempts opts). post_attempts (snd r) = [1 ..< k]"
  proof (cases "wo_maxAttempts opts = 0")
    case True
    then have "post_attempts (snd r) = []" unfolding r by (subst deliver_loop.simps) simp
    then show ?thesis by (intro exI [of _ 1]) simp
  next
    case False
    then show ?thesis
      using deliver_loop_posts [of 1 opts post halted 0 "''unknown error''"] by (auto simp: r)
  qed
qed

definition log_ok :: "webhook_options \<Rightarrow> lens_event list \<Rightarrow> delivery_log \<Rightarrow> bool" where
  "log_ok opts es dlog = (map fst dlog = map le_id es \<and>
     list_all (\<lambda>(i, outcome, actions). outcome \<noteq> Halted \<and> (\<exists>k \<le> Suc (wo_maxAttempts opts). post_attempts actions = [1 ..< k])) dlog)"

lemma log_ok_append: "log_ok opts es l \<Longrightarrow> log_ok opts fs m \<Longrightarrow> log_ok opts (es @ fs) (l @ m)"
  by (simp add: log_ok_def)

lemma deliver_events_all:
  assumes "never_halted env"
  shows "\<exists>dlog sub'. deliver_events opts env es sub = ((False, dlog), sub') \<and> log_ok opts es dlog
    \<and> settled_count sub' = settled_count sub + length es \<and> ws_filter sub' = ws_filter sub \<and> ws_removed sub' = ws_removed sub
    \<and> ws_busy sub' = ws_busy sub \<and> ws_cursor sub' = (if es = [] then ws_cursor sub else Some (le_id (last es)))"
proof (induction es arbitrary: sub)
  case (Cons e es)
  obtain r sub1 where d: "deliver opts (de_post env e) (de_halted env e) (de_stamp env) e sub = (r, sub1)" by fastforce
  have h: "\<forall>i. \<not> de_halted env e i" using assms by (simp add: never_halted_def)
  note s = deliver_settles [OF h d]
  obtain dlog sub' where r: "deliver_events opts env es (sub1\<lparr>ws_cursor := Some (le_id e)\<rparr>) = ((False, dlog), sub')"
      "log_ok opts es dlog" "settled_count sub' = settled_count (sub1\<lparr>ws_cursor := Some (le_id e)\<rparr>) + length es"
      "ws_filter sub' = ws_filter sub1" "ws_removed sub' = ws_removed sub1" "ws_busy sub' = ws_busy sub1"
      "ws_cursor sub' = (if es = [] then Some (le_id e) else Some (le_id (last es)))"
    using Cons.IH [of "sub1\<lparr>ws_cursor := Some (le_id e)\<rparr>"] by auto
  have "log_ok opts (e # es) ((le_id e, r) # dlog)" using s(2,3) r(2) by (cases r) (auto simp: log_ok_def)
  then show ?case using r s d h by (auto simp: settled_count_def)
qed (simp add: log_ok_def)

section \<open>What a pump does\<close>

definition events_after :: "codec \<Rightarrow> database \<Rightarrow> webhook_filter \<Rightarrow> string option \<Rightarrow> lens_event list" where
  "events_after cd db flt cursor = map (event_of cd) (rows_after_id cd db (filter_query flt) (cursor_text cursor))"

lemma pump_page:
  fixes sub :: subscription and opts :: webhook_options
  assumes "db_served cd (es_db s)"
  defines "F \<equiv> rows_after_id cd (es_db s) (filter_query (ws_filter sub)) (cursor_text (ws_cursor sub))"
    and "n \<equiv> normaliseLimit (Some (of_nat (wo_batchSize opts)))"
  shows "\<exists>prv tot est. fst (queryEvents cd now (pump_query opts sub) s) = Inr \<lparr>pg_events = map (event_of cd) (take n F),
      pg_nextCursor = (if length F > n then Some (er_id (F ! (n - 1))) else None),
      pg_prevCursor = prv, pg_total = tot, pg_totalIsEstimate = est\<rparr>"
proof -
  let ?q = "pump_query opts sub"
  have q: "truthy (q_search ?q) \<longrightarrow> es_searchAvailable s" "store_order ?q = Asc" "q_direction ?q \<noteq> Some Backward"
      "q_limit ?q = Some (of_nat (wo_batchSize opts))"
    by (simp_all add: pump_query_def filter_query_def empty_query_def store_order_def truthy_def)
  have "cursor_text (q_cursor ?q) = cursor_text (ws_cursor sub)"
    by (auto simp: cursor_text_def truthy_def pump_query_def split: option.splits)
  moreover have "buildWhere ?q = buildWhere (filter_query (ws_filter sub))" by (simp add: buildWhere_def pump_query_def)
  ultimately have "rows_after_id cd (es_db s) ?q (cursor_text (q_cursor ?q)) = F" by (simp add: F_def rows_after_id_def)
  from asc_page [OF assms(1) q(1-3), of now, unfolded this q(4), folded n_def] show ?thesis .
qed

lemma pump_loop_all:
  assumes "db_served cd (es_db s)" "never_halted env"
  shows "length (events_after cd (es_db s) (ws_filter sub) (ws_cursor sub)) < fuel \<Longrightarrow>
    \<exists>dlog sub'. pump_loop opts env cd now s fuel sub = Some (dlog, sub')
      \<and> log_ok opts (events_after cd (es_db s) (ws_filter sub) (ws_cursor sub)) dlog
      \<and> settled_count sub' = settled_count sub + length (events_after cd (es_db s) (ws_filter sub) (ws_cursor sub))
      \<and> events_after cd (es_db s) (ws_filter sub') (ws_cursor sub') = [] \<and> ws_filter sub' = ws_filter sub
      \<and> ws_removed sub' = ws_removed sub"
proof (induction fuel arbitrary: sub)
  case (Suc fuel)
  let ?F = "rows_after_id cd (es_db s) (filter_query (ws_filter sub)) (cursor_text (ws_cursor sub))"
  define n where "n = normaliseLimit (Some (of_nat (wo_batchSize opts)))"
  let ?page = "map (event_of cd) (take n ?F)"
  have n: "0 < n" using normaliseLimit_bounds(1) [of "Some (of_nat (wo_batchSize opts))"] by (simp add: n_def)
  have dist: "distinct (db_ids (es_db s))" using assms(1) by (simp add: db_served_def db_ok_def)
  obtain prv tot est where p: "fst (queryEvents cd now (pump_query opts sub) s) = Inr \<lparr>pg_events = ?page,
      pg_nextCursor = (if length ?F > n then Some (er_id (?F ! (n - 1))) else None),
      pg_prevCursor = prv, pg_total = tot, pg_totalIsEstimate = est\<rparr>"
    using pump_page [OF assms(1), of now opts sub] by (auto simp: n_def)
  obtain dlog sub1 where d: "deliver_events opts env ?page sub = ((False, dlog), sub1)" "log_ok opts ?page dlog"
      "settled_count sub1 = settled_count sub + length ?page" "ws_filter sub1 = ws_filter sub" "ws_removed sub1 = ws_removed sub"
      "ws_cursor sub1 = (if ?page = [] then ws_cursor sub else Some (le_id (last ?page)))"
    using deliver_events_all [OF assms(2), of opts ?page sub] by auto
  have after: "events_after cd (es_db s) (ws_filter sub1) (ws_cursor sub1) = map (event_of cd) (drop n ?F)"
  proof (cases "take n ?F = []")
    case False
    have "last (take n ?F) \<in> set (db_events (es_db s))"
      using last_in_set [OF False] ordered_subset by (fastforce simp: rows_after_id_def dest: in_set_takeD)
    then have "le_id (last ?page) = er_id (last (take n ?F))"
      using False served_row(2) [OF assms(1)] by (simp add: last_map)
    then show ?thesis
      using rows_after_take [OF dist refl False] False d(4,6) by (simp add: events_after_def cursor_text_def)
  qed (use n d(4,6) in \<open>simp add: events_after_def\<close>)
  show ?case
  proof (cases "length ?F > n")
    case True
    then have "?F ! (n - 1) \<in> set (db_events (es_db s))"
      using nth_mem [of "n - 1" ?F] ordered_subset by (fastforce simp: rows_after_id_def)
    then have t: "truthy (Some (er_id (?F ! (n - 1))))"
      using assms(1) by (auto simp: truthy_def db_served_def db_ids_def image_iff)
    have "length (events_after cd (es_db s) (ws_filter sub1) (ws_cursor sub1)) < fuel"
      using Suc.prems True n by (simp add: after) (simp add: events_after_def)
    then obtain dlog' sub' where r: "pump_loop opts env cd now s fuel sub1 = Some (dlog', sub')"
        "log_ok opts (map (event_of cd) (drop n ?F)) dlog'" "settled_count sub' = settled_count sub1 + length (drop n ?F)"
        "events_after cd (es_db s) (ws_filter sub') (ws_cursor sub') = []" "ws_filter sub' = ws_filter sub1" "ws_removed sub' = ws_removed sub1"
      using Suc.IH [of sub1] after by auto
    have "log_ok opts (events_after cd (es_db s) (ws_filter sub) (ws_cursor sub)) (dlog @ dlog')"
      using log_ok_append [OF d(2) r(2)] by (simp add: events_after_def flip: map_append)
    moreover have "pump_loop opts env cd now s (Suc fuel) sub = Some (dlog @ dlog', sub')"
      using p d(1) r(1) True t n by (auto simp: Let_def)
    ultimately show ?thesis using d r True by (auto simp: events_after_def)
  next
    case False
    then have "pump_loop opts env cd now s (Suc fuel) sub = Some (dlog, sub1)"
      using p d(1) by (simp add: Let_def truthy_def)
    moreover have "drop n ?F = []" "take n ?F = ?F" using False by simp_all
    ultimately show ?thesis using d after by (auto simp: events_after_def)
  qed
qed simp

section \<open>The throttle\<close>

definition rate_ok :: "rate_limiter \<Rightarrow> bool" where
  "rate_ok l = (wl_perMinute l > 0 \<and> wl_capacity l \<ge> 1)"

lemma new_rate_limiter_ok: "0 < perMinute \<Longrightarrow> rate_ok (new_rate_limiter perMinute now)"
  by (simp add: rate_ok_def new_rate_limiter_def Let_def)

lemma waitMs_result:
  assumes "waitMs now l = (w, l')" "rate_ok l"
  shows "l' = refill now l" "rate_ok l'" "0 \<le> w" "w = 0 \<longleftrightarrow> wl_tokens l' \<ge> 1"
    "w \<noteq> 0 \<Longrightarrow> (1 - wl_tokens l') * 60000 \<le> of_int w * of_nat (wl_perMinute l')"
proof -
  show l': "l' = refill now l" using assms(1) by (simp add: waitMs_def Let_def)
  then show "rate_ok l'" using assms(2) by (simp add: rate_ok_def refill_def)
  have pm: "(of_nat (wl_perMinute l) :: rat) > 0" "wl_perMinute l' = wl_perMinute l" using assms(2) l' by (simp_all add: rate_ok_def refill_def)
  have w: "w = (if wl_tokens l' \<ge> 1 then 0 else \<lceil>(1 - wl_tokens l') * 60000 / of_nat (wl_perMinute l)\<rceil>)"
    using assms(1) l' by (auto simp: waitMs_def Let_def refill_def)
  have pos: "(1 - wl_tokens l') * 60000 / of_nat (wl_perMinute l) > 0" if "\<not> wl_tokens l' \<ge> 1" using that pm by simp
  have "\<lceil>(1 - wl_tokens l') * 60000 / of_nat (wl_perMinute l)\<rceil> > 0" if "\<not> wl_tokens l' \<ge> 1"
    using pos [OF that] by (simp only: zero_less_ceiling)
  then show "0 \<le> w" "w = 0 \<longleftrightarrow> wl_tokens l' \<ge> 1" unfolding w by (auto simp del: zero_less_ceiling) force+
  show "(1 - wl_tokens l') * 60000 \<le> of_int w * of_nat (wl_perMinute l')" if "w \<noteq> 0"
  proof -
    have "(1 - wl_tokens l') * 60000 / of_nat (wl_perMinute l) \<le> of_int w" using that w by (auto split: if_splits)
    then show ?thesis using pm by (simp add: pos_divide_le_eq)
  qed
qed

lemma refilled_enough:
  assumes "rate_ok l" "0 \<le> w" "(1 - wl_tokens l) * 60000 \<le> of_int w * of_nat (wl_perMinute l)"
  shows "wl_tokens (refill (wl_last l + w) l) \<ge> 1"
proof -
  have "1 \<le> wl_tokens l + of_int (w * int (wl_perMinute l)) / 60000" using assms(3) by (simp add: field_simps)
  then show ?thesis using assms(1) by (simp add: refill_def rate_ok_def)
qed

text \<open>With no other delivery on the host, one sleep is enough: the second look finds a token in both budgets.\<close>

lemma throttle_two:
  assumes "rate_ok own" "rate_ok host"
  shows "\<exists>later own' host'. throttle 2 now own host = Some (later, own', host') \<and> now \<le> later"
proof -
  obtain w1 own1 where w1: "waitMs now own = (w1, own1)" by fastforce
  obtain w2 host1 where w2: "waitMs now host = (w2, host1)" by fastforce
  note r1 = waitMs_result [OF w1 assms(1)] and r2 = waitMs_result [OF w2 assms(2)]
  show ?thesis
  proof (cases "max w1 w2 = 0")
    case True
    then show ?thesis by (simp add: numeral_2_eq_2 w1 w2 Let_def)
  next
    case False
    define w where "w = max w1 w2"
    have enough: "wl_tokens (refill (now + w) l) \<ge> 1"
      if "l = refill now k" "rate_ok l" "0 \<le> v" "v = 0 \<longleftrightarrow> wl_tokens l \<ge> 1"
        "v \<noteq> 0 \<Longrightarrow> (1 - wl_tokens l) * 60000 \<le> of_int v * of_nat (wl_perMinute l)" "v \<le> w" for v k l
    proof -
      have "(1 - wl_tokens l) * 60000 \<le> of_int v * of_nat (wl_perMinute l)"
        using that(3-5) by (cases "v = 0") auto
      also have "\<dots> \<le> of_int w * of_nat (wl_perMinute l)" using that(6) by (intro mult_right_mono) auto
      finally show ?thesis using refilled_enough [OF that(2), of w] that(1,3,6) by (simp add: refill_def)
    qed
    have "wl_tokens (refill (now + w) own1) \<ge> 1" by (rule enough [OF r1]) (simp_all add: w_def)
    moreover have "wl_tokens (refill (now + w) host1) \<ge> 1" by (rule enough [OF r2]) (simp_all add: w_def)
    ultimately have "fst (waitMs (now + w) own1) = 0" "fst (waitMs (now + w) host1) = 0" by (simp_all add: waitMs_def Let_def)
    then show ?thesis
      using False r1(3) by (auto simp: numeral_2_eq_2 w1 w2 Let_def w_def [symmetric] split: prod.splits) (auto simp: w_def)
  qed
qed

end
