(* ===== verification/Server.thy ===== *)
theory Server
  imports Server_Http Typed_Spec Stream_Hub Webhooks Gql_Exec
begin

text \<open>
  The HTTP server (\<open>packages/api/src/server.ts\<close>): its state, the handler of every route, and
  \<open>handle\<close>, which gates, routes, validates and answers one request. A handler's exception is
  an \<^typ>\<open>api_error\<close> or another error, answered with 500. The store is the SQLite store;
  \<open>render\<close> is \<open>JSON.stringify\<close> of a response body, and what the machine provides (time, random
  ids, digests, compression, the DNS) is the record \<open>server_env\<close>. Logging is not modelled.
\<close>

section \<open>State and answers\<close>

record server_options =
  op_corsOrigin :: "string option"
  op_version :: "string option"
  op_network :: "string option"
  op_trustProxy :: bool
  op_graphql :: "graphql_options option"
  op_webhooks :: webhook_options
  op_stream :: stream_options

record server =
  sv_store :: event_store
  sv_limiter :: "limiter option"
  sv_digests :: "string list"
  sv_specs :: spec_cache
  sv_hub :: hub
  sv_webhooks :: "manager option"
  sv_draining :: bool

datatype reply =
    RHealth bool string string string int store_stats
  | RStats store_stats "(string \<times> nat) list"
  | RStatus store_stats "stream_state list"
  | RContracts "contract_summary list"
  | RPage event_page "(string \<times> json) list list" bool
  | RActivity string string "(string \<times> nat \<times> int \<times> int) list"
  | RContract contract_summary
  | RSpec spec_row "string list"
  | RTopics string "(string \<times> nat) list"
  | RBatch "(string \<times> json) list list" "string list"
  | REvent "(string \<times> json) list"
  | RGraphql graphql_body
  | RRegistered subscription
  | RWebhooks "webhook_view list"
  | RWebhook webhook_view
  | RDeleted string
  | RDeadLetters "dead_letter list"
  | ROpenapi
  | RDocs
  | RError json

datatype failure = Refusal api_error | Failure string

datatype csv_source = ExportOf event_query | RowsOf "lens_event list"

datatype handler_result =
    Reply nat reply "string option"
  | Csv string csv_source
  | Streaming "nat option"

type_synonym handler = "server \<Rightarrow> (failure, handler_result) result \<times> server"

record server_env =
  en_now :: int
  en_codec :: codec
  en_date_parse :: "string \<Rightarrow> int option"
  en_sdk :: sdk
  en_sha1 :: "string \<Rightarrow> string"
  en_digest :: "string \<Rightarrow> string"
  en_packed :: "content_coding \<Rightarrow> string \<Rightarrow> nat"
  en_parse_json :: "string \<Rightarrow> json option"
  en_render :: "reply \<Rightarrow> string"
  en_register :: register_env
  en_iso :: "int \<Rightarrow> string"
  en_uuid :: string
  en_uptime :: int

record http_request =
  rq_method :: string
  rq_pathname :: string
  rq_params :: url_params
  rq_accept :: "string list"
  rq_acceptEncoding :: "string list"
  rq_ifNoneMatch :: "string option"
  rq_apiKey :: "string option"
  rq_authorization :: "string option"
  rq_forwarded :: "string option"
  rq_remoteAddress :: "string option"
  rq_lastEventId :: "string option"
  rq_requestId :: "string option"
  rq_body :: "string list"

section \<open>What the handlers share\<close>

definition refusal :: "(api_error, 'a) result \<Rightarrow> (failure, 'a) result" where
  "refusal r = (case r of Inl e \<Rightarrow> Inl (Refusal e) | Inr a \<Rightarrow> Inr a)"

definition query_failure :: "query_error \<Rightarrow> failure" where
  "query_failure e = Failure (case e of SearchUnavailable \<Rightarrow> ''search is not available'' | UnreadableRow \<Rightarrow> ''unreadable row'')"

text \<open>A captured segment, decoded; a malformed escape is a \<open>URIError\<close>.\<close>

definition captured :: "string list \<Rightarrow> (failure, string) result" where
  "captured params = (case decodeURIComponent (hd params) of None \<Rightarrow> Inl (Failure ''URI malformed'') | Some s \<Rightarrow> Inr s)"

definition contract_param :: "string list \<Rightarrow> (failure, string) result" where
  "contract_param params = res_bind (captured params) (\<lambda>s. refusal (assertContractId s))"

text \<open>An event as the object a response carries.\<close>

definition typed_json :: "typed_event \<Rightarrow> json" where
  "typed_json t = JObj [(''name'', JStr (te_name t)), (''source'', JStr (te_source t)),
     (''fields'', JArr (map (\<lambda>f. JObj [(''name'', JStr (tf_name f)), (''type'', JStr (tf_type f)),
       (''location'', JStr (tf_location f)), (''value'', tf_value f)]) (te_fields t)))]"

definition event_object :: "lens_event \<times> typed_event option \<Rightarrow> (string \<times> json) list" where
  "event_object et = (case et of (e, t) \<Rightarrow>
     [(''id'', JStr (le_id e)), (''contractId'', JStr (le_contractId e)), (''type'', JStr (event_type_text (le_type e))),
      (''ledger'', JNum (of_int (le_ledger e))), (''ledgerClosedAt'', JStr (le_ledgerClosedAt e)),
      (''txHash'', JStr (le_txHash e)), (''transactionIndex'', JNum (of_int (le_transactionIndex e))),
      (''operationIndex'', JNum (of_int (le_operationIndex e))),
      (''inSuccessfulContractCall'', JBool (le_inSuccessfulContractCall e)),
      (''topics'', JArr (map decoded_json (le_topics e))), (''topicsXdr'', JArr (map JStr (le_topicsXdr e))),
      (''value'', decoded_json (le_value e)), (''valueXdr'', JStr (le_valueXdr e))]
     @ (case le_decodeError e of None \<Rightarrow> [] | Some m \<Rightarrow> [(''decodeError'', JStr m)])
     @ [(''indexedAt'', JStr (le_indexedAt e))]
     @ (case t of None \<Rightarrow> [] | Some v \<Rightarrow> [(''typed'', typed_json v)]))"

definition annotated :: "server_env \<Rightarrow> lens_event list \<Rightarrow> string list option \<Rightarrow> server \<Rightarrow> (string \<times> json) list list \<times> server" where
  "annotated env events selected sv =
     (let (es, c) = annotate (en_sdk env) (\<lambda>i. Inr (getContractSpec i (es_db (sv_store sv)))) (en_now env) events (sv_specs sv)
      in (selectFields (map event_object es) selected, sv\<lparr>sv_specs := c\<rparr>))"

definition run_query :: "server_env \<Rightarrow> event_query \<Rightarrow> server \<Rightarrow> (failure, event_page) result \<times> server" where
  "run_query env q sv =
     (let (r, s) = queryEvents (en_codec env) (en_now env) q (sv_store sv)
      in (case r of Inl e \<Rightarrow> Inl (query_failure e) | Inr p \<Rightarrow> Inr p, sv\<lparr>sv_store := s\<rparr>))"

text \<open>\<open>limit\<close> of the routes that pass it on unchecked: \<open>Number\<close> of the text, where there is one.\<close>

definition plain_limit :: "url_params \<Rightarrow> js_num option" where
  "plain_limit ps = (let l = params_get ps ''limit'' in if truthy l then Some (js_Number (the l)) else None)"

text \<open>
  The store as GraphQL reads it; a failed read is a rejection. The count cache is left as it
  was before the request.
\<close>

definition sqlite_api :: "codec \<Rightarrow> int \<Rightarrow> event_store \<Rightarrow> api_store" where
  "sqlite_api cd now s =
     \<lparr>as_queryEvents = (\<lambda>q. case fst (queryEvents cd now q s) of Inl _ \<Rightarrow> Inl ''query failed'' | Inr p \<Rightarrow> Inr p),
      as_getEvent = (\<lambda>i. Inr (getEvent cd (es_db s) i)),
      as_listContracts = (\<lambda>l. Inr (listContracts (map_option JsNum l) (es_db s))),
      as_listTopics = (\<lambda>c l. Inr (listTopics c (map_option JsNum l) (es_db s)))\<rparr>"

section \<open>Handlers: the store\<close>

definition db_of :: "server \<Rightarrow> database" where
  "db_of sv = es_db (sv_store sv)"

definition health_detail :: "database \<Rightarrow> string" where
  "health_detail db =
     (let st = getStats db in
      if st_schemaVersion st = LATEST_SCHEMA_VERSION
      then ''schema v'' @ show_nat (st_schemaVersion st) @ '', '' @ show_nat (st_eventCount st) @ '' event(s)''
      else ''schema is v'' @ show_nat (st_schemaVersion st) @ '', expected v'' @ show_nat LATEST_SCHEMA_VERSION @ '' '' @ EM_DASH @ '' run migrate()'')"

definition h_health :: "server_options \<Rightarrow> server_env \<Rightarrow> handler" where
  "h_health opts env sv =
     (let ok = healthCheck (db_of sv)
      in (Inr (Reply (if ok then 200 else 503)
           (RHealth ok (health_detail (db_of sv)) (or_else (op_version opts) ''0.1.0'') (or_else (op_network opts) ''unknown'')
             (en_uptime env) (getStats (db_of sv))) None), sv))"

definition h_stats :: handler where
  "h_stats sv = (Inr (Reply 200 (RStats (getStats (db_of sv)) (countByTopic (Some (JsNum 10)) (db_of sv))) None), sv)"

definition h_status :: handler where
  "h_status sv = (Inr (Reply 200 (RStatus (getStats (db_of sv)) (listStreamStates (db_of sv))) None), sv)"

definition h_contracts :: "url_params \<Rightarrow> handler" where
  "h_contracts ps sv = (Inr (Reply 200 (RContracts (listContracts (plain_limit ps) (db_of sv))) None), sv)"

definition not_indexed :: "string \<Rightarrow> string \<Rightarrow> failure" where
  "not_indexed contractId why = Refusal (notFound (''No indexed events for contract '' @ quoted contractId @ ''. '' @ why @ ''check LENS_CONTRACT_IDS.''))"

definition contract_events_query ::
    "server_env \<Rightarrow> string list \<Rightarrow> url_params \<Rightarrow> string list \<Rightarrow> (failure, string \<times> string list option \<times> event_query \<times> bool) result" where
  "contract_events_query env params ps accept =
     res_bind (contract_param params) (\<lambda>contractId.
     res_bind (refusal (parseFields ps)) (\<lambda>selected.
     res_bind (refusal (parseEventQuery (en_date_parse env) ps)) (\<lambda>q.
     res_bind (refusal (wantsCsv ps accept)) (\<lambda>csv.
       Inr (contractId, selected, q\<lparr>q_contractId := Some contractId\<rparr>, csv)))))"

definition h_contract_events :: "server_env \<Rightarrow> string list \<Rightarrow> url_params \<Rightarrow> string list \<Rightarrow> handler" where
  "h_contract_events env params ps accept sv =
     (case contract_events_query env params ps accept of
        Inl e \<Rightarrow> (Inl e, sv)
      | Inr (contractId, selected, q, csv) \<Rightarrow>
          if csv then (Inr (Csv (contractId @ ''-events.csv'') (ExportOf q)), sv)
          else (case run_query env q sv of
              (Inl e, sv) \<Rightarrow> (Inl e, sv)
            | (Inr page, sv) \<Rightarrow>
                (let (events, sv) = annotated env (pg_events page) selected sv in
                 if pg_events page \<noteq> [] then (Inr (Reply 200 (RPage page events False) None), sv)
                 else (case run_query env (empty_query\<lparr>q_contractId := Some contractId, q_limit := Some 1\<rparr>) sv of
                     (Inl e, sv) \<Rightarrow> (Inl e, sv)
                   | (Inr known, sv) \<Rightarrow>
                       if pg_events known = []
                       then (Inl (not_indexed contractId (''The contract may not exist, or may exist on-chain but not be one this '' @
                         ''instance indexes '' @ EM_DASH @ '' '')), sv)
                       else (Inr (Reply 200 (RPage page events True) None), sv)))))"

definition bucket_of :: "string \<Rightarrow> time_bucket" where
  "bucket_of b = (if b = ''minute'' then Minute else if b = ''hour'' then Hour else Day)"

definition h_activity :: "server_env \<Rightarrow> string list \<Rightarrow> url_params \<Rightarrow> handler" where
  "h_activity env params ps sv =
     (res_bind (contract_param params) (\<lambda>contractId.
      res_bind (refusal (parseActivityQuery (en_date_parse env) ps)) (\<lambda>a.
        let counts = countByTimeBucket (en_codec env)
              (empty_query\<lparr>q_contractId := Some contractId, q_fromTime := aq_from a, q_toTime := aq_to a,
                 q_topics := or_else (aq_topics a) [], q_successfulOnly := or_else (aq_successfulOnly a) False\<rparr>)
              (bucket_of (aq_bucket a)) (db_of sv)
        in Inr (Reply 200 (RActivity contractId (aq_bucket a)
             (map (\<lambda>c. (en_iso env (bc_start c * 1000), bc_count c, bc_firstLedger c, bc_lastLedger c)) counts)) None))), sv)"

definition h_contract_stats :: "string list \<Rightarrow> handler" where
  "h_contract_stats params sv =
     (res_bind (contract_param params) (\<lambda>contractId.
        case find (\<lambda>c. cy_contractId c = contractId) (listContracts (Some (JsNum (of_nat MAX_QUERY_LIMIT))) (db_of sv)) of
          None \<Rightarrow> Inl (not_indexed contractId (''The contract may exist on-chain but not be one this instance indexes '' @ EM_DASH @ '' ''))
        | Some c \<Rightarrow> Inr (Reply 200 (RContract c) None)), sv)"

definition h_contract_spec :: "server_env \<Rightarrow> string list \<Rightarrow> handler" where
  "h_contract_spec env params sv =
     (res_bind (contract_param params) (\<lambda>contractId.
        case getContractSpec contractId (db_of sv) of
          None \<Rightarrow> Inl (Refusal (notFound (''No spec has been looked up for contract '' @ quoted contractId @ ''. '' @
            ''The indexer fetches specs for contracts it indexes; `lens spec fetch -c <id>` does it on demand.'')))
        | Some r \<Rightarrow> Inr (Reply 200 (RSpec (r\<lparr>sr_entries_xdr := []\<rparr>)
            (case fromRecord (en_sdk env) r of Inr (Some d) \<Rightarrow> eventNames d | _ \<Rightarrow> [])) None)), sv)"

definition h_contract_topics :: "string list \<Rightarrow> url_params \<Rightarrow> handler" where
  "h_contract_topics params ps sv =
     (res_bind (contract_param params) (\<lambda>contractId.
        Inr (Reply 200 (RTopics contractId (listTopics contractId (plain_limit ps) (db_of sv))) None)), sv)"

definition batch_answer :: "server_env \<Rightarrow> string list \<Rightarrow> string list option \<Rightarrow> bool \<Rightarrow> handler" where
  "batch_answer env ids selected csv sv =
     (let found = map (getEvent (en_codec env) (db_of sv)) ids; present = List.map_filter (\<lambda>e. e) found in
      if csv then (Inr (Csv ''events.csv'' (RowsOf present)), sv)
      else (let (events, sv) = annotated env present selected sv
            in (Inr (Reply 200 (RBatch events (map fst (filter (\<lambda>(i, e). e = None) (zip ids found)))) None), sv)))"

definition h_events :: "server_env \<Rightarrow> url_params \<Rightarrow> string list \<Rightarrow> handler" where
  "h_events env ps accept sv =
     (case res_bind (refusal (wantsCsv ps accept)) (\<lambda>csv.
           res_bind (refusal (parseFields ps)) (\<lambda>selected.
           res_bind (refusal (parseIds ps)) (\<lambda>ids. Inr (csv, selected, ids)))) of
        Inl e \<Rightarrow> (Inl e, sv)
      | Inr (csv, selected, Some ids) \<Rightarrow> batch_answer env ids selected csv sv
      | Inr (csv, selected, None) \<Rightarrow>
          (case refusal (parseEventQuery (en_date_parse env) ps) of
             Inl e \<Rightarrow> (Inl e, sv)
           | Inr q \<Rightarrow>
               if csv then (Inr (Csv ''events.csv'' (ExportOf q)), sv)
               else (case run_query env q sv of
                   (Inl e, sv) \<Rightarrow> (Inl e, sv)
                 | (Inr page, sv) \<Rightarrow>
                     (let (events, sv) = annotated env (pg_events page) selected sv
                      in (Inr (Reply 200 (RPage page events False) None), sv)))))"

definition h_stream :: "server_options \<Rightarrow> server_env \<Rightarrow> http_request \<Rightarrow> handler" where
  "h_stream opts env req sv =
     (let ps = rq_params req; contractId = params_get ps ''contractId'' in
      case res_bind (refusal (parseEventQuery (en_date_parse env) ps)) (\<lambda>q.
           if truthy contractId
           then res_bind (refusal (assertContractId (the contractId))) (\<lambda>c. Inr (q\<lparr>q_contractId := Some c\<rparr>))
           else Inr q) of
        Inl e \<Rightarrow> (Inl e, sv)
      | Inr q \<Rightarrow>
          (case subscribe (op_stream opts) (db_of sv) (rq_method req = ''HEAD'') q (lastEventId (rq_lastEventId req) ps) (sv_hub sv) of
             (Inl e, h) \<Rightarrow> (Inl (Refusal e), sv\<lparr>sv_hub := h\<rparr>)
           | (Inr i, h) \<Rightarrow> (Inr (Streaming i), sv\<lparr>sv_hub := h\<rparr>)))"

definition h_event :: "server_env \<Rightarrow> string list \<Rightarrow> url_params \<Rightarrow> handler" where
  "h_event env params ps sv =
     (case res_bind (captured params) (\<lambda>i. res_bind (refusal (parseFields ps)) (\<lambda>selected.
           case getEvent (en_codec env) (db_of sv) i of
             None \<Rightarrow> Inl (Refusal (notFound (''No indexed event with id '' @ quoted i @ ''.'')))
           | Some e \<Rightarrow> Inr (e, selected))) of
        Inl e \<Rightarrow> (Inl e, sv)
      | Inr (e, selected) \<Rightarrow>
          (let (events, sv) = annotated env [e] selected sv in (Inr (Reply 200 (REvent (hd events)) None), sv)))"

section \<open>Handlers: GraphQL and webhooks\<close>

definition requireGraphQL :: "server_options \<Rightarrow> (failure, graphql_options) result" where
  "requireGraphQL opts = (case op_graphql opts of
       Some g \<Rightarrow> if go_enabled g then Inr g
         else Inl (Refusal (notFound ''GraphQL is disabled. Start the API with LENS_GRAPHQL=1 to enable /graphql.''))
     | None \<Rightarrow> Inl (Refusal (notFound ''GraphQL is disabled. Start the API with LENS_GRAPHQL=1 to enable /graphql.'')))"

definition graphql_answer :: "server_env \<Rightarrow> graphql_options \<Rightarrow> graphql_request \<Rightarrow> server \<Rightarrow> (failure, handler_result) result" where
  "graphql_answer env g request sv =
     (case executeGraphQL request (sqlite_api (en_codec env) (en_now env) (sv_store sv)) (en_date_parse env) g of
        Some (Responded status body) \<Rightarrow> Inr (Reply status (RGraphql body) None)
      | _ \<Rightarrow> Inl (Failure ''TypeError''))"

definition h_graphql_get :: "server_options \<Rightarrow> server_env \<Rightarrow> url_params \<Rightarrow> handler" where
  "h_graphql_get opts env ps sv =
     (res_bind (requireGraphQL opts) (\<lambda>g.
        let vars = params_get ps ''variables'' in
        res_bind (if truthy vars
            then (case en_parse_json env (the vars) of
                None \<Rightarrow> Inl (Refusal (badRequest (quoted ''variables'' @ '' must be a JSON object.'') (Some ''variables'')))
              | Some j \<Rightarrow> Inr (Some j))
            else Inr None) (\<lambda>parsed.
          graphql_answer env g \<lparr>gr_query = Some (JStr (or_else (params_get ps ''query'') [])), gr_variables = parsed,
            gr_operationName = params_get ps ''operationName''\<rparr> sv)), sv)"

definition json_text_field :: "(string \<times> json) list \<Rightarrow> string \<Rightarrow> string option" where
  "json_text_field kvs k = (case map_of kvs k of Some (JStr s) \<Rightarrow> Some s | _ \<Rightarrow> None)"

definition h_graphql_post :: "server_options \<Rightarrow> server_env \<Rightarrow> http_request \<Rightarrow> handler" where
  "h_graphql_post opts env req sv =
     (res_bind (requireGraphQL opts) (\<lambda>g.
      res_bind (refusal (readJsonBody (en_parse_json env) (rq_body req))) (\<lambda>body.
        case body of
          JObj kvs \<Rightarrow> graphql_answer env g \<lparr>gr_query = Some (JStr (or_else (json_text_field kvs ''query'') [])),
            gr_variables = map_of kvs ''variables'', gr_operationName = json_text_field kvs ''operationName''\<rparr> sv
        | _ \<Rightarrow> Inl (Refusal (badRequest (''The request body must be a JSON object with a '' @ quoted ''query'' @ '' string.'') None)))), sv)"

definition requireWebhooks :: "server_options \<Rightarrow> http_request \<Rightarrow> server \<Rightarrow> (failure, manager) result" where
  "requireWebhooks opts req sv = (case sv_webhooks sv of
       None \<Rightarrow> Inl (Refusal (notFound ''Webhook subscriptions are disabled. Start the API with LENS_WEBHOOKS=1 to enable /webhooks.''))
     | Some m \<Rightarrow> res_bind (refusal (wh_authorize (op_webhooks opts) (rq_authorization req))) (\<lambda>_. Inr m))"

definition register_query :: "server_env \<Rightarrow> server \<Rightarrow> event_query \<Rightarrow> (query_error, lens_event list) result" where
  "register_query env sv q =
     (case fst (queryEvents (en_codec env) (en_now env) q (sv_store sv)) of Inl e \<Rightarrow> Inl e | Inr p \<Rightarrow> Inr (pg_events p))"

definition h_webhook_register :: "server_options \<Rightarrow> server_env \<Rightarrow> http_request \<Rightarrow> handler" where
  "h_webhook_register opts env req sv =
     (case res_bind (requireWebhooks opts req sv) (\<lambda>m.
           res_bind (refusal (readJsonBody (en_parse_json env) (rq_body req))) (\<lambda>body. Inr (m, body))) of
        Inl e \<Rightarrow> (Inl e, sv)
      | Inr (m, body) \<Rightarrow>
          (case register (op_webhooks opts) ((en_register env)\<lparr>rg_newest := register_query env sv\<rparr>) body m of
             (Inl (RegisterRefused e), m) \<Rightarrow> (Inl (Refusal e), sv\<lparr>sv_webhooks := Some m\<rparr>)
           | (Inl (StoreFailed e), m) \<Rightarrow> (Inl (query_failure e), sv\<lparr>sv_webhooks := Some m\<rparr>)
           | (Inr sub, m) \<Rightarrow> (Inr (Reply 201 (RRegistered sub) None), sv\<lparr>sv_webhooks := Some m\<rparr>)))"

definition h_webhook_list :: "server_options \<Rightarrow> http_request \<Rightarrow> handler" where
  "h_webhook_list opts req sv =
     (res_bind (requireWebhooks opts req sv) (\<lambda>m. Inr (Reply 200 (RWebhooks (wh_list m)) None)), sv)"

definition h_webhook_get :: "server_options \<Rightarrow> http_request \<Rightarrow> string list \<Rightarrow> handler" where
  "h_webhook_get opts req params sv =
     (res_bind (requireWebhooks opts req sv) (\<lambda>m. res_bind (captured params) (\<lambda>i.
        res_bind (refusal (wh_get i m)) (\<lambda>v. Inr (Reply 200 (RWebhook v) None)))), sv)"

definition h_webhook_delete :: "server_options \<Rightarrow> http_request \<Rightarrow> string list \<Rightarrow> handler" where
  "h_webhook_delete opts req params sv =
     (case res_bind (captured params) (\<lambda>i. res_bind (requireWebhooks opts req sv) (\<lambda>m. Inr (i, m))) of
        Inl e \<Rightarrow> (Inl e, sv)
      | Inr (i, m) \<Rightarrow>
          (case wh_remove i m of
             (Inl e, m) \<Rightarrow> (Inl (Refusal e), sv\<lparr>sv_webhooks := Some m\<rparr>)
           | (Inr _, m) \<Rightarrow> (Inr (Reply 200 (RDeleted i) None), sv\<lparr>sv_webhooks := Some m\<rparr>)))"

definition h_dead_letters :: "server_options \<Rightarrow> http_request \<Rightarrow> string list \<Rightarrow> handler" where
  "h_dead_letters opts req params sv =
     (res_bind (captured params) (\<lambda>i. res_bind (requireWebhooks opts req sv) (\<lambda>m.
        res_bind (refusal (wh_deadLetters i m)) (\<lambda>ls. Inr (Reply 200 (RDeadLetters ls) None)))), sv)"

end
