(* ===== verification/Api_Props.thy ===== *)
theory Api_Props
  imports Store_Props Gql_Cost Server
begin

text \<open>
  The properties of the API package: query parameters, the CSV export, the rate limiter, the
  event streams, the webhooks, GraphQL.
\<close>

section \<open>Values the witnesses use\<close>

definition demo_store :: event_store where
  "demo_store = \<lparr>es_db = demo_db, es_cache = [], es_ttl = 0, es_searchAvailable = True\<rparr>"

lemma demo_served: "db_served demo_codec demo_db"
  using demo_db_ok by (simp add: db_served_def demo_db_ids)

definition demo_row :: "string \<Rightarrow> int \<Rightarrow> event_row" where
  "demo_row i l = insertParams demo_codec (sample_event i l)"

lemma demo_row_id [simp]: "er_id (demo_row i l) = i"
  by (simp add: demo_row_def insertParams_id sample_event_def)

lemma char_order: "CHR ''a'' < CHR ''b''" "CHR ''b'' < CHR ''c''" "CHR ''a'' < CHR ''c''"
  by (simp_all add: less_char_def)

lemma demo_rows:
  "ordered_rows demo_codec demo_db [] Asc = [demo_row ''a'' 1, demo_row ''b'' 2, demo_row ''c'' 3]"
  by (simp add: ordered_rows_def order_by_id_def sql_select_def row_matches_def demo_db_events demo_row_def [symmetric]
    sort_key_def char_order char_order [THEN less_imp_le] char_order [THEN not_le [THEN iffD2]])

lemma buildWhere_empty [simp]: "buildWhere empty_query = []"
  by (simp add: buildWhere_def empty_query_def when_text_def when_some_def truthy_def)

lemma buildWhere_paging [simp]:
  "buildWhere (q\<lparr>q_order := x\<rparr>) = buildWhere q" "buildWhere (q\<lparr>q_direction := d\<rparr>) = buildWhere q"
  "buildWhere (q\<lparr>q_cursor := c\<rparr>) = buildWhere q"
  by (simp_all add: buildWhere_def)

definition demo_query :: event_query where
  "demo_query = empty_query\<lparr>q_order := Some Asc\<rparr>"

lemma demo_query_simps [simp]:
  "buildWhere demo_query = []" "q_order demo_query = Some Asc" "q_direction demo_query = None" "q_cursor demo_query = None"
  "q_search demo_query = None" "q_limit demo_query = None"
  by (simp_all add: demo_query_def) (simp_all add: empty_query_def)

section \<open>Query parameters\<close>

definition names_present :: "url_params \<Rightarrow> api_error \<Rightarrow> bool" where
  "names_present ps e = (ae_status e = 400 \<and> (case ae_parameter e of None \<Rightarrow> False | Some name \<Rightarrow> name \<in> fst ` set ps))"

lemma names_present_bad [simp]: "names_present ps (badRequest msg (Some name)) \<longleftrightarrow> name \<in> fst ` set ps"
  by (simp add: names_present_def badRequest_def api_error_of_def)








































section \<open>The CSV export\<close>

text \<open>
  C23: the CSV of a forward export parses back, cell by cell, to a header line and one row for
  every matching event in order, up to the requested limit; the header is wide enough for the
  topics of each of them.
\<close>

theorem csv_export_reads_back:
  assumes "db_served cd (es_db s)" "truthy (q_search q) \<longrightarrow> es_searchAvailable s" "q_direction q \<noteq> Some Backward"
    "\<not> truthy (q_cursor q)" "length (db_events (es_db s)) < fuel"
  shows "\<exists>lines n. csvExport cd now s s q fuel = Some (Inr lines) \<and>
    (let es = take_some (export_limit q) (matching_events cd (es_db s) (buildWhere q) (store_order q)) in
     list_all (\<lambda>e. length (le_topics e) \<le> n) es \<and>
     read_csv (concat lines) = Some (header_cells n # map (\<lambda>e. event_cells (cd_fracs cd) e n) es))"
proof -
  obtain pages where p: "eachEventPage cd now s q fuel = Some (Inr pages)"
      "concat pages = take_some (export_limit q) (matching_events cd (es_db s) (buildWhere q) (store_order q))"
    using eachEventPage_forward [OF assms] by blast
  have "list_all (\<lambda>e. length (le_topics e) \<le> export_columns pages) (concat pages)"
    unfolding list_all_iff by (blast intro: export_columns_ge)
  then show ?thesis
    using csvRows_read [of "cd_fracs cd" "concat pages" "export_columns pages"] p by (simp add: csvExport_def Let_def) blast
qed

lemma matching_demo: "map le_id (matching_events demo_codec demo_db [] Asc) = [''a'', ''b'', ''c'']"
proof -
  have "set (ordered_rows demo_codec demo_db [] Asc) \<subseteq> set (db_events demo_db)" by (rule ordered_subset)
  then have "le_id (event_of demo_codec r) = er_id r" if "r \<in> set (ordered_rows demo_codec demo_db [] Asc)" for r
    using served_row(2) [OF demo_served] that by blast
  then show ?thesis by (simp add: matching_events_def demo_rows)
qed

lemma csv_export_reads_back_witness:
  "\<exists>lines table. csvExport demo_codec 0 demo_store demo_store demo_query 4 = Some (Inr lines) \<and>
     read_csv (concat lines) = Some table \<and> length table = 4"
proof -
  have e: "db_served demo_codec (es_db demo_store)" "truthy (q_search demo_query) \<longrightarrow> es_searchAvailable demo_store"
      "q_direction demo_query \<noteq> Some Backward" "\<not> truthy (q_cursor demo_query)" "length (db_events (es_db demo_store)) < 4"
    using demo_served by (simp_all add: demo_store_def truthy_def demo_db_events)
  have "length (matching_events demo_codec demo_db [] Asc) = 3"
    using arg_cong [OF matching_demo, of length] by simp
  then show ?thesis
    using csv_export_reads_back [OF e, of 0] by (auto simp: demo_store_def store_order_def export_limit_def Let_def take_some_def matching_events_def)
qed

text \<open>
  An export whose query says \<open>direction: 'backward'\<close> repeats rows. From the row at position
  \<open>k\<close> it yields the first \<open>k\<close> rows, then the first \<open>k - 1\<close>, down to the first: the walk feeds each
  next cursor back into a query that still pages backwards.
\<close>

theorem backward_export_repeats:
  assumes "db_served cd (es_db s)" "truthy (q_search q) \<longrightarrow> es_searchAvailable s" "q_direction q = Some Backward" "q_limit q = None"
    "rows = ordered_rows cd (es_db s) (buildWhere q) (store_order q)" "k < length rows" "k \<le> 500" "k < fuel"
    "q_cursor q = Some (er_id (rows ! k))"
  shows "\<exists>pages. eachEventPage cd now s q fuel = Some (Inr pages) \<and>
    pages = map (\<lambda>j. map (event_of cd) (take j rows)) (rev [1 ..< Suc k]) \<and> 2 * length (concat pages) = k * (k + 1)"
proof -
  let ?pages = "map (\<lambda>j. map (event_of cd) (take j rows)) (rev [1 ..< Suc k])"
  have "2 * (\<Sum>j \<leftarrow> [1 ..< Suc m]. length (take j rows)) = m * (m + 1)" if "m \<le> length rows" for m
    using that by (induction m) (auto simp: min_def)
  then have "2 * length (concat ?pages) = k * (k + 1)"
    using assms(6) by (simp add: length_concat rev_map [symmetric] comp_def del: upt_Suc)
  moreover have "each_page (api_page cd now q s) fuel None (Some (er_id (rows ! k))) = Some (Inr ?pages)"
    unfolding assms(5) by (rule backward_walk [OF assms(1-3)]) (use assms(5-8) in auto)
  ultimately show ?thesis by (simp add: eachEventPage_def export_limit_def assms(4,9))
qed

lemma backward_export_repeats_witness:
  "\<exists>pages. eachEventPage demo_codec 0 demo_store (demo_query\<lparr>q_direction := Some Backward, q_cursor := Some ''c''\<rparr>) 3 = Some (Inr pages) \<and>
     length (concat pages) = 3 \<and> length (remdups (map le_id (concat pages))) = 2"
proof -
  let ?q = "demo_query\<lparr>q_direction := Some Backward, q_cursor := Some ''c''\<rparr>"
  let ?rows = "[demo_row ''a'' 1, demo_row ''b'' 2, demo_row ''c'' 3]"
  have h: "db_served demo_codec (es_db demo_store)" "truthy (q_search ?q) \<longrightarrow> es_searchAvailable demo_store"
      "q_direction ?q = Some Backward" "q_limit ?q = None"
      "?rows = ordered_rows demo_codec (es_db demo_store) (buildWhere ?q) (store_order ?q)"
    using demo_served demo_rows by (simp_all add: demo_store_def truthy_def store_order_def)
  obtain pages where p: "eachEventPage demo_codec 0 demo_store ?q 3 = Some (Inr pages)"
      "pages = map (\<lambda>j. map (event_of demo_codec) (take j ?rows)) (rev [1 ..< Suc 2])"
    using backward_export_repeats [OF h, of 2 3 0] by auto
  have "set ?rows \<subseteq> set (db_events demo_db)"
    using h(5) ordered_subset [of demo_codec demo_db "buildWhere ?q" "store_order ?q"] by (simp add: demo_store_def)
  then have i: "le_id (event_of demo_codec r) = er_id r" if "r \<in> set ?rows" for r
    using served_row(2) [OF demo_served] that by blast
  have "pages = [[event_of demo_codec (demo_row ''a'' 1), event_of demo_codec (demo_row ''b'' 2)], [event_of demo_codec (demo_row ''a'' 1)]]"
    by (simp add: p(2) upt_rec)
  then show ?thesis using p(1) i by simp
qed

section \<open>Rate limits\<close>

text \<open>
  C29: the limiter of \<open>rate-limit.ts\<close>, which forgets full buckets on a sweep every 1024 calls,
  decides every sequence of requests exactly as the specification that remembers the level of
  every client for ever.
\<close>

theorem limiter_refines:
  assumes "new_limiter requestsPerSecond burst = Inr l" "sorted (t # map snd rs)"
  shows "fst (take_all rs l) = spec_all (rl_rate l) (rl_capacity l) t rs (\<lambda>key. of_int (rl_capacity l))"
proof -
  note n = new_limiter_ok [OF assms(1), of t]
  have "level l t = (\<lambda>key. of_int (rl_capacity l))" using n by blast
  then show ?thesis using take_all_refines [of t l rs] n assms(2) by simp
qed

definition demo_limiter :: limiter where
  "demo_limiter = \<lparr>rl_rate = 2, rl_capacity = 2, rl_buckets = [], rl_calls = 0\<rparr>"

lemma demo_limiter_new: "new_limiter (JsNum 2) None = Inr demo_limiter"
  by (simp add: new_limiter_def positive_number_def at_least_one_def num_of_def demo_limiter_def)

lemma limiter_refines_witness:
  "fst (take_all [(''a'', 5), (''a'', 6), (''b'', 7), (''a'', 8)] demo_limiter) =
     spec_all 2 2 0 [(''a'', 5), (''a'', 6), (''b'', 7), (''a'', 8)] (\<lambda>key. 2)"
  using limiter_refines [OF demo_limiter_new, of 0 "[(''a'', 5), (''a'', 6), (''b'', 7), (''a'', 8)]"]
  by (simp add: demo_limiter_def)

lemma take_all_ok:
  "limiter_ok t l \<Longrightarrow> buckets_distinct l \<Longrightarrow> sorted (t # map snd rs) \<Longrightarrow>
     (let l' = snd (take_all rs l) in limiter_ok (last (t # map snd rs)) l' \<and> buckets_distinct l' \<and>
        rl_rate l' = rl_rate l \<and> rl_capacity l' = rl_capacity l)"
proof (induction rs arbitrary: t l)
  case (Cons r rs)
  obtain key now where r: "r = (key, now)" by (cases r)
  obtain d l' where d: "take_token key now l = (d, l')" by (cases "take_token key now l")
  have n: "t \<le> now" using Cons.prems(3) r by simp
  note T = take_refines [OF Cons.prems(1,2) n d]
  obtain ds l2 where l2: "take_all rs l' = (ds, l2)" by (cases "take_all rs l'")
  have "snd (take_all (r # rs) l) = l2" "last (t # map snd (r # rs)) = last (now # map snd rs)" by (simp_all add: r d l2)
  moreover have "sorted (now # map snd rs)" using Cons.prems(3) r by simp
  ultimately show ?case using Cons.IH [OF T(2,3)] T(4,5) by (simp only: Let_def l2 snd_conv)
qed simp

lemma sorted_window:
  assumes "sorted (xs @ t # ys)"
  shows "sorted (hd (xs @ [t]) # xs)" "last (hd (xs @ [t]) # xs) \<le> t" "sorted (t # ys)"
proof -
  have s: "sorted xs" "sorted (t # ys)" "\<forall>x \<in> set xs. x \<le> t" using assms by (simp_all add: sorted_append)
  show "sorted (hd (xs @ [t]) # xs)" using s(1) by (cases xs) auto
  show "last (hd (xs @ [t]) # xs) \<le> t" using s(3) by (cases xs) simp_all
  show "sorted (t # ys)" by (rule s(2))
qed

text \<open>
  At any time, whatever was asked before, a client is granted at most its burst plus its
  rate times the length of the window, in any window of requests.
\<close>

theorem limiter_window:
  assumes "new_limiter requestsPerSecond burst = Inr l" "sorted (map snd before @ t # map snd rs)"
  shows "of_nat (granted key rs (fst (take_all rs (snd (take_all before l))))) \<le>
    of_int (rl_capacity l) + of_int (last (t # map snd rs) - t) / 1000 * rl_rate l"
proof -
  let ?t0 = "hd (map snd before @ [t])" and ?l = "snd (take_all before l)"
  note s = sorted_window [OF assms(2)]
  have n: "limiter_ok ?t0 l" "buckets_distinct l" using new_limiter_ok [OF assms(1)] by blast+
  have ok: "limiter_ok (last (?t0 # map snd before)) ?l" "buckets_distinct ?l" "rl_rate ?l = rl_rate l" "rl_capacity ?l = rl_capacity l"
    using take_all_ok [OF n s(1)] by (simp_all add: Let_def)
  have "limiter_ok t ?l" using ok(1) s(2) unfolding limiter_ok_def list_all_iff by fastforce
  from window_bound [OF this ok(2) s(3), of key] level_bounds(2) [OF this, of t key] show ?thesis
    unfolding ok(3,4) by linarith
qed

lemma limiter_window_witness:
  "of_nat (granted ''a'' [(''a'', 900), (''a'', 901), (''a'', 902), (''a'', 1400)]
       (fst (take_all [(''a'', 900), (''a'', 901), (''a'', 902), (''a'', 1400)] (snd (take_all [(''a'', 5)] demo_limiter))))) \<le> (3 :: rat)"
  using limiter_window [OF demo_limiter_new, of "[(''a'', 5)]" 900 "[(''a'', 900), (''a'', 901), (''a'', 902), (''a'', 1400)]" "''a''"]
  by (simp add: demo_limiter_def)

text \<open>
  A client refused with \<open>Retry-After: n\<close> that stays away for \<open>n\<close> seconds is granted its next
  request.
\<close>

theorem limiter_retry_after:
  assumes "new_limiter requestsPerSecond burst = Inr l" "sorted (map snd before @ [now])"
    "take_token key now (snd (take_all before l)) = (Refused secs, l')" "now + 1000 * secs \<le> later"
  shows "fst (take_token key later l') = Allowed"
proof -
  let ?t0 = "hd (map snd before @ [now])"
  note s = sorted_window [OF assms(2)]
  have n: "limiter_ok ?t0 l" "buckets_distinct l" using new_limiter_ok [OF assms(1)] by blast+
  have ok: "limiter_ok (last (?t0 # map snd before)) (snd (take_all before l))" "buckets_distinct (snd (take_all before l))"
    using take_all_ok [OF n s(1)] by (simp_all add: Let_def)
  show ?thesis by (rule retry_suffices [OF ok s(2) assms(3,4)])
qed

lemma limiter_retry_after_witness:
  "take_token ''a'' 12 (snd (take_all [(''a'', 10), (''a'', 11)] demo_limiter)) =
      (Refused 1, snd (take_token ''a'' 12 (snd (take_all [(''a'', 10), (''a'', 11)] demo_limiter)))) \<and>
   fst (take_token ''a'' 1012 (snd (take_token ''a'' 12 (snd (take_all [(''a'', 10), (''a'', 11)] demo_limiter))))) = Allowed"
proof -
  have r: "fst (take_token ''a'' 12 (snd (take_all [(''a'', 10), (''a'', 11)] demo_limiter))) = Refused 1"
    by (simp add: demo_limiter_def take_token_def Let_def refilled_def SWEEP_EVERY_def)
  then have d: "take_token ''a'' 12 (snd (take_all [(''a'', 10), (''a'', 11)] demo_limiter)) =
      (Refused 1, snd (take_token ''a'' 12 (snd (take_all [(''a'', 10), (''a'', 11)] demo_limiter))))"
    by (metis prod.collapse)
  show ?thesis using limiter_retry_after [OF demo_limiter_new _ d, of 1012] d by simp
qed

section \<open>Event streams\<close>


definition demo_sub :: subscriber where
  "demo_sub = \<lparr>sb_query = demo_query, sb_lastId = ''a'', sb_draining = False, sb_open = True, sb_needDrain = False, sb_sent = []\<rparr>"

lemma demo_ready: "stream_ready demo_codec demo_store (sb_query demo_sub)"
  using demo_served by (simp add: stream_ready_def demo_sub_def demo_store_def truthy_def)

lemma demo_annotator: "annotator (\<lambda>es. es)"
  by (simp add: annotator_def)

text \<open>
  C28: a drain on a socket that keeps up ends, sends every matching event above the position of
  the stream, and leaves the position at or above the newest id it was called with.
\<close>

theorem drain_catches_up:
  assumes "annotator annot" "stream_ready cd s (sb_query sub)" "sb_open sub" "\<not> sb_needDrain sub" "\<not> sb_draining sub"
    "length (rows_after_id cd (es_db s) (sb_query sub) (sb_lastId sub)) < fuel"
  shows "\<exists>sub'. drain annot cd now batch s latest fuel sub = Some sub' \<and> \<not> sb_draining sub' \<and> latest \<le> sb_lastId sub'
    \<and> map le_id (sb_sent sub') = map le_id (sb_sent sub) @ map er_id (rows_after_id cd (es_db s) (sb_query sub) (sb_lastId sub))"
  using drain_loop_complete [OF assms(1), of cd s "sub\<lparr>sb_draining := True\<rparr>" fuel now batch latest] assms(2-6)
  by (auto simp: drain_def)

lemma demo_after: "rows_after_id demo_codec demo_db demo_query ''a'' = [demo_row ''b'' 2, demo_row ''c'' 3]"
  using char_order by (simp add: rows_after_id_def demo_rows)

lemma drain_catches_up_witness:
  "\<exists>sub'. drain (\<lambda>es. es) demo_codec 0 1 demo_store ''c'' 3 demo_sub = Some sub' \<and> map le_id (sb_sent sub') = [''b'', ''c'']"
proof -
  have "length (rows_after_id demo_codec (es_db demo_store) (sb_query demo_sub) (sb_lastId demo_sub)) < 3"
    using demo_after by (simp add: demo_store_def demo_sub_def)
  with drain_catches_up [OF demo_annotator demo_ready, of 3 0 1 "''c''"] show ?thesis
    using demo_after by (auto simp: demo_sub_def demo_store_def)
qed


section \<open>Webhooks\<close>







text \<open>
  C30: the guard against private networks rejects a dotted IPv4 address exactly when its 32 bits
  lie in one of the reserved CIDR blocks.
\<close>

theorem private_ipv4_blocks:
  assumes "a < 256" "b < 256" "c < 256" "d < 256"
  shows "is_ipv4 (dotted a b c d) \<and>
    (isPrivateAddress is_ipv6 (dotted a b c d) \<longleftrightarrow> list_ex (in_block (ipv4_word a b c d)) PRIVATE_BLOCKS)"
  using private_blocks_octets [OF assms] is_ipv4_dotted [OF assms] by (simp add: isPrivateAddress_def isIP_def)

lemma private_ipv4_blocks_witness:
  "isPrivateAddress (\<lambda>_. False) ''172.31.0.9'' \<and> \<not> isPrivateAddress (\<lambda>_. False) ''172.32.0.9''"
proof -
  have "dotted 172 31 0 9 = ''172.31.0.9''" "dotted 172 32 0 9 = ''172.32.0.9''" by (code_simp, code_simp)
  moreover have "list_ex (in_block (ipv4_word 172 31 0 9)) PRIVATE_BLOCKS" "\<not> list_ex (in_block (ipv4_word 172 32 0 9)) PRIVATE_BLOCKS"
    by (simp_all add: private_blocks_octets isPrivateIPv4_dotted)
  ultimately show ?thesis
    using private_ipv4_blocks [of 172 31 0 9 "\<lambda>_. False"] private_ipv4_blocks [of 172 32 0 9 "\<lambda>_. False"] by simp
qed

text \<open>
  C31: the signature header a delivery writes is accepted by the verifier exactly within the
  tolerance and for a body whose digest under the receiver's secret is the sender's: the right
  secret and the unchanged body always pass.
\<close>

theorem signature_verifies:
  assumes "hmac_bytes hmac"
  shows "verifyWebhookSignature hmac secret' (signature_header hmac secret timestamp body) body' tolerance now \<longleftrightarrow>
    \<bar>now - timestamp\<bar> \<le> tolerance \<and> hmac secret' (signed_text timestamp body') = hmac secret (signed_text timestamp body)"
  by (rule verify_signature [OF assms])

definition demo_hmac :: hmac where
  "demo_hmac secret text = [length secret mod 256, length text mod 256]"

lemma signature_verifies_witness:
  "verifyWebhookSignature demo_hmac ''key'' (signature_header demo_hmac ''key'' 1700000000 ''{}'') ''{}'' 300 1700000300 \<and>
   \<not> verifyWebhookSignature demo_hmac ''key'' (signature_header demo_hmac ''key'' 1700000000 ''{}'') ''{}'' 300 1700000301 \<and>
   \<not> verifyWebhookSignature demo_hmac ''longer key'' (signature_header demo_hmac ''key'' 1700000000 ''{}'') ''{}'' 300 1700000000"
proof -
  have "hmac_bytes demo_hmac" by (simp add: hmac_bytes_def demo_hmac_def)
  from signature_verifies [OF this] show ?thesis by (simp add: demo_hmac_def)
qed

section \<open>GraphQL\<close>

text \<open>
  C32: every string lexes and parses to a document with at least one operation whose selections
  nest at most 64 levels, or to a syntax error; the parser never runs out of its fuel.
\<close>

theorem graphql_parser_total:
  "\<exists>r. parseDocument source = Some r \<and>
     (case r of Inl e \<Rightarrow> parser_error e | Inr doc \<Rightarrow> doc_operations doc \<noteq> [] \<and> shallow doc)"
proof (cases "tokenize source")
  case (Inl e)
  then have "parser_error e" by (auto simp: tokenize_def dest: lex_errors)
  then show ?thesis by (simp add: parseDocument_def Inl)
next
  case (Inr ts)
  then show ?thesis using parse_tokens_total [of ts] by (simp add: parseDocument_def)
qed






















end
