(* ===== verification/Server_Gate.thy ===== *)
theory Server_Gate
  imports Server
begin

text \<open>
  The route table and \<open>handle\<close> of \<open>packages/api/src/server.ts\<close>: the order of the limiter, the API
  key, routing, the schema check, the validator and the handler, and the heads of the answers.
\<close>

section \<open>Routes\<close>

datatype route_id = R_health | R_stats | R_status | R_contracts | R_contract_events | R_contract_activity
  | R_contract_stats | R_contract_spec | R_contract_topics | R_events | R_stream | R_event | R_graphql_get | R_graphql_post
  | R_webhook_register | R_webhook_list | R_webhook_get | R_webhook_delete | R_dead_letters | R_openapi | R_docs

record route =
  rt_id :: route_id
  rt_method :: string
  rt_pattern :: "segment list"
  rt_exempt :: bool
  rt_public :: bool
  rt_etag :: bool

definition data_route :: "route_id \<Rightarrow> string \<Rightarrow> segment list \<Rightarrow> route" where
  "data_route i m p = \<lparr>rt_id = i, rt_method = m, rt_pattern = p, rt_exempt = False, rt_public = False, rt_etag = False\<rparr>"

definition list_route :: "route_id \<Rightarrow> segment list \<Rightarrow> route" where
  "list_route i p = (data_route i ''GET'' p)\<lparr>rt_etag := True\<rparr>"

definition open_route :: "route_id \<Rightarrow> segment list \<Rightarrow> route" where
  "open_route i p = (data_route i ''GET'' p)\<lparr>rt_exempt := True, rt_public := True\<rparr>"

definition routes :: "route list" where
  "routes =
    [open_route R_health [Fixed ''health''],
     data_route R_stats ''GET'' [Fixed ''stats''],
     data_route R_status ''GET'' [Fixed ''status''],
     data_route R_contracts ''GET'' [Fixed ''contracts''],
     list_route R_contract_events [Fixed ''contracts'', Capture, Fixed ''events''],
     data_route R_contract_activity ''GET'' [Fixed ''contracts'', Capture, Fixed ''activity''],
     data_route R_contract_stats ''GET'' [Fixed ''contracts'', Capture, Fixed ''stats''],
     data_route R_contract_spec ''GET'' [Fixed ''contracts'', Capture, Fixed ''spec''],
     data_route R_contract_topics ''GET'' [Fixed ''contracts'', Capture, Fixed ''topics''],
     list_route R_events [Fixed ''events''],
     data_route R_stream ''GET'' [Fixed ''events'', Fixed ''stream''],
     data_route R_event ''GET'' [Fixed ''events'', Capture],
     data_route R_graphql_get ''GET'' [Fixed ''graphql''],
     data_route R_graphql_post ''POST'' [Fixed ''graphql''],
     data_route R_webhook_register ''POST'' [Fixed ''webhooks''],
     data_route R_webhook_list ''GET'' [Fixed ''webhooks''],
     data_route R_webhook_get ''GET'' [Fixed ''webhooks'', Capture],
     data_route R_webhook_delete ''DELETE'' [Fixed ''webhooks'', Capture],
     data_route R_dead_letters ''GET'' [Fixed ''webhooks'', Capture, Fixed ''dead-letters''],
     open_route R_openapi [Fixed ''openapi.json''],
     open_route R_docs [Fixed ''docs'']]"

definition route_handler :: "route_id \<Rightarrow> server_options \<Rightarrow> server_env \<Rightarrow> http_request \<Rightarrow> string list \<Rightarrow> handler" where
  "route_handler i opts env req params =
     (let ps = rq_params req in
      case i of
        R_health \<Rightarrow> h_health opts env
      | R_stats \<Rightarrow> h_stats
      | R_status \<Rightarrow> h_status
      | R_contracts \<Rightarrow> h_contracts ps
      | R_contract_events \<Rightarrow> h_contract_events env params ps (rq_accept req)
      | R_contract_activity \<Rightarrow> h_activity env params ps
      | R_contract_stats \<Rightarrow> h_contract_stats params
      | R_contract_spec \<Rightarrow> h_contract_spec env params
      | R_contract_topics \<Rightarrow> h_contract_topics params ps
      | R_events \<Rightarrow> h_events env ps (rq_accept req)
      | R_stream \<Rightarrow> h_stream opts env req
      | R_event \<Rightarrow> h_event env params ps
      | R_graphql_get \<Rightarrow> h_graphql_get opts env ps
      | R_graphql_post \<Rightarrow> h_graphql_post opts env req
      | R_webhook_register \<Rightarrow> h_webhook_register opts env req
      | R_webhook_list \<Rightarrow> h_webhook_list opts req
      | R_webhook_get \<Rightarrow> h_webhook_get opts req params
      | R_webhook_delete \<Rightarrow> h_webhook_delete opts req params
      | R_dead_letters \<Rightarrow> h_dead_letters opts req params
      | R_openapi \<Rightarrow> (\<lambda>sv. (Inr (Reply 200 ROpenapi (Some ''application/json; charset=utf-8'')), sv))
      | R_docs \<Rightarrow> (\<lambda>sv. (Inr (Reply 200 RDocs (Some ''text/html; charset=utf-8'')), sv)))"

section \<open>The gate\<close>

text \<open>The limiter, then the API key; only the limiter's state changes.\<close>

definition client_of :: "server_options \<Rightarrow> http_request \<Rightarrow> string" where
  "client_of opts req = clientKey (rq_forwarded req) (rq_remoteAddress req) (op_trustProxy opts)"

definition rate_gate :: "server_options \<Rightarrow> server_env \<Rightarrow> http_request \<Rightarrow> limiter option \<Rightarrow> (api_error, unit) result \<times> limiter option" where
  "rate_gate opts env req current =
     (case current of
        None \<Rightarrow> (Inr (), None)
      | Some l \<Rightarrow>
          (case take_token (client_of opts req) (en_now env) l of
             (Allowed, l) \<Rightarrow> (Inr (), Some l)
           | (Refused secs, l) \<Rightarrow>
               (Inl (tooManyRequests (''Rate limit exceeded. Retry in '' @ show_int secs @ ''s.'') secs), Some l)))"

definition key_gate :: "server_env \<Rightarrow> http_request \<Rightarrow> string list \<Rightarrow> (api_error, unit) result" where
  "key_gate env req digests =
     (if isAuthorized (en_digest env) digests (rq_apiKey req) (rq_authorization req) then Inr ()
      else Inl (unauthorized (if truthy (presentedKey (rq_apiKey req) (rq_authorization req)) then ''The API key is not valid.''
        else ''This instance requires an API key: send X-API-Key or Authorization: Bearer <key>.'')))"

definition gate :: "server_options \<Rightarrow> server_env \<Rightarrow> http_request \<Rightarrow> bool \<Rightarrow> server \<Rightarrow> (api_error, unit) result \<times> server" where
  "gate opts env req isPublic sv =
     (if isPublic then (Inr (), sv)
      else (case rate_gate opts env req (sv_limiter sv) of
          (Inl e, l) \<Rightarrow> (Inl e, sv\<lparr>sv_limiter := l\<rparr>)
        | (Inr _, l) \<Rightarrow> (key_gate env req (sv_digests sv), sv\<lparr>sv_limiter := l\<rparr>)))"

section \<open>Routing and the checks before the handler\<close>

definition candidates :: "string \<Rightarrow> route list" where
  "candidates path = filter (\<lambda>r. route_match (rt_pattern r) path \<noteq> None) routes"

definition all_public :: "route list \<Rightarrow> bool" where
  "all_public rs = (length rs > 0 \<and> list_all rt_public rs)"

definition get_method :: "http_request \<Rightarrow> string" where
  "get_method req = (if rq_method req = ''HEAD'' then ''GET'' else rq_method req)"

definition choose_route :: "http_request \<Rightarrow> string \<Rightarrow> (api_error, route) result" where
  "choose_route req path =
     (let rs = candidates path; allowed = js_set (map rt_method rs) in
      if length rs = 0 then Inl (notFound (''No route for '' @ rq_method req @ '' '' @ path @ ''. See GET /openapi.json.''))
      else (case find (\<lambda>r. rt_method r = get_method req) rs of
          Some r \<Rightarrow> Inr r
        | None \<Rightarrow> Inl (api_error_of 405 ''method_not_allowed'' (path @ '' accepts '' @ js_join '', '' allowed @ '' only.'') None
            (Some (js_join '', '' (concat (map (\<lambda>m. if m = ''GET'' then [''GET'', ''HEAD''] else [m]) allowed)))))))"

definition MIGRATION_RETRY_AFTER_SECONDS :: int where
  "MIGRATION_RETRY_AFTER_SECONDS = 5"

definition assertSchemaCurrent :: "database \<Rightarrow> (api_error, unit) result" where
  "assertSchemaCurrent db =
     (let v = st_schemaVersion (getStats db) in
      if v = LATEST_SCHEMA_VERSION then Inr ()
      else Inl (unavailable (''The database is at schema v'' @ show_nat v @ '', expected v'' @ show_nat LATEST_SCHEMA_VERSION @ ''. '' @
        ''A migration is pending; see GET /health.'') MIGRATION_RETRY_AFTER_SECONDS))"

definition route_tag :: "server_env \<Rightarrow> http_request \<Rightarrow> string \<Rightarrow> route \<Rightarrow> database \<Rightarrow> (api_error, string option) result" where
  "route_tag env req path r db =
     (if \<not> rt_etag r then Inr None
      else res_bind (wantsCsv (rq_params req) (rq_accept req)) (\<lambda>csv.
        Inr (Some (entityTag (en_sha1 env) (getLatestEventId db) path (rq_params req) (if csv then ''csv'' else ''json'')))))"

definition admit_request :: "server_env \<Rightarrow> http_request \<Rightarrow> string \<Rightarrow> database \<Rightarrow> (api_error, route \<times> string option) result" where
  "admit_request env req path db =
     res_bind (choose_route req path) (\<lambda>r.
     res_bind (if rt_exempt r then Inr () else assertSchemaCurrent db) (\<lambda>_.
     res_bind (route_tag env req path r db) (\<lambda>tag. Inr (r, tag))))"

section \<open>Answers\<close>

datatype http_body = NoBody | FullBody reply "content_coding option" | CsvBody "string list" "content_coding option"
  | EventStream nat

record http_response =
  hr_status :: nat
  hr_headers :: http_headers
  hr_body :: http_body

definition request_id :: "server_env \<Rightarrow> http_request \<Rightarrow> string" where
  "request_id env req =
     (let i = map_option (\<lambda>h. take 200 (js_trim h)) (rq_requestId req) in if truthy i then the i else en_uuid env)"

definition base_headers :: "server_options \<Rightarrow> server_env \<Rightarrow> http_request \<Rightarrow> server \<Rightarrow> http_headers" where
  "base_headers opts env req sv =
     (if sv_draining sv then [(''Connection'', ''close'')] else [])
     @ [(''X-Request-Id'', request_id env req), (''Access-Control-Allow-Origin'', or_else (op_corsOrigin opts) ''*''),
        (''Access-Control-Allow-Methods'', ''GET, HEAD, POST, DELETE, OPTIONS''),
        (''Access-Control-Allow-Headers'', ''Content-Type, Authorization, X-API-Key, If-None-Match, Last-Event-ID''),
        (''Access-Control-Expose-Headers'', ''ETag, Retry-After, X-Request-Id'')]"

definition is_head :: "http_request \<Rightarrow> bool" where
  "is_head req = (rq_method req = ''HEAD'')"

definition send :: "server_env \<Rightarrow> http_request \<Rightarrow> http_headers \<Rightarrow> nat \<Rightarrow> reply \<Rightarrow> string option \<Rightarrow> string option \<Rightarrow> http_response" where
  "send env req base status body contentType tag =
     (let payload = en_render env body in
      \<lparr>hr_status = status,
       hr_headers = base @ send_headers (en_packed env) payload contentType (rq_acceptEncoding req) tag,
       hr_body = (if is_head req then NoBody else FullBody body (send_coding (byteLength payload) (rq_acceptEncoding req)))\<rparr>)"

definition error_headers :: "api_error \<Rightarrow> http_headers" where
  "error_headers e =
     (if truthy (ae_allow e) then [(''Allow'', the (ae_allow e))] else [])
     @ (if truthy (ae_wwwAuthenticate e) then [(''WWW-Authenticate'', the (ae_wwwAuthenticate e))] else [])
     @ (case ae_retryAfterSeconds e of None \<Rightarrow> [] | Some s \<Rightarrow> [(''Retry-After'', show_int s)])"

definition send_error :: "server_env \<Rightarrow> http_request \<Rightarrow> http_headers \<Rightarrow> api_error \<Rightarrow> http_response" where
  "send_error env req base e =
     send env req (base @ error_headers e) (ae_status e) (RError (toBody (Some (request_id env req)) e)) None None"

definition failure_error :: "failure \<Rightarrow> api_error" where
  "failure_error f = (case f of Refusal e \<Rightarrow> e | Failure m \<Rightarrow> api_error_of 500 ''internal_error'' m None None)"

text \<open>The lines of a CSV body; None is an export that has not ended within the fuel.\<close>

definition csv_open :: "server_env \<Rightarrow> nat \<Rightarrow> csv_source \<Rightarrow> server \<Rightarrow> (failure, string list) result option" where
  "csv_open env fuel src sv =
     (case src of
        ExportOf q \<Rightarrow> map_option (\<lambda>r. case r of Inl e \<Rightarrow> Inl (query_failure e) | Inr ls \<Rightarrow> Inr ls)
          (csvExport (en_codec env) (en_now env) (sv_store sv) (sv_store sv) q fuel)
      | RowsOf events \<Rightarrow> Some (Inr (csvRows (cd_fracs (en_codec env)) events (topicColumnsOf events))))"

definition sendCsv :: "server_env \<Rightarrow> http_request \<Rightarrow> nat \<Rightarrow> http_headers \<Rightarrow> string \<Rightarrow> csv_source \<Rightarrow> server \<Rightarrow> http_response option" where
  "sendCsv env req fuel base filename src sv =
     (let head = \<lparr>hr_status = 200, hr_headers = base @ csv_headers filename (rq_acceptEncoding req), hr_body = NoBody\<rparr> in
      if is_head req then Some head
      else (case csv_open env fuel src sv of
          None \<Rightarrow> None
        | Some (Inl f) \<Rightarrow> Some (send_error env req base (failure_error f))
        | Some (Inr ls) \<Rightarrow> Some (head\<lparr>hr_body := CsvBody ls (pickEncoding (rq_acceptEncoding req))\<rparr>)))"

definition stream_head :: "http_headers \<Rightarrow> nat option \<Rightarrow> http_response" where
  "stream_head base i =
     \<lparr>hr_status = 200,
      hr_headers = filter (\<lambda>(k, v). k \<noteq> ''Connection'') base @
        [(''Content-Type'', ''text/event-stream; charset=utf-8''), (''Cache-Control'', ''no-cache''), (''Connection'', ''keep-alive''),
         (''X-Accel-Buffering'', ''no'')],
      hr_body = (case i of None \<Rightarrow> NoBody | Some n \<Rightarrow> EventStream n)\<rparr>"

definition answer ::
    "server_env \<Rightarrow> http_request \<Rightarrow> nat \<Rightarrow> http_headers \<Rightarrow> string option \<Rightarrow> (failure, handler_result) result \<times> server \<Rightarrow>
      (http_response \<times> server) option" where
  "answer env req fuel base tag outcome =
     (case outcome of
        (Inl f, sv) \<Rightarrow> Some (send_error env req base (failure_error f), sv)
      | (Inr (Reply status body contentType), sv) \<Rightarrow>
          Some (send env req base status body contentType (if status = 200 then tag else None), sv)
      | (Inr (Csv filename src), sv) \<Rightarrow> map_option (\<lambda>r. (r, sv)) (sendCsv env req fuel base filename src sv)
      | (Inr (Streaming i), sv) \<Rightarrow> Some (stream_head base i, sv))"

definition serve ::
    "server_options \<Rightarrow> server_env \<Rightarrow> nat \<Rightarrow> http_request \<Rightarrow> http_headers \<Rightarrow> string \<Rightarrow> server \<Rightarrow> (http_response \<times> server) option" where
  "serve opts env fuel req base path sv =
     (case admit_request env req path (db_of sv) of
        Inl e \<Rightarrow> Some (send_error env req base e, sv)
      | Inr (r, tag) \<Rightarrow>
          if tag \<noteq> None \<and> matchesEntityTag (rq_ifNoneMatch req) (the tag)
          then Some (\<lparr>hr_status = 304, hr_headers = base @ [(''ETag'', the tag), (''Cache-Control'', ''no-cache''),
                 (''Vary'', ''Accept, Accept-Encoding'')], hr_body = NoBody\<rparr>, sv)
          else answer env req fuel base tag
                 (route_handler (rt_id r) opts env req (or_else (route_match (rt_pattern r) path) []) sv))"

definition handle :: "server_options \<Rightarrow> server_env \<Rightarrow> nat \<Rightarrow> http_request \<Rightarrow> server \<Rightarrow> (http_response \<times> server) option" where
  "handle opts env fuel req sv =
     (let base = base_headers opts env req sv; path = request_path (rq_pathname req) in
      if rq_method req = ''OPTIONS'' then Some (\<lparr>hr_status = 204, hr_headers = base, hr_body = NoBody\<rparr>, sv)
      else (case gate opts env req (all_public (candidates path)) sv of
          (Inl e, sv) \<Rightarrow> Some (send_error env req base e, sv)
        | (Inr _, sv) \<Rightarrow> serve opts env fuel req base path sv))"

section \<open>What a refused caller learns\<close>

lemma send_error_status [simp]: "hr_status (send_error env req base e) = ae_status e"
  by (simp add: send_error_def send_def Let_def)

lemma gate_error_status:
  "fst (gate opts env req b sv) = Inl e \<Longrightarrow> ae_status e = 401 \<or> ae_status e = 429"
  by (auto simp: gate_def rate_gate_def key_gate_def unauthorized_def tooManyRequests_def api_error_of_def
    split: if_splits option.splits prod.splits rate_decision.splits)

lemma gate_state: "snd (gate opts env req b sv) = sv\<lparr>sv_limiter := sv_limiter (snd (gate opts env req b sv))\<rparr>"
  by (auto simp: gate_def split: prod.splits sum.splits)

text \<open>The gate and the heads of an answer do not read the path, the parameters and the body.\<close>

definition elsewhere :: "string \<Rightarrow> url_params \<Rightarrow> string list \<Rightarrow> http_request \<Rightarrow> http_request" where
  "elsewhere p ps b req = req\<lparr>rq_pathname := p, rq_params := ps, rq_body := b\<rparr>"

lemma gate_elsewhere:
  assumes "sv_limiter sv' = sv_limiter sv" "sv_digests sv' = sv_digests sv"
  shows "fst (gate opts env (elsewhere p ps b req) False sv') = fst (gate opts env req False sv) \<and>
    sv_limiter (snd (gate opts env (elsewhere p ps b req) False sv')) = sv_limiter (snd (gate opts env req False sv))"
proof -
  have r: "rate_gate opts env (elsewhere p ps b req) l = rate_gate opts env req l" for l
    by (cases l) (simp_all add: rate_gate_def client_of_def elsewhere_def)
  have k: "key_gate env (elsewhere p ps b req) ds = key_gate env req ds" for ds
    by (simp add: key_gate_def elsewhere_def)
  show ?thesis by (simp add: gate_def r k assms split: prod.splits sum.splits)
qed

lemma send_error_elsewhere: "send_error env (elsewhere p ps b req) base e = send_error env req base e"
  by (simp add: send_error_def send_def is_head_def request_id_def Let_def elsewhere_def)

lemma base_headers_elsewhere:
  "sv_draining sv' = sv_draining sv \<Longrightarrow> base_headers opts env (elsewhere p ps b req) sv' = base_headers opts env req sv"
  by (simp add: base_headers_def request_id_def elsewhere_def)

lemma handle_gated:
  assumes "rq_method req \<noteq> ''OPTIONS''" "\<not> all_public (candidates (request_path (rq_pathname req)))"
    and "fst (gate opts env req False sv) = Inl e"
  shows "handle opts env fuel req sv = Some (send_error env req (base_headers opts env req sv) e,
    sv\<lparr>sv_limiter := sv_limiter (snd (gate opts env req False sv))\<rparr>)"
  using assms gate_state [of opts env req False sv]
  by (cases "gate opts env req False sv") (simp add: handle_def Let_def)

lemma refused_same:
  assumes "rq_method req \<noteq> ''OPTIONS''"
    and "\<not> all_public (candidates (request_path (rq_pathname req)))" "\<not> all_public (candidates (request_path p))"
    and "sv_limiter sv' = sv_limiter sv" "sv_digests sv' = sv_digests sv" "sv_draining sv' = sv_draining sv"
    and "fst (gate opts env req False sv) = Inl e"
  shows "\<exists>r l. handle opts env fuel req sv = Some (r, sv\<lparr>sv_limiter := l\<rparr>) \<and>
    handle opts env fuel' (req\<lparr>rq_pathname := p, rq_params := ps, rq_body := b\<rparr>) sv' = Some (r, sv'\<lparr>sv_limiter := l\<rparr>) \<and>
    hr_status r = ae_status e"
proof -
  have o: "rq_method (elsewhere p ps b req) \<noteq> ''OPTIONS''" "\<not> all_public (candidates (request_path (rq_pathname (elsewhere p ps b req))))"
    using assms(1,3) by (simp_all add: elsewhere_def)
  have g: "fst (gate opts env (elsewhere p ps b req) False sv') = Inl e"
    using gate_elsewhere [OF assms(4,5)] assms(7) by simp
  show ?thesis
    using handle_gated [OF assms(1,2,7), of fuel] handle_gated [OF o g, of fuel'] gate_elsewhere [OF assms(4,5), of opts env p ps b req]
      base_headers_elsewhere [OF assms(6), of opts env p ps b req] send_error_elsewhere [of env p ps b req]
    by (intro exI [of _ "send_error env req (base_headers opts env req sv) e"]
      exI [of _ "sv_limiter (snd (gate opts env req False sv))"]) (simp add: elsewhere_def)
qed

section \<open>Answers from a schema that is not current\<close>

lemma admit_stale:
  assumes "db_version db \<noteq> LATEST_SCHEMA_VERSION" "case choose_route req path of Inl e \<Rightarrow> True | Inr r \<Rightarrow> \<not> rt_exempt r"
  shows "\<exists>e. admit_request env req path db = Inl e \<and> ae_status e \<in> {404, 405, 503}"
proof (cases "choose_route req path")
  case (Inl e)
  then have "ae_status e \<in> {404, 405}"
    by (auto simp: choose_route_def notFound_def api_error_of_def Let_def split: if_splits option.splits)
  then show ?thesis by (auto simp: admit_request_def Inl)
next
  case (Inr r)
  then show ?thesis using assms
    by (simp add: admit_request_def assertSchemaCurrent_def getStats_def unavailable_def api_error_of_def Let_def)
qed

section \<open>HEAD\<close>

definition head_of :: "http_request \<Rightarrow> http_request" where
  "head_of req = req\<lparr>rq_method := ''HEAD''\<rparr>"

lemma head_of_simps [simp]:
  "rq_method (head_of req) = ''HEAD''" "rq_pathname (head_of req) = rq_pathname req" "rq_params (head_of req) = rq_params req"
  "rq_accept (head_of req) = rq_accept req" "rq_acceptEncoding (head_of req) = rq_acceptEncoding req"
  "rq_ifNoneMatch (head_of req) = rq_ifNoneMatch req" "rq_apiKey (head_of req) = rq_apiKey req"
  "rq_authorization (head_of req) = rq_authorization req" "rq_forwarded (head_of req) = rq_forwarded req"
  "rq_remoteAddress (head_of req) = rq_remoteAddress req" "rq_lastEventId (head_of req) = rq_lastEventId req"
  "rq_requestId (head_of req) = rq_requestId req" "rq_body (head_of req) = rq_body req" "is_head (head_of req)"
  by (simp_all add: head_of_def is_head_def)

definition bodyless :: "http_response \<Rightarrow> http_response" where
  "bodyless r = r\<lparr>hr_body := NoBody\<rparr>"

lemma gate_head: "gate opts env (head_of req) b sv = gate opts env req b sv"
proof -
  have r: "rate_gate opts env (head_of req) l = rate_gate opts env req l" for l
    by (cases l) (simp_all add: rate_gate_def client_of_def)
  have k: "key_gate env (head_of req) ds = key_gate env req ds" for ds
    by (simp add: key_gate_def)
  show ?thesis by (cases b) (simp_all add: gate_def r k split: prod.splits sum.splits)
qed

lemma base_headers_head: "base_headers opts env (head_of req) sv = base_headers opts env req sv"
  by (simp add: base_headers_def request_id_def)

lemma send_head: "send env (head_of req) base status body ct tag = bodyless (send env req base status body ct tag)"
  by (simp add: send_def Let_def bodyless_def)

lemma send_error_head: "send_error env (head_of req) base e = bodyless (send_error env req base e)"
  by (simp add: send_error_def send_head) (simp add: request_id_def)

lemma choose_route_head:
  "rq_method req = ''GET'' \<Longrightarrow> candidates path \<noteq> [] \<Longrightarrow> choose_route (head_of req) path = choose_route req path"
  by (simp add: choose_route_def get_method_def)

lemma route_tag_head: "route_tag env (head_of req) path r db = route_tag env req path r db"
  by (simp add: route_tag_def)

lemma requireWebhooks_head: "requireWebhooks opts (head_of req) sv = requireWebhooks opts req sv"
  by (cases "sv_webhooks sv") (simp_all add: requireWebhooks_def)

lemma handler_head:
  assumes "i \<noteq> R_stream"
  shows "route_handler i opts env (head_of req) params = route_handler i opts env req params"
  using assms by (cases i) (auto simp: route_handler_def h_graphql_post_def h_webhook_register_def h_webhook_list_def
    h_webhook_get_def h_webhook_delete_def h_dead_letters_def requireWebhooks_head fun_eq_iff)

lemma subscribe_head:
  "fst (subscribe so db True q a h) = (case fst (subscribe so db False q a h) of Inl e \<Rightarrow> Inl e | Inr _ \<Rightarrow> Inr None)"
  by (simp add: subscribe_def Let_def)

lemma stream_answer_head:
  assumes "rq_method req = ''GET''" "answer env req fuel base tag (h_stream opts env req sv) = Some (r, sv1)"
  shows "\<exists>sv2. answer env (head_of req) fuel base tag (h_stream opts env (head_of req) sv) = Some (bodyless r, sv2)"
proof -
  let ?q = "res_bind (refusal (parseEventQuery (en_date_parse env) (rq_params req))) (\<lambda>q.
     if truthy (params_get (rq_params req) ''contractId'')
     then res_bind (refusal (assertContractId (the (params_get (rq_params req) ''contractId'')))) (\<lambda>c. Inr (q\<lparr>q_contractId := Some c\<rparr>))
     else Inr q)"
  show ?thesis
  proof (cases ?q)
    case (Inl e)
    with assms show ?thesis by (auto simp: h_stream_def answer_def send_error_head Let_def)
  next
    case (Inr q)
    let ?a = "lastEventId (rq_lastEventId req) (rq_params req)"
    obtain x h where g: "subscribe (op_stream opts) (db_of sv) False q ?a (sv_hub sv) = (x, h)" by fastforce
    obtain y h' where hd: "subscribe (op_stream opts) (db_of sv) True q ?a (sv_hub sv) = (y, h')" by fastforce
    have y: "y = (case x of Inl e \<Rightarrow> Inl e | Inr _ \<Rightarrow> Inr None)"
      using subscribe_head [of "op_stream opts" "db_of sv" q ?a "sv_hub sv"] g hd by simp
    show ?thesis using assms Inr g hd y
      by (cases x) (auto simp: h_stream_def answer_def send_error_head Let_def stream_head_def bodyless_def split: option.splits)
  qed
qed

lemma csv_open_failure: "csv_open env fuel src sv = Some (Inl f) \<Longrightarrow> ae_status (failure_error f) = 500"
proof (cases src)
  case (ExportOf q)
  assume "csv_open env fuel src sv = Some (Inl f)"
  with ExportOf obtain r where r: "(case r of Inl e \<Rightarrow> Inl (query_failure e) | Inr ls \<Rightarrow> Inr ls) = (Inl f :: (failure, string list) result)"
    by (auto simp: csv_open_def)
  then obtain e where "f = query_failure e" by (cases r) auto
  then show ?thesis by (simp add: failure_error_def query_failure_def api_error_of_def)
qed (simp add: csv_open_def)

lemma sendCsv_head:
  assumes "\<not> is_head req" "sendCsv env req fuel base filename src sv = Some r" "hr_status r \<noteq> 500"
  shows "sendCsv env (head_of req) fuel base filename src sv = Some (bodyless r)"
  using assms csv_open_failure [of env fuel src sv]
  by (auto simp: sendCsv_def Let_def bodyless_def split: option.splits sum.splits)

lemma answer_head:
  assumes "rq_method req = ''GET''" "answer env req fuel base tag outcome = Some (r, sv1)" "hr_status r \<noteq> 500"
    and "\<nexists>i. fst outcome = Inr (Streaming i)"
  shows "answer env (head_of req) fuel base tag outcome = Some (bodyless r, sv1)"
proof -
  have "\<not> is_head req" using assms(1) by (simp add: is_head_def)
  then show ?thesis using assms sendCsv_head
    by (auto simp: answer_def send_error_head send_head split: sum.splits handler_result.splits prod.splits)
qed

lemma unstreamed:
  "fst (h_health opts env sv) \<noteq> Inr (Streaming n)" "fst (h_stats sv) \<noteq> Inr (Streaming n)" "fst (h_status sv) \<noteq> Inr (Streaming n)"
  "fst (h_contracts ps sv) \<noteq> Inr (Streaming n)"
  by (simp_all add: h_health_def h_stats_def h_status_def h_contracts_def Let_def)

lemma unstreamed_contract:
  "fst (h_contract_events env params ps accept sv) \<noteq> Inr (Streaming n)"
  by (auto simp: h_contract_events_def Let_def split: sum.splits prod.splits if_splits)
lemma unstreamed_reads:
  "fst (h_activity env params ps sv) \<noteq> Inr (Streaming n)"
  "fst (h_contract_stats params sv) \<noteq> Inr (Streaming n)"
  "fst (h_contract_spec env params sv) \<noteq> Inr (Streaming n)"
  "fst (h_contract_topics params ps sv) \<noteq> Inr (Streaming n)"
  by (auto simp: h_activity_def h_contract_stats_def h_contract_spec_def h_contract_topics_def Let_def res_bind_case split: sum.splits option.splits)

lemma unstreamed_events:
  "fst (h_events env ps accept sv) \<noteq> Inr (Streaming n)"
  by (auto simp: h_events_def batch_answer_def Let_def split: sum.splits prod.splits if_splits option.splits)

lemma unstreamed_event:
  "fst (h_event env params ps sv) \<noteq> Inr (Streaming n)"
  by (auto simp: h_event_def Let_def split: sum.splits prod.splits)

lemma graphql_answer_reply: "graphql_answer env g request sv \<noteq> Inr (Streaming n)"
  by (auto simp: graphql_answer_def split: option.splits graphql_result.splits)

lemma unstreamed_graphql:
  "fst (h_graphql_get opts env ps sv) \<noteq> Inr (Streaming n)" "fst (h_graphql_post opts env req sv) \<noteq> Inr (Streaming n)"
  by (auto simp: h_graphql_get_def h_graphql_post_def Let_def graphql_answer_reply res_bind_case split: sum.splits json.splits)

lemma unstreamed_webhooks:
  "fst (h_webhook_register opts env req sv) \<noteq> Inr (Streaming n)" "fst (h_webhook_list opts req sv) \<noteq> Inr (Streaming n)"
  "fst (h_webhook_get opts req params sv) \<noteq> Inr (Streaming n)" "fst (h_webhook_delete opts req params sv) \<noteq> Inr (Streaming n)"
  "fst (h_dead_letters opts req params sv) \<noteq> Inr (Streaming n)"
  by (auto simp: h_webhook_register_def h_webhook_list_def h_webhook_get_def h_webhook_delete_def h_dead_letters_def res_bind_case
    split: sum.splits prod.splits register_error.splits)

lemma handler_streams:
  assumes "fst (route_handler i opts env req params sv) = Inr (Streaming n)"
  shows "i = R_stream"
  using assms by (cases i) (simp_all add: route_handler_def unstreamed unstreamed_contract unstreamed_reads unstreamed_events unstreamed_event
    unstreamed_graphql unstreamed_webhooks)

lemma stream_answer_state: "\<exists>h. snd (h_stream opts env req sv) = sv\<lparr>sv_hub := h\<rparr>"
proof -
  have "\<exists>h. sv = sv\<lparr>sv_hub := h\<rparr>" by (rule exI [of _ "sv_hub sv"]) simp
  then show ?thesis by (auto simp: h_stream_def Let_def split: sum.splits prod.splits)
qed

lemma answer_state: "answer env req fuel base tag outcome = Some (r, sv) \<Longrightarrow> sv = snd outcome"
  by (auto simp: answer_def split: prod.splits sum.splits handler_result.splits)

lemma serve_head:
  assumes "rq_method req = ''GET''" "candidates path \<noteq> []"
    and "serve opts env fuel req base path sv = Some (r, sv1)" "hr_status r \<noteq> 500"
  shows "\<exists>h. serve opts env fuel (head_of req) base path sv = Some (bodyless r, sv1\<lparr>sv_hub := h\<rparr>)"
proof -
  have admit: "\<And>sv. admit_request env (head_of req) path (db_of sv) = admit_request env req path (db_of sv)"
    by (simp add: admit_request_def choose_route_head [OF assms(1,2)] route_tag_head)
  show ?thesis
  proof (cases "admit_request env req path (db_of sv)")
    case (Inl e)
    then show ?thesis using assms(3) by (intro exI [of _ "sv_hub sv1"]) (auto simp: serve_def admit send_error_head)
  next
    case (Inr rt)
    obtain rt tag where rt: "admit_request env req path (db_of sv) = Inr (rt, tag)" using Inr by (cases rt) simp
    let ?params = "or_else (route_match (rt_pattern rt) path) []"
    show ?thesis
    proof (cases "tag \<noteq> None \<and> matchesEntityTag (rq_ifNoneMatch req) (the tag)")
      case True
      then show ?thesis using assms(3) rt by (intro exI [of _ "sv_hub sv1"]) (auto simp: serve_def admit bodyless_def)
    next
      case False
      then have a: "answer env req fuel base tag (route_handler (rt_id rt) opts env req ?params sv) = Some (r, sv1)"
        using assms(3) by (simp only: serve_def rt sum.case prod.case if_not_P [OF False] if_False)
      have s: "serve opts env fuel (head_of req) base path sv =
          answer env (head_of req) fuel base tag (route_handler (rt_id rt) opts env (head_of req) ?params sv)"
        by (simp only: serve_def admit rt sum.case prod.case if_not_P [OF False] if_False head_of_simps)
      show ?thesis
      proof (cases "rt_id rt = R_stream")
        case True
        then have h: "route_handler (rt_id rt) opts env rq ?params sv = h_stream opts env rq sv" for rq by (simp add: route_handler_def)
        from stream_answer_head [OF assms(1) a [unfolded h]] obtain sv2 where
          2: "answer env (head_of req) fuel base tag (h_stream opts env (head_of req) sv) = Some (bodyless r, sv2)" by blast
        obtain h1 h2 where "sv1 = sv\<lparr>sv_hub := h1\<rparr>" "sv2 = sv\<lparr>sv_hub := h2\<rparr>"
          using answer_state [OF a [unfolded h]] answer_state [OF 2] stream_answer_state by metis
        then have "sv2 = sv1\<lparr>sv_hub := h2\<rparr>" by simp
        with 2 show ?thesis by (auto simp: s h)
      next
        case False
        have "answer env (head_of req) fuel base tag (route_handler (rt_id rt) opts env req ?params sv) = Some (bodyless r, sv1)"
          using answer_head [OF assms(1) a assms(4)] handler_streams False by blast
        then show ?thesis by (intro exI [of _ "sv_hub sv1"]) (simp add: s handler_head [OF False])
      qed
    qed
  qed
qed

section \<open>Starting and stopping\<close>

text \<open>\<open>rateLimit\<close> is the rate and the burst of the options; the webhooks' timer runs from the start.\<close>

definition createApiServer ::
    "(string \<Rightarrow> string) \<Rightarrow> event_store \<Rightarrow> (js_num \<times> js_num option) option \<Rightarrow> string list \<Rightarrow> bool \<Rightarrow> (string, server) result" where
  "createApiServer digest store rateLimit apiKeys webhooks =
     res_bind (case rateLimit of None \<Rightarrow> Inr None | Some (rate, burst) \<Rightarrow> res_bind (new_limiter rate burst) (\<lambda>l. Inr (Some l))) (\<lambda>l.
       Inr \<lparr>sv_store = store, sv_limiter = l, sv_digests = api_keys digest apiKeys, sv_specs = new_spec_cache None,
         sv_hub = new_hub, sv_webhooks = (if webhooks then Some (wh_start new_manager) else None), sv_draining = False\<rparr>)"

definition close_server :: "server \<Rightarrow> server" where
  "close_server sv = sv\<lparr>sv_hub := closeAll (sv_hub sv), sv_webhooks := map_option wh_stop (sv_webhooks sv)\<rparr>"

definition begin_shutdown :: "server \<Rightarrow> server" where
  "begin_shutdown sv = close_server (sv\<lparr>sv_draining := True\<rparr>)"

end
