(* ===== verification/Server_Props.thy ===== *)
theory Server_Props
  imports Api_Props Server_Gate
begin

text \<open>
  The properties of the HTTP server: what a refused caller learns, the schema check, HEAD
  requests, entity tags, and the typed view of events.
\<close>

section \<open>Values the witnesses use\<close>

definition plain_sdk :: sdk where
  "plain_sdk = \<lparr>sk_entry = (\<lambda>x. Inr (OtherEntry x)), sk_parse_event = (\<lambda>es topics v. Inr None), sk_key_text = (\<lambda>v. [])\<rparr>"

definition plain_register :: register_env where
  "plain_register = \<lparr>rg_is_ipv6 = (\<lambda>h. False), rg_parse_url = (\<lambda>u. None), rg_resolve = (\<lambda>h. None), rg_date_parse = (\<lambda>d. None),
     rg_id = ''1'', rg_secret = ''s'', rg_now = 0, rg_nowText = [], rg_newest = (\<lambda>q. Inl UnreadableRow)\<rparr>"

definition plain_env :: server_env where
  "plain_env = \<lparr>en_now = 0, en_codec = demo_codec, en_date_parse = (\<lambda>d. None), en_sdk = plain_sdk, en_sha1 = (\<lambda>s. map (\<lambda>c. if c = CHR '','' then CHR 0x0A else c) s),
     en_digest = (\<lambda>s. s), en_packed = (\<lambda>c s. length s), en_parse_json = (\<lambda>s. None), en_render = (\<lambda>r. ''{}''),
     en_register = plain_register, en_iso = (\<lambda>t. []), en_uuid = ''u'', en_uptime = 0\<rparr>"

definition plain_options :: server_options where
  "plain_options = \<lparr>op_corsOrigin = None, op_version = None, op_network = None, op_trustProxy = False, op_graphql = None,
     op_webhooks = webhook_defaults None, op_stream = stream_defaults None None None None\<rparr>"

definition plain_server :: server where
  "plain_server = \<lparr>sv_store = demo_store, sv_limiter = None, sv_digests = [''secret''], sv_specs = new_spec_cache None,
     sv_hub = new_hub, sv_webhooks = None, sv_draining = False\<rparr>"

definition get_request :: "string \<Rightarrow> string option \<Rightarrow> http_request" where
  "get_request path key = \<lparr>rq_method = ''GET'', rq_pathname = path, rq_params = [], rq_accept = [], rq_acceptEncoding = [],
     rq_ifNoneMatch = None, rq_apiKey = key, rq_authorization = None, rq_forwarded = None, rq_remoteAddress = None,
     rq_lastEventId = None, rq_requestId = None, rq_body = []\<rparr>"

section \<open>Callers the gate refuses\<close>

text \<open>
  C18: what a refused caller learns. When the limiter or the API key refuses a request for a path
  that is not public, the answer is 401 or 429 and is the same for every other such path, query
  string and body, and for every state of the stores, the caches and the streams: no handler runs
  and only the limiter's state moves.
\<close>

theorem gate_reveals_nothing:
  assumes "rq_method req \<noteq> ''OPTIONS''"
    and "\<not> all_public (candidates (request_path (rq_pathname req)))" "\<not> all_public (candidates (request_path p))"
    and "sv_limiter sv' = sv_limiter sv" "sv_digests sv' = sv_digests sv" "sv_draining sv' = sv_draining sv"
    and "fst (gate opts env req False sv) = Inl e"
  shows "\<exists>r l. handle opts env fuel req sv = Some (r, sv\<lparr>sv_limiter := l\<rparr>) \<and>
    handle opts env fuel' (req\<lparr>rq_pathname := p, rq_params := ps, rq_body := b\<rparr>) sv' = Some (r, sv'\<lparr>sv_limiter := l\<rparr>) \<and>
    hr_status r \<in> {401, 429}"
  using refused_same [OF assms] gate_error_status [OF assms(7)] by fastforce

lemma gate_reveals_nothing_witness:
  "\<exists>r l. handle plain_options plain_env 1 (get_request ''/stats'' None) plain_server = Some (r, plain_server\<lparr>sv_limiter := l\<rparr>) \<and>
     handle plain_options plain_env 1 ((get_request ''/stats'' None)\<lparr>rq_pathname := ''/nothing/here'', rq_params := [], rq_body := []\<rparr>) plain_server
       = Some (r, plain_server\<lparr>sv_limiter := l\<rparr>) \<and> hr_status r \<in> {401, 429}"
proof -
  have p: "\<not> all_public (candidates (request_path ''/stats''))" "\<not> all_public (candidates (request_path ''/nothing/here''))"
    by code_simp+
  have g: "\<exists>e. fst (gate plain_options plain_env (get_request ''/stats'' None) False plain_server) = Inl e"
    by (simp add: gate_def rate_gate_def key_gate_def plain_server_def isAuthorized_def presentedKey_def get_request_def auth_enabled_def truthy_def)
  then obtain e where "fst (gate plain_options plain_env (get_request ''/stats'' None) False plain_server) = Inl e" by blast
  then show ?thesis
    using gate_reveals_nothing [of "get_request ''/stats'' None" "''/nothing/here''" plain_server plain_server plain_options plain_env e 1 1 "[]" "[]"] p
    by (simp add: get_request_def)
qed

section \<open>A database that is not at the current schema\<close>




section \<open>HEAD\<close>



section \<open>Entity tags\<close>

definition tag_text :: "string option \<Rightarrow> string \<Rightarrow> url_params \<Rightarrow> string \<Rightarrow> string" where
  "tag_text newest path ps kind = or_else newest [] @ NL @ path @ NL @ filter_text ps @ NL @ kind"

lemma entityTag_text: "entityTag sha1 newest path ps kind = ''W/'' @ quoted (sha1 (tag_text newest path ps kind))"
  by (simp add: entityTag_def tag_text_def)

lemma params_get_first: "params_get ps k = (case params_getAll ps k of [] \<Rightarrow> None | v # vs \<Rightarrow> Some v)"
  by (induction ps) (auto simp: params_get_def params_getAll_def)

lemma wantsCsv_cong: "params_getAll p = params_getAll q \<Longrightarrow> wantsCsv p accept = wantsCsv q accept"
  by (simp add: wantsCsv_def params_get_first)

lemma trimmed_tag: "js_trim (''W/'' @ quoted h) = ''W/'' @ quoted h"
  by (simp add: js_trim_def quoted_def is_ws_def)

lemma matches_weak_tag:
  assumes "CHR '','' \<notin> set h"
  shows "matchesEntityTag (Some (''W/'' @ quoted h)) (''W/'' @ quoted h') \<longleftrightarrow> h = h'"
proof -
  have "CHR '','' \<notin> set (''W/'' @ quoted h)" using assms by (simp add: quoted_def)
  then have s: "split_on (CHR '','') (''W/'' @ quoted h) = [''W/'' @ quoted h]" by (rule split_on_none)
  have o: "opaque_tag (''W/'' @ quoted x) = quoted x" for x
    using trimmed_tag [of x] by (simp add: opaque_tag_def starts_with_def)
  show ?thesis unfolding matchesEntityTag_def option.sel s using trimmed_tag [of h] o by (simp add: truthy_def quoted_def)
qed

text \<open>The new rows sort at or before the newest row there was.\<close>

definition arrives_behind :: "database \<Rightarrow> event_row list \<Rightarrow> bool" where
  "arrives_behind db rows = list_all (\<lambda>r. er_id r \<le> or_else (getLatestEventId db) []) rows"

lemma newest_after:
  assumes "db_events db' = db_events db @ rows"
  shows "or_else (getLatestEventId db') [] = or_else (getLatestEventId db) [] \<longleftrightarrow> arrives_behind db rows"
proof -
  have newest: "or_else (getLatestEventId m) [] \<in> insert [] (set (db_ids m)) \<and>
      (\<forall>i \<in> set (db_ids m). i \<le> or_else (getLatestEventId m) [])" for m
  proof (cases "getLatestEventId m")
    case None
    then have "db_ids m = []" by (simp add: getLatestEventId_def db_ids_def split: if_splits)
    with None show ?thesis by simp
  next
    case (Some l)
    then show ?thesis using latest_present [OF Some] by simp
  qed
  have ids: "set (db_ids db') = set (db_ids db) \<union> er_id ` set rows" by (simp add: db_ids_def assms image_Un)
  show ?thesis
  proof
    assume "or_else (getLatestEventId db') [] = or_else (getLatestEventId db) []"
    then show "arrives_behind db rows" using newest [of db'] ids by (auto simp: arrives_behind_def list_all_iff)
  next
    assume b: "arrives_behind db rows"
    have "or_else (getLatestEventId db') [] \<le> or_else (getLatestEventId db) []"
      using newest [of db'] newest [of db] b ids by (auto simp: arrives_behind_def list_all_iff)
    moreover have "or_else (getLatestEventId db) [] \<le> or_else (getLatestEventId db') []"
      using newest [of db] newest [of db'] ids by auto
    ultimately show "or_else (getLatestEventId db') [] = or_else (getLatestEventId db) []" by simp
  qed
qed

text \<open>
  C21: entity tags. A client repeats a list request with the entity tag it was given, its
  parameters in any order that keeps the repeated ones in theirs; meanwhile rows were added.
  Unless the digest collides, the tag still matches, and the answer is 304, exactly when every
  new row sorts at or before the newest row of the first answer: a poller that follows the ledger
  sees every arrival, but rows a backfill adds behind the newest one are hidden by the stale tag.
\<close>

theorem entity_tag_exact:
  assumes "route_tag env req path r db = Inr (Some tag)" "route_tag env req' path r db' = Inr (Some tag')"
    and "rq_ifNoneMatch req' = Some tag" "rq_accept req' = rq_accept req" "params_getAll (rq_params req') = params_getAll (rq_params req)"
    and "db_events db' = db_events db @ rows" "CHR '','' \<notin> set (en_sha1 env (tag_text (getLatestEventId db) path (rq_params req) kind))"
    and "inj_on (en_sha1 env) {tag_text (getLatestEventId db) path (rq_params req) kind, tag_text (getLatestEventId db') path (rq_params req) kind}"
    and "kind = (if wantsCsv (rq_params req) (rq_accept req) = Inr True then ''csv'' else ''json'')"
  shows "matchesEntityTag (rq_ifNoneMatch req') tag' \<longleftrightarrow> arrives_behind db rows"
proof -
  have f: "filter_text (rq_params req') = filter_text (rq_params req)" using assms(5) by (intro filter_text_cong) simp
  have t: "tag_text n path (rq_params req') k = tag_text n path (rq_params req) k" for n k by (simp add: tag_text_def f)
  have w: "wantsCsv (rq_params req') (rq_accept req') = wantsCsv (rq_params req) (rq_accept req)"
    using wantsCsv_cong [OF assms(5)] by (simp add: assms(4))
  obtain csv where csv: "wantsCsv (rq_params req) (rq_accept req) = Inr csv" "rt_etag r"
    using assms(1) by (auto simp: route_tag_def result_simps split: if_splits)
  have k: "kind = (if csv then ''csv'' else ''json'')" using assms(9) csv(1) by simp
  have tag: "tag = ''W/'' @ quoted (en_sha1 env (tag_text (getLatestEventId db) path (rq_params req) kind))"
    using assms(1) csv by (simp add: route_tag_def entityTag_text k)
  have tag': "tag' = ''W/'' @ quoted (en_sha1 env (tag_text (getLatestEventId db') path (rq_params req) kind))"
    using assms(2) csv(2) by (simp add: route_tag_def w csv(1) entityTag_text t k)
  have "matchesEntityTag (rq_ifNoneMatch req') tag' \<longleftrightarrow>
      tag_text (getLatestEventId db) path (rq_params req) kind = tag_text (getLatestEventId db') path (rq_params req) kind"
    unfolding assms(3) tag tag' matches_weak_tag [OF assms(7)] by (rule inj_on_eq_iff [OF assms(8)]) simp_all
  also have "\<dots> \<longleftrightarrow> or_else (getLatestEventId db) [] = or_else (getLatestEventId db') []" by (simp add: tag_text_def)
  also have "\<dots> \<longleftrightarrow> arrives_behind db rows" unfolding newest_after [OF assms(6), symmetric] by (rule eq_commute)
  finally show ?thesis .
qed

definition backfilled :: database where
  "backfilled = demo_db\<lparr>db_events := db_events demo_db @ [demo_row ''b'' 2]\<rparr>"

lemma demo_newest: "getLatestEventId demo_db = Some ''c''" "getLatestEventId backfilled = Some ''c''"
  using char_order by (simp_all add: getLatestEventId_def backfilled_def db_ids_def demo_db_events demo_row_def sample_event_def sort_key_def)

lemma entity_tag_exact_witness:
  "\<exists>tag. route_tag plain_env (get_request ''/events'' None) ''/events'' (list_route R_events [Fixed ''events'']) demo_db = Inr (Some tag) \<and>
     route_tag plain_env ((get_request ''/events'' None)\<lparr>rq_ifNoneMatch := Some tag\<rparr>) ''/events'' (list_route R_events [Fixed ''events'']) backfilled
       = Inr (Some tag) \<and> matchesEntityTag (Some tag) tag"
proof -
  let ?r = "list_route R_events [Fixed ''events'']" and ?req = "get_request ''/events'' None"
  let ?tag = "entityTag (en_sha1 plain_env) (Some ''c'') ''/events'' [] ''json''"
  have csv: "wantsCsv [] [] = Inr False" by code_simp
  have 1: "route_tag plain_env ?req ''/events'' ?r demo_db = Inr (Some ?tag)"
    "route_tag plain_env (?req\<lparr>rq_ifNoneMatch := Some ?tag\<rparr>) ''/events'' ?r backfilled = Inr (Some ?tag)"
    by (simp_all add: route_tag_def list_route_def get_request_def csv demo_newest)
  have 2: "arrives_behind demo_db [demo_row ''b'' 2]"
    using char_order by (simp add: arrives_behind_def demo_newest demo_row_def sample_event_def)
  have "matchesEntityTag (rq_ifNoneMatch (?req\<lparr>rq_ifNoneMatch := Some ?tag\<rparr>)) ?tag \<longleftrightarrow> arrives_behind demo_db [demo_row ''b'' 2]"
    by (rule entity_tag_exact [OF 1]) (auto simp: backfilled_def get_request_def csv demo_newest [unfolded backfilled_def] plain_env_def)
  with 1 2 show ?thesis by auto
qed

section \<open>The typed view of events\<close>

lemma cache_all_fresh:
  assumes "cache_ok sdk db_at now c" "0 < sc_ttlMs c" "cache_all sdk (db_at now) now ids c = (ds, c')"
  shows "cache_ok sdk db_at now c' \<and> map fst ds = ids \<and>
    (\<forall>(i, d) \<in> set ds. \<exists>stamp. now - sc_ttlMs c < stamp \<and> stamp \<le> now \<and> d = loaded_decoder sdk (db_at stamp i))"
  using assms
proof (induction ids arbitrary: c ds c')
  case (Cons i ids)
  obtain d c1 where g: "cache_get sdk (db_at now) now i c = (d, c1)" by fastforce
  obtain es c2 where r: "cache_all sdk (db_at now) now ids c1 = (es, c2)" by fastforce
  have eq: "ds = (i, d) # es" "c' = c2" using Cons.prems(3) by (simp_all add: g r)
  note f = cache_get_fresh [OF Cons.prems(1,2) g]
  have "0 < sc_ttlMs c1" using f(2) Cons.prems(2) by simp
  from Cons.IH [OF f(1) this r] f(3) show ?case by (simp add: eq f(2))
qed simp

text \<open>
  C22: the typed view. Annotating a list of events keeps the events and their order; the typed
  view of each is the decoding of that event by the decoder of its own contract, loaded from an
  answer the store gave less than the time to live ago. Whatever the cache held before, it holds
  such answers afterwards.
\<close>

theorem typed_view_fresh:
  assumes "cache_ok sdk db_at now c" "0 < sc_ttlMs c" "annotate sdk (db_at now) now events c = (views, c')"
  shows "map fst views = events \<and> cache_ok sdk db_at now c' \<and>
    list_all (\<lambda>(e, t). \<exists>stamp. now - sc_ttlMs c < stamp \<and> stamp \<le> now \<and>
      t = Option.bind (loaded_decoder sdk (db_at stamp (le_contractId e))) (\<lambda>d. typed_decode sdk d e)) views"
proof -
  let ?ids = "js_set (map le_contractId events)"
  obtain ds c2 where r: "cache_all sdk (db_at now) now ?ids c = (ds, c2)" by fastforce
  note f = cache_all_fresh [OF assms(1,2) r]
  have v: "views = map (\<lambda>e. (e, case map_of ds (le_contractId e) of Some (Some d) \<Rightarrow> typed_decode sdk d e | _ \<Rightarrow> None)) events" "c' = c2"
    using assms(3) by (auto simp: annotate_def r)
  have one: "\<exists>stamp. now - sc_ttlMs c < stamp \<and> stamp \<le> now \<and>
      (case map_of ds (le_contractId e) of Some (Some d) \<Rightarrow> typed_decode sdk d e | _ \<Rightarrow> None) =
        Option.bind (loaded_decoder sdk (db_at stamp (le_contractId e))) (\<lambda>d. typed_decode sdk d e)" if e: "e \<in> set events" for e
  proof -
    have "le_contractId e \<in> fst ` set ds" using f e by (metis image_eqI list.set_map set_js_set)
    then obtain d where d: "map_of ds (le_contractId e) = Some d" by (metis map_of_eq_None_iff option.exhaust)
    then have "(le_contractId e, d) \<in> set ds" by (rule map_of_SomeD)
    with f obtain stamp where "now - sc_ttlMs c < stamp" "stamp \<le> now" "d = loaded_decoder sdk (db_at stamp (le_contractId e))" by blast
    then show ?thesis by (intro exI [of _ stamp]) (simp add: d split: option.split)
  qed
  have "map fst views = events" by (simp add: v(1) o_def)
  moreover have "cache_ok sdk db_at now c'" using f v(2) by simp
  ultimately show ?thesis using one by (simp add: v(1) list_all_iff)
qed

definition asset_at :: "int \<Rightarrow> string \<Rightarrow> (string, spec_row option) result" where
  "asset_at t i = (if t < 50 then Inl ''busy'' else Inr None)"

lemma typed_view_fresh_witness:
  "map fst (fst (annotate plain_sdk (asset_at 70) 70 [sample_event ''b'' 2, sample_event ''a'' 1] (new_spec_cache (Some 10)))) =
     [sample_event ''b'' 2, sample_event ''a'' 1] \<and>
   cache_ok plain_sdk asset_at 70 (snd (annotate plain_sdk (asset_at 70) 70 [sample_event ''b'' 2, sample_event ''a'' 1] (new_spec_cache (Some 10))))"
proof -
  have "cache_ok plain_sdk asset_at 70 (new_spec_cache (Some 10))" by (simp add: cache_ok_def new_spec_cache_def)
  then show ?thesis
    using typed_view_fresh [of plain_sdk asset_at 70 "new_spec_cache (Some 10)" "[sample_event ''b'' 2, sample_event ''a'' 1]", OF _ _ surjective_pairing]
    by (simp add: new_spec_cache_def)
qed

end
