(* ===== verification/Pg_Store.thy ===== *)
theory Pg_Store
  imports Sqlite_Maint
begin

text \<open>
  The Postgres store (\<open>packages/store/src/postgres-store.ts\<close>): rows, tables, writes and reads.
  SQL statements are modelled by what they do to the tables, as for the SQLite store. A cast to
  JSONB keeps a normal form of the value and refuses some values: \<open>jsonb\<close> is that cast, and
  \<open>jsonb_text\<close> the cast of such a value to text. A statement Postgres refuses throws.
\<close>

section \<open>Rows\<close>

record pg_server =
  gs_jsonb :: "json \<Rightarrow> json option"
  gs_jsonb_text :: "json \<Rightarrow> string"

record pg_row =
  gr_id :: string
  gr_contract_id :: string
  gr_type :: event_type
  gr_ledger :: int
  gr_ledger_closed_at :: string
  gr_closed_at_unix :: int
  gr_tx_hash :: string
  gr_transaction_index :: int
  gr_operation_index :: int
  gr_in_successful_call :: bool
  gr_topics_json :: json
  gr_topics_xdr_json :: string
  gr_topic_count :: int
  gr_topic0 :: "string option"
  gr_topic1 :: "string option"
  gr_topic2 :: "string option"
  gr_topic3 :: "string option"
  gr_value_type :: string
  gr_value_json :: json
  gr_value_xdr :: string
  gr_decode_error :: "string option"
  gr_indexed_at :: string

text \<open>What INTEGER and BIGINT columns hold, and the CHECK on the type.\<close>

definition int4 :: "int \<Rightarrow> bool" where
  "int4 n = (- (2 ^ 31) \<le> n \<and> n < 2 ^ 31)"

definition int8 :: "int \<Rightarrow> bool" where
  "int8 n = (- (2 ^ 63) \<le> n \<and> n < 2 ^ 63)"

definition pg_columns_fit :: "codec \<Rightarrow> lens_event \<Rightarrow> bool" where
  "pg_columns_fit cd e = (int4 (le_ledger e) \<and> int8 (closed_at_unix cd (le_ledgerClosedAt e)) \<and>
     int4 (le_transactionIndex e) \<and> int4 (le_operationIndex e) \<and> int4 (int (length (le_topics e))))"

definition pg_json_columns :: "pg_server \<Rightarrow> lens_event \<Rightarrow> (json \<times> json) option" where
  "pg_json_columns srv e = (case gs_jsonb srv (topics_json_of (le_topics e)) of None \<Rightarrow> None
     | Some t \<Rightarrow> map_option (Pair t) (gs_jsonb srv (decoded_json (le_value e))))"

text \<open>The parameters of the INSERT, cast to the types of the columns.\<close>

definition pg_insertParams :: "pg_server \<Rightarrow> codec \<Rightarrow> lens_event \<Rightarrow> (string, pg_row) result" where
  "pg_insertParams srv cd e =
     (case pg_json_columns srv e of
        None \<Rightarrow> Inl ''invalid input syntax for type json''
      | Some (topics, v) \<Rightarrow>
          if \<not> pg_columns_fit cd e then Inl ''value is out of range''
          else Inr
            \<lparr>gr_id = le_id e, gr_contract_id = le_contractId e, gr_type = le_type e, gr_ledger = le_ledger e,
             gr_ledger_closed_at = le_ledgerClosedAt e, gr_closed_at_unix = closed_at_unix cd (le_ledgerClosedAt e),
             gr_tx_hash = le_txHash e, gr_transaction_index = le_transactionIndex e,
             gr_operation_index = le_operationIndex e, gr_in_successful_call = le_inSuccessfulContractCall e,
             gr_topics_json = topics, gr_topics_xdr_json = strings_text (le_topicsXdr e),
             gr_topic_count = int (length (le_topics e)),
             gr_topic0 = nth_topic_key cd (map decoded_json (le_topics e)) 0,
             gr_topic1 = nth_topic_key cd (map decoded_json (le_topics e)) 1,
             gr_topic2 = nth_topic_key cd (map decoded_json (le_topics e)) 2,
             gr_topic3 = nth_topic_key cd (map decoded_json (le_topics e)) 3,
             gr_value_type = dv_type (le_value e), gr_value_json = v, gr_value_xdr = le_valueXdr e,
             gr_decode_error = le_decodeError e, gr_indexed_at = le_indexedAt e\<rparr>)"

text \<open>None where reading the row back throws, or gives what is not an event.\<close>

definition pg_rowToEvent :: "pg_row \<Rightarrow> lens_event option" where
  "pg_rowToEvent r =
     (case topics_of_json (Some (gr_topics_json r)) of None \<Rightarrow> None | Some topics \<Rightarrow>
      (case parse_strings (gr_topics_xdr_json r) of None \<Rightarrow> None | Some txdr \<Rightarrow>
       (case decoded_of_json (gr_value_json r) of None \<Rightarrow> None | Some v \<Rightarrow>
         Some \<lparr>le_id = gr_id r, le_contractId = gr_contract_id r, le_type = gr_type r, le_ledger = gr_ledger r,
           le_ledgerClosedAt = gr_ledger_closed_at r, le_txHash = gr_tx_hash r,
           le_transactionIndex = gr_transaction_index r, le_operationIndex = gr_operation_index r,
           le_inSuccessfulContractCall = gr_in_successful_call r, le_topics = topics, le_topicsXdr = txdr,
           le_value = v, le_valueXdr = gr_value_xdr r, le_decodeError = gr_decode_error r,
           le_indexedAt = gr_indexed_at r\<rparr>)))"

section \<open>The database\<close>

record pg_database =
  gd_events :: "pg_row list"
  gd_addresses :: "(string \<times> string \<times> string) list"
  gd_streams :: "stream_state list"
  gd_specs :: "spec_row list"
  gd_version :: nat

definition gd_ids :: "pg_database \<Rightarrow> string list" where
  "gd_ids db = map gr_id (gd_events db)"

text \<open>BEGIN, the body, COMMIT; ROLLBACK and rethrow when the body throws.\<close>

definition pg_tx :: "(pg_database \<Rightarrow> (string, 'a \<times> pg_database) result) \<Rightarrow> pg_database \<Rightarrow> (string, 'a) result \<times> pg_database" where
  "pg_tx body db = (case body db of Inl e \<Rightarrow> (Inl e, db) | Inr (a, db') \<Rightarrow> (Inr a, db'))"

section \<open>Writing new events\<close>

definition pg_insert_address :: "string \<times> string \<times> string \<Rightarrow> pg_database \<Rightarrow> pg_database" where
  "pg_insert_address a db = db\<lparr>gd_addresses := set_add a (gd_addresses db)\<rparr>"

definition pg_insertAddresses :: "codec \<Rightarrow> string \<Rightarrow> string list \<Rightarrow> string \<Rightarrow> pg_database \<Rightarrow> pg_database" where
  "pg_insertAddresses cd eventId topicsXdr valueXdr db =
     foldl (\<lambda>db (a, p). pg_insert_address (eventId, a, p) db) db (address_positions cd topicsXdr valueXdr)"

text \<open>INSERT ... ON CONFLICT (id) DO NOTHING: the casts and the CHECK come before the conflict.\<close>

definition pg_insert_one :: "pg_server \<Rightarrow> codec \<Rightarrow> lens_event \<Rightarrow> pg_database \<Rightarrow> (string, nat \<times> pg_database) result" where
  "pg_insert_one srv cd e db =
     res_bind (pg_insertParams srv cd e) (\<lambda>row.
       if gr_type row \<notin> {ContractEvent, SystemEvent} then Inl ''new row for relation events violates check constraint''
       else if gr_id row \<in> set (gd_ids db) then Inr (0, db)
       else Inr (1, pg_insertAddresses cd (le_id e) (le_topicsXdr e) (le_valueXdr e) (db\<lparr>gd_events := gd_events db @ [row]\<rparr>)))"

fun pg_insert_loop :: "pg_server \<Rightarrow> codec \<Rightarrow> nat \<Rightarrow> lens_event list \<Rightarrow> pg_database \<Rightarrow> (string, nat \<times> pg_database) result" where
  "pg_insert_loop srv cd inserted [] db = Inr (inserted, db)"
| "pg_insert_loop srv cd inserted (e # es) db =
     res_bind (pg_insert_one srv cd e db) (\<lambda>(changed, db). pg_insert_loop srv cd (inserted + changed) es db)"

definition pg_insertDecoded :: "pg_server \<Rightarrow> codec \<Rightarrow> lens_event list \<Rightarrow> pg_database \<Rightarrow> (string, nat) result \<times> pg_database" where
  "pg_insertDecoded srv cd events db = (if length events = 0 then (Inr 0, db) else pg_tx (pg_insert_loop srv cd 0 events) db)"

definition pg_insertEvents :: "pg_server \<Rightarrow> codec \<Rightarrow> string \<Rightarrow> raw_event list \<Rightarrow> pg_database \<Rightarrow> (string, nat) result \<times> pg_database" where
  "pg_insertEvents srv cd now events db = pg_insertDecoded srv cd (map (\<lambda>e. decodeEvent cd e now) events) db"

definition pg_find_row :: "pg_database \<Rightarrow> string \<Rightarrow> pg_row option" where
  "pg_find_row db i = find (\<lambda>r. gr_id r = i) (gd_events db)"

definition pg_getEvent :: "pg_database \<Rightarrow> string \<Rightarrow> lens_event option" where
  "pg_getEvent db i = (case pg_find_row db i of None \<Rightarrow> None | Some r \<Rightarrow> pg_rowToEvent r)"

section \<open>Substring search\<close>

definition likeEscape :: "string \<Rightarrow> string" where
  "likeEscape text = concat (map (\<lambda>c. if c = CHR 0x5C \<or> c = CHR ''%'' \<or> c = CHR ''_'' then [CHR 0x5C, c] else [c]) text)"

text \<open>LIKE: a backslash makes the next character literal, \<open>%\<close> is any text, \<open>_\<close> any character.\<close>

fun like :: "string \<Rightarrow> string \<Rightarrow> bool" where
  "like [] s = (s = [])"
| "like (p # ps) [] = (p = CHR ''%'' \<and> like ps [])"
| "like (p # ps) (c # s) =
     (if p = CHR ''%'' then like ps (c # s) \<or> like (p # ps) s
      else if p = CHR ''_'' then like ps s
      else if p = CHR 0x5C \<and> ps \<noteq> [] then hd ps = c \<and> like (tl ps) s
      else p = c \<and> like ps s)"

definition ilike :: "string \<Rightarrow> string \<Rightarrow> bool" where
  "ilike s pattern = like (js_lower pattern) (js_lower s)"

section \<open>The WHERE clause\<close>

definition pg_buildWhere :: "event_query \<Rightarrow> sql_cond list" where
  "pg_buildWhere q =
     when_text (q_contractId q) CContract @ when_text (q_txHash q) CTxHash @
     when_text (q_search q) (\<lambda>s. CSearch (''%'' @ likeEscape s @ ''%'')) @ when_text (q_address q) CAddress @
     when_some (q_transactionIndex q) CTransactionIndex @ when_some (q_operationIndex q) COperationIndex @
     when_some (q_fromLedger q) CFromLedger @ when_some (q_toLedger q) CToLedger @
     when_some (q_fromTime q) CFromTime @ when_some (q_toTime q) CToTime @
     (if q_successfulOnly q then [CSuccessful] else []) @ topic_conds 0 (q_topics q)"

definition pg_topic_column :: "pg_row \<Rightarrow> nat \<Rightarrow> string option" where
  "pg_topic_column r i = (if i = 0 then gr_topic0 r else if i = 1 then gr_topic1 r
     else if i = 2 then gr_topic2 r else gr_topic3 r)"

fun pg_cond_holds :: "pg_server \<Rightarrow> pg_database \<Rightarrow> pg_row \<Rightarrow> sql_cond \<Rightarrow> bool" where
  "pg_cond_holds srv db r (CContract c) = (gr_contract_id r = c)"
| "pg_cond_holds srv db r (CTxHash h) = (gr_tx_hash r = h)"
| "pg_cond_holds srv db r (CSearch p) =
     (ilike (gs_jsonb_text srv (gr_topics_json r)) p \<or> ilike (gs_jsonb_text srv (gr_value_json r)) p)"
| "pg_cond_holds srv db r (CAddress a) = list_ex (\<lambda>(i, a', p). i = gr_id r \<and> a' = a) (gd_addresses db)"
| "pg_cond_holds srv db r (CTransactionIndex i) = (gr_transaction_index r = i)"
| "pg_cond_holds srv db r (COperationIndex i) = (gr_operation_index r = i)"
| "pg_cond_holds srv db r (CFromLedger l) = (gr_ledger r \<ge> l)"
| "pg_cond_holds srv db r (CToLedger l) = (gr_ledger r \<le> l)"
| "pg_cond_holds srv db r (CFromTime t) = (gr_closed_at_unix r \<ge> t)"
| "pg_cond_holds srv db r (CToTime t) = (gr_closed_at_unix r \<le> t)"
| "pg_cond_holds srv db r CSuccessful = gr_in_successful_call r"
| "pg_cond_holds srv db r (CTopic i t) = (pg_topic_column r i = Some t)"

definition pg_select :: "pg_server \<Rightarrow> pg_database \<Rightarrow> sql_cond list \<Rightarrow> pg_row list" where
  "pg_select srv db conds = filter (\<lambda>r. list_all (pg_cond_holds srv db r) conds) (gd_events db)"

section \<open>Pages\<close>

text \<open>The column \<open>id\<close> has the collation "C": ids compare as their bytes.\<close>

definition pg_order_by_id :: "sort_order \<Rightarrow> pg_row list \<Rightarrow> pg_row list" where
  "pg_order_by_id order rows = (case order of Asc \<Rightarrow> sort_key gr_id rows | Desc \<Rightarrow> rev (sort_key gr_id rows))"

definition pg_existsBeyond :: "pg_server \<Rightarrow> pg_database \<Rightarrow> sql_cond list \<Rightarrow> (string \<Rightarrow> bool) \<Rightarrow> bool" where
  "pg_existsBeyond srv db conds beyond = list_ex (\<lambda>r. beyond (gr_id r)) (pg_select srv db conds)"

record pg_row_page =
  gp_rows :: "pg_row list"
  gp_next :: "string option"
  gp_prev :: "string option"

definition pg_query_rows ::
    "pg_server \<Rightarrow> pg_database \<Rightarrow> sql_cond list \<Rightarrow> sort_order \<Rightarrow> bool \<Rightarrow> string option \<Rightarrow> nat \<Rightarrow> pg_row_page" where
  "pg_query_rows srv db conds order backward cursor limit =
     (let scanOrder = (if backward then flip_order order else order);
          keyset = (\<lambda>r. if truthy cursor then id_before scanOrder (the cursor) (gr_id r) else True);
          rows = take (limit + 1) (pg_order_by_id scanOrder (filter keyset (pg_select srv db conds)));
          hasMore = length rows > limit;
          scanned = (if hasMore then take limit rows else rows);
          page = (if backward then rev scanned else scanned);
          beyond_last = page \<noteq> [] \<and> pg_existsBeyond srv db conds (id_before order (gr_id (last page)));
          before_first = page \<noteq> [] \<and> pg_existsBeyond srv db conds (\<lambda>i. id_before order i (gr_id (hd page)));
          first = (if page = [] then None else Some (gr_id (hd page)));
          final = (if page = [] then None else Some (gr_id (last page)))
      in \<lparr>gp_rows = page,
          gp_next = (if backward then (if beyond_last then final else None) else if hasMore then final else None),
          gp_prev = (if backward then (if hasMore then first else None) else if before_first then first else None)\<rparr>)"

record pg_store =
  ps_db :: pg_database
  ps_cache :: "(sql_cond list \<times> nat \<times> int) list"
  ps_ttl :: int

definition pg_countCached :: "pg_server \<Rightarrow> int \<Rightarrow> sql_cond list \<Rightarrow> pg_store \<Rightarrow> (nat \<times> bool) \<times> pg_store" where
  "pg_countCached srv now conds s =
     (case (if ps_ttl s > 0 then map_of (ps_cache s) conds else None) of
        Some (cnt, expiresAt) \<Rightarrow>
          if expiresAt > now then ((cnt, True), s)
          else (let n = length (pg_select srv (ps_db s) conds)
                in ((n, False), s\<lparr>ps_cache := map_set conds (n, now + ps_ttl s) (ps_cache s)\<rparr>))
      | None \<Rightarrow>
         (let n = length (pg_select srv (ps_db s) conds)
          in ((n, False), if ps_ttl s > 0 then s\<lparr>ps_cache := map_set conds (n, now + ps_ttl s) (ps_cache s)\<rparr> else s)))"

definition pg_queryEvents :: "pg_server \<Rightarrow> int \<Rightarrow> event_query \<Rightarrow> pg_store \<Rightarrow> (query_error, event_page) result \<times> pg_store" where
  "pg_queryEvents srv now q s =
     (let limit = normaliseLimit (q_limit q);
          order = (if q_order q = Some Asc then Asc else Desc);
          backward = (q_direction q = Some Backward);
          conds = pg_buildWhere q;
          ((cnt, estimate), s) = (if q_skipTotal q then ((0, False), s) else pg_countCached srv now conds s);
          p = pg_query_rows srv (ps_db s) conds order backward (q_cursor q) limit
      in (case option_list (map pg_rowToEvent (gp_rows p)) of
            None \<Rightarrow> Inl UnreadableRow
          | Some events \<Rightarrow> Inr \<lparr>pg_events = events, pg_nextCursor = gp_next p, pg_prevCursor = gp_prev p,
              pg_total = cnt, pg_totalIsEstimate = estimate\<rparr>, s))"

definition pg_getLatestEventId :: "pg_database \<Rightarrow> string option" where
  "pg_getLatestEventId db = (if gd_events db = [] then None else Some (last (sort (gd_ids db))))"

section \<open>Aggregates\<close>

definition pg_listContracts :: "js_num option \<Rightarrow> pg_database \<Rightarrow> contract_summary list" where
  "pg_listContracts limit db =
     take (normaliseNumber (or_else limit (JsNum 100)))
       (js_sort (\<lambda>a b. cy_lastLedger b - cy_lastLedger a)
         (map (\<lambda>(c, rs). \<lparr>cy_contractId = c, cy_eventCount = length rs, cy_firstLedger = min_of (map gr_ledger rs),
              cy_lastLedger = max_of (map gr_ledger rs), cy_lastSeenAt = max_text (map gr_ledger_closed_at rs)\<rparr>)
            (sql_group gr_contract_id (gd_events db))))"

definition pg_topic_counts :: "pg_row list \<Rightarrow> (string \<times> nat) list" where
  "pg_topic_counts rows = map (\<lambda>(t, rs). (the t, length rs)) (sql_group gr_topic0 (filter (\<lambda>r. gr_topic0 r \<noteq> None) rows))"

definition by_count :: "string \<times> nat \<Rightarrow> string \<times> nat \<Rightarrow> int" where
  "by_count a b = (if snd a \<noteq> snd b then int (snd b) - int (snd a)
     else if fst a < fst b then -1 else if fst a > fst b then 1 else 0)"

definition pg_listTopics :: "string \<Rightarrow> js_num option \<Rightarrow> pg_database \<Rightarrow> (string \<times> nat) list" where
  "pg_listTopics contractId limit db = take (normaliseNumber (or_else limit (JsNum 50)))
     (js_sort by_count (pg_topic_counts (filter (\<lambda>r. gr_contract_id r = contractId) (gd_events db))))"

definition pg_countByTopic :: "js_num option \<Rightarrow> pg_database \<Rightarrow> (string \<times> nat) list" where
  "pg_countByTopic limit db = take (normaliseNumber (or_else limit (JsNum 50)))
     (js_sort by_count (pg_topic_counts (gd_events db)))"

definition pg_countByTimeBucket :: "pg_server \<Rightarrow> event_query \<Rightarrow> time_bucket \<Rightarrow> pg_database \<Rightarrow> bucket_count list" where
  "pg_countByTimeBucket srv q bucket db =
     map (\<lambda>(st, rs). \<lparr>bc_start = st, bc_count = length rs, bc_firstLedger = min_of (map gr_ledger rs),
        bc_lastLedger = max_of (map gr_ledger rs)\<rparr>)
       (sql_group (\<lambda>r. sql_div (gr_closed_at_unix r) (BUCKET_SECONDS bucket) * BUCKET_SECONDS bucket)
         (pg_select srv db (pg_buildWhere q)))"

definition pg_getStats :: "pg_database \<Rightarrow> store_stats" where
  "pg_getStats db =
     \<lparr>st_eventCount = length (gd_events db), st_contractCount = length (remdups (map gr_contract_id (gd_events db))),
      st_minLedger = (if gd_events db = [] then None else Some (min_of (map gr_ledger (gd_events db)))),
      st_maxLedger = (if gd_events db = [] then None else Some (max_of (map gr_ledger (gd_events db)))),
      st_schemaVersion = gd_version db\<rparr>"

definition pg_healthCheck :: "pg_database \<Rightarrow> bool" where
  "pg_healthCheck db = (st_schemaVersion (pg_getStats db) = LATEST_SCHEMA_VERSION)"

section \<open>Contract specs and stream states\<close>

definition pg_saveContractSpec :: "spec_row \<Rightarrow> pg_database \<Rightarrow> pg_database" where
  "pg_saveContractSpec r db = db\<lparr>gd_specs := upsert sr_contract_id r (gd_specs db)\<rparr>"

definition pg_getContractSpec :: "string \<Rightarrow> pg_database \<Rightarrow> spec_row option" where
  "pg_getContractSpec i db = find (\<lambda>r. sr_contract_id r = i) (gd_specs db)"

definition pg_listContractSpecs :: "pg_database \<Rightarrow> spec_row list" where
  "pg_listContractSpecs db = map (\<lambda>r. r\<lparr>sr_entries_xdr := []\<rparr>) (sort_key sr_contract_id (gd_specs db))"

definition pg_saveStreamState :: "stream_state \<Rightarrow> pg_database \<Rightarrow> pg_database" where
  "pg_saveStreamState s db = db\<lparr>gd_streams := upsert ss_key s (gd_streams db)\<rparr>"

definition pg_loadStreamState :: "string \<Rightarrow> pg_database \<Rightarrow> stream_state option" where
  "pg_loadStreamState key db = find (\<lambda>s. ss_key s = key) (gd_streams db)"

definition pg_listStreamStates :: "pg_database \<Rightarrow> stream_state list" where
  "pg_listStreamStates db = sort_key ss_key (gd_streams db)"

end
