(* ===== verification/Pg_Maint.thy ===== *)
theory Pg_Maint
  imports Pg_Store Sqlite_Schema
begin

text \<open>
  Maintenance of the Postgres store (\<open>packages/store/src/postgres-store.ts\<close>): pruning, re-decoding,
  the integrity check, snapshots, and the migrations of \<open>postgres-schema.ts\<close>. \<open>size\<close> is what
  \<open>pg_database_size\<close> answers after each statement.
\<close>

section \<open>Pruning\<close>

definition pg_below :: "int \<Rightarrow> pg_row \<Rightarrow> bool" where
  "pg_below ledger r = (gr_ledger r < ledger)"

text \<open>DELETE, with the cascade to \<open>event_addresses\<close>.\<close>

definition pg_delete_events :: "(pg_row \<Rightarrow> bool) \<Rightarrow> pg_database \<Rightarrow> pg_database" where
  "pg_delete_events doomed db =
     (let gone = set (map gr_id (filter doomed (gd_events db)))
      in db\<lparr>gd_events := filter (\<lambda>r. \<not> doomed r) (gd_events db),
            gd_addresses := filter (\<lambda>(i, a, p). i \<notin> gone) (gd_addresses db)\<rparr>)"

definition pg_pruneBefore :: "int \<Rightarrow> pg_database \<Rightarrow> nat \<times> pg_database" where
  "pg_pruneBefore ledger db = (length (filter (pg_below ledger) (gd_events db)), pg_delete_events (pg_below ledger) db)"

text \<open>The database and what \<open>pg_database_size\<close> says of it; \<open>after_delete\<close> is how a DELETE moves that.\<close>

record sized_db =
  sd_db :: pg_database
  sd_bytes :: nat

definition pg_oldest :: "pg_database \<Rightarrow> int option" where
  "pg_oldest db = (if gd_events db = [] then None else Some (min_of (map gr_ledger (gd_events db))))"

function pg_prune_loop :: "(pg_database \<Rightarrow> nat \<Rightarrow> nat) \<Rightarrow> nat \<Rightarrow> int \<Rightarrow> sized_db \<Rightarrow> pruned \<Rightarrow> sized_db \<times> pruned" where
  "pg_prune_loop dk target chunk fs acc =
     (if sd_bytes fs \<le> target then (fs, acc)
      else case pg_oldest (sd_db fs) of
          None \<Rightarrow> (fs, acc)
        | Some oldest \<Rightarrow>
           (let cutoff = oldest + chunk; doomed = filter (pg_below cutoff) (gd_events (sd_db fs)) in
            if doomed = [] then (fs, acc)
            else let db = pg_delete_events (pg_below cutoff) (sd_db fs)
                 in pg_prune_loop dk target chunk \<lparr>sd_db = db, sd_bytes = dk db (sd_bytes fs)\<rparr>
                      \<lparr>pr_rowsRemoved = pr_rowsRemoved acc + length doomed,
                       pr_ledgersRemoved = pr_ledgersRemoved acc + length (remdups (map gr_ledger doomed)),
                       pr_highestPrunedLedger = Some (max_of (map gr_ledger doomed))\<rparr>))"
  by pat_completeness auto
termination
proof (relation "measure (\<lambda>(dk, target, chunk, fs, acc). length (gd_events (sd_db fs)))", goal_cases)
  case (2 dk target chunk fs acc oldest cutoff doomed db)
  then have "length (filter (\<lambda>r. \<not> pg_below cutoff r) (gd_events (sd_db fs))) < length (gd_events (sd_db fs))"
    by (metis (no_types, lifting) filter_True filter_empty_conv length_filter_less)
  with 2 show ?case by (simp add: pg_delete_events_def Let_def)
qed simp

declare pg_prune_loop.simps [simp del]

definition pg_pruneToSize :: "(pg_database \<Rightarrow> nat \<Rightarrow> nat) \<Rightarrow> nat option \<Rightarrow> int \<Rightarrow> sized_db \<Rightarrow> prune_result \<times> sized_db" where
  "pg_pruneToSize dk targetBytes chunkLedgers fs =
     (case targetBytes of
        None \<Rightarrow> (\<lparr>pz_removed = no_prune, pz_sizeBytesAfter = sd_bytes fs, pz_withinTarget = True\<rparr>, fs)
      | Some target \<Rightarrow>
          (let (fs, acc) = pg_prune_loop dk target (max 1 chunkLedgers) fs no_prune
           in (\<lparr>pz_removed = acc, pz_sizeBytesAfter = sd_bytes fs, pz_withinTarget = (sd_bytes fs \<le> target)\<rparr>, fs)))"

section \<open>Re-decoding\<close>

definition pg_raw_of_row :: "codec \<Rightarrow> pg_row \<Rightarrow> raw_event option" where
  "pg_raw_of_row cd r = (case parse_strings (gr_topics_xdr_json r) of None \<Rightarrow> None | Some txdr \<Rightarrow>
     if cd_date_ms cd (gr_indexed_at r) = None then None
     else Some \<lparr>re_id = gr_id r, re_type = gr_type r, re_ledger = gr_ledger r, re_ledgerClosedAt = gr_ledger_closed_at r,
       re_contractId = gr_contract_id r, re_topic = txdr, re_value = gr_value_xdr r, re_txHash = gr_tx_hash r,
       re_transactionIndex = gr_transaction_index r, re_operationIndex = gr_operation_index r,
       re_inSuccessfulContractCall = gr_in_successful_call r\<rparr>)"

text \<open>The row after the UPDATE, and the event it holds.\<close>

definition pg_recompute :: "pg_server \<Rightarrow> codec \<Rightarrow> pg_row \<Rightarrow> (string, lens_event \<times> pg_row) result" where
  "pg_recompute srv cd r = (case pg_raw_of_row cd r of
       None \<Rightarrow> Inl ''unreadable row''
     | Some raw \<Rightarrow>
         (let e = decodeEvent cd raw (gr_indexed_at r) in
          case pg_json_columns srv e of
            None \<Rightarrow> Inl ''invalid input syntax for type json''
          | Some (topics, v) \<Rightarrow>
              if \<not> int4 (int (length (le_topics e))) then Inl ''value is out of range''
              else Inr (e, r\<lparr>gr_topics_json := topics, gr_topics_xdr_json := strings_text (le_topicsXdr e),
                gr_topic_count := int (length (le_topics e)),
                gr_topic0 := nth_topic_key cd (map decoded_json (le_topics e)) 0,
                gr_topic1 := nth_topic_key cd (map decoded_json (le_topics e)) 1,
                gr_topic2 := nth_topic_key cd (map decoded_json (le_topics e)) 2,
                gr_topic3 := nth_topic_key cd (map decoded_json (le_topics e)) 3,
                gr_value_type := dv_type (le_value e), gr_value_json := v, gr_value_xdr := le_valueXdr e,
                gr_decode_error := le_decodeError e\<rparr>)))"

definition pg_rewrite :: "pg_server \<Rightarrow> codec \<Rightarrow> pg_row \<Rightarrow> pg_database \<Rightarrow> (string, pg_database) result" where
  "pg_rewrite srv cd r db = res_bind (pg_recompute srv cd r) (\<lambda>(e, r').
     Inr (pg_insertAddresses cd (gr_id r) (le_topicsXdr e) (le_valueXdr e)
       (db\<lparr>gd_events := map (\<lambda>x. if gr_id x = gr_id r then r' else x) (gd_events db),
           gd_addresses := filter (\<lambda>(i, a, p). i \<noteq> gr_id r) (gd_addresses db)\<rparr>)))"

fun pg_rewrite_loop :: "pg_server \<Rightarrow> codec \<Rightarrow> pg_row list \<Rightarrow> pg_database \<Rightarrow> (string, pg_database) result" where
  "pg_rewrite_loop srv cd [] db = Inr db"
| "pg_rewrite_loop srv cd (r # rs) db = res_bind (pg_rewrite srv cd r db) (pg_rewrite_loop srv cd rs)"

definition pg_redecode :: "pg_server \<Rightarrow> codec \<Rightarrow> bool \<Rightarrow> pg_database \<Rightarrow> (string, nat) result \<times> pg_database" where
  "pg_redecode srv cd everything db =
     (let rows = filter (\<lambda>r. everything \<or> gr_decode_error r \<noteq> None) (gd_events db) in
      if rows = [] then (Inr 0, db)
      else pg_tx (\<lambda>db. res_bind (pg_rewrite_loop srv cd rows db) (\<lambda>db. Inr (length rows, db))) db)"

definition pg_repairRow :: "pg_server \<Rightarrow> codec \<Rightarrow> string \<Rightarrow> pg_database \<Rightarrow> (string, unit) result \<times> pg_database" where
  "pg_repairRow srv cd i db = (case pg_find_row db i of
       None \<Rightarrow> (Inr (), db)
     | Some r \<Rightarrow> pg_tx (\<lambda>db. res_bind (pg_rewrite srv cd r db) (\<lambda>db. Inr ((), db))) db)"

section \<open>The integrity check\<close>

definition pg_topic_problem :: "codec \<Rightarrow> pg_row \<Rightarrow> json list \<Rightarrow> nat \<Rightarrow> string list" where
  "pg_topic_problem cd r topics i =
     (if nth_topic_key cd topics i \<noteq> pg_topic_column r i
      then [''topic'' @ show_nat i @ '' is '' @ quoted_or_null (pg_topic_column r i) @ '', expected ''
              @ quoted_or_null (nth_topic_key cd topics i) @ '' from topics_json'']
      else [])"

definition pg_row_problems :: "codec \<Rightarrow> pg_row \<Rightarrow> string list" where
  "pg_row_problems cd r =
     ((case gr_topics_json r of JArr _ \<Rightarrow> [] | _ \<Rightarrow> [''topics_json is not a JSON array'']) @
      (if parse_strings (gr_topics_xdr_json r) = None then [''topics_xdr_json is not valid JSON''] else []) @
      (case gr_topics_json r of
         JArr topics \<Rightarrow>
           (if int (length topics) \<noteq> gr_topic_count r
            then [''topic_count ('' @ show_int (gr_topic_count r) @ '') does not match topics_json length (''
                    @ show_nat (length topics) @ '')''] else []) @
           concat (map (pg_topic_problem cd r topics) [0, 1, 2, 3])
       | _ \<Rightarrow> []))"

definition pg_checkIntegrity :: "codec \<Rightarrow> pg_database \<Rightarrow> (string \<times> string list) list" where
  "pg_checkIntegrity cd db = filter (\<lambda>(i, ps). length ps > 0) (map (\<lambda>r. (gr_id r, pg_row_problems cd r)) (gd_events db))"

section \<open>Snapshots\<close>

definition EXPORT_BATCH :: nat where
  "EXPORT_BATCH = 1000"

definition export_page :: "pg_database \<Rightarrow> string \<Rightarrow> pg_row list" where
  "export_page db after = take EXPORT_BATCH (sort_key gr_id (filter (\<lambda>r. gr_id r > after) (gd_events db)))"

text \<open>
  One REPEATABLE READ transaction, so every page reads the same rows. None where a row cannot be
  read; every page moves \<open>after\<close> to a later id.
\<close>

lemma export_page_last:
  assumes "export_page db after \<noteq> []"
  shows "after < gr_id (last (export_page db after))" "gr_id (last (export_page db after)) \<in> set (gd_ids db)"
proof -
  have "last (export_page db after) \<in> set (filter (\<lambda>r. gr_id r > after) (gd_events db))"
    using last_in_set [OF assms] unfolding export_page_def by (metis in_set_takeD set_sort)
  then show "after < gr_id (last (export_page db after))" "gr_id (last (export_page db after)) \<in> set (gd_ids db)"
    by (auto simp: gd_ids_def)
qed

function export_loop :: "pg_database \<Rightarrow> string \<Rightarrow> nat \<Rightarrow> snapshot_line list \<Rightarrow> (nat \<times> snapshot_line list) option" where
  "export_loop db after written acc =
     (let rows = export_page db after in
      if rows = [] then Some (written, acc)
      else case option_list (map pg_rowToEvent rows) of
          None \<Rightarrow> None
        | Some es \<Rightarrow> export_loop db (gr_id (last rows)) (written + length rows) (acc @ map EventLine es))"
  by pat_completeness auto
termination
proof (relation "measure (\<lambda>(db, after, written, acc). length (filter (\<lambda>r. gr_id r > after) (gd_events db)))", goal_cases)
  case (2 db after written acc rows es)
  let ?l = "gr_id (last rows)"
  have l: "after < ?l" "?l \<in> set (gd_ids db)" using export_page_last [of db after] 2 by simp_all
  then obtain r where r: "r \<in> set (gd_events db)" "gr_id r = ?l" by (auto simp: gd_ids_def)
  have e: "filter (\<lambda>r. ?l < gr_id r) (gd_events db) = filter (\<lambda>r. ?l < gr_id r) (filter (\<lambda>r. after < gr_id r) (gd_events db))"
    using l(1) by (auto intro: filter_cong)
  have "length (filter (\<lambda>r. ?l < gr_id r) (filter (\<lambda>r. after < gr_id r) (gd_events db))) < length (filter (\<lambda>r. after < gr_id r) (gd_events db))"
    using r l(1) by (intro length_filter_less [of r]) auto
  then show ?case by (simp add: e)
qed simp

declare export_loop.simps [simp del]

definition pg_exportSnapshot :: "pg_database \<Rightarrow> (nat \<times> snapshot_line list) option" where
  "pg_exportSnapshot db = export_loop db [] 0 []"

definition pg_flush_batch ::
    "pg_server \<Rightarrow> codec \<Rightarrow> lens_event list \<Rightarrow> nat \<Rightarrow> pg_database \<Rightarrow> (string, nat) result \<times> pg_database" where
  "pg_flush_batch srv cd batch inserted db =
     (if length batch = 0 then (Inr inserted, db)
      else case pg_insertDecoded srv cd batch db of (Inl e, db) \<Rightarrow> (Inl e, db) | (Inr n, db) \<Rightarrow> (Inr (inserted + n), db))"

fun pg_import_loop ::
    "pg_server \<Rightarrow> codec \<Rightarrow> lens_event list \<Rightarrow> nat \<Rightarrow> snapshot_line list \<Rightarrow> pg_database \<Rightarrow> (string, nat) result \<times> pg_database"
where
  "pg_import_loop srv cd batch inserted [] db = pg_flush_batch srv cd batch inserted db"
| "pg_import_loop srv cd batch inserted (l # ls) db =
     (case l of
        BlankLine \<Rightarrow> pg_import_loop srv cd batch inserted ls db
      | BadLine \<Rightarrow> (Inl ''not JSON'', db)
      | EventLine e \<Rightarrow>
         (if length (batch @ [e]) \<ge> BATCH_SIZE
          then (case pg_flush_batch srv cd (batch @ [e]) inserted db of
                  (Inl err, db) \<Rightarrow> (Inl err, db)
                | (Inr n, db) \<Rightarrow> pg_import_loop srv cd [] n ls db)
          else pg_import_loop srv cd (batch @ [e]) inserted ls db))"

definition pg_importSnapshot :: "pg_server \<Rightarrow> codec \<Rightarrow> snapshot_line list \<Rightarrow> pg_database \<Rightarrow> (string, nat) result \<times> pg_database" where
  "pg_importSnapshot srv cd ls db = pg_import_loop srv cd [] 0 ls db"

section \<open>Migrations\<close>

text \<open>Statements as in \<open>Sqlite_Schema\<close>; an index that needs \<open>pg_trgm\<close> needs the extension's operators.\<close>

datatype pg_ddl = PgDdl ddl | PgExtension string | PgTrgmIndex string string

record pg_migration =
  gm_version :: nat
  gm_name :: string
  gm_optional :: bool
  gm_up :: "pg_ddl list"
  gm_down :: "pg_ddl list option"

definition pg_step :: "nat \<Rightarrow> string \<Rightarrow> ddl list \<Rightarrow> ddl list \<Rightarrow> pg_migration" where
  "pg_step v name up down = \<lparr>gm_version = v, gm_name = name, gm_optional = False, gm_up = map PgDdl up, gm_down = Some (map PgDdl down)\<rparr>"

definition POSTGRES_MIGRATIONS :: "pg_migration list" where
  "POSTGRES_MIGRATIONS =
     [pg_step 1 ''initial-events-schema''
        [CreateTable ''events'', CreateOn ''idx_events_contract_id_desc'' ''events'', CreateOn ''idx_events_ledger'' ''events'',
         CreateOn ''idx_events_topic0'' ''events'', CreateOn ''idx_events_contract_topic0'' ''events'',
         CreateOn ''idx_events_tx_hash'' ''events'', CreateOn ''idx_events_topics_gin'' ''events'', CreateTable ''stream_state'']
        [DropIfExists ''stream_state'', DropIfExists ''events''],
      pg_step 2 ''index-indexed-at'' [CreateOn ''idx_events_indexed_at'' ''events''] [DropIfExists ''idx_events_indexed_at''],
      pg_step 3 ''index-closed-at-unix'' [CreateOn ''idx_events_closed_at_unix'' ''events''] [DropIfExists ''idx_events_closed_at_unix''],
      pg_step 4 ''index-decoded-addresses''
        [CreateTable ''event_addresses'', CreateOn ''idx_event_addresses_address'' ''event_addresses'',
         CreateOn ''idx_event_addresses_event_id'' ''event_addresses''] [DropIfExists ''event_addresses''],
      \<lparr>gm_version = 5, gm_name = ''full-text-search'', gm_optional = True,
       gm_up = [PgExtension ''pg_trgm'', PgTrgmIndex ''idx_events_topics_trgm'' ''events'', PgTrgmIndex ''idx_events_value_trgm'' ''events''],
       gm_down = Some [PgDdl (DropIfExists ''idx_events_value_trgm''), PgDdl (DropIfExists ''idx_events_topics_trgm'')]\<rparr>,
      pg_step 6 ''contract-specs'' [CreateTable ''contract_specs''] [DropIfExists ''contract_specs'']]"

text \<open>\<open>trgm\<close>: the role may create the extension, or it is there. It belongs to no table of the schema.\<close>

fun pg_exec :: "bool \<Rightarrow> pg_ddl \<Rightarrow> schema \<Rightarrow> (string, schema) result" where
  "pg_exec trgm (PgDdl d) s = exec_ddl False d s"
| "pg_exec trgm (PgExtension x) s = (if trgm then Inr s else Inl (''permission denied to create extension '' @ x))"
| "pg_exec trgm (PgTrgmIndex i t) s = (if trgm then exec_ddl False (CreateOn i t) s else Inl ''operator class gin_trgm_ops does not exist'')"

fun pg_exec_all :: "bool \<Rightarrow> pg_ddl list \<Rightarrow> schema \<Rightarrow> (string, schema) result" where
  "pg_exec_all trgm [] s = Inr s"
| "pg_exec_all trgm (d # ds) s = res_bind (pg_exec trgm d s) (pg_exec_all trgm ds)"

definition pg_pending :: "pg_migration list \<Rightarrow> schema \<Rightarrow> pg_migration list" where
  "pg_pending ms s = sort_key gm_version (filter (\<lambda>m. gm_version m \<notin> fst ` set (sc_applied s)) ms)"

text \<open>An optional step runs in a savepoint: where it fails, the schema is as before it, and it counts as applied.\<close>

definition pg_apply :: "bool \<Rightarrow> pg_migration \<Rightarrow> schema \<Rightarrow> (string, schema) result" where
  "pg_apply trgm m s = (case pg_exec_all trgm (gm_up m) s of
       Inr s' \<Rightarrow> Inr s' | Inl e \<Rightarrow> if gm_optional m then Inr s else Inl e)"

fun pg_apply_up :: "bool \<Rightarrow> pg_migration list \<Rightarrow> schema \<Rightarrow> (string, schema) result" where
  "pg_apply_up trgm [] s = Inr s"
| "pg_apply_up trgm (m # ms) s = res_bind (pg_apply trgm m s) (\<lambda>s.
     pg_apply_up trgm ms (s\<lparr>sc_applied := sc_applied s @ [(gm_version m, gm_name m)]\<rparr>))"

definition pg_migrate :: "bool \<Rightarrow> pg_migration list \<Rightarrow> schema \<Rightarrow> (string, unit) result \<times> schema" where
  "pg_migrate trgm ms s = sql_transaction (pg_apply_up trgm (pg_pending ms s)) s"

definition pg_down_of :: "pg_migration list \<Rightarrow> nat \<Rightarrow> pg_ddl list option" where
  "pg_down_of ms v = (case find (\<lambda>m. gm_version m = v) (rev ms) of None \<Rightarrow> None | Some m \<Rightarrow> gm_down m)"

fun pg_apply_down :: "bool \<Rightarrow> pg_migration list \<Rightarrow> nat list \<Rightarrow> schema \<Rightarrow> (string, schema) result" where
  "pg_apply_down trgm ms [] s = Inr s"
| "pg_apply_down trgm ms (v # vs) s =
     res_bind (pg_exec_all trgm (case pg_down_of ms v of Some d \<Rightarrow> d | None \<Rightarrow> []) s)
       (\<lambda>s. pg_apply_down trgm ms vs (s\<lparr>sc_applied := filter (\<lambda>(w, n). w \<noteq> v) (sc_applied s)\<rparr>))"

definition pg_migrateDown :: "bool \<Rightarrow> pg_migration list \<Rightarrow> nat \<Rightarrow> schema \<Rightarrow> (string, nat list) result \<times> schema" where
  "pg_migrateDown trgm ms toVersion s =
     (let applied = filter (\<lambda>(v, n). v > toVersion) (rev (sort_key fst (sc_applied s))) in
      if applied = [] then (Inr [], s)
      else case filter (\<lambda>(v, n). pg_down_of ms v = None) applied of
          (v, n) # _ \<Rightarrow> (Inl (''cannot roll back: migration '' @ show_nat v @ '' ('' @ n @ '') has no down SQL. Nothing was rolled back.''), s)
        | [] \<Rightarrow> (case sql_transaction (pg_apply_down trgm ms (map fst applied)) s of
                   (Inl e, s) \<Rightarrow> (Inl e, s) | (Inr _, s) \<Rightarrow> (Inr (map fst applied), s)))"

section \<open>Opening a store\<close>

text \<open>\<open>po_pool\<close>: an existing pool is given; \<open>po_max\<close> the size of a pool to open.\<close>

record pg_options =
  po_connectionString :: "string option"
  po_pool :: bool
  po_schema :: "string option"
  po_max :: "int option"
  po_migrateOnOpen :: "bool option"

definition schema_name_ok :: "string \<Rightarrow> bool" where
  "schema_name_ok s =
     (let letter = (\<lambda>c. ch_range (CHR ''A'') (CHR ''Z'') c \<or> ch_range (CHR ''a'') (CHR ''z'') c \<or> c = CHR ''_'')
      in s \<noteq> [] \<and> letter (hd s) \<and> list_all (\<lambda>c. letter c \<or> is_digit c) (tl s))"

text \<open>The statement an own pool runs first, and the search path it sets.\<close>

datatype pg_pool = GivenPool | OwnPool "int option" "(string \<times> string) option"

definition pg_open :: "bool \<Rightarrow> pg_options \<Rightarrow> (string, pg_pool) result" where
  "pg_open installed opts =
     (if po_pool opts then Inr GivenPool
      else if \<not> truthy (po_connectionString opts) then Inl ''PostgresEventStore.connect needs a `connectionString` or a `pool`''
      else case po_schema opts of
          None \<Rightarrow> if installed then Inr (OwnPool (po_max opts) None) else Inl ''The Postgres backend needs the pg package''
        | Some name \<Rightarrow>
            if \<not> schema_name_ok name then Inl (''invalid schema name '' @ name @ '': use letters, digits and underscores'')
            else if \<not> installed then Inl ''The Postgres backend needs the pg package''
            else Inr (OwnPool (po_max opts) (Some (''CREATE SCHEMA IF NOT EXISTS '' @ [CHR 0x22] @ name @ [CHR 0x22],
                        ''-c search_path='' @ [CHR 0x22] @ name @ [CHR 0x22] @ '',public''))))"

definition pg_connect :: "bool \<Rightarrow> bool \<Rightarrow> pg_options \<Rightarrow> schema \<Rightarrow> (string, pg_pool) result \<times> schema" where
  "pg_connect installed trgm opts s =
     (case pg_open installed opts of
        Inl e \<Rightarrow> (Inl e, s)
      | Inr pool \<Rightarrow>
          if po_migrateOnOpen opts = Some False then (Inr pool, s)
          else case pg_migrate trgm POSTGRES_MIGRATIONS s of (Inl e, s) \<Rightarrow> (Inl e, s) | (Inr _, s) \<Rightarrow> (Inr pool, s))"

section \<open>Lemmas on migrations\<close>

lemma pg_migrate_atomic: "pg_migrate trgm ms s = (Inl e, s') \<Longrightarrow> s' = s"
  by (auto simp: pg_migrate_def sql_transaction_def split: sum.splits)

lemma pg_migrateDown_atomic: "pg_migrateDown trgm ms v s = (Inl e, s') \<Longrightarrow> s' = s"
  by (auto simp: pg_migrateDown_def sql_transaction_def Let_def split: if_splits sum.splits prod.splits list.splits)

lemma pg_exec_all_applied: "pg_exec_all trgm ds s = Inr t \<Longrightarrow> sc_applied t = sc_applied s"
proof (induction ds arbitrary: s)
  case (Cons d ds)
  have e: "exec_ddl b x s = Inr u \<Longrightarrow> sc_applied u = sc_applied s" for b x u by (cases x) (auto split: if_splits)
  from Cons.prems obtain u where u: "pg_exec trgm d s = Inr u" "pg_exec_all trgm ds u = Inr t" by (auto simp: result_simps)
  then have "sc_applied u = sc_applied s" by (cases d) (auto split: if_splits dest: e simp del: exec_ddl.simps)
  with Cons.IH [OF u(2)] show ?case by simp
qed simp

lemma pg_apply_up_applied:
  "pg_apply_up trgm ms s = Inr s' \<Longrightarrow> sc_applied s' = sc_applied s @ map (\<lambda>m. (gm_version m, gm_name m)) ms"
proof (induction ms arbitrary: s)
  case (Cons m ms)
  then obtain t where t: "pg_apply trgm m s = Inr t"
      "pg_apply_up trgm ms (t\<lparr>sc_applied := sc_applied t @ [(gm_version m, gm_name m)]\<rparr>) = Inr s'"
    by (auto simp: result_simps)
  then have "sc_applied t = sc_applied s"
    by (auto simp: pg_apply_def split: sum.splits if_splits dest: pg_exec_all_applied)
  with Cons.IH [OF t(2)] show ?case by simp
qed simp

lemma pg_migrate_again:
  assumes "pg_migrate trgm ms s = (Inr (), s')"
  shows "pg_migrate trgm' ms s' = (Inr (), s')"
proof -
  have "sc_applied s' = sc_applied s @ map (\<lambda>m. (gm_version m, gm_name m)) (pg_pending ms s)"
    using assms by (auto simp: pg_migrate_def sql_transaction_def split: sum.splits dest: pg_apply_up_applied)
  then have "fst ` set (sc_applied s') = fst ` set (sc_applied s) \<union> gm_version ` set (pg_pending ms s)"
    by (auto simp: image_image image_Un)
  then have "\<forall>m \<in> set ms. gm_version m \<in> fst ` set (sc_applied s')" by (auto simp: pg_pending_def)
  then have "filter (\<lambda>m. gm_version m \<notin> fst ` set (sc_applied s')) ms = []" by (simp add: filter_empty_conv)
  then have "pg_pending ms s' = []" by (simp add: pg_pending_def)
  then show ?thesis by (simp add: pg_migrate_def sql_transaction_def)
qed

section \<open>Lemmas on search\<close>

lemma like_any: "like (CHR ''%'' # ps) s \<longleftrightarrow> (\<exists>a b. s = a @ b \<and> like ps b)"
proof (induction s)
  case (Cons c s)
  have "(\<exists>a b. c # s = a @ b \<and> like ps b) \<longleftrightarrow> like ps (c # s) \<or> (\<exists>a b. s = a @ b \<and> like ps b)"
    by (metis (no_types, opaque_lifting) Cons_eq_append_conv append_Cons append_Nil)
  with Cons show ?case by simp
qed simp

lemma likeEscape_simps:
  "likeEscape [] = []"
  "likeEscape (c # s) = (if c = CHR 0x5C \<or> c = CHR ''%'' \<or> c = CHR ''_'' then [CHR 0x5C, c] else [c]) @ likeEscape s"
  by (simp_all add: likeEscape_def)

lemma like_escape: "like (likeEscape s @ ps) t \<longleftrightarrow> (\<exists>b. t = s @ b \<and> like ps b)"
proof (induction s arbitrary: t)
  case (Cons c s)
  show ?case
  proof (cases t)
    case (Cons d t')
    then show ?thesis using Cons.IH [of t'] by (auto simp: likeEscape_simps)
  qed (auto simp: likeEscape_simps)
qed (simp add: likeEscape_simps)

lemma to_lower_meta: "d \<in> {CHR 0x5C, CHR ''%'', CHR ''_''} \<Longrightarrow> to_lower c = d \<longleftrightarrow> c = d"
proof -
  have c: "(of_char (to_lower c) :: nat) = (if is_upper c then of_char c + 32 else of_char c)"
    by (auto simp: to_lower_def is_upper_def ch_range_def)
  have k: "x = y \<longleftrightarrow> (of_char x :: nat) = of_char y" for x y :: char by simp
  assume "d \<in> {CHR 0x5C, CHR ''%'', CHR ''_''}"
  then show ?thesis unfolding k c by (auto simp: is_upper_def ch_range_def)
qed

lemma lower_escape: "js_lower (likeEscape s) = likeEscape (js_lower s)"
proof (induction s)
  case (Cons c s)
  then show ?case by (auto simp: likeEscape_simps js_lower_def to_lower_meta)
qed (simp add: likeEscape_simps js_lower_def)

lemma ilike_substring:
  "ilike t (''%'' @ likeEscape s @ ''%'') \<longleftrightarrow> (\<exists>a b. js_lower t = a @ js_lower s @ b)"
proof -
  have "js_lower (''%'' @ likeEscape s @ ''%'') = CHR ''%'' # likeEscape (js_lower s) @ ''%''"
    using to_lower_meta [of "CHR ''%''" "CHR ''%''"] by (simp add: js_lower_def flip: lower_escape [unfolded js_lower_def])
  then show ?thesis by (auto simp: ilike_def like_any like_escape)
qed

end
