(* ===== verification/Pg_Sim.thy ===== *)
theory Pg_Sim
  imports Pg_Maint
begin

text \<open>
  The Postgres store against the SQLite store. Both hold images of one list of events; every
  write keeps that, and every read without a search answers alike, up to the normal form JSONB
  gives the decoded values.
\<close>

section \<open>Rows of the same events\<close>

text \<open>What Postgres documents of JSONB: arrays and objects are kept element by element.\<close>

definition jsonb_ok :: "pg_server \<Rightarrow> bool" where
  "jsonb_ok srv =
     ((\<forall>xs j. gs_jsonb srv (JArr xs) = Some j \<longrightarrow> map_option JArr (option_list (map (gs_jsonb srv) xs)) = Some j) \<and>
      (\<forall>d j. gs_jsonb srv (decoded_json d) = Some j \<longrightarrow>
         map_option (\<lambda>v. decoded_json (d\<lparr>dv_value := v\<rparr>)) (gs_jsonb srv (dv_value d)) = Some j))"

definition jsonb_value :: "pg_server \<Rightarrow> decoded_value \<Rightarrow> decoded_value" where
  "jsonb_value srv d = d\<lparr>dv_value := the (gs_jsonb srv (dv_value d))\<rparr>"

definition jsonb_event :: "pg_server \<Rightarrow> lens_event \<Rightarrow> lens_event" where
  "jsonb_event srv e = e\<lparr>le_topics := map (jsonb_value srv) (le_topics e), le_value := jsonb_value srv (le_value e)\<rparr>"

definition pg_accepts :: "pg_server \<Rightarrow> codec \<Rightarrow> lens_event \<Rightarrow> bool" where
  "pg_accepts srv cd e = (pg_json_columns srv e \<noteq> None \<and> pg_columns_fit cd e \<and> le_type e \<in> {ContractEvent, SystemEvent})"

definition pg_row_of :: "pg_server \<Rightarrow> codec \<Rightarrow> lens_event \<Rightarrow> pg_row" where
  "pg_row_of srv cd e = projr (pg_insertParams srv cd e)"

lemma pg_insertParams_of: "pg_accepts srv cd e \<Longrightarrow> pg_insertParams srv cd e = Inr (pg_row_of srv cd e)"
  by (auto simp: pg_accepts_def pg_row_of_def pg_insertParams_def)

lemma pg_row_of_simps [simp]:
  assumes "pg_accepts srv cd e"
  shows "gr_id (pg_row_of srv cd e) = le_id e" "gr_contract_id (pg_row_of srv cd e) = le_contractId e"
    "gr_type (pg_row_of srv cd e) = le_type e" "gr_ledger (pg_row_of srv cd e) = le_ledger e"
    "gr_ledger_closed_at (pg_row_of srv cd e) = le_ledgerClosedAt e"
    "gr_closed_at_unix (pg_row_of srv cd e) = closed_at_unix cd (le_ledgerClosedAt e)"
    "gr_tx_hash (pg_row_of srv cd e) = le_txHash e" "gr_transaction_index (pg_row_of srv cd e) = le_transactionIndex e"
    "gr_operation_index (pg_row_of srv cd e) = le_operationIndex e"
    "gr_in_successful_call (pg_row_of srv cd e) = le_inSuccessfulContractCall e"
    "gr_topics_xdr_json (pg_row_of srv cd e) = strings_text (le_topicsXdr e)"
    "gr_topic_count (pg_row_of srv cd e) = int (length (le_topics e))"
    "gr_topic0 (pg_row_of srv cd e) = nth_topic_key cd (map decoded_json (le_topics e)) 0"
    "gr_topic1 (pg_row_of srv cd e) = nth_topic_key cd (map decoded_json (le_topics e)) 1"
    "gr_topic2 (pg_row_of srv cd e) = nth_topic_key cd (map decoded_json (le_topics e)) 2"
    "gr_topic3 (pg_row_of srv cd e) = nth_topic_key cd (map decoded_json (le_topics e)) 3"
    "gr_value_type (pg_row_of srv cd e) = dv_type (le_value e)" "gr_value_xdr (pg_row_of srv cd e) = le_valueXdr e"
    "gr_decode_error (pg_row_of srv cd e) = le_decodeError e" "gr_indexed_at (pg_row_of srv cd e) = le_indexedAt e"
  using assms by (auto simp: pg_accepts_def pg_row_of_def pg_insertParams_def)

lemma pg_row_of_json:
  assumes "pg_accepts srv cd e"
  shows "gs_jsonb srv (topics_json_of (le_topics e)) = Some (gr_topics_json (pg_row_of srv cd e))"
    "gs_jsonb srv (decoded_json (le_value e)) = Some (gr_value_json (pg_row_of srv cd e))"
  using assms by (auto simp: pg_accepts_def pg_row_of_def pg_insertParams_def pg_json_columns_def split: option.splits)

lemma jsonb_topics:
  assumes "jsonb_ok srv" "gs_jsonb srv (topics_json_of ds) = Some j"
  shows "topics_of_json (Some j) = Some (map (jsonb_value srv) ds)"
proof -
  have one: "gs_jsonb srv (decoded_json d) = Some k \<Longrightarrow> k = decoded_json (jsonb_value srv d)" for d k
    using assms(1) by (fastforce simp: jsonb_ok_def jsonb_value_def)
  have all: "option_list (map (gs_jsonb srv \<circ> decoded_json) ds) = Some ks \<Longrightarrow> ks = map (decoded_json \<circ> jsonb_value srv) ds" for ks
  proof (induction ds arbitrary: ks)
    case (Cons d ds)
    then show ?case by (cases "gs_jsonb srv (decoded_json d)") (auto dest: one)
  qed simp
  from assms obtain ks where "option_list (map (gs_jsonb srv \<circ> decoded_json) ds) = Some ks" "j = JArr ks"
    by (fastforce simp: jsonb_ok_def topics_json_of_def)
  with all show ?thesis by (simp add: topics_of_json_def o_def option_list_map_Some [unfolded o_def])
qed

lemma pg_rowToEvent_of:
  assumes "jsonb_ok srv" "pg_accepts srv cd e"
  shows "pg_rowToEvent (pg_row_of srv cd e) = Some (jsonb_event srv e)"
proof -
  have v: "gr_value_json (pg_row_of srv cd e) = decoded_json (jsonb_value srv (le_value e))"
    using assms(1) pg_row_of_json(2) [OF assms(2)] by (fastforce simp: jsonb_ok_def jsonb_value_def)
  show ?thesis
    using assms(2) by (auto simp: pg_rowToEvent_def jsonb_topics [OF assms(1) pg_row_of_json(1) [OF assms(2)]] v parse_strings_text
      jsonb_event_def intro!: lens_event.equality)
qed

section \<open>Stores of the same events\<close>

definition stores_alike :: "pg_server \<Rightarrow> codec \<Rightarrow> database \<Rightarrow> pg_database \<Rightarrow> bool" where
  "stores_alike srv cd db pg =
     ((\<exists>es. list_all (pg_accepts srv cd) es \<and> db_events db = map (insertParams cd) es \<and> gd_events pg = map (pg_row_of srv cd) es) \<and>
      db_addresses db = gd_addresses pg \<and> db_streams db = gd_streams pg \<and> db_specs db = gd_specs pg \<and> db_version db = gd_version pg)"

lemma stores_alikeE:
  assumes "stores_alike srv cd db pg"
  obtains es where "list_all (pg_accepts srv cd) es" "db_events db = map (insertParams cd) es"
    "gd_events pg = map (pg_row_of srv cd) es" "db_addresses db = gd_addresses pg"
  using assms by (auto simp: stores_alike_def)

lemma map_row_id: "list_all (pg_accepts srv cd) es \<Longrightarrow> map (gr_id \<circ> pg_row_of srv cd) es = map le_id es"
  by (simp add: list_all_iff)

lemma stores_alike_ids: "stores_alike srv cd db pg \<Longrightarrow> gd_ids pg = db_ids db"
  by (erule stores_alikeE) (simp add: gd_ids_def db_ids_def map_row_id flip: map_map, simp add: o_def list_all_iff)

section \<open>Writes\<close>

lemma pg_insertAddresses_eq:
  "pg_insertAddresses cd i ts v pg = pg\<lparr>gd_addresses := foldl (\<lambda>xs (a, p). set_add (i, a, p) xs) (gd_addresses pg) (address_positions cd ts v)\<rparr>"
proof -
  have "foldl (\<lambda>db (a, p). pg_insert_address (i, a, p) db) pg xs =
      pg\<lparr>gd_addresses := foldl (\<lambda>xs (a, p). set_add (i, a, p) xs) (gd_addresses pg) xs\<rparr>" for xs
    by (induction xs arbitrary: pg) (auto simp: pg_insert_address_def)
  then show ?thesis by (simp add: pg_insertAddresses_def)
qed

lemma insertAddresses_eq:
  "insertAddresses cd i ts v db = db\<lparr>db_addresses := foldl (\<lambda>xs (a, p). set_add (i, a, p) xs) (db_addresses db) (address_positions cd ts v)\<rparr>"
proof -
  have "foldl (\<lambda>db (a, p). sql_insert_address (i, a, p) db) db xs =
      db\<lparr>db_addresses := foldl (\<lambda>xs (a, p). set_add (i, a, p) xs) (db_addresses db) xs\<rparr>" for xs
    by (induction xs arbitrary: db) (auto simp: sql_insert_address_def)
  then show ?thesis by (simp add: insertAddresses_def)
qed

lemma insert_one_alike:
  assumes "stores_alike srv cd db pg" "pg_insert_one srv cd e pg = Inr (n, pg')"
  shows "\<exists>db'. insert_one cd e db = (n, db') \<and> stores_alike srv cd db' pg'"
proof -
  obtain es where es: "list_all (pg_accepts srv cd) es" "db_events db = map (insertParams cd) es"
      "gd_events pg = map (pg_row_of srv cd) es" by (rule stores_alikeE [OF assms(1)])
  obtain row where row: "pg_insertParams srv cd e = Inr row" "gr_type row \<in> {ContractEvent, SystemEvent}"
    using assms(2) by (auto simp: pg_insert_one_def result_simps split: if_splits)
  have acc: "pg_accepts srv cd e"
    using row by (auto simp: pg_insertParams_def pg_accepts_def split: option.splits prod.splits if_splits)
  have r: "row = pg_row_of srv cd e" using row(1) pg_insertParams_of [OF acc] by simp
  have t: "le_type e \<in> {ContractEvent, SystemEvent}" using acc by (simp add: pg_accepts_def)
  show ?thesis
  proof (cases "le_id e \<in> set (db_ids db)")
    case True
    then have "n = 0" "pg' = pg"
      using assms(2) acc t by (auto simp: pg_insert_one_def row(1) r stores_alike_ids [OF assms(1)] result_simps)
    moreover have "insert_one cd e db = (0, db)" using True by (simp add: insert_one_def insertable_def)
    ultimately show ?thesis using assms(1) by simp
  next
    case False
    then have n: "n = 1" "pg' = pg_insertAddresses cd (le_id e) (le_topicsXdr e) (le_valueXdr e) (pg\<lparr>gd_events := gd_events pg @ [pg_row_of srv cd e]\<rparr>)"
      using assms(2) acc t by (auto simp: pg_insert_one_def row(1) r stores_alike_ids [OF assms(1)] result_simps)
    have i: "insert_one cd e db = (1, insertAddresses cd (le_id e) (le_topicsXdr e) (le_valueXdr e) (sql_insert_event cd (insertParams cd e) db))"
      using False t by (simp add: insert_one_def insertable_def)
    have "\<exists>es'. list_all (pg_accepts srv cd) es' \<and> map (insertParams cd) es @ [insertParams cd e] = map (insertParams cd) es' \<and>
        map (pg_row_of srv cd) es @ [pg_row_of srv cd e] = map (pg_row_of srv cd) es'"
      using es(1) acc by (intro exI [of _ "es @ [e]"]) simp
    then show ?thesis using assms(1) es(2,3)
      by (simp add: i n stores_alike_def insertAddresses_eq pg_insertAddresses_eq sql_insert_event_def)
  qed
qed

lemma insert_loop_alike:
  "stores_alike srv cd db pg \<Longrightarrow> pg_insert_loop srv cd k es pg = Inr (n, pg') \<Longrightarrow>
     \<exists>db'. insert_loop (\<lambda>_. None) cd k es db = Inr (n, db') \<and> stores_alike srv cd db' pg'"
proof (induction es arbitrary: k db pg)
  case (Cons e es)
  obtain c pg1 where one: "pg_insert_one srv cd e pg = Inr (c, pg1)" "pg_insert_loop srv cd (k + c) es pg1 = Inr (n, pg')"
    using Cons.prems(2) by (auto simp: result_simps)
  obtain db1 where "insert_one cd e db = (c, db1)" "stores_alike srv cd db1 pg1"
    using insert_one_alike [OF Cons.prems(1) one(1)] by blast
  with Cons.IH [OF _ one(2)] show ?case by auto
qed simp

lemma insertDecoded_alike:
  assumes "stores_alike srv cd db pg" "pg_insertDecoded srv cd es pg = (Inr n, pg')"
  shows "\<exists>db'. insertDecoded (\<lambda>_. None) cd es db = (Inr n, db') \<and> stores_alike srv cd db' pg'"
  using assms insert_loop_alike [OF assms(1), of 0 es n pg']
  by (auto simp: pg_insertDecoded_def insertDecoded_def pg_tx_def transaction_def split: if_splits sum.splits)

lemma pruneBefore_alike:
  assumes "stores_alike srv cd db pg" "pg_pruneBefore l pg = (n, pg')"
  shows "\<exists>db'. pruneBefore None l db = (Inr n, db') \<and> stores_alike srv cd db' pg'"
proof -
  obtain es where es: "list_all (pg_accepts srv cd) es" "db_events db = map (insertParams cd) es"
      "gd_events pg = map (pg_row_of srv cd) es" by (rule stores_alikeE [OF assms(1)])
  let ?low = "filter (\<lambda>e. le_ledger e < l) es" and ?high = "filter (\<lambda>e. \<not> le_ledger e < l) es"
  have sub: "list_all (pg_accepts srv cd) (filter Q es)" for Q using es(1) by (auto simp: list_all_iff)
  have f: "filter (pg_below l) (gd_events pg) = map (pg_row_of srv cd) ?low" "filter (\<lambda>r. \<not> pg_below l r) (gd_events pg) = map (pg_row_of srv cd) ?high"
    using es(1) unfolding es(3) by (induction es) (auto simp: pg_below_def)
  have g: "filter (below l) (db_events db) = map (insertParams cd) ?low" "filter (\<lambda>r. \<not> below l r) (db_events db) = map (insertParams cd) ?high"
    unfolding es(2) by (induction es) (auto simp: below_def)
  have pgids: "map gr_id (map (pg_row_of srv cd) ?low) = map le_id ?low" using map_row_id [OF sub] by simp
  have dbids: "map er_id (map (insertParams cd) ?low) = map le_id ?low" by simp
  have pgn: "n = length ?low" and pg': "pg' = pg\<lparr>gd_events := map (pg_row_of srv cd) ?high,
      gd_addresses := filter (\<lambda>(i, a, p). i \<notin> set (map le_id ?low)) (gd_addresses pg)\<rparr>"
    using assms(2) unfolding pg_pruneBefore_def pg_delete_events_def Let_def f pgids by simp_all
  have del: "sql_delete_events (below l) db = db\<lparr>db_events := map (insertParams cd) ?high,
      db_addresses := filter (\<lambda>(i, a, p). i \<notin> set (map le_id ?low)) (db_addresses db),
      db_fts := db_fts (sql_delete_events (below l) db)\<rparr>"
    unfolding sql_delete_events_def Let_def g dbids by simp
  have alike: "stores_alike srv cd (sql_delete_events (below l) db) pg'"
    using assms(1) sub by (subst del) (auto simp: stores_alike_def pg')
  show ?thesis
  proof (cases "?low = []")
    case True
    have "?high = es" using True by (simp add: filter_empty_conv)
    then have "pg' = pg" using es(3) True by (simp add: pg' case_prod_beta)
    moreover have "pruneBefore None l db = (Inr 0, db)" by (simp add: pruneBefore_def g True Let_def)
    ultimately show ?thesis using assms(1) pgn True by simp
  next
    case False
    then have "pruneBefore None l db = (Inr n, sql_delete_events (below l) db)"
      by (simp add: pruneBefore_def g pgn transaction_def Let_def)
    with alike show ?thesis by blast
  qed
qed

lemma raw_alike:
  assumes "codec_ok cd" "pg_accepts srv cd e"
  shows "raw_of_row cd (insertParams cd e) = pg_raw_of_row cd (pg_row_of srv cd e)"
proof -
  have x: "topics_xdr_of cd (encodeXdrColumn cd (strings_text ss)) = Some ss" for ss
    by (simp add: topics_xdr_of_def decompress_encode [OF assms(1)] parse_strings_text)
  show ?thesis
    by (simp add: raw_of_row_def pg_raw_of_row_def assms(2) parse_strings_text) (simp add: insertParams_def x decompress_encode [OF assms(1)])
qed

lemma recompute_alike:
  assumes "codec_ok cd" "pg_accepts srv cd e" "pg_recompute srv cd (pg_row_of srv cd e) = Inr (e', p')"
  shows "recompute cd (insertParams cd e) = Some (e', insertParams cd e')" "pg_accepts srv cd e'" "p' = pg_row_of srv cd e'" "le_id e' = le_id e"
proof -
  let ?p = "pg_row_of srv cd e"
  obtain raw where raw: "pg_raw_of_row cd ?p = Some raw" using assms(3) by (cases "pg_raw_of_row cd ?p") (auto simp: pg_recompute_def)
  have keep: "re_id raw = le_id e" "re_type raw = le_type e" "re_ledger raw = le_ledger e" "re_ledgerClosedAt raw = le_ledgerClosedAt e"
      "re_contractId raw = le_contractId e" "re_txHash raw = le_txHash e" "re_transactionIndex raw = le_transactionIndex e"
      "re_operationIndex raw = le_operationIndex e" "re_inSuccessfulContractCall raw = le_inSuccessfulContractCall e"
    using raw assms(2) by (auto simp: pg_raw_of_row_def split: option.splits if_splits)
  have e': "e' = decodeEvent cd raw (le_indexedAt e)" and json: "pg_json_columns srv e' \<noteq> None" and cnt: "int4 (int (length (le_topics e')))"
    using assms(2,3) by (auto simp: pg_recompute_def raw Let_def split: option.splits if_splits)
  obtain r' where r': "recompute cd (insertParams cd e) = Some (e', r')"
    using raw raw_alike [OF assms(1,2)] e' by (auto simp: recompute_def Let_def insertParams_def)
  show "recompute cd (insertParams cd e) = Some (e', insertParams cd e')" "le_id e' = le_id e"
    using recompute_insertParams [OF row_ok_insertParams [OF assms(1)] r'] r' by simp_all
  show acc: "pg_accepts srv cd e'"
    using assms(2) json cnt unfolding e' by (auto simp: pg_accepts_def pg_columns_fit_def decodeEvent_fields keep)
  obtain t v where tv: "pg_json_columns srv e' = Some (t, v)" using json by auto
  then have j: "gr_topics_json (pg_row_of srv cd e') = t" "gr_value_json (pg_row_of srv cd e') = v"
    using pg_row_of_json [OF acc] by (auto simp: pg_json_columns_def split: option.splits)
  have p': "p' = ?p\<lparr>gr_topics_json := t, gr_topics_xdr_json := strings_text (le_topicsXdr e'), gr_topic_count := int (length (le_topics e')),
      gr_topic0 := nth_topic_key cd (map decoded_json (le_topics e')) 0, gr_topic1 := nth_topic_key cd (map decoded_json (le_topics e')) 1,
      gr_topic2 := nth_topic_key cd (map decoded_json (le_topics e')) 2, gr_topic3 := nth_topic_key cd (map decoded_json (le_topics e')) 3,
      gr_value_type := dv_type (le_value e'), gr_value_json := v, gr_value_xdr := le_valueXdr e', gr_decode_error := le_decodeError e'\<rparr>"
    using assms(2,3) e' tv by (auto simp: pg_recompute_def raw Let_def split: if_splits)
  have same: "le_contractId e' = le_contractId e" "le_type e' = le_type e" "le_ledger e' = le_ledger e" "le_ledgerClosedAt e' = le_ledgerClosedAt e"
      "le_txHash e' = le_txHash e" "le_transactionIndex e' = le_transactionIndex e" "le_operationIndex e' = le_operationIndex e"
      "le_inSuccessfulContractCall e' = le_inSuccessfulContractCall e" "le_indexedAt e' = le_indexedAt e" "le_id e' = le_id e"
    by (simp_all add: e' decodeEvent_fields keep)
  show "p' = pg_row_of srv cd e'"
    by (rule pg_row.equality) (simp_all add: p' assms(2) acc j same)
qed

lemma rewrite_alike:
  assumes "codec_ok cd" "stores_alike srv cd db pg" "pg_accepts srv cd e" "pg_rewrite srv cd (pg_row_of srv cd e) pg = Inr pg'"
  shows "\<exists>db'. redecode_row cd (insertParams cd e) db = Inr db' \<and> stores_alike srv cd db' pg'"
proof -
  obtain es where es: "list_all (pg_accepts srv cd) es" "db_events db = map (insertParams cd) es"
      "gd_events pg = map (pg_row_of srv cd) es" by (rule stores_alikeE [OF assms(2)])
  obtain e' p' where rc: "pg_recompute srv cd (pg_row_of srv cd e) = Inr (e', p')"
      and pg': "pg' = pg_insertAddresses cd (gr_id (pg_row_of srv cd e)) (le_topicsXdr e') (le_valueXdr e')
       (pg\<lparr>gd_events := map (\<lambda>x. if gr_id x = gr_id (pg_row_of srv cd e) then p' else x) (gd_events pg),
           gd_addresses := filter (\<lambda>(i, a, p). i \<noteq> gr_id (pg_row_of srv cd e)) (gd_addresses pg)\<rparr>)"
    using assms(4) by (auto simp: pg_rewrite_def result_simps)
  note r = recompute_alike [OF assms(1,3) rc]
  let ?es = "map (\<lambda>x. if le_id x = le_id e then e' else x) es"
  have 1: "map (\<lambda>x. if er_id x = le_id e then insertParams cd e' else x) (map (insertParams cd) es) = map (insertParams cd) ?es" by simp
  have 2: "map (\<lambda>x. if gr_id x = le_id e then pg_row_of srv cd e' else x) (map (pg_row_of srv cd) es) = map (pg_row_of srv cd) ?es"
    using es(1) by (auto simp: list_all_iff)
  have acc: "list_all (pg_accepts srv cd) ?es" using es(1) r(2) by (auto simp: list_all_iff)
  have row: "redecode_row cd (insertParams cd e) db = Inr (refreshAddresses cd (le_id e) e' (sql_update_event cd (insertParams cd e') db))"
    by (simp add: redecode_row_def r(1))
  let ?db = "refreshAddresses cd (le_id e) e' (sql_update_event cd (insertParams cd e') db)"
  have "db_events ?db = map (insertParams cd) ?es" "gd_events pg' = map (pg_row_of srv cd) ?es"
    using 1 2 by (simp_all add: sql_update_event_def r(4) pg' [unfolded r(3)] pg_insertAddresses_eq assms(3) es(2,3) del: map_map)
  moreover have "db_addresses ?db = gd_addresses pg'" "db_streams ?db = gd_streams pg'" "db_specs ?db = gd_specs pg'" "db_version ?db = gd_version pg'"
    using assms(2) by (simp_all add: refreshAddresses_def insertAddresses_eq sql_update_event_def pg' pg_insertAddresses_eq assms(3) stores_alike_def)
  ultimately have "stores_alike srv cd ?db pg'" using acc unfolding stores_alike_def by blast
  with row show ?thesis by blast
qed

lemma rewrite_loop_alike:
  assumes "codec_ok cd"
  shows "stores_alike srv cd db pg \<Longrightarrow> list_all (pg_accepts srv cd) xs \<Longrightarrow> pg_rewrite_loop srv cd (map (pg_row_of srv cd) xs) pg = Inr pg' \<Longrightarrow>
    \<exists>db'. redecode_loop cd (map (insertParams cd) xs) db = Inr db' \<and> stores_alike srv cd db' pg'"
proof (induction xs arbitrary: db pg)
  case (Cons x xs)
  obtain pg1 where one: "pg_rewrite srv cd (pg_row_of srv cd x) pg = Inr pg1" "pg_rewrite_loop srv cd (map (pg_row_of srv cd) xs) pg1 = Inr pg'"
    using Cons.prems(3) by (auto simp: result_simps)
  obtain db1 where "redecode_row cd (insertParams cd x) db = Inr db1" "stores_alike srv cd db1 pg1"
    using rewrite_alike [OF assms Cons.prems(1) _ one(1)] Cons.prems(2) by auto
  with Cons.IH [OF _ _ one(2)] Cons.prems(2) show ?case by simp
qed simp

lemma redecode_alike:
  assumes "codec_ok cd" "stores_alike srv cd db pg" "pg_redecode srv cd b pg = (Inr n, pg')"
  shows "\<exists>db'. redecode cd b db = (Inr n, db') \<and> stores_alike srv cd db' pg'"
proof -
  obtain es where es: "list_all (pg_accepts srv cd) es" "db_events db = map (insertParams cd) es"
      "gd_events pg = map (pg_row_of srv cd) es" by (rule stores_alikeE [OF assms(2)])
  let ?xs = "filter (\<lambda>e. b \<or> le_decodeError e \<noteq> None) es"
  have f: "filter (\<lambda>r. b \<or> gr_decode_error r \<noteq> None) (gd_events pg) = map (pg_row_of srv cd) ?xs"
    using es(1) unfolding es(3) by (induction es) auto
  have d: "er_decode_error (insertParams cd e) = le_decodeError e" for e by (simp add: insertParams_def)
  have g: "filter (\<lambda>r. b \<or> er_decode_error r \<noteq> None) (db_events db) = map (insertParams cd) ?xs"
    unfolding es(2) by (induction es) (auto simp: d)
  have acc: "list_all (pg_accepts srv cd) ?xs" using es(1) by (auto simp: list_all_iff)
  show ?thesis
  proof (cases "?xs = []")
    case True
    then show ?thesis using assms(2,3) unfolding pg_redecode_def redecode_def Let_def f g by auto
  next
    case False
    then obtain pg1 where p: "pg_rewrite_loop srv cd (map (pg_row_of srv cd) ?xs) pg = Inr pg1" "pg' = pg1" "n = length ?xs"
      using assms(3) unfolding pg_redecode_def Let_def f by (auto simp: pg_tx_def result_simps split: sum.splits)
    obtain db' where "redecode_loop cd (map (insertParams cd) ?xs) db = Inr db'" "stores_alike srv cd db' pg1"
      using rewrite_loop_alike [OF assms(1,2) acc p(1)] by blast
    then show ?thesis using False p(2,3) unfolding redecode_def Let_def g by (simp add: transaction_def)
  qed
qed

section \<open>Reads\<close>

definition searches :: "sql_cond \<Rightarrow> bool" where
  "searches c = (case c of CSearch p \<Rightarrow> True | _ \<Rightarrow> False)"

lemma searches_simps [simp]:
  "\<not> searches (CContract c)" "\<not> searches (CTxHash c)" "searches (CSearch c)" "\<not> searches (CAddress c)"
  "\<not> searches (CTransactionIndex i)" "\<not> searches (COperationIndex i)" "\<not> searches (CFromLedger i)" "\<not> searches (CToLedger i)"
  "\<not> searches (CFromTime i)" "\<not> searches (CToTime i)" "\<not> searches CSuccessful" "\<not> searches (CTopic k c)"
  by (simp_all add: searches_def)

lemma when_some_all: "(\<And>v. P (c v)) \<Longrightarrow> list_all P (when_some x c)"
  by (simp add: when_some_def split: option.split)

lemma when_text_all: "(\<And>v. P (c v)) \<Longrightarrow> list_all P (when_text x c)"
  by (simp add: when_text_def)

lemma where_alike:
  assumes "\<not> truthy (q_search q)"
  shows "pg_buildWhere q = buildWhere q" "list_all (\<lambda>c. \<not> searches c) (buildWhere q)"
proof -
  have t: "list_all (\<lambda>c. \<not> searches c) (topic_conds i ts)" for i ts
    by (induction i ts rule: topic_conds.induct) auto
  show "pg_buildWhere q = buildWhere q" using assms by (simp add: pg_buildWhere_def buildWhere_def when_text_def)
  show "list_all (\<lambda>c. \<not> searches c) (buildWhere q)"
    using assms when_text_def [of "q_search q" "\<lambda>s. CSearch (ftsPhraseQuery s)"]
    by (simp add: buildWhere_def when_some_all when_text_all t)
qed

lemma cond_alike:
  assumes "pg_accepts srv cd e" "db_addresses db = gd_addresses pg" "\<not> searches c"
  shows "pg_cond_holds srv pg (pg_row_of srv cd e) c = cond_holds cd db (insertParams cd e) c"
  using assms by (cases c) (auto simp: searches_def insertParams_def pg_topic_column_def topic_column_def)

lemma sort_key_map: "sort_key f (map g xs) = map g (sort_key (f \<circ> g) xs)"
proof -
  have "insort_key f (g x) (map g ys) = map g (insort_key (f \<circ> g) x ys)" for x ys by (induction ys) auto
  then show ?thesis by (induction xs) auto
qed

lemma sort_key_same: "(\<And>x. x \<in> set xs \<Longrightarrow> f x = g x) \<Longrightarrow> sort_key f xs = sort_key g xs"
proof (induction xs)
  case (Cons x xs)
  have "(\<And>y. y \<in> insert x (set ys) \<Longrightarrow> f y = g y) \<Longrightarrow> insort_key f x ys = insort_key g x ys" for ys by (induction ys) auto
  from this [of "sort_key g xs"] Cons show ?case by simp
qed simp

lemma sort_key_accepted:
  assumes "list_all (pg_accepts srv cd) xs"
  shows "sort_key gr_id (map (pg_row_of srv cd) xs) = map (pg_row_of srv cd) (sort_key le_id xs)"
    "sort_key er_id (map (insertParams cd) xs) = map (insertParams cd) (sort_key le_id xs)"
proof -
  have "sort_key (gr_id \<circ> pg_row_of srv cd) xs = sort_key le_id xs"
    using assms by (intro sort_key_same) (auto simp: list_all_iff)
  then show "sort_key gr_id (map (pg_row_of srv cd) xs) = map (pg_row_of srv cd) (sort_key le_id xs)" by (simp add: sort_key_map)
  show "sort_key er_id (map (insertParams cd) xs) = map (insertParams cd) (sort_key le_id xs)" by (simp add: sort_key_map o_def)
qed

lemma filter_accepted:
  assumes "list_all (pg_accepts srv cd) es" "\<And>e. pg_accepts srv cd e \<Longrightarrow> Q (pg_row_of srv cd e) = P (insertParams cd e)"
  shows "filter P (map (insertParams cd) es) = map (insertParams cd) (filter (\<lambda>e. P (insertParams cd e)) es) \<and>
    filter Q (map (pg_row_of srv cd) es) = map (pg_row_of srv cd) (filter (\<lambda>e. P (insertParams cd e)) es) \<and>
    list_all (pg_accepts srv cd) (filter (\<lambda>e. P (insertParams cd e)) es)"
  using assms(1) by (induction es) (auto simp: assms(2))

lemma filter_accepted_id:
  assumes "list_all (pg_accepts srv cd) es"
  shows "list_all (pg_accepts srv cd) (filter (\<lambda>e. P (le_id e)) es)"
    "filter (\<lambda>r. P (er_id r)) (map (insertParams cd) es) = map (insertParams cd) (filter (\<lambda>e. P (le_id e)) es)"
    "filter (\<lambda>r. P (gr_id r)) (map (pg_row_of srv cd) es) = map (pg_row_of srv cd) (filter (\<lambda>e. P (le_id e)) es)"
  using assms by (induction es) auto

lemma select_alike:
  assumes "stores_alike srv cd db pg" "list_all (\<lambda>c. \<not> searches c) conds"
  obtains xs where "list_all (pg_accepts srv cd) xs" "sql_select cd db conds = map (insertParams cd) xs"
    "pg_select srv pg conds = map (pg_row_of srv cd) xs"
proof -
  obtain es where es: "list_all (pg_accepts srv cd) es" "db_events db = map (insertParams cd) es"
      "gd_events pg = map (pg_row_of srv cd) es" "db_addresses db = gd_addresses pg" by (rule stores_alikeE [OF assms(1)])
  have q: "list_all (pg_cond_holds srv pg (pg_row_of srv cd e)) conds = row_matches cd db conds (insertParams cd e)"
    if "pg_accepts srv cd e" for e
    using assms(2) cond_alike [OF that es(4)] unfolding row_matches_def by (induction conds) auto
  show ?thesis
    using that filter_accepted [OF es(1), where P = "row_matches cd db conds" and Q = "\<lambda>r. list_all (pg_cond_holds srv pg r) conds", OF q]
    by (auto simp: sql_select_def pg_select_def es(2,3))
qed

lemma query_rows_sides:
  "rp_next (query_rows cd db conds order b cursor n) = (let page = rp_rows (query_rows cd db conds order b cursor n) in
      if b then (if page \<noteq> [] \<and> existsBeyond cd db conds (id_before order (er_id (last page))) then Some (er_id (last page)) else None)
      else if length (take (n + 1) (order_by_id (if b then flip_order order else order) (filter (\<lambda>r. if truthy cursor
        then id_before (if b then flip_order order else order) (the cursor) (er_id r) else True) (sql_select cd db conds)))) > n \<and> page \<noteq> []
      then Some (er_id (last page)) else None)"
  "rp_prev (query_rows cd db conds order b cursor n) = (let page = rp_rows (query_rows cd db conds order b cursor n) in
      if b then (if length (take (n + 1) (order_by_id (if b then flip_order order else order) (filter (\<lambda>r. if truthy cursor
        then id_before (if b then flip_order order else order) (the cursor) (er_id r) else True) (sql_select cd db conds)))) > n \<and> page \<noteq> []
        then Some (er_id (hd page)) else None)
      else if page \<noteq> [] \<and> existsBeyond cd db conds (\<lambda>i. id_before order i (er_id (hd page))) then Some (er_id (hd page)) else None)"
  by (auto simp: query_rows_def Let_def simp del: length_order_by_id)

lemma pg_query_rows_sides:
  "gp_next (pg_query_rows srv pg conds order b cursor n) = (let page = gp_rows (pg_query_rows srv pg conds order b cursor n) in
      if b then (if page \<noteq> [] \<and> pg_existsBeyond srv pg conds (id_before order (gr_id (last page))) then Some (gr_id (last page)) else None)
      else if length (take (n + 1) (pg_order_by_id (if b then flip_order order else order) (filter (\<lambda>r. if truthy cursor
        then id_before (if b then flip_order order else order) (the cursor) (gr_id r) else True) (pg_select srv pg conds)))) > n \<and> page \<noteq> []
      then Some (gr_id (last page)) else None)"
  "gp_prev (pg_query_rows srv pg conds order b cursor n) = (let page = gp_rows (pg_query_rows srv pg conds order b cursor n) in
      if b then (if length (take (n + 1) (pg_order_by_id (if b then flip_order order else order) (filter (\<lambda>r. if truthy cursor
        then id_before (if b then flip_order order else order) (the cursor) (gr_id r) else True) (pg_select srv pg conds)))) > n \<and> page \<noteq> []
        then Some (gr_id (hd page)) else None)
      else if page \<noteq> [] \<and> pg_existsBeyond srv pg conds (\<lambda>i. id_before order i (gr_id (hd page))) then Some (gr_id (hd page)) else None)"
  by (auto simp: pg_query_rows_def Let_def)

lemma pages_alike:
  assumes "stores_alike srv cd db pg" "list_all (\<lambda>c. \<not> searches c) conds"
  obtains xs where "list_all (pg_accepts srv cd) xs" "rp_rows (query_rows cd db conds order b cursor n) = map (insertParams cd) xs"
    "gp_rows (pg_query_rows srv pg conds order b cursor n) = map (pg_row_of srv cd) xs"
    "gp_next (pg_query_rows srv pg conds order b cursor n) = rp_next (query_rows cd db conds order b cursor n)"
    "gp_prev (pg_query_rows srv pg conds order b cursor n) = rp_prev (query_rows cd db conds order b cursor n)"
proof -
  obtain sel where sel: "list_all (pg_accepts srv cd) sel" "sql_select cd db conds = map (insertParams cd) sel"
    "pg_select srv pg conds = map (pg_row_of srv cd) sel" by (rule select_alike [OF assms])
  let ?o = "if b then flip_order order else order"
  let ?K = "\<lambda>i. if truthy cursor then id_before ?o (the cursor) i else True"
  note keep = filter_accepted_id [OF sel(1), of ?K]
  define ord where "ord = (case ?o of Asc \<Rightarrow> sort_key le_id (filter (\<lambda>e. ?K (le_id e)) sel) | Desc \<Rightarrow> rev (sort_key le_id (filter (\<lambda>e. ?K (le_id e)) sel)))"
  have o: "order_by_id ?o (map (insertParams cd) (filter (\<lambda>e. ?K (le_id e)) sel)) = map (insertParams cd) ord"
    "pg_order_by_id ?o (map (pg_row_of srv cd) (filter (\<lambda>e. ?K (le_id e)) sel)) = map (pg_row_of srv cd) ord"
    unfolding order_by_id_def pg_order_by_id_def ord_def sort_key_accepted [OF keep(1)] by (cases ?o; simp add: rev_map)+
  have acc: "list_all (pg_accepts srv cd) ord" using keep(1) by (cases ?o) (auto simp: ord_def list_all_iff)
  define rows where "rows = take (n + 1) ord"
  define scanned where "scanned = (if length rows > n then take n rows else rows)"
  define xs where "xs = (if b then rev scanned else scanned)"
  have xs: "list_all (pg_accepts srv cd) xs" using acc by (auto simp: xs_def scanned_def rows_def list_all_iff dest: in_set_takeD)
  have beyond: "pg_existsBeyond srv pg conds P = existsBeyond cd db conds P" for P
    using sel(1) unfolding pg_existsBeyond_def existsBeyond_def sel(2,3) by (induction sel) auto
  have ends: "gr_id (last (map (pg_row_of srv cd) xs)) = er_id (last (map (insertParams cd) xs))"
      "gr_id (hd (map (pg_row_of srv cd) xs)) = er_id (hd (map (insertParams cd) xs))" if "xs \<noteq> []"
    using xs that by (auto simp: last_map hd_map list_all_iff)
  have p: "rp_rows (query_rows cd db conds order b cursor n) = map (insertParams cd) xs"
    "gp_rows (pg_query_rows srv pg conds order b cursor n) = map (pg_row_of srv cd) xs"
    by (simp_all only: query_rows_def pg_query_rows_def Let_def row_page.select_convs pg_row_page.select_convs sel(2,3) keep(2,3) o take_map
      xs_def scanned_def rows_def rev_map length_map if_distrib [of "map (insertParams cd)"] if_distrib [of "map (pg_row_of srv cd)"])
      (auto simp: rev_map)
  have more: "length (take (n + 1) (order_by_id ?o (filter (\<lambda>r. ?K (er_id r)) (sql_select cd db conds)))) =
      length (take (n + 1) (pg_order_by_id ?o (filter (\<lambda>r. ?K (gr_id r)) (pg_select srv pg conds))))"
    by (simp only: sel(2,3) keep(2,3) o take_map length_map)
  let ?more = "length (take (n + 1) (order_by_id ?o (filter (\<lambda>r. ?K (er_id r)) (sql_select cd db conds)))) > n"
    and ?pgmore = "length (take (n + 1) (pg_order_by_id ?o (filter (\<lambda>r. ?K (gr_id r)) (pg_select srv pg conds)))) > n"
  note sides = query_rows_sides [of cd db conds order b cursor n, unfolded p(1)] pg_query_rows_sides [of srv pg conds order b cursor n, unfolded p(2)]
  show ?thesis
  proof (cases "xs = []")
    case True
    show ?thesis by (rule that [OF xs p]; unfold sides Let_def more True list.map(1); simp)
  next
    case False
    show ?thesis by (rule that [OF xs p]; unfold sides Let_def more beyond ends [OF False] list.map_disc_iff; rule refl)
  qed
qed

lemma events_readable:
  assumes "jsonb_ok srv" "codec_ok cd" "list_all (pg_accepts srv cd) xs"
  shows "option_list (map (rowToEvent cd) (map (insertParams cd) xs)) = Some xs"
    "option_list (map pg_rowToEvent (map (pg_row_of srv cd) xs)) = Some (map (jsonb_event srv) xs)"
  using assms(3) by (induction xs) (simp_all add: rowToEvent_insertParams [OF assms(2)] pg_rowToEvent_of [OF assms(1)])

lemma getEvent_alike:
  assumes "jsonb_ok srv" "codec_ok cd" "stores_alike srv cd db pg"
  shows "pg_getEvent pg i = map_option (jsonb_event srv) (getEvent cd db i)"
proof -
  obtain es where es: "list_all (pg_accepts srv cd) es" "db_events db = map (insertParams cd) es"
      "gd_events pg = map (pg_row_of srv cd) es" by (rule stores_alikeE [OF assms(3)])
  show ?thesis using es(1) unfolding pg_getEvent_def getEvent_def pg_find_row_def find_row_def es(2,3)
    by (induction es) (auto simp: rowToEvent_insertParams [OF assms(2)] pg_rowToEvent_of [OF assms(1)])
qed

lemma latest_alike: "stores_alike srv cd db pg \<Longrightarrow> pg_getLatestEventId pg = getLatestEventId db"
  using stores_alike_ids [of srv cd db pg]
  by (auto simp: pg_getLatestEventId_def getLatestEventId_def elim!: stores_alikeE)

definition caches_alike :: "pg_server \<Rightarrow> codec \<Rightarrow> event_store \<Rightarrow> pg_store \<Rightarrow> bool" where
  "caches_alike srv cd s t = (stores_alike srv cd (es_db s) (ps_db t) \<and> es_ttl s = ps_ttl t \<and>
     (\<forall>conds. list_all (\<lambda>c. \<not> searches c) conds \<longrightarrow> map_of (es_cache s) conds = map_of (ps_cache t) conds))"

lemma countCached_alike:
  assumes "caches_alike srv cd s t" "list_all (\<lambda>c. \<not> searches c) conds"
  shows "fst (pg_countCached srv now conds t) = fst (countCached cd now conds s)"
    "caches_alike srv cd (snd (countCached cd now conds s)) (snd (pg_countCached srv now conds t))"
proof -
  obtain xs where "sql_select cd (es_db s) conds = map (insertParams cd) xs" "pg_select srv (ps_db t) conds = map (pg_row_of srv cd) xs"
    using select_alike [of srv cd "es_db s" "ps_db t" conds] assms by (auto simp: caches_alike_def)
  then have n: "length (pg_select srv (ps_db t) conds) = length (sql_select cd (es_db s) conds)" by simp
  have hit: "map_of (es_cache s) conds = map_of (ps_cache t) conds" "es_ttl s = ps_ttl t" using assms by (auto simp: caches_alike_def)
  show "fst (pg_countCached srv now conds t) = fst (countCached cd now conds s)"
    by (auto simp: pg_countCached_def countCached_def n hit Let_def split: option.splits)
  show "caches_alike srv cd (snd (countCached cd now conds s)) (snd (pg_countCached srv now conds t))"
    using assms(1) by (auto simp: pg_countCached_def countCached_def n hit Let_def caches_alike_def map_of_map_set split: option.splits)
qed

definition jsonb_page :: "pg_server \<Rightarrow> event_page \<Rightarrow> event_page" where
  "jsonb_page srv p = p\<lparr>pg_events := map (jsonb_event srv) (pg_events p)\<rparr>"

lemma queryEvents_alike:
  assumes "jsonb_ok srv" "codec_ok cd" "caches_alike srv cd s t" "\<not> truthy (q_search q)"
  shows "\<exists>p. fst (queryEvents cd now q s) = Inr p \<and> fst (pg_queryEvents srv now q t) = Inr (jsonb_page srv p)"
    "caches_alike srv cd (snd (queryEvents cd now q s)) (snd (pg_queryEvents srv now q t))"
proof -
  let ?lim = "normaliseLimit (q_limit q)" and ?ord = "if q_order q = Some Asc then Asc else Desc" and ?backward = "q_direction q = Some Backward"
  note w = where_alike [OF assms(4)]
  obtain n k s1 where c: "(if q_skipTotal q then ((0, False), s) else countCached cd now (buildWhere q) s) = ((n, k), s1)" by (metis surj_pair)
  obtain n' k' t1 where c': "(if q_skipTotal q then ((0, False), t) else pg_countCached srv now (buildWhere q) t) = ((n', k'), t1)" by (metis surj_pair)
  have nk: "n' = n" "k' = k" "caches_alike srv cd s1 t1"
    using c c' countCached_alike [OF assms(3) w(2), of now] assms(3) by (auto split: if_splits)
  have alike: "stores_alike srv cd (es_db s1) (ps_db t1)" using nk(3) by (simp add: caches_alike_def)
  obtain xs where xs: "list_all (pg_accepts srv cd) xs" "rp_rows (query_rows cd (es_db s1) (buildWhere q) ?ord ?backward (q_cursor q) ?lim) = map (insertParams cd) xs"
    "gp_rows (pg_query_rows srv (ps_db t1) (buildWhere q) ?ord ?backward (q_cursor q) ?lim) = map (pg_row_of srv cd) xs"
    "gp_next (pg_query_rows srv (ps_db t1) (buildWhere q) ?ord ?backward (q_cursor q) ?lim) = rp_next (query_rows cd (es_db s1) (buildWhere q) ?ord ?backward (q_cursor q) ?lim)"
    "gp_prev (pg_query_rows srv (ps_db t1) (buildWhere q) ?ord ?backward (q_cursor q) ?lim) = rp_prev (query_rows cd (es_db s1) (buildWhere q) ?ord ?backward (q_cursor q) ?lim)"
    by (rule pages_alike [OF alike w(2)])
  note r = events_readable [OF assms(1,2) xs(1)]
  have s: "queryEvents cd now q s = (Inr \<lparr>pg_events = xs, pg_nextCursor = rp_next (query_rows cd (es_db s1) (buildWhere q) ?ord ?backward (q_cursor q) ?lim),
      pg_prevCursor = rp_prev (query_rows cd (es_db s1) (buildWhere q) ?ord ?backward (q_cursor q) ?lim), pg_total = n, pg_totalIsEstimate = k\<rparr>, s1)"
    using assms(4) unfolding queryEvents_def Let_def c prod.case xs(2) r by simp
  have t: "pg_queryEvents srv now q t = (Inr \<lparr>pg_events = map (jsonb_event srv) xs, pg_nextCursor = rp_next (query_rows cd (es_db s1) (buildWhere q) ?ord ?backward (q_cursor q) ?lim),
      pg_prevCursor = rp_prev (query_rows cd (es_db s1) (buildWhere q) ?ord ?backward (q_cursor q) ?lim), pg_total = n, pg_totalIsEstimate = k\<rparr>, t1)"
    unfolding pg_queryEvents_def Let_def w(1) c' prod.case xs(3) r xs(4,5) nk(1,2) by simp
  show "\<exists>p. fst (queryEvents cd now q s) = Inr p \<and> fst (pg_queryEvents srv now q t) = Inr (jsonb_page srv p)"
    by (simp add: s t jsonb_page_def)
  show "caches_alike srv cd (snd (queryEvents cd now q s)) (snd (pg_queryEvents srv now q t))" by (simp add: s t nk(3))
qed

section \<open>Aggregates\<close>

lemma sql_group_map:
  assumes "\<And>e. e \<in> set es \<Longrightarrow> f (g e) = h e"
  shows "sql_group f (map g es) = map (\<lambda>(k, ys). (k, map g ys)) (sql_group h es)"
proof -
  have m: "map f (map g es) = map h es" using assms by simp
  have k: "filter (\<lambda>r. f r = k) (map g es) = map g (filter (\<lambda>e. h e = k) es)" for k
    using assms by (induction es) auto
  show ?thesis unfolding sql_group_def m k by simp
qed

lemma sql_group_member: "(k, ys) \<in> set (sql_group h es) \<Longrightarrow> ys \<noteq> [] \<and> (\<forall>y \<in> set ys. y \<in> set es \<and> h y = k)"
  by (auto simp: sql_group_def filter_empty_conv)

lemma group_views:
  assumes "list_all (pg_accepts srv cd) es" "\<And>e. f (insertParams cd e) = h e" "\<And>e. pg_accepts srv cd e \<Longrightarrow> f' (pg_row_of srv cd e) = h e"
    and "\<And>k ys. ys \<noteq> [] \<Longrightarrow> list_all (pg_accepts srv cd) ys \<Longrightarrow> F (k, map (insertParams cd) ys) = F' (k, map (pg_row_of srv cd) ys)"
  shows "map F (sql_group f (map (insertParams cd) es)) = map F' (sql_group f' (map (pg_row_of srv cd) es))"
proof -
  have "sql_group f (map (insertParams cd) es) = map (\<lambda>(k, ys). (k, map (insertParams cd) ys)) (sql_group h es)"
    "sql_group f' (map (pg_row_of srv cd) es) = map (\<lambda>(k, ys). (k, map (pg_row_of srv cd) ys)) (sql_group h es)"
    using assms(1-3) by (auto intro!: sql_group_map simp: list_all_iff)
  then show ?thesis using assms(1) sql_group_member [of _ _ h es] by (auto simp: list_all_iff intro!: assms(4))
qed

lemma row_columns:
  assumes "list_all (pg_accepts srv cd) ys"
  shows "map gr_ledger (map (pg_row_of srv cd) ys) = map er_ledger (map (insertParams cd) ys)"
    "map gr_ledger_closed_at (map (pg_row_of srv cd) ys) = map er_ledger_closed_at (map (insertParams cd) ys)"
    "map gr_contract_id (map (pg_row_of srv cd) ys) = map er_contract_id (map (insertParams cd) ys)"
  using assms by (auto simp: list_all_iff insertParams_def)

lemma contracts_alike: "stores_alike srv cd db pg \<Longrightarrow> pg_listContracts l pg = listContracts l db"
proof -
  assume "stores_alike srv cd db pg"
  then obtain es where es: "list_all (pg_accepts srv cd) es" "db_events db = map (insertParams cd) es"
      "gd_events pg = map (pg_row_of srv cd) es" by (rule stores_alikeE)
  let ?F = "\<lambda>led seen (c, rs). \<lparr>cy_contractId = c, cy_eventCount = length rs, cy_firstLedger = min_of (map led rs),
    cy_lastLedger = max_of (map led rs), cy_lastSeenAt = max_text (map seen rs)\<rparr>"
  have "map (?F er_ledger er_ledger_closed_at) (sql_group er_contract_id (map (insertParams cd) es)) =
      map (?F gr_ledger gr_ledger_closed_at) (sql_group gr_contract_id (map (pg_row_of srv cd) es))"
  proof (rule group_views [OF es(1), where h = le_contractId])
    show "?F er_ledger er_ledger_closed_at (k, map (insertParams cd) ys) = ?F gr_ledger gr_ledger_closed_at (k, map (pg_row_of srv cd) ys)"
      if "list_all (pg_accepts srv cd) ys" for k ys
      by (simp only: prod.case row_columns [OF that] length_map)
  qed (simp_all add: insertParams_def)
  then show ?thesis by (simp only: pg_listContracts_def listContracts_def es(2,3))
qed

lemma js_sort_same:
  assumes "sorted_wrt (\<lambda>x y. (c x y \<le> 0) = (c' x y \<le> (0::int))) xs"
  shows "js_sort c xs = js_sort c' xs"
proof -
  have "(\<And>y. y \<in> set ys \<Longrightarrow> (c x y \<le> 0) = (c' x y \<le> 0)) \<Longrightarrow> cmp_insert c x ys = cmp_insert c' x ys" for x ys
    by (induction ys) auto
  note ins = this
  show ?thesis using assms
  proof (induction xs)
    case (Cons x xs)
    then have ih: "foldr (cmp_insert c) xs [] = foldr (cmp_insert c') xs []" by (simp add: js_sort_def)
    have "set (foldr (cmp_insert c') xs []) = set xs" using set_js_sort [of c' xs] by (simp add: js_sort_def)
    then show ?case using Cons.prems ih by (auto simp: js_sort_def intro: ins)
  qed (simp add: js_sort_def)
qed

lemma topic_counts_sorted: "sorted_wrt (\<lambda>x y. fst x < fst y) (topic_counts rows)"
proof -
  let ?g = "sql_group er_topic0 (filter (\<lambda>r. er_topic0 r \<noteq> None) rows)"
  have keys: "fst ` set ?g = set (map er_topic0 (filter (\<lambda>r. er_topic0 r \<noteq> None) rows))"
    using arg_cong [OF sql_group_keys, of set er_topic0 "filter (\<lambda>r. er_topic0 r \<noteq> None) rows"] by simp
  have some: "fst x \<noteq> None" if "x \<in> set ?g" for x
  proof -
    have "fst x \<in> set (map er_topic0 (filter (\<lambda>r. er_topic0 r \<noteq> None) rows))" using that keys by blast
    then show ?thesis by auto
  qed
  have "sorted_wrt (<) (map fst ?g)" by (simp add: sql_group_keys strict_sorted_iff)
  then have "sorted_wrt (\<lambda>x y. fst x < fst y) ?g" by (simp add: sorted_wrt_map)
  then have "sorted_wrt (\<lambda>x y. the (fst x) < the (fst y)) ?g"
  proof (rule sorted_wrt_mono_rel [rotated])
    fix x y assume "x \<in> set ?g" "y \<in> set ?g" "fst x < fst y"
    with some obtain a b where "fst x = Some a" "fst y = Some b" by blast
    with \<open>fst x < fst y\<close> show "the (fst x) < the (fst y)" by simp
  qed
  then show ?thesis by (simp add: topic_counts_def sorted_wrt_map case_prod_beta)
qed

lemma topic_counts_alike:
  assumes "list_all (pg_accepts srv cd) es"
  shows "pg_topic_counts (map (pg_row_of srv cd) es) = topic_counts (map (insertParams cd) es)"
proof -
  let ?k = "\<lambda>e. nth_topic_key cd (map decoded_json (le_topics e)) 0"
  have k: "er_topic0 (insertParams cd e) = ?k e" for e by (simp add: insertParams_def)
  let ?es = "filter (\<lambda>e. er_topic0 (insertParams cd e) \<noteq> None) es"
  have f: "filter (\<lambda>r. er_topic0 r \<noteq> None) (map (insertParams cd) es) = map (insertParams cd) ?es \<and>
      filter (\<lambda>r. gr_topic0 r \<noteq> None) (map (pg_row_of srv cd) es) = map (pg_row_of srv cd) ?es \<and> list_all (pg_accepts srv cd) ?es"
    by (rule filter_accepted [OF assms]) (simp add: k)
  have "map (\<lambda>(t, rs). (the t, length rs)) (sql_group er_topic0 (map (insertParams cd) ?es)) =
      map (\<lambda>(t, rs). (the t, length rs)) (sql_group gr_topic0 (map (pg_row_of srv cd) ?es))"
    using f by (intro group_views [where h = ?k]) (simp_all add: k)
  then show ?thesis using f by (simp only: pg_topic_counts_def topic_counts_def)
qed

lemma by_count_sort: "js_sort (\<lambda>a b. int (snd b) - int (snd a)) (topic_counts rows) = js_sort by_count (topic_counts rows)"
  by (rule js_sort_same, rule sorted_wrt_mono_rel [OF _ topic_counts_sorted]) (auto simp: by_count_def)

lemma topics_alike:
  assumes "stores_alike srv cd db pg"
  shows "pg_listTopics c l pg = listTopics c l db" "pg_countByTopic l pg = countByTopic l db"
proof -
  obtain es where es: "list_all (pg_accepts srv cd) es" "db_events db = map (insertParams cd) es"
      "gd_events pg = map (pg_row_of srv cd) es" by (rule stores_alikeE [OF assms])
  have f: "filter (\<lambda>r. er_contract_id r = c) (db_events db) = map (insertParams cd) (filter (\<lambda>e. er_contract_id (insertParams cd e) = c) es) \<and>
      filter (\<lambda>r. gr_contract_id r = c) (gd_events pg) = map (pg_row_of srv cd) (filter (\<lambda>e. er_contract_id (insertParams cd e) = c) es) \<and>
      list_all (pg_accepts srv cd) (filter (\<lambda>e. er_contract_id (insertParams cd e) = c) es)"
    unfolding es(2,3) by (rule filter_accepted [OF es(1)]) (simp add: insertParams_def)
  show "pg_listTopics c l pg = listTopics c l db"
    using f by (simp only: pg_listTopics_def listTopics_def by_count_sort topic_counts_alike)
  show "pg_countByTopic l pg = countByTopic l db"
    by (simp only: pg_countByTopic_def countByTopic_def es(2,3) topic_counts_alike [OF es(1)] by_count_def [abs_def])
qed

lemma buckets_alike:
  assumes "stores_alike srv cd db pg" "\<not> truthy (q_search q)"
  shows "pg_countByTimeBucket srv q b pg = countByTimeBucket cd q b db"
proof -
  note w = where_alike [OF assms(2)]
  obtain xs where xs: "list_all (pg_accepts srv cd) xs" "sql_select cd db (buildWhere q) = map (insertParams cd) xs"
    "pg_select srv pg (buildWhere q) = map (pg_row_of srv cd) xs" by (rule select_alike [OF assms(1) w(2)])
  let ?F = "\<lambda>led (st, rs). \<lparr>bc_start = st, bc_count = length rs, bc_firstLedger = min_of (map led rs), bc_lastLedger = max_of (map led rs)\<rparr>"
  have "map (?F er_ledger) (sql_group (bucket_start (BUCKET_SECONDS b)) (map (insertParams cd) xs)) =
      map (?F gr_ledger) (sql_group (\<lambda>r. sql_div (gr_closed_at_unix r) (BUCKET_SECONDS b) * BUCKET_SECONDS b) (map (pg_row_of srv cd) xs))"
  proof (rule group_views [OF xs(1), where h = "\<lambda>e. sql_div (closed_at_unix cd (le_ledgerClosedAt e)) (BUCKET_SECONDS b) * BUCKET_SECONDS b"])
    show "?F er_ledger (k, map (insertParams cd) ys) = ?F gr_ledger (k, map (pg_row_of srv cd) ys)" if "list_all (pg_accepts srv cd) ys" for k ys
      by (simp only: prod.case row_columns [OF that] length_map)
  qed (simp_all add: bucket_start_def insertParams_def)
  then show ?thesis by (simp only: pg_countByTimeBucket_def countByTimeBucket_def w(1) xs(2,3))
qed

lemma stats_alike: "stores_alike srv cd db pg \<Longrightarrow> pg_getStats pg = getStats db"
proof -
  assume s: "stores_alike srv cd db pg"
  then obtain es where es: "list_all (pg_accepts srv cd) es" "db_events db = map (insertParams cd) es"
      "gd_events pg = map (pg_row_of srv cd) es" by (rule stores_alikeE)
  have "db_version db = gd_version pg" using s by (simp add: stores_alike_def)
  then show ?thesis unfolding pg_getStats_def getStats_def es(2,3) row_columns [OF es(1)] by simp
qed

end
