(* ===== verification/Pg_Props.thy ===== *)
theory Pg_Props
  imports Pg_Sim Store_Props
begin

text \<open>
  The properties of the Postgres store: it runs and answers as the SQLite store does, its
  migrations, its search, and its pruning by size.
\<close>

section \<open>Histories\<close>

datatype store_op = OpInsert "lens_event list" | OpImport "snapshot_line list" | OpPrune int | OpRedecode bool
  | OpSpec spec_row | OpStream stream_state

fun sqlite_perform :: "codec \<Rightarrow> store_op \<Rightarrow> database \<Rightarrow> (string, nat) result \<times> database" where
  "sqlite_perform cd (OpInsert es) db = insertDecoded (\<lambda>_. None) cd es db"
| "sqlite_perform cd (OpImport ls) db = importSnapshot (\<lambda>_. None) cd ls db"
| "sqlite_perform cd (OpPrune l) db = pruneBefore None l db"
| "sqlite_perform cd (OpRedecode b) db = redecode cd b db"
| "sqlite_perform cd (OpSpec r) db = (Inr 0, saveContractSpec r db)"
| "sqlite_perform cd (OpStream s) db = (Inr 0, db_saveStreamState s db)"

fun pg_perform :: "pg_server \<Rightarrow> codec \<Rightarrow> store_op \<Rightarrow> pg_database \<Rightarrow> (string, nat) result \<times> pg_database" where
  "pg_perform srv cd (OpInsert es) db = pg_insertDecoded srv cd es db"
| "pg_perform srv cd (OpImport ls) db = pg_importSnapshot srv cd ls db"
| "pg_perform srv cd (OpPrune l) db = (let (n, db) = pg_pruneBefore l db in (Inr n, db))"
| "pg_perform srv cd (OpRedecode b) db = pg_redecode srv cd b db"
| "pg_perform srv cd (OpSpec r) db = (Inr 0, pg_saveContractSpec r db)"
| "pg_perform srv cd (OpStream s) db = (Inr 0, pg_saveStreamState s db)"

fun run_ops :: "('op \<Rightarrow> 'd \<Rightarrow> ('e, 'a) result \<times> 'd) \<Rightarrow> 'op list \<Rightarrow> 'd \<Rightarrow> ('e, 'a list) result \<times> 'd" where
  "run_ops perform [] d = (Inr [], d)"
| "run_ops perform (x # xs) d = (case perform x d of
       (Inl e, d) \<Rightarrow> (Inl e, d)
     | (Inr a, d) \<Rightarrow> (case run_ops perform xs d of (Inl e, d) \<Rightarrow> (Inl e, d) | (Inr as, d) \<Rightarrow> (Inr (a # as), d)))"

text \<open>One implementation simulates another: what it does without an error, the other does too.\<close>

locale simulation =
  fixes rel :: "'d \<Rightarrow> 'c \<Rightarrow> bool"
    and perform :: "'op \<Rightarrow> 'd \<Rightarrow> ('e, 'a) result \<times> 'd"
    and perform' :: "'op \<Rightarrow> 'c \<Rightarrow> ('e, 'a) result \<times> 'c"
  assumes simulates: "rel d c \<Longrightarrow> perform' x c = (Inr a, c') \<Longrightarrow> \<exists>d'. perform x d = (Inr a, d') \<and> rel d' c'"
begin

lemma runs: "rel d c \<Longrightarrow> run_ops perform' xs c = (Inr as, c') \<Longrightarrow> \<exists>d'. run_ops perform xs d = (Inr as, d') \<and> rel d' c'"
proof (induction xs arbitrary: d c as)
  case (Cons x xs)
  obtain a c1 bs where c1: "perform' x c = (Inr a, c1)" "run_ops perform' xs c1 = (Inr bs, c')" "as = a # bs"
    using Cons.prems(2) by (auto split: prod.splits sum.splits)
  obtain d1 where "perform x d = (Inr a, d1)" "rel d1 c1" using simulates [OF Cons.prems(1) c1(1)] by blast
  with Cons.IH [OF _ c1(2)] c1(3) show ?case by fastforce
qed auto

end

lemma flush_alike:
  assumes "stores_alike srv cd db pg" "pg_flush_batch srv cd batch k pg = (Inr n, pg')"
  shows "\<exists>db'. flush_batch (\<lambda>_. None) cd batch k db = (Inr n, db') \<and> stores_alike srv cd db' pg'"
proof (cases "batch = []")
  case False
  then obtain m where m: "pg_insertDecoded srv cd batch pg = (Inr m, pg')" "n = k + m"
    using assms(2) by (auto simp: pg_flush_batch_def split: prod.splits sum.splits)
  then show ?thesis using insertDecoded_alike [OF assms(1) m(1)] False by (auto simp: flush_batch_def)
qed (use assms in \<open>auto simp: pg_flush_batch_def flush_batch_def\<close>)

lemma import_loop_alike:
  "stores_alike srv cd db pg \<Longrightarrow> pg_import_loop srv cd batch k ls pg = (Inr n, pg') \<Longrightarrow>
     \<exists>db'. import_loop (\<lambda>_. None) cd batch k ls db = (Inr n, db') \<and> stores_alike srv cd db' pg'"
proof (induction ls arbitrary: batch k db pg)
  case Nil
  then show ?case using flush_alike by simp
next
  case (Cons l ls)
  show ?case
  proof (cases l)
    case (EventLine e)
    show ?thesis
    proof (cases "length (batch @ [e]) \<ge> BATCH_SIZE")
      case True
      then obtain m pg1 where f: "pg_flush_batch srv cd (batch @ [e]) k pg = (Inr m, pg1)" "pg_import_loop srv cd [] m ls pg1 = (Inr n, pg')"
        using Cons.prems(2) by (auto simp: EventLine split: prod.splits sum.splits)
      obtain db1 where "flush_batch (\<lambda>_. None) cd (batch @ [e]) k db = (Inr m, db1)" "stores_alike srv cd db1 pg1"
        using flush_alike [OF Cons.prems(1) f(1)] by blast
      with Cons.IH [OF _ f(2)] True show ?thesis by (simp add: EventLine)
    qed (use Cons EventLine in simp)
  qed (use Cons in simp_all)
qed

interpretation pg_sim: simulation "\<lambda>db pg. codec_ok cd \<and> stores_alike srv cd db pg" "sqlite_perform cd" "pg_perform srv cd" for srv cd
proof
  fix db pg x n pg'
  assume a: "codec_ok cd \<and> stores_alike srv cd db pg" "pg_perform srv cd x pg = (Inr n, pg')"
  then have c: "codec_ok cd" and s: "stores_alike srv cd db pg" by simp_all
  have "\<exists>db'. sqlite_perform cd x db = (Inr n, db') \<and> stores_alike srv cd db' pg'"
  proof (cases x)
    case (OpInsert es)
    then show ?thesis using insertDecoded_alike [OF s] a(2) by simp
  next
    case (OpImport ls)
    then show ?thesis using import_loop_alike [OF s] a(2) by (simp add: pg_importSnapshot_def importSnapshot_def)
  next
    case (OpPrune l)
    then show ?thesis using pruneBefore_alike [OF s] a(2) by (cases "pg_pruneBefore l pg") simp
  next
    case (OpRedecode b)
    then show ?thesis using redecode_alike [OF c s] a(2) by simp
  next
    case (OpSpec r)
    then show ?thesis using s a(2) by (auto simp: stores_alike_def saveContractSpec_def pg_saveContractSpec_def)
  next
    case (OpStream st)
    then show ?thesis using s a(2) by (auto simp: stores_alike_def db_saveStreamState_def pg_saveStreamState_def)
  qed
  with c show "\<exists>db'. sqlite_perform cd x db = (Inr n, db') \<and> codec_ok cd \<and> stores_alike srv cd db' pg'" by blast
qed

section \<open>Values the witnesses use\<close>

definition plain_pg :: pg_server where
  "plain_pg = \<lparr>gs_jsonb = Some, gs_jsonb_text = (\<lambda>_. [])\<rparr>"


definition empty_pg :: pg_database where
  "empty_pg = \<lparr>gd_events = [], gd_addresses = [], gd_streams = [], gd_specs = [], gd_version = 6\<rparr>"

lemma empty_alike: "stores_alike srv cd empty_db empty_pg"
  by (simp add: stores_alike_def empty_db_def empty_pg_def)

lemma sample_accepted: "- (2 ^ 31) \<le> l \<Longrightarrow> l < 2 ^ 31 \<Longrightarrow> pg_accepts plain_pg demo_codec (sample_event i l)"
  by (simp add: pg_accepts_def pg_json_columns_def pg_columns_fit_def plain_pg_def sample_event_def int4_def int8_def
    closed_at_unix_def demo_codec_def)

section \<open>The two stores\<close>

text \<open>
  C14: the Postgres store refines the SQLite store. Start both with the same events; then every
  history of batches, snapshot imports, prunes, re-decodings and saved specs and positions that
  Postgres carries out without an error gives the same counts on SQLite, and leaves both with
  the same events, addresses, specs, positions and version.
\<close>

theorem pg_runs_as_sqlite:
  assumes "codec_ok cd" "stores_alike srv cd db pg" "run_ops (pg_perform srv cd) ops pg = (Inr counts, pg')"
  shows "\<exists>db'. run_ops (sqlite_perform cd) ops db = (Inr counts, db') \<and> stores_alike srv cd db' pg'"
  using pg_sim.runs [of cd srv db pg ops counts pg'] assms by blast

lemma pg_runs_as_sqlite_witness:
  "\<exists>db'. run_ops (sqlite_perform demo_codec) [OpInsert [sample_event ''a'' 1, sample_event ''b'' 2, sample_event ''a'' 1], OpPrune 2] empty_db = (Inr [2, 1], db') \<and>
     stores_alike plain_pg demo_codec db' (snd (run_ops (pg_perform plain_pg demo_codec)
       [OpInsert [sample_event ''a'' 1, sample_event ''b'' 2, sample_event ''a'' 1], OpPrune 2] empty_pg))"
proof (rule pg_runs_as_sqlite [OF demo_codec_ok empty_alike])
  let ?a = "sample_event ''a'' 1" and ?b = "sample_event ''b'' 2"
  have i: "pg_insertParams plain_pg demo_codec ?a = Inr (pg_row_of plain_pg demo_codec ?a)" "pg_insertParams plain_pg demo_codec ?b = Inr (pg_row_of plain_pg demo_codec ?b)"
    by (simp_all add: pg_insertParams_of sample_accepted)
  have g: "gr_id (pg_row_of plain_pg demo_codec ?a) = ''a''" "gr_id (pg_row_of plain_pg demo_codec ?b) = ''b''"
    "gr_type (pg_row_of plain_pg demo_codec ?a) = ContractEvent" "gr_type (pg_row_of plain_pg demo_codec ?b) = ContractEvent"
    "gr_ledger (pg_row_of plain_pg demo_codec ?a) = 1" "gr_ledger (pg_row_of plain_pg demo_codec ?b) = 2"
    using sample_accepted [of 1 "''a''"] sample_accepted [of 2 "''b''"] by (simp_all add: sample_event_def)
  show "run_ops (pg_perform plain_pg demo_codec) [OpInsert [?a, ?b, ?a], OpPrune 2] empty_pg =
      (Inr [2, 1], snd (run_ops (pg_perform plain_pg demo_codec) [OpInsert [?a, ?b, ?a], OpPrune 2] empty_pg))"
    by (simp add: pg_insertDecoded_def pg_tx_def pg_insert_one_def i g pg_insertAddresses_eq gd_ids_def empty_pg_def pg_pruneBefore_def pg_below_def)
qed



section \<open>Search\<close>

definition contains_text :: "string \<Rightarrow> string \<Rightarrow> bool" where
  "contains_text s t = (\<exists>a b. js_lower t = a @ js_lower s @ b)"

text \<open>
  C16: a search is a search for that text. The rows a query with a search selects are the rows
  the query selects without it whose topics or value, as the text of their JSON, contain the
  searched text in any case; percent signs, underscores and backslashes in it mean themselves.
\<close>

theorem pg_search_exact:
  assumes "truthy (q_search q)"
  shows "pg_select srv db (pg_buildWhere q) =
    filter (\<lambda>r. contains_text (the (q_search q)) (gs_jsonb_text srv (gr_topics_json r)) \<or>
        contains_text (the (q_search q)) (gs_jsonb_text srv (gr_value_json r)))
      (pg_select srv db (pg_buildWhere (q\<lparr>q_search := None\<rparr>)))"
proof -
  have w: "list_all P (pg_buildWhere q) \<longleftrightarrow>
      list_all P (pg_buildWhere (q\<lparr>q_search := None\<rparr>)) \<and> P (CSearch (''%'' @ likeEscape (the (q_search q)) @ ''%''))" for P
    using assms by (auto simp: pg_buildWhere_def when_text_def truthy_def)
  show ?thesis
    unfolding pg_select_def w filter_filter contains_text_def pg_cond_holds.simps ilike_substring
    by (rule filter_cong) auto
qed

lemma pg_search_exact_witness:
  "pg_select plain_pg empty_pg (pg_buildWhere (empty_query\<lparr>q_search := Some ''100%''\<rparr>)) = []"
  using pg_search_exact [of "empty_query\<lparr>q_search := Some ''100%''\<rparr>" plain_pg empty_pg]
  by (simp add: truthy_def pg_select_def empty_pg_def)

section \<open>Migrations\<close>

text \<open>The objects of the schema at a version.\<close>

definition pg_objects_at :: "bool \<Rightarrow> nat \<Rightarrow> (string \<times> string) list" where
  "pg_objects_at trgm v =
     concat (take v
       [(''events'', ''events'') # map (\<lambda>i. (i, ''events'')) [''idx_events_contract_id_desc'', ''idx_events_ledger'', ''idx_events_topic0'',
          ''idx_events_contract_topic0'', ''idx_events_tx_hash'', ''idx_events_topics_gin''] @ [(''stream_state'', ''stream_state'')],
        [(''idx_events_indexed_at'', ''events'')], [(''idx_events_closed_at_unix'', ''events'')],
        map (\<lambda>i. (i, ''event_addresses'')) [''event_addresses'', ''idx_event_addresses_address'', ''idx_event_addresses_event_id''],
        if trgm then map (\<lambda>i. (i, ''events'')) [''idx_events_topics_trgm'', ''idx_events_value_trgm''] else [],
        [(''contract_specs'', ''contract_specs'')]])"

definition pg_schema_at :: "bool \<Rightarrow> nat \<Rightarrow> schema" where
  "pg_schema_at trgm v = \<lparr>sc_objects = pg_objects_at trgm v, sc_applied = map (\<lambda>m. (gm_version m, gm_name m)) (take v POSTGRES_MIGRATIONS)\<rparr>"

lemmas pg_run = pg_migrateDown_def sql_transaction_def POSTGRES_MIGRATIONS_def pg_step_def pg_down_of_def pg_schema_at_def
  pg_objects_at_def res_bind_case

lemma pg_migrate_empty: "pg_migrate trgm POSTGRES_MIGRATIONS empty_schema = (Inr (), pg_schema_at trgm 6)"
proof -
  have "pg_migrate True POSTGRES_MIGRATIONS empty_schema = (Inr (), pg_schema_at True 6)"
    "pg_migrate False POSTGRES_MIGRATIONS empty_schema = (Inr (), pg_schema_at False 6)" by code_simp+
  then show ?thesis by (cases trgm) simp_all
qed

lemma pg_down_trgm:
  "list_all (\<lambda>v. snd (pg_migrateDown True POSTGRES_MIGRATIONS v (pg_schema_at True 6)) = pg_schema_at True v) [0, 1, 2, 3, 4, 5, 6]"
  by (simp add: pg_run)

lemma pg_down_no_trgm:
  "list_all (\<lambda>v. snd (pg_migrateDown False POSTGRES_MIGRATIONS v (pg_schema_at False 6)) = pg_schema_at False v) [0, 1, 2, 3, 4, 5, 6]"
  by (simp add: pg_run)

lemma pg_again_trgm: "list_all (\<lambda>v. fst (pg_migrate True POSTGRES_MIGRATIONS (pg_schema_at True v)) = Inr ()) [1, 2, 3, 4, 5]"
  by code_simp

lemma pg_again_no_trgm: "list_all (\<lambda>v. fst (pg_migrate False POSTGRES_MIGRATIONS (pg_schema_at True v)) = Inr ()) [1, 2, 3, 4, 5]"
  by code_simp

lemma pg_again_skipped: "fst (pg_migrate trgm POSTGRES_MIGRATIONS (pg_schema_at False 5)) = Inr ()"
  by (cases trgm; simp only:; code_simp)

lemma pg_schema_at_skipped: "v < 5 \<Longrightarrow> pg_schema_at False v = pg_schema_at True v"
  by (auto simp: pg_schema_at_def pg_objects_at_def take_Cons' numeral_eq_Suc less_Suc_eq)

lemma pg_down_at: "snd (pg_migrateDown trgm POSTGRES_MIGRATIONS v (pg_schema_at trgm 6)) = pg_schema_at trgm (min v 6)"
proof (cases "v < 6")
  case True
  then have "v \<in> {0, 1, 2, 3, 4, 5}" by auto
  then show ?thesis using pg_down_trgm pg_down_no_trgm by (cases trgm) auto
next
  case False
  have "list_all (\<lambda>(w, n). w \<le> 6) (sc_applied (pg_schema_at trgm 6))"
    by (simp add: pg_schema_at_def POSTGRES_MIGRATIONS_def pg_step_def)
  then have "filter (\<lambda>(w, n). v < w) (rev (sort_key fst (sc_applied (pg_schema_at trgm 6)))) = []"
    using False by (fastforce simp: filter_empty_conv list_all_iff)
  then show ?thesis using False unfolding pg_migrateDown_def Let_def by simp
qed

lemma pg_again_at: "fst (pg_migrate trgm' POSTGRES_MIGRATIONS (pg_schema_at trgm (min v 6))) = Inr ()"
proof -
  have t: "fst (pg_migrate trgm' POSTGRES_MIGRATIONS (pg_schema_at True w)) = Inr ()" if "w \<in> {1, 2, 3, 4, 5}" for w
    using that pg_again_trgm pg_again_no_trgm by (cases trgm') auto
  have e: "pg_schema_at trgm 0 = empty_schema" by (simp add: pg_schema_at_def pg_objects_at_def empty_schema_def)
  consider "min v 6 = 0" | "min v 6 = 6" | "min v 6 \<in> {1, 2, 3, 4}" | "min v 6 = 5" by fastforce
  then show ?thesis
  proof cases
    case 1
    then show ?thesis by (simp add: e pg_migrate_empty)
  next
    case 2
    then show ?thesis using pg_migrate_again [OF pg_migrate_empty, of trgm' trgm] by simp
  next
    case 3
    then have "pg_schema_at trgm (min v 6) = pg_schema_at True (min v 6)" by (cases trgm) (auto simp: pg_schema_at_skipped)
    with t [of "min v 6"] 3 show ?thesis by auto
  next
    case 4
    then show ?thesis using pg_again_skipped t [of 5] by (cases trgm) simp_all
  qed
qed

text \<open>
  C17: migrations of the Postgres store are all-or-nothing and run once. A migration or a
  roll-back that fails leaves the schema and the record of versions as they were; after a
  migration nothing is pending. A role that may not create the trigram extension still gets
  every version, without the two indexes. Rolling a database back to any version leaves exactly
  the objects of that version, and any role can migrate it up again.
\<close>

theorem pg_migrations_atomic:
  "(pg_migrate trgm ms s = (Inl e, s') \<longrightarrow> s' = s)
    \<and> (pg_migrateDown trgm ms v s = (Inl e', s') \<longrightarrow> s' = s)
    \<and> (pg_migrate trgm ms s = (Inr (), s') \<longrightarrow> pg_migrate trgm' ms s' = (Inr (), s'))
    \<and> pg_migrate trgm POSTGRES_MIGRATIONS empty_schema = (Inr (), pg_schema_at trgm LATEST_SCHEMA_VERSION)
    \<and> snd (pg_migrateDown trgm POSTGRES_MIGRATIONS v (pg_schema_at trgm LATEST_SCHEMA_VERSION)) = pg_schema_at trgm (min v LATEST_SCHEMA_VERSION)
    \<and> fst (pg_migrate trgm' POSTGRES_MIGRATIONS (pg_schema_at trgm (min v LATEST_SCHEMA_VERSION))) = Inr ()"
proof -
  have l: "LATEST_SCHEMA_VERSION = 6" by code_simp
  show ?thesis unfolding l
    using pg_migrate_empty pg_down_at pg_again_at by (auto dest: pg_migrate_atomic pg_migrateDown_atomic pg_migrate_again)
qed

lemma pg_migrations_atomic_witness:
  "pg_migrate True POSTGRES_MIGRATIONS (pg_schema_at False 6) = (Inr (), pg_schema_at False 6)"
proof -
  have "pg_migrate False POSTGRES_MIGRATIONS empty_schema = (Inr (), pg_schema_at False 6)" by (rule pg_migrate_empty)
  with pg_migrations_atomic [of False POSTGRES_MIGRATIONS empty_schema _ "pg_schema_at False 6" 0 _ True] show ?thesis by blast
qed

end
