(* ===== verification/Cli_Config.thy ===== *)
theory Cli_Config
  imports Retention Rpc_Client
begin

text \<open>
  The configuration of the command-line tool (\<open>packages/cli/src/config.ts\<close>): flags, then the
  environment, then defaults; and the header names it shows. The environment is a function from
  names to values; numbers are the rationals \<open>Number(...)\<close> reads.
\<close>

section \<open>Lists, numbers and headers\<close>

definition splitList :: "string option \<Rightarrow> string list" where
  "splitList v = filter (\<lambda>s. s \<noteq> []) (map js_trim (split_on (CHR '','') (or_else v [])))"

definition optionalNumber :: "string option \<Rightarrow> rat option" where
  "optionalNumber v = (case v of None \<Rightarrow> None
     | Some s \<Rightarrow> if s = [] then None else case js_Number s of JsNum n \<Rightarrow> Some n | _ \<Rightarrow> None)"

definition numberOr :: "string option \<Rightarrow> rat \<Rightarrow> rat" where
  "numberOr v fallback = or_else (optionalNumber v) fallback"

text \<open>One entry \<open>Name: value\<close>; None where it is skipped. Assigning \<open>__proto__\<close> adds no key.\<close>

definition header_pair :: "string \<Rightarrow> (string \<times> string) option" where
  "header_pair entry =
     (let name = takeWhile (\<lambda>c. c \<noteq> CHR '':'') entry; rest = dropWhile (\<lambda>c. c \<noteq> CHR '':'') entry in
      if rest = [] \<or> name = [] then None
      else if js_trim name = [] \<or> js_trim (tl rest) = [] \<or> js_trim name = ''__proto__'' then None
      else Some (js_trim name, js_trim (tl rest)))"

definition parseHeaders :: "string list option \<Rightarrow> string option \<Rightarrow> (string \<times> string) list" where
  "parseHeaders flags env =
     foldl (\<lambda>hs entry. case header_pair entry of None \<Rightarrow> hs | Some (n, v) \<Rightarrow> map_set n v hs) [] (splitList env @ or_else flags [])"

definition redactHeaders :: "(string \<times> string) list \<Rightarrow> string" where
  "redactHeaders hs = (if map fst hs = [] then ''none'' else js_join '', '' (map (\<lambda>n. n @ '': <redacted>'') (map fst hs)))"

section \<open>resolveConfig\<close>

record config_overrides =
  cv_network :: "string option"
  cv_rpcUrl :: "string option"
  cv_rpcUrls :: "string list option"
  cv_archiveUrl :: "string option"
  cv_contracts :: "string list option"
  cv_db :: "string option"
  cv_dataDir :: "string option"
  cv_port :: "rat option"
  cv_startLedger :: "rat option"
  cv_pageSize :: "rat option"
  cv_pollInterval :: "rat option"
  cv_maxPollInterval :: "rat option"
  cv_rpcHeaders :: "string list option"
  cv_retryAttempts :: "rat option"
  cv_retryBaseDelay :: "rat option"
  cv_retryMaxDelay :: "rat option"
  cv_maxDbSize :: "rat option"
  cv_pruneInterval :: "rat option"

record lens_config =
  lc_network :: network_config
  lc_rpcUrls :: "string list"
  lc_archiveUrl :: "string option"
  lc_contractIds :: "string list"
  lc_dbPath :: string
  lc_dataDir :: string
  lc_apiPort :: rat
  lc_startLedger :: "rat option"
  lc_pageSize :: rat
  lc_pollIntervalMs :: rat
  lc_maxPollIntervalMs :: rat
  lc_rpcHeaders :: "(string \<times> string) list"
  lc_retry :: "rat \<times> rat \<times> rat"
  lc_fetchSpecs :: bool
  lc_clockSkewThresholdSeconds :: rat
  lc_maxDbSizeBytes :: "rat option"
  lc_pruneIntervalMs :: rat

text \<open>\<open>first_of a b\<close> is \<open>a ?? b\<close>; \<open>first_text a b\<close> is \<open>a || b\<close>.\<close>

definition first_of :: "'a option \<Rightarrow> 'a option \<Rightarrow> 'a option" where
  "first_of a b = (case a of None \<Rightarrow> b | Some x \<Rightarrow> Some x)"

definition first_text :: "string option \<Rightarrow> string option \<Rightarrow> string option" where
  "first_text a b = (if truthy a then a else b)"

definition says_no :: "string \<Rightarrow> bool" where
  "says_no s = (js_lower s \<in> {''0'', ''false'', ''no'', ''off''})"

definition resolve_contracts :: "config_overrides \<Rightarrow> (string \<Rightarrow> string option) \<Rightarrow> string list" where
  "resolve_contracts cv env = (if or_else (cv_contracts cv) [] \<noteq> [] then the (cv_contracts cv) else splitList (env ''LENS_CONTRACT_IDS''))"

definition resolve_network :: "config_overrides \<Rightarrow> (string \<Rightarrow> string option) \<Rightarrow> (string, network_config) result" where
  "resolve_network cv env =
     (let urls = or_else (cv_rpcUrls cv) (splitList (first_of (cv_rpcUrl cv) (env ''LENS_RPC_URL''))) in
      resolveNetwork (or_else (first_of (cv_network cv) (env ''LENS_NETWORK'')) ''testnet'') (if urls = [] then None else Some (hd urls)))"

definition resolve_urls :: "config_overrides \<Rightarrow> (string \<Rightarrow> string option) \<Rightarrow> (string, string list) result" where
  "resolve_urls cv env =
     (let urls = or_else (cv_rpcUrls cv)
        (splitList (first_text (first_text (env ''LENS_RPC_URLS'') (cv_rpcUrl cv)) (env ''LENS_RPC_URL''))) in
      if urls \<noteq> [] then Inr urls
      else res_bind (resolveNetwork (or_else (first_of (cv_network cv) (env ''LENS_NETWORK'')) ''testnet'') None)
             (\<lambda>n. Inr [net_rpcUrl n]))"

definition resolveConfig :: "config_overrides \<Rightarrow> (string \<Rightarrow> string option) \<Rightarrow> (string, lens_config) result" where
  "resolveConfig cv env =
     (let poll = or_else (cv_pollInterval cv) (numberOr (env ''LENS_POLL_INTERVAL_MS'') 2000) in
      res_bind (resolve_network cv env) (\<lambda>network.
      res_bind (resolve_urls cv env) (\<lambda>urls. Inr
        \<lparr>lc_network = network, lc_rpcUrls = urls,
         lc_archiveUrl = first_of (cv_archiveUrl cv) (env ''LENS_ARCHIVE_URL''),
         lc_contractIds = resolve_contracts cv env,
         lc_dbPath = or_else (first_of (cv_db cv) (env ''LENS_DB_PATH'')) ''./data/lens.db'',
         lc_dataDir = or_else (first_of (cv_dataDir cv) (env ''LENS_DATA_DIR'')) ''./data'',
         lc_apiPort = or_else (cv_port cv) (numberOr (env ''LENS_API_PORT'') 8080),
         lc_startLedger = first_of (cv_startLedger cv) (optionalNumber (env ''LENS_START_LEDGER'')),
         lc_pageSize = or_else (cv_pageSize cv) (numberOr (env ''LENS_PAGE_SIZE'') 200),
         lc_pollIntervalMs = poll,
         lc_maxPollIntervalMs = or_else (cv_maxPollInterval cv) (max poll (numberOr (env ''LENS_POLL_MAX_INTERVAL_MS'') 30000)),
         lc_rpcHeaders = parseHeaders (cv_rpcHeaders cv) (env ''LENS_RPC_HEADERS''),
         lc_retry = (or_else (cv_retryAttempts cv) (numberOr (env ''LENS_RETRY_ATTEMPTS'') 5),
                     or_else (cv_retryBaseDelay cv) (numberOr (env ''LENS_RETRY_BASE_DELAY_MS'') 250),
                     or_else (cv_retryMaxDelay cv) (numberOr (env ''LENS_RETRY_MAX_DELAY_MS'') 30000)),
         lc_fetchSpecs = (\<not> says_no (js_trim (or_else (env ''LENS_FETCH_SPECS'') []))),
         lc_clockSkewThresholdSeconds = resolveClockSkewThreshold (env ''LENS_CLOCK_SKEW_THRESHOLD_SECONDS''),
         lc_maxDbSizeBytes = first_of (cv_maxDbSize cv) (optionalNumber (env ''LENS_MAX_DB_SIZE_BYTES'')),
         lc_pruneIntervalMs = or_else (cv_pruneInterval cv) (numberOr (env ''LENS_PRUNE_INTERVAL_MS'') 60000)\<rparr>)))"

section \<open>Lemmas\<close>

lemma splitList_items: "\<forall>s \<in> set (splitList v). s \<noteq> [] \<and> js_trim s = s"
  by (auto simp: splitList_def js_trim_idem)

text \<open>The configuration always has an RPC url, and its poll intervals are ordered unless a flag says otherwise.\<close>

lemma resolve_urls_present: "cv_rpcUrls cv \<noteq> Some [] \<Longrightarrow> resolve_urls cv env = Inr urls \<Longrightarrow> urls \<noteq> []"
  by (auto simp: resolve_urls_def Let_def or_else_def result_simps split: if_splits option.splits)

lemma resolveConfig_intervals:
  assumes "resolveConfig cv env = Inr c" "cv_maxPollInterval cv = None"
  shows "lc_pollIntervalMs c \<le> lc_maxPollIntervalMs c"
  using assms by (auto simp: resolveConfig_def Let_def result_simps or_else_def)

text \<open>The list of the environment wins over the flag \<open>--rpc-url\<close>, although flags beat the environment elsewhere.\<close>

lemma rpc_urls_beat_the_flag:
  assumes "cv_rpcUrls cv = None" "env ''LENS_RPC_URLS'' = Some v" "splitList (Some v) \<noteq> []"
  shows "resolve_urls cv env = Inr (splitList (Some v))"
proof -
  have "v \<noteq> []" using assms(3) by (auto simp: splitList_def or_else_def js_trim_def)
  then show ?thesis using assms by (simp add: resolve_urls_def first_text_def truthy_def or_else_def)
qed

end
