(* ===== verification/Cli_Indexer.thy ===== *)
theory Cli_Indexer
  imports Cli_Config Poll_Loop Archive Sqlite_Maint
begin

text \<open>
  The indexer (\<open>packages/cli/src/indexer.ts\<close>): the poller of the ingest package feeding the
  SQLite store, with the stream's position in the same database. One step relation interleaves
  the start with its archive backfill, the poller's turns, the insertion of a batch, the commit
  of the position, the size limit, other writers of the database, and kills between any two.
\<close>

section \<open>StoreBackedCursors over the database\<close>

definition db_cursor_load :: "database \<Rightarrow> string \<Rightarrow> cursor_result" where
  "db_cursor_load db key = (case db_loadStreamState key db of
       None \<Rightarrow> Inr None
     | Some s \<Rightarrow> if ss_cursor s = [] then Inr None
         else Inr (Some \<lparr>cs_cursor = ss_cursor s, cs_ledger = ss_ledger s, cs_updatedAt = ss_updatedAt s, cs_retention = None\<rparr>))"

definition db_cursor_save :: "database \<Rightarrow> string \<Rightarrow> cursor_state \<Rightarrow> database" where
  "db_cursor_save db key c = db_saveStreamState
     \<lparr>ss_key = key, ss_cursor = cs_cursor c, ss_ledger = cs_ledger c, ss_updatedAt = cs_updatedAt c\<rparr> db"

definition db_cursor_clear :: "json \<Rightarrow> database \<Rightarrow> string \<Rightarrow> database" where
  "db_cursor_clear now db key = db_saveStreamState \<lparr>ss_key = key, ss_cursor = [], ss_ledger = 0, ss_updatedAt = now\<rparr> db"

definition db_cursors :: "json \<Rightarrow> database cursor_ops" where
  "db_cursors now = \<lparr>co_load = db_cursor_load, co_save = db_cursor_save, co_clear = db_cursor_clear now\<rparr>"

lemma db_cursor_view:
  "db_cursor_load db = backed_load (stream_view db)"
  "stream_view (db_cursor_save db key c) = backed_save (stream_view db) key c"
  "stream_view (db_cursor_clear now db key) = backed_clear now (stream_view db) key"
  by (intro ext) (simp_all add: db_cursor_load_def backed_load_def stream_view_def loadStreamState_def db_cursor_save_def
    backed_save_def db_cursor_clear_def backed_clear_def stream_view_save)

interpretation dbpos: position_store db_cursor_load db_cursor_save "db_cursor_clear now" "\<lambda>k. k" backed_view for now
  by unfold_locales (auto simp: db_cursor_view backed_load_def backed_save_def backed_clear_def backed_view_def
    saveStreamState_def loadStreamState_def split: if_splits)

section \<open>The parts of runIndexer\<close>

text \<open>Ledgers, page sizes and byte counts of the configuration are whole numbers.\<close>

definition indexer_poller :: "lens_config \<Rightarrow> poller_options" where
  "indexer_poller cfg = \<lparr>po_contractIds = lc_contractIds cfg, po_topics = None, po_eventType = None,
     po_startLedger = map_option floor (lc_startLedger cfg), po_endLedger = None, po_pageSize = Some \<lfloor>lc_pageSize cfg\<rfloor>,
     po_pollIntervalMs = Some (lc_pollIntervalMs cfg), po_maxPollIntervalMs = Some (lc_maxPollIntervalMs cfg),
     po_stalledThresholdMs = None\<rparr>"

definition archiveEnd :: "int \<Rightarrow> retention_state \<Rightarrow> int" where
  "archiveEnd start r = min (if start < rs_oldestLedger r then rs_oldestLedger r - 1 else 0) (rs_latestLedger r)"

definition BACKFILL_LIMIT :: nat where
  "BACKFILL_LIMIT = 10000"

text \<open>What the backfill is answered: the node's retention, and the archive's checkpoints.\<close>

record archive_world =
  aw_retention :: "(string, retention_state) result"
  aw_size :: nat
  aw_fetch :: "nat \<Rightarrow> (string, raw_event list) result"
  aw_compare :: "string \<Rightarrow> string \<Rightarrow> int"

definition archive_backfill ::
    "archive_world \<Rightarrow> (string \<Rightarrow> string option) \<Rightarrow> codec \<Rightarrow> string \<Rightarrow> lens_config \<Rightarrow> database \<Rightarrow> (string, nat) result \<times> database" where
  "archive_backfill aw io cd now cfg db =
     (case (if truthy (lc_archiveUrl cfg) then lc_startLedger cfg else None) of
        None \<Rightarrow> (Inr 0, db)
      | Some first \<Rightarrow>
          (case aw_retention aw of
             Inl e \<Rightarrow> (Inl e, db)
           | Inr r \<Rightarrow>
               if archiveEnd \<lfloor>first\<rfloor> r \<ge> \<lfloor>first\<rfloor>
               then (case archive_getEvents (aw_compare aw) (aw_size aw) (aw_fetch aw)
                       \<lparr>aa_startLedger = nat \<lfloor>first\<rfloor>, aa_endLedger = Some (nat (archiveEnd \<lfloor>first\<rfloor> r)),
                        aa_filters = Some (buildFilters (lc_contractIds cfg) None None), aa_limit = Some BACKFILL_LIMIT\<rparr> of
                       Inl e \<Rightarrow> (Inl e, db)
                     | Inr b \<Rightarrow> insertEvents io cd now (eb_events b) db)
               else (Inr 0, db)))"

definition size_prune :: "disk \<Rightarrow> lens_config \<Rightarrow> nat \<Rightarrow> database \<Rightarrow> database" where
  "size_prune dk cfg bytes db =
     (case lc_maxDbSizeBytes cfg of
        None \<Rightarrow> db
      | Some target \<Rightarrow> if of_nat bytes \<le> target then db
          else fs_db (snd (pruneToSize dk False (nat \<lfloor>target\<rfloor>) 1000 \<lparr>fs_db = db, fs_bytes = bytes\<rparr>)))"

record indexer_limits =
  il_maxEvents :: "nat option"
  il_stopWhenCaughtUp :: bool

section \<open>The system\<close>

datatype ix_phase = IxDown | IxRunning poller | IxYielded poller event_batch poll_yield
  | IxStored poller event_batch poll_yield | IxEnded

record indexer =
  ix_phase :: ix_phase
  ix_db :: database
  ix_inserted :: nat
  ix_seen :: nat
  ix_lastLedger :: int

definition stops :: "indexer_limits \<Rightarrow> indexer \<Rightarrow> poll_yield \<Rightarrow> bool" where
  "stops limits s y = ((case il_maxEvents limits of None \<Rightarrow> False | Some m \<Rightarrow> ix_seen s \<ge> m) \<or> (il_stopWhenCaughtUp limits \<and> py_caughtUp y))"

definition started :: "lens_config \<Rightarrow> metrics option \<Rightarrow> (string, nat) result \<times> database \<Rightarrow> indexer" where
  "started cfg m r = \<lparr>ix_phase = (case fst r of Inl e \<Rightarrow> IxDown
       | Inr n \<Rightarrow> (case start_stream (indexer_poller cfg) m of Inl e \<Rightarrow> IxDown | Inr p \<Rightarrow> IxRunning p)),
     ix_db = snd r, ix_inserted = 0, ix_seen = 0, ix_lastLedger = 0\<rparr>"

text \<open>A batch is yielded only when it has fresh events; \<open>elsewhere\<close> is another process on the database.\<close>

inductive ix_step ::
    "codec \<Rightarrow> lens_config \<Rightarrow> indexer_limits \<Rightarrow> json \<Rightarrow> string \<Rightarrow> (turn_inputs \<Rightarrow> bool) \<Rightarrow> indexer \<Rightarrow> indexer \<Rightarrow> bool"
  for cd :: codec and cfg :: lens_config and limits :: indexer_limits and now :: json and key :: string
    and world :: "turn_inputs \<Rightarrow> bool"
where
  boot: "ix_phase s = IxDown \<Longrightarrow>
     ix_step cd cfg limits now key world s (started cfg m (archive_backfill aw io cd date cfg (ix_db s)))"
| page: "ix_phase s = IxRunning p \<Longrightarrow> world ti \<Longrightarrow>
     poll_get (db_cursors now) key (indexer_poller cfg) ti (ix_db s) p = Page p' batch \<Longrightarrow>
     poll_page (indexer_poller cfg) ti batch p' = (p'', y) \<Longrightarrow>
     ix_step cd cfg limits now key world s (s\<lparr>ix_phase := IxYielded p'' batch y\<rparr>)"
| again: "ix_phase s = IxRunning p \<Longrightarrow> world ti \<Longrightarrow>
     poll_get (db_cursors now) key (indexer_poller cfg) ti (ix_db s) p = LoopAgain p' db \<Longrightarrow>
     ix_step cd cfg limits now key world s (s\<lparr>ix_phase := IxRunning p', ix_db := db\<rparr>)"
| threw: "ix_phase s = IxRunning p \<Longrightarrow> world ti \<Longrightarrow>
     poll_get (db_cursors now) key (indexer_poller cfg) ti (ix_db s) p = Threw e \<Longrightarrow>
     ix_step cd cfg limits now key world s (s\<lparr>ix_phase := IxDown\<rparr>)"
| store: "ix_phase s = IxYielded p batch y \<Longrightarrow> py_events y \<noteq> [] \<Longrightarrow>
     insertEvents io cd date (py_events y) (ix_db s) = (Inr n, db) \<Longrightarrow>
     ix_step cd cfg limits now key world s
       (s\<lparr>ix_phase := IxStored p batch y, ix_db := db, ix_inserted := ix_inserted s + n,
          ix_seen := ix_seen s + length (py_events y), ix_lastLedger := py_ledger y\<rparr>)"
| store_fails: "ix_phase s = IxYielded p batch y \<Longrightarrow> py_events y \<noteq> [] \<Longrightarrow>
     insertEvents io cd date (py_events y) (ix_db s) = (Inl e, db) \<Longrightarrow>
     ix_step cd cfg limits now key world s (s\<lparr>ix_phase := IxDown, ix_db := db\<rparr>)"
| stop: "ix_phase s = IxStored p batch y \<Longrightarrow> stops limits s y \<Longrightarrow>
     ix_step cd cfg limits now key world s (s\<lparr>ix_phase := IxEnded\<rparr>)"
| commit: "ix_phase s = IxStored p batch y \<and> \<not> stops limits s y \<or> ix_phase s = IxYielded p batch y \<and> py_events y = [] \<Longrightarrow>
     poll_commit (db_cursors now) key (indexer_poller cfg) date batch y p (ix_db s) = ((p', fin), db) \<Longrightarrow>
     ix_step cd cfg limits now key world s (s\<lparr>ix_phase := (if fin then IxEnded else IxRunning p'), ix_db := db\<rparr>)"
| prune: "ix_step cd cfg limits now key world s (s\<lparr>ix_db := size_prune dk cfg bytes (ix_db s)\<rparr>)"
| kill: "ix_step cd cfg limits now key world s (s\<lparr>ix_phase := IxDown\<rparr>)"
| elsewhere: "set (db_ids (ix_db s)) \<subseteq> set (db_ids db) \<Longrightarrow> db_ok cd db \<Longrightarrow>
     db_cursor_load db key = db_cursor_load (ix_db s) key \<Longrightarrow>
     ix_step cd cfg limits now key world s (s\<lparr>ix_db := db\<rparr>)"

definition fresh_indexer :: "database \<Rightarrow> indexer" where
  "fresh_indexer db = \<lparr>ix_phase = IxDown, ix_db = db, ix_inserted = 0, ix_seen = 0, ix_lastLedger = 0\<rparr>"

section \<open>What an insertion keeps\<close>

lemma one_row: "distinct (map f xs) \<Longrightarrow> a \<in> f ` set xs \<Longrightarrow> length (filter (\<lambda>x. f x = a) xs) = 1"
proof (induction xs)
  case (Cons x xs)
  show ?case
  proof (cases "f x = a")
    case True
    then have "a \<notin> f ` set xs" using Cons.prems(1) by auto
    then have "filter (\<lambda>x. f x = a) xs = []" by (metis (mono_tags, lifting) filter_False imageI)
    with True show ?thesis by simp
  qed (use Cons in simp)
qed simp

lemma insert_loop_stores:
  "insert_loop io cd n es db = Inr (m, db') \<Longrightarrow>
     set (db_ids db) \<union> le_id ` {e \<in> set es. le_type e \<in> {ContractEvent, SystemEvent}} \<subseteq> set (db_ids db') \<and> db_streams db' = db_streams db"
proof (induction es arbitrary: n db)
  case (Cons e es)
  obtain c d where o: "insert_one cd e db = (c, d)" by fastforce
  then have l: "insert_loop io cd (n + c) es d = Inr (m, db')" using Cons.prems by (auto simp: result_simps split: option.splits if_splits)
  have "db_streams d = db_streams db \<and> (le_type e \<in> {ContractEvent, SystemEvent} \<longrightarrow> le_id e \<in> set (db_ids d))"
    using o by (auto simp: insert_one_def Let_def insertable_def db_ids_def sql_insert_event_def split: if_splits)
  with Cons.IH [OF l] insert_one_ids [OF o] show ?case by auto
qed simp

lemma insertEvents_stores:
  assumes "insertEvents io cd date es db = (r, db')"
  shows "set (db_ids db) \<subseteq> set (db_ids db')" "db_cursor_load db' key = db_cursor_load db key"
    "r = Inr n \<Longrightarrow> \<forall>e \<in> set es. re_type e \<in> {ContractEvent, SystemEvent} \<Longrightarrow> re_id ` set es \<subseteq> set (db_ids db')"
    "codec_ok cd \<Longrightarrow> db_ok cd db \<Longrightarrow> db_ok cd db'"
proof -
  let ?ds = "map (\<lambda>e. decodeEvent cd e date) es"
  have i: "insertDecoded io cd ?ds db = (r, db')" using assms by (simp add: insertEvents_def)
  then consider (same) "db' = db" "es = [] \<or> (\<exists>e. r = Inl e)" | (loop) m where "insert_loop io cd 0 ?ds db = Inr (m, db')"
    by (auto simp: insertDecoded_def transaction_def split: if_splits sum.splits)
  then have k: "set (db_ids db) \<subseteq> set (db_ids db') \<and> db_streams db' = db_streams db \<and>
      (r = Inr n \<longrightarrow> (\<forall>e \<in> set es. re_type e \<in> {ContractEvent, SystemEvent} \<longrightarrow> re_id e \<in> set (db_ids db')))"
  proof cases
    case same
    then show ?thesis by auto
  next
    case loop
    note l = insert_loop_stores [OF loop]
    have "re_id e \<in> set (db_ids db')" if "e \<in> set es" "re_type e \<in> {ContractEvent, SystemEvent}" for e
    proof -
      have "decodeEvent cd e date \<in> {x \<in> set ?ds. le_type x \<in> {ContractEvent, SystemEvent}}"
        using that by (simp add: decodeEvent_fields)
      then have "le_id (decodeEvent cd e date) \<in> set (db_ids db')" using l by blast
      then show ?thesis by (simp add: decodeEvent_fields)
    qed
    with l show ?thesis by simp
  qed
  then show "set (db_ids db) \<subseteq> set (db_ids db')"
    "r = Inr n \<Longrightarrow> \<forall>e \<in> set es. re_type e \<in> {ContractEvent, SystemEvent} \<Longrightarrow> re_id ` set es \<subseteq> set (db_ids db')" by auto
  show "db_cursor_load db' key = db_cursor_load db key" using k by (simp add: db_cursor_load_def db_loadStreamState_def)
  show "codec_ok cd \<Longrightarrow> db_ok cd db \<Longrightarrow> db_ok cd db'" using insertDecoded_ok [of cd db io ?ds] i by simp
qed

lemma backfill_stores:
  assumes "archive_backfill aw io cd date cfg db = (r, db')"
  shows "set (db_ids db) \<subseteq> set (db_ids db')" "db_cursor_load db' key = db_cursor_load db key"
    "codec_ok cd \<Longrightarrow> db_ok cd db \<Longrightarrow> db_ok cd db'"
proof -
  have "db' = db \<or> (\<exists>es. insertEvents io cd date es db = (r, db'))"
    using assms by (auto simp: archive_backfill_def split: option.splits sum.splits if_splits)
  then show "set (db_ids db) \<subseteq> set (db_ids db')" "db_cursor_load db' key = db_cursor_load db key"
    "codec_ok cd \<Longrightarrow> db_ok cd db \<Longrightarrow> db_ok cd db'"
    by (auto dest: insertEvents_stores(1) insertEvents_stores(2) [where key = key] insertEvents_stores(4))
qed

section \<open>The indexer is the poller with the database as its consumer\<close>

fun poller_phase :: "ix_phase \<Rightarrow> phase" where
  "poller_phase IxDown = Down"
| "poller_phase (IxRunning p) = Looping p"
| "poller_phase (IxYielded p batch y) = Yielded p batch y"
| "poller_phase (IxStored p batch y) = Yielded p batch y"
| "poller_phase IxEnded = Down"

fun batch_stored :: "(nat \<Rightarrow> raw_event) \<Rightarrow> string set \<Rightarrow> ix_phase \<Rightarrow> bool" where
  "batch_stored chain ids (IxYielded p batch y) = (set (py_events y) \<subseteq> range chain)"
| "batch_stored chain ids (IxStored p batch y) = (re_id ` set (py_events y) \<subseteq> ids)"
| "batch_stored chain ids _ = True"

definition runs_poller :: "codec \<Rightarrow> (nat \<Rightarrow> raw_event) \<Rightarrow> indexer \<Rightarrow> database system \<Rightarrow> bool" where
  "runs_poller cd chain s t = (sy_phase t = poller_phase (ix_phase s) \<and> sy_store t = ix_db s \<and> db_ok cd (ix_db s) \<and>
     re_id ` set (sy_processed t) \<subseteq> set (db_ids (ix_db s)) \<and> batch_stored chain (set (db_ids (ix_db s))) (ix_phase s))"

lemma batch_stored_mono: "batch_stored chain ids ph \<Longrightarrow> ids \<subseteq> ids' \<Longrightarrow> batch_stored chain ids' ph"
  by (cases ph) auto

lemma cursor_ops_keep:
  "db_ok cd (db_cursor_save db key c) = db_ok cd db" "db_ids (db_cursor_save db key c) = db_ids db"
  "db_ok cd (db_cursor_clear now db key) = db_ok cd db" "db_ids (db_cursor_clear now db key) = db_ids db"
  by (simp_all add: db_cursor_save_def db_cursor_clear_def db_saveStreamState_def db_ok_def db_ids_def)

lemma poll_failed_store:
  "poll_failed (db_cursors now) key ti db p e = LoopAgain p' db' \<Longrightarrow> db' = db \<or> db' = db_cursor_clear now db key"
  by (auto simp: poll_failed_def db_cursors_def split: poll_error.splits rpc_failure.splits if_splits sum.splits)

lemma poll_get_store:
  "poll_get (db_cursors now) key opts ti db p = LoopAgain p' db' \<Longrightarrow> db' = db \<or> db' = db_cursor_clear now db key"
  by (auto simp: poll_get_def Let_def dest: poll_failed_store split: if_splits sum.splits prod.splits)

lemma page_events_chain:
  assumes "poll_get (db_cursors now) key opts ti db p = Page p' batch" "good_world chain pos first ti"
    "poll_page opts ti batch p' = (p'', y)"
  shows "set (py_events y) \<subseteq> range chain"
proof -
  obtain args where "ti_getEvents ti args = Inr batch"
    using assms(1) by (auto simp: poll_get_def Let_def poll_failed_not_page split: if_splits sum.splits prod.splits)
  then have "set (eb_events batch) \<subseteq> range chain"
    using assms(2) by (fastforce simp: good_world_def log_page_def)
  then show ?thesis using fresh_events_covers [OF poll_page_simps(4) [OF assms(3)]] by auto
qed

text \<open>Every step of the indexer is some steps of the poller's system over the database.\<close>

lemma runs_pollerD:
  assumes "runs_poller cd chain s t"
  shows "sy_phase t = poller_phase (ix_phase s)" "sy_store t = ix_db s" "db_ok cd (ix_db s)"
    "re_id ` set (sy_processed t) \<subseteq> set (db_ids (ix_db s))" "batch_stored chain (set (db_ids (ix_db s))) (ix_phase s)"
  using assms by (simp_all add: runs_poller_def)

lemma other_writer:
  assumes "runs_poller cd chain s t" "db_cursor_load db key = db_cursor_load (ix_db s) key"
  shows "sys_step (db_cursors now) key opts world t (t\<lparr>sy_store := db\<rparr>)"
  using assms by (intro sys_step.others) (simp add: db_cursors_def runs_poller_def)

lemma boot_runs:
  assumes "runs_poller cd chain s t" "ix_phase s = IxDown" "codec_ok cd"
  shows "\<exists>t'. (sys_step (db_cursors now) key (indexer_poller cfg) world)\<^sup>*\<^sup>* t t' \<and>
    runs_poller cd chain (started cfg m (archive_backfill aw io cd date cfg (ix_db s))) t'"
proof -
  let ?R = "sys_step (db_cursors now) key (indexer_poller cfg) world"
  note t = runs_pollerD [OF assms(1)]
  obtain r db where b: "archive_backfill aw io cd date cfg (ix_db s) = (r, db)" by fastforce
  note k = backfill_stores(1) [OF b] backfill_stores(2) [OF b, of key] backfill_stores(3) [OF b assms(3) t(3)]
  let ?t = "t\<lparr>sy_store := db\<rparr>"
  have run: "?R\<^sup>*\<^sup>* t ?t" using other_writer [OF assms(1) k(2)] by blast
  have kept: "re_id ` set (sy_processed t) \<subseteq> set (db_ids db)" using t(4) k(1) by blast
  show ?thesis
  proof (cases "\<exists>n p. r = Inr n \<and> start_stream (indexer_poller cfg) m = Inr p")
    case True
    then obtain n p where p: "r = Inr n" "start_stream (indexer_poller cfg) m = Inr p" by blast
    have "?R ?t (?t\<lparr>sy_phase := Looping p\<rparr>)" using t(1) assms(2) p(2) by (intro sys_step.boot) simp_all
    moreover have "runs_poller cd chain (started cfg m (r, db)) (?t\<lparr>sy_phase := Looping p\<rparr>)"
      using kept k(3) p by (simp add: runs_poller_def started_def)
    ultimately show ?thesis using run unfolding b by (meson rtranclp.rtrancl_into_rtrancl)
  next
    case False
    then have "ix_phase (started cfg m (r, db)) = IxDown" by (auto simp: started_def split: sum.splits)
    then have "runs_poller cd chain (started cfg m (r, db)) ?t"
      using kept k(3) t(1) assms(2) by (simp add: runs_poller_def started_def)
    with run show ?thesis unfolding b by blast
  qed
qed

lemma store_runs:
  assumes "runs_poller cd chain s t" "ix_phase s = IxYielded p batch y" "insertEvents io cd date (py_events y) (ix_db s) = (r, db)"
    and "codec_ok cd" "\<forall>n. re_type (chain n) \<in> {ContractEvent, SystemEvent}"
    and "ix_db s' = db" "ix_phase s' = (case r of Inl e \<Rightarrow> IxDown | Inr n \<Rightarrow> IxStored p batch y)"
  shows "\<exists>t'. (sys_step (db_cursors now) key opts world)\<^sup>*\<^sup>* t t' \<and> runs_poller cd chain s' t'"
proof -
  note t = runs_pollerD [OF assms(1)] and k = insertEvents_stores [OF assms(3)]
  have "set (py_events y) \<subseteq> range chain" using t(5) assms(2) by simp
  then have "\<forall>e \<in> set (py_events y). re_type e \<in> {ContractEvent, SystemEvent}" using assms(5) by auto
  then have new: "r = Inr n \<Longrightarrow> re_id ` set (py_events y) \<subseteq> set (db_ids db)" for n using k(3) by blast
  have old: "re_id ` set (sy_processed t) \<subseteq> set (db_ids db)" using t(4) k(1) by blast
  have ok: "db_ok cd db" by (rule k(4) [OF assms(4) t(3)])
  note w = other_writer [OF assms(1) k(2) [of key], of now opts world]
  show ?thesis
  proof (cases r)
    case (Inl e)
    then have "runs_poller cd chain s' (t\<lparr>sy_store := db, sy_phase := Down\<rparr>)" using assms(6,7) ok old by (simp add: runs_poller_def)
    with w sys_step.kill [of "db_cursors now" key opts world "t\<lparr>sy_store := db\<rparr>"] show ?thesis
      by (meson converse_rtranclp_into_rtranclp r_into_rtranclp)
  next
    case (Inr n)
    then have "runs_poller cd chain s' (t\<lparr>sy_store := db\<rparr>)"
      using assms(2,6,7) ok old new t(1) by (simp add: runs_poller_def)
    with w show ?thesis by blast
  qed
qed

lemma commit_runs:
  assumes "runs_poller cd chain s t" "ix_phase s = IxStored p batch y \<or> ix_phase s = IxYielded p batch y \<and> py_events y = []"
    and "poll_commit (db_cursors now) key opts date batch y p (ix_db s) = ((p', fin), db)"
    and "ix_db s' = db" "ix_phase s' = (if fin then IxEnded else IxRunning p')"
  shows "\<exists>t'. (sys_step (db_cursors now) key opts world)\<^sup>*\<^sup>* t t' \<and> runs_poller cd chain s' t'"
proof -
  note t = runs_pollerD [OF assms(1)]
  let ?t = "t\<lparr>sy_phase := (if fin then Ended else Looping p'), sy_store := db, sy_processed := sy_processed t @ py_events y\<rparr>"
  have ph: "sy_phase t = Yielded p batch y" using assms(2) t(1) by auto
  have step: "sys_step (db_cursors now) key opts world t ?t" using assms(3) t(2) ph by (intro sys_step.commit) simp_all
  have d: "db_ok cd db" "db_ids db = db_ids (ix_db s)"
    using poll_commit_simps(4) [OF assms(3)] t(3) by (auto simp: db_cursors_def cursor_ops_keep)
  have "re_id ` set (py_events y) \<subseteq> set (db_ids (ix_db s))" using assms(2) t(5) by (elim disjE conjE) simp_all
  then have p: "re_id ` set (sy_processed ?t) \<subseteq> set (db_ids db)" using t(4) d(2) by (simp add: image_Un)
  show ?thesis
  proof (cases fin)
    case False
    then have "runs_poller cd chain s' ?t" using assms(4,5) d p by (simp add: runs_poller_def)
    with step show ?thesis by blast
  next
    case True
    then have "runs_poller cd chain s' (?t\<lparr>sy_phase := Down\<rparr>)" using assms(4,5) d p by (simp add: runs_poller_def)
    with step sys_step.kill [of "db_cursors now" key opts world ?t] show ?thesis
      by (meson rtranclp.rtrancl_into_rtrancl r_into_rtranclp)
  qed
qed

lemma kill_runs:
  assumes "runs_poller cd chain s t" "ix_db s' = ix_db s" "ix_phase s' = IxDown \<or> ix_phase s' = IxEnded"
  shows "\<exists>t'. (sys_step (db_cursors now) key opts world)\<^sup>*\<^sup>* t t' \<and> runs_poller cd chain s' t'"
proof -
  have "runs_poller cd chain s' (t\<lparr>sy_phase := Down\<rparr>)" using assms by (auto simp: runs_poller_def)
  then show ?thesis using sys_step.kill [of "db_cursors now" key opts world t] by blast
qed

lemma runs_poller_step:
  assumes "ix_step cd cfg limits now key (good_world chain pos first) s s'" "runs_poller cd chain s t"
    and cd: "codec_ok cd" and none: "lc_maxDbSizeBytes cfg = None"
    and types: "\<forall>n. re_type (chain n) \<in> {ContractEvent, SystemEvent}"
  shows "\<exists>t'. (sys_step (db_cursors now) key (indexer_poller cfg) (good_world chain pos first))\<^sup>*\<^sup>* t t' \<and> runs_poller cd chain s' t'"
proof -
  let ?R = "sys_step (db_cursors now) key (indexer_poller cfg) (good_world chain pos first)"
  note t = runs_pollerD [OF assms(2)]
  have move: "\<exists>t'. ?R\<^sup>*\<^sup>* t t' \<and> runs_poller cd chain s' t'" if "?R t t'" "runs_poller cd chain s' t'" for t' using that by blast
  from assms(1) show ?thesis
  proof cases
    case (boot m aw io date)
    then show ?thesis using boot_runs [OF assms(2) _ cd] by simp
  next
    case (page p ti p' batch p'' y)
    note c = page_events_chain [OF page(4,3,5)]
    have "?R t (t\<lparr>sy_phase := Yielded p'' batch y\<rparr>)" using page t by (intro sys_step.page) simp_all
    moreover have "runs_poller cd chain s' (t\<lparr>sy_phase := Yielded p'' batch y\<rparr>)" using t c page(1) by (simp add: runs_poller_def)
    ultimately show ?thesis by (rule move)
  next
    case (again p ti p' db)
    have d: "db_ok cd db" "db_ids db = db_ids (ix_db s)" using poll_get_store [OF again(4)] t(3) by (auto simp: cursor_ops_keep)
    have "?R t (t\<lparr>sy_phase := Looping p', sy_store := db\<rparr>)" using again t by (intro sys_step.again) simp_all
    moreover have "runs_poller cd chain s' (t\<lparr>sy_phase := Looping p', sy_store := db\<rparr>)"
      using t d again(1) by (simp add: runs_poller_def)
    ultimately show ?thesis by (rule move)
  next
    case (store p batch y io date n db)
    then show ?thesis using store_runs [OF assms(2) store(2,4) cd types] by simp
  next
    case (store_fails p batch y io date e db)
    then show ?thesis using store_runs [OF assms(2) store_fails(2,4) cd types] by simp
  next
    case (commit p batch y date p' fin db)
    then show ?thesis using commit_runs [OF assms(2) _ commit(3)] by auto
  next
    case (prune dk bytes)
    then show ?thesis using assms(2) by (auto simp: size_prune_def none)
  next
    case (elsewhere db)
    have "re_id ` set (sy_processed t) \<subseteq> set (db_ids db)" using t(4) elsewhere(2) by blast
    then have "runs_poller cd chain s' (t\<lparr>sy_store := db\<rparr>)"
      using t(1) elsewhere(1,3) batch_stored_mono [OF t(5) elsewhere(2)] by (simp add: runs_poller_def)
    then show ?thesis using other_writer [OF assms(2) elsewhere(4)] move by blast
  qed (use kill_runs [OF assms(2)] in \<open>simp_all\<close>)
qed

lemma runs_poller_reachable:
  assumes "(ix_step cd cfg limits now key (good_world chain pos first))\<^sup>*\<^sup>* (fresh_indexer db) s" "codec_ok cd" "db_ok cd db"
    "lc_maxDbSizeBytes cfg = None" "\<forall>n. re_type (chain n) \<in> {ContractEvent, SystemEvent}"
  shows "\<exists>t. (sys_step (db_cursors now) key (indexer_poller cfg) (good_world chain pos first))\<^sup>*\<^sup>* (fresh_system db) t \<and> runs_poller cd chain s t"
  using assms(1)
proof induction
  case base
  have "runs_poller cd chain (fresh_indexer db) (fresh_system db)"
    using assms(3) by (simp add: runs_poller_def fresh_indexer_def fresh_system_def)
  then show ?case by blast
next
  case (step s s')
  then obtain t where t: "(sys_step (db_cursors now) key (indexer_poller cfg) (good_world chain pos first))\<^sup>*\<^sup>* (fresh_system db) t" "runs_poller cd chain s t"
    by blast
  from runs_poller_step [OF step(2) t(2) assms(2,4,5)] t(1) show ?case by (meson rtranclp_trans)
qed

end
