(* ===== verification/Cli_Specs.thy ===== *)
theory Cli_Specs
  imports Typed_Spec
begin

text \<open>
  Looking contract specs up (\<open>packages/cli/src/specs.ts\<close>): one lookup, the record it makes, and the
  indexer's background fetcher. The RPC node and the reader of Wasm files are parameters.
\<close>

section \<open>One lookup\<close>

record spec_error =
  lx_code :: "int option"
  lx_message :: string

record spec_source =
  ss_instance :: "string \<Rightarrow> (spec_error, string) result"
  ss_wasm :: "string \<Rightarrow> (spec_error, string) result"

record wasm_reader =
  wr_hash :: "string \<Rightarrow> string"
  wr_entries :: "string \<Rightarrow> (string, string list) result"

fun has_text :: "string \<Rightarrow> string \<Rightarrow> bool" where
  "has_text p [] = (p = [])"
| "has_text p (c # s) = (starts_with p (c # s) \<or> has_text p s)"

definition isNotFound :: "spec_error \<Rightarrow> bool" where
  "isNotFound e = (lx_code e = Some 404 \<or> has_text ''not found'' (js_lower (lx_message e)) \<or>
     has_text ''could not obtain'' (js_lower (lx_message e)))"

definition no_spec :: "string \<Rightarrow> string option \<Rightarrow> string \<Rightarrow> string \<Rightarrow> spec_row" where
  "no_spec contractId hash error now = \<lparr>sr_contract_id = contractId, sr_source = ''none'', sr_wasm_hash = hash,
     sr_entries_xdr = [], sr_event_count = 0, sr_error = Some error, sr_fetched_at = now\<rparr>"

definition wasm_spec :: "string \<Rightarrow> string option \<Rightarrow> string list \<Rightarrow> int \<Rightarrow> string \<Rightarrow> spec_row" where
  "wasm_spec contractId hash entries n now = \<lparr>sr_contract_id = contractId, sr_source = ''wasm'', sr_wasm_hash = hash,
     sr_entries_xdr = entries, sr_event_count = n, sr_error = None, sr_fetched_at = now\<rparr>"

text \<open>Counting the events builds a decoder, which throws where an entry cannot be read.\<close>

definition recordFromWasm :: "sdk \<Rightarrow> wasm_reader \<Rightarrow> string \<Rightarrow> string \<Rightarrow> string \<Rightarrow> (spec_error, spec_row) result" where
  "recordFromWasm sdk wr contractId wasm now =
     (case wr_entries wr wasm of
        Inl e \<Rightarrow> Inr (no_spec contractId (Some (wr_hash wr wasm)) (''no readable contract spec in Wasm: '' @ e) now)
      | Inr entries \<Rightarrow>
         (case fromRecord sdk (wasm_spec contractId None entries 0 []) of
            Inl e \<Rightarrow> Inl \<lparr>lx_code = None, lx_message = e\<rparr>
          | Inr d \<Rightarrow> Inr (wasm_spec contractId (Some (wr_hash wr wasm)) entries
              (case d of None \<Rightarrow> 0 | Some d \<Rightarrow> int (decoder_eventCount d)) now)))"

definition lookupContractSpec :: "sdk \<Rightarrow> wasm_reader \<Rightarrow> spec_source \<Rightarrow> string \<Rightarrow> string \<Rightarrow> (spec_error, spec_row) result" where
  "lookupContractSpec sdk wr src contractId now =
     (case ss_instance src contractId of
        Inl e \<Rightarrow> if isNotFound e then Inr (no_spec contractId None (''contract instance not found: '' @ lx_message e) now) else Inl e
      | Inr executable \<Rightarrow>
          if executable = ''contractExecutableStellarAsset''
          then Inr \<lparr>sr_contract_id = contractId, sr_source = ''stellar-asset'', sr_wasm_hash = None, sr_entries_xdr = [],
                 sr_event_count = int (length STELLAR_ASSET_SPEC_ENTRIES), sr_error = None, sr_fetched_at = now\<rparr>
          else (case ss_wasm src contractId of
              Inl e \<Rightarrow> if isNotFound e then Inr (no_spec contractId None (''contract Wasm not found: '' @ lx_message e) now) else Inl e
            | Inr wasm \<Rightarrow> recordFromWasm sdk wr contractId wasm now))"

text \<open>The dashes and dots of the text are its UTF-8 bytes.\<close>

definition describeSpecRecord :: "spec_row \<Rightarrow> string" where
  "describeSpecRecord r =
     (let dash = [CHR '' '', CHR 0xE2, CHR 0x80, CHR 0x94, CHR '' '']; dots = [CHR 0xE2, CHR 0x80, CHR 0xA6];
          hash = (case sr_wasm_hash r of None \<Rightarrow> ''?'' | Some h \<Rightarrow> take 12 h) in
      if sr_source r = ''stellar-asset''
      then sr_contract_id r @ '': Stellar Asset Contract'' @ dash @ ''built-in spec (transfer, mint, burn, '' @ dots @ '')''
      else if sr_source r = ''wasm''
      then (if sr_event_count r > 0
        then sr_contract_id r @ '': Wasm '' @ hash @ dots @ '' declares '' @ show_int (sr_event_count r) @ '' event(s)'' @ dash @ ''typed decoding on''
        else sr_contract_id r @ '': Wasm '' @ hash @ dots @ '' has a spec but declares no events (built before soroban-sdk 23?)'' @ dash @ ''generic decoding only'')
      else sr_contract_id r @ '': no spec'' @ dash @ or_else (sr_error r) ''unknown reason'')"

section \<open>SpecFetcher\<close>

text \<open>
  \<open>sf_queue\<close> holds the lookups not yet begun. \<open>sf_lookups\<close> and \<open>sf_failures\<close> record what the
  lookups did; the code keeps neither.
\<close>

record spec_fetcher =
  sf_db :: database
  sf_attempted :: "string list"
  sf_queue :: "string list"
  sf_stopped :: bool
  sf_lookups :: "string list"
  sf_failures :: "string list"

record fetch_world =
  fw_now :: int
  fw_date :: string
  fw_parse :: "string \<Rightarrow> int option"
  fw_source :: spec_source
  fw_sdk :: sdk
  fw_reader :: wasm_reader
  fw_save_fails :: bool

definition RETRY_NONE_AFTER_MS :: int where
  "RETRY_NONE_AFTER_MS = 6 * 60 * 60 * 1000"

definition new_fetcher :: "database \<Rightarrow> spec_fetcher" where
  "new_fetcher db = \<lparr>sf_db = db, sf_attempted = [], sf_queue = [], sf_stopped = False, sf_lookups = [], sf_failures = []\<rparr>"

definition enqueue_one :: "string \<Rightarrow> spec_fetcher \<Rightarrow> spec_fetcher" where
  "enqueue_one i f = (if i \<in> set (sf_attempted f) then f
     else f\<lparr>sf_attempted := sf_attempted f @ [i], sf_queue := sf_queue f @ [i]\<rparr>)"

definition enqueue :: "string list \<Rightarrow> spec_fetcher \<Rightarrow> spec_fetcher" where
  "enqueue ids f = foldl (\<lambda>f i. enqueue_one i f) f ids"

definition stop_fetcher :: "spec_fetcher \<Rightarrow> spec_fetcher" where
  "stop_fetcher f = f\<lparr>sf_stopped := True\<rparr>"

definition forget :: "string \<Rightarrow> spec_fetcher \<Rightarrow> spec_fetcher" where
  "forget i f = f\<lparr>sf_attempted := filter (\<lambda>x. x \<noteq> i) (sf_attempted f), sf_failures := sf_failures f @ [i]\<rparr>"

definition definite :: "spec_row option \<Rightarrow> bool" where
  "definite r = (case r of None \<Rightarrow> False | Some r \<Rightarrow> sr_source r \<noteq> ''none'')"

definition recent_none :: "fetch_world \<Rightarrow> spec_row option \<Rightarrow> bool" where
  "recent_none w r = (case r of None \<Rightarrow> False
     | Some r \<Rightarrow> (case fw_parse w (sr_fetched_at r) of None \<Rightarrow> False | Some t \<Rightarrow> fw_now w - t < RETRY_NONE_AFTER_MS))"

definition fetchOne :: "fetch_world \<Rightarrow> string \<Rightarrow> spec_fetcher \<Rightarrow> spec_fetcher" where
  "fetchOne w i f =
     (let existing = getContractSpec i (sf_db f) in
      if sf_stopped f \<or> definite existing \<or> recent_none w existing then f
      else let f = f\<lparr>sf_lookups := sf_lookups f @ [i]\<rparr> in
        case lookupContractSpec (fw_sdk w) (fw_reader w) (fw_source w) i (fw_date w) of
          Inl e \<Rightarrow> forget i f
        | Inr r \<Rightarrow> if fw_save_fails w then forget i f else f\<lparr>sf_db := saveContractSpec r (sf_db f)\<rparr>)"

definition fetch_next :: "fetch_world \<Rightarrow> spec_fetcher \<Rightarrow> spec_fetcher" where
  "fetch_next w f = (case sf_queue f of [] \<Rightarrow> f | i # is \<Rightarrow> fetchOne w i (f\<lparr>sf_queue := is\<rparr>))"

datatype fetcher_op = Enqueue "string list" | FetchNext fetch_world | StopFetcher

fun fetcher_step :: "fetcher_op \<Rightarrow> spec_fetcher \<Rightarrow> spec_fetcher" where
  "fetcher_step (Enqueue ids) f = enqueue ids f"
| "fetcher_step (FetchNext w) f = fetch_next w f"
| "fetcher_step StopFetcher f = stop_fetcher f"

definition run_fetcher :: "fetcher_op list \<Rightarrow> spec_fetcher \<Rightarrow> spec_fetcher" where
  "run_fetcher ops f = foldl (\<lambda>f x. fetcher_step x f) f ops"

section \<open>Its invariant\<close>

text \<open>A contract is asked for at most once more than its lookups failed; one in the queue, not even once more.\<close>

definition fetcher_ok :: "spec_fetcher \<Rightarrow> bool" where
  "fetcher_ok f = (distinct (sf_queue f) \<and> set (sf_queue f) \<subseteq> set (sf_attempted f) \<and>
     (\<forall>i. count_list (sf_lookups f) i \<le> Suc (count_list (sf_failures f) i) \<and>
       (i \<in> set (sf_queue f) \<or> i \<notin> set (sf_attempted f) \<longrightarrow> count_list (sf_lookups f) i = count_list (sf_failures f) i)))"

lemma lookup_id: "lookupContractSpec sdk wr src i now = Inr r \<Longrightarrow> sr_contract_id r = i"
  by (auto simp: lookupContractSpec_def recordFromWasm_def no_spec_def wasm_spec_def split: sum.splits if_splits)

lemma new_fetcher_ok: "fetcher_ok (new_fetcher db)"
  by (simp add: fetcher_ok_def new_fetcher_def)

lemma enqueue_ok: "fetcher_ok f \<Longrightarrow> fetcher_ok (enqueue ids f)"
proof (induction ids arbitrary: f)
  case (Cons i ids)
  have "fetcher_ok (enqueue_one i f)" using Cons.prems by (auto simp: fetcher_ok_def enqueue_one_def)
  with Cons.IH show ?case by (simp add: enqueue_def)
qed (simp add: enqueue_def)

lemma fetchOne_cases:
  "fetchOne w i f = f \<or> fetchOne w i f = forget i (f\<lparr>sf_lookups := sf_lookups f @ [i]\<rparr>) \<or>
     (\<exists>r. fetchOne w i f = f\<lparr>sf_lookups := sf_lookups f @ [i], sf_db := saveContractSpec r (sf_db f)\<rparr> \<and> sr_contract_id r = i)"
proof (cases "sf_stopped f \<or> definite (getContractSpec i (sf_db f)) \<or> recent_none w (getContractSpec i (sf_db f))")
  case False
  then have e: "fetchOne w i f = (case lookupContractSpec (fw_sdk w) (fw_reader w) (fw_source w) i (fw_date w) of
       Inl e \<Rightarrow> forget i (f\<lparr>sf_lookups := sf_lookups f @ [i]\<rparr>)
     | Inr r \<Rightarrow> if fw_save_fails w then forget i (f\<lparr>sf_lookups := sf_lookups f @ [i]\<rparr>)
         else f\<lparr>sf_lookups := sf_lookups f @ [i], sf_db := saveContractSpec r (sf_db f)\<rparr>)"
    unfolding fetchOne_def Let_def by (simp split: sum.split)
  show ?thesis
  proof (cases "lookupContractSpec (fw_sdk w) (fw_reader w) (fw_source w) i (fw_date w)")
    case (Inr r)
    then show ?thesis using e lookup_id [OF Inr] by auto
  qed (simp add: e)
qed (simp add: fetchOne_def)

lemma fetch_next_ok:
  assumes "fetcher_ok f"
  shows "fetcher_ok (fetch_next w f)"
proof (cases "sf_queue f")
  case (Cons i rest)
  let ?f = "f\<lparr>sf_queue := rest\<rparr>"
  have q: "i \<notin> set rest" "distinct rest" "set rest \<subseteq> set (sf_attempted f)" "i \<in> set (sf_attempted f)"
    "count_list (sf_lookups f) i = count_list (sf_failures f) i"
    using assms Cons by (auto simp: fetcher_ok_def)
  have e: "count_list (sf_lookups f) j \<le> Suc (count_list (sf_failures f) j)"
    "j \<in> set rest \<or> j \<notin> set (sf_attempted f) \<Longrightarrow> count_list (sf_lookups f) j = count_list (sf_failures f) j" for j
    using assms Cons by (auto simp: fetcher_ok_def)
  consider "fetchOne w i ?f = ?f" | r where "fetchOne w i ?f = ?f\<lparr>sf_lookups := sf_lookups f @ [i], sf_db := r\<rparr>"
    | "fetchOne w i ?f = forget i (?f\<lparr>sf_lookups := sf_lookups f @ [i]\<rparr>)"
    using fetchOne_cases [of w i ?f] by auto
  then show ?thesis
    by cases (use q e in \<open>auto simp: fetch_next_def Cons fetcher_ok_def forget_def\<close>)
qed (use assms in \<open>simp add: fetch_next_def\<close>)

lemma run_fetcher_ok: "fetcher_ok f \<Longrightarrow> fetcher_ok (run_fetcher ops f)"
proof (induction ops arbitrary: f)
  case (Cons x ops)
  have "fetcher_ok (fetcher_step x f)"
  proof (cases x)
    case StopFetcher
    then show ?thesis using Cons.prems by (simp add: stop_fetcher_def fetcher_ok_def)
  qed (use Cons.prems in \<open>simp_all add: enqueue_ok fetch_next_ok\<close>)
  with Cons.IH show ?case by (simp add: run_fetcher_def)
qed (simp add: run_fetcher_def)

text \<open>A definite answer of the store is never asked for again, and never lost.\<close>

lemma enqueue_keeps: "sf_db (enqueue ids f) = sf_db f \<and> sf_lookups (enqueue ids f) = sf_lookups f"
  by (induction ids arbitrary: f) (simp_all add: enqueue_def enqueue_one_def)

lemma definite_kept:
  assumes "definite (getContractSpec i (sf_db f))"
  shows "getContractSpec i (sf_db (fetcher_step x f)) = getContractSpec i (sf_db f) \<and>
    (i \<in> set (sf_lookups (fetcher_step x f)) \<longrightarrow> i \<in> set (sf_lookups f))"
proof (cases x)
  case (FetchNext w)
  show ?thesis
  proof (cases "sf_queue f")
    case (Cons j rest)
    let ?f = "f\<lparr>sf_queue := rest\<rparr>"
    show ?thesis
    proof (cases "j = i")
      case True
      then have "fetchOne w j ?f = ?f" using assms by (simp add: fetchOne_def)
      then show ?thesis using FetchNext Cons by (simp add: fetch_next_def)
    next
      case False
      have "getContractSpec i (sf_db (fetchOne w j ?f)) = getContractSpec i (sf_db f)"
        using False fetchOne_cases [of w j ?f] by (auto simp: getContractSpec_save forget_def)
      moreover have "set (sf_lookups (fetchOne w j ?f)) \<subseteq> insert j (set (sf_lookups f))"
        using fetchOne_cases [of w j ?f] by (auto simp: forget_def)
      ultimately show ?thesis using FetchNext Cons False by (auto simp: fetch_next_def)
    qed
  qed (use FetchNext in \<open>simp add: fetch_next_def\<close>)
qed (simp_all add: enqueue_keeps stop_fetcher_def)

lemma definite_never_asked:
  "definite (getContractSpec i (sf_db f)) \<Longrightarrow> i \<notin> set (sf_lookups f) \<Longrightarrow>
     i \<notin> set (sf_lookups (run_fetcher ops f)) \<and> getContractSpec i (sf_db (run_fetcher ops f)) = getContractSpec i (sf_db f)"
proof (induction ops arbitrary: f)
  case (Cons x ops)
  then show ?case using definite_kept [OF Cons.prems(1), of x] Cons.IH [of "fetcher_step x f"] by (simp add: run_fetcher_def)
qed (simp add: run_fetcher_def)

end
