(* ===== verification/Cli_Props.thy ===== *)
theory Cli_Props
  imports Cli_Indexer Cli_Specs Ingest_Props Store_Props
begin

text \<open>
  The properties of the command-line tool: what the running indexer leaves in its database.
\<close>

section \<open>The indexer\<close>






section \<open>The spec fetcher\<close>

text \<open>
  C34: whatever sequence of batches, lookups and stops the fetcher goes through, a contract is
  asked for at most once more than its lookups failed for a passing reason; a contract whose
  spec the store knows is never asked for, and its spec is kept.
\<close>

theorem spec_lookups_bounded:
  assumes "f = run_fetcher ops (new_fetcher db)"
  shows "count_list (sf_lookups f) i \<le> Suc (count_list (sf_failures f) i)
    \<and> (definite (getContractSpec i db) \<longrightarrow> i \<notin> set (sf_lookups f) \<and> getContractSpec i (sf_db f) = getContractSpec i db)"
proof (intro conjI impI)
  show "count_list (sf_lookups f) i \<le> Suc (count_list (sf_failures f) i)"
    using run_fetcher_ok [OF new_fetcher_ok, of ops db] assms by (simp add: fetcher_ok_def)
next
  assume "definite (getContractSpec i db)"
  then have "i \<notin> set (sf_lookups f) \<and> getContractSpec i (sf_db f) = getContractSpec i db"
    using definite_never_asked [of i "new_fetcher db" ops] assms by (simp add: new_fetcher_def)
  then show "i \<notin> set (sf_lookups f)" "getContractSpec i (sf_db f) = getContractSpec i db" by simp_all
qed

theorem spec_lookups_bounded_witness:
  "count_list (sf_lookups (run_fetcher [Enqueue [''A'', ''B'', ''A''], StopFetcher, Enqueue [''C'']] (new_fetcher empty_db))) ''A'' \<le> 1"
  using spec_lookups_bounded [OF refl, of "[Enqueue [''A'', ''B'', ''A''], StopFetcher, Enqueue [''C'']]" empty_db "''A''"]
  by (simp add: run_fetcher_def enqueue_def enqueue_one_def new_fetcher_def stop_fetcher_def)

end
