(* ===== verification/Cli_Doctor.thy ===== *)
theory Cli_Doctor
  imports Cli_Config Contract_Id
begin

text \<open>
  The preflight checks (\<open>packages/cli/src/doctor.ts\<close>) and their report. What a check asks of the
  machine or the network is its argument: an error message, or the answer.
\<close>

datatype check_status = Pass | Warn | Fail

record check_result =
  ck_name :: string
  ck_status :: check_status
  ck_detail :: string
  ck_fix :: "string option"

definition check :: "string \<Rightarrow> check_status \<Rightarrow> string \<Rightarrow> string option \<Rightarrow> check_result" where
  "check name status detail fix_text = \<lparr>ck_name = name, ck_status = status, ck_detail = detail, ck_fix = fix_text\<rparr>"

definition checkNodeVersion :: "int \<Rightarrow> int \<Rightarrow> string \<Rightarrow> check_result" where
  "checkNodeVersion major minor version =
     (let ok = major > 22 \<or> (major = 22 \<and> minor \<ge> 13) in
      check ''Node.js version'' (if ok then Pass else Fail) (''v'' @ version)
        (if ok then None else Some ''soroban-lens needs Node >= 22.13 for the built-in node:sqlite module. Upgrade Node, or use the Docker path.''))"

definition checkDataDirWritable :: "string \<Rightarrow> (string, unit) result \<Rightarrow> check_result" where
  "checkDataDirWritable dir probe = (case probe of
       Inr _ \<Rightarrow> check ''Data directory'' Pass (dir @ '' is writable'') None
     | Inl e \<Rightarrow> check ''Data directory'' Fail (dir @ '': '' @ e)
         (Some ''Create the directory and make it writable by this user. In Docker this usually means a volume mounted read-only, or a uid mismatch on a bind mount.''))"

text \<open>\<open>gb\<close> prints a number of bytes as gigabytes with one decimal. None: \<open>statfs\<close> is missing.\<close>

definition checkDiskSpace :: "(nat \<Rightarrow> string) \<Rightarrow> string \<Rightarrow> (string, nat option) result \<Rightarrow> check_result" where
  "checkDiskSpace gb dir free = (case free of
       Inl e \<Rightarrow> check ''Disk space'' Warn (''Unable to inspect disk space: '' @ e) None
     | Inr None \<Rightarrow> check ''Disk space'' Pass ''statfs unavailable'' None
     | Inr (Some n) \<Rightarrow>
         (let detail = gb n @ '' GB available in '' @ dir in
          if n < 100 * 1024 * 1024
          then check ''Disk space'' Fail detail (Some ''Critically low disk space (<100MB). Free up storage before running the indexer to prevent database corruption.'')
          else if n < 1024 * 1024 * 1024
          then check ''Disk space'' Warn detail (Some ''Low disk space (<1GB). Ensure enough capacity for the SQLite ledger database to grow.'')
          else check ''Disk space'' Pass detail None))"

text \<open>What the write probe says (whether it is well, and its text) and the ledgers of the statistics.\<close>

definition checkDatabase :: "string \<Rightarrow> nat \<Rightarrow> (string, (bool \<times> string) \<times> int option \<times> int option) result \<Rightarrow> check_result" where
  "checkDatabase path latest probe = (case probe of
       Inl e \<Rightarrow> check ''Database'' Fail (path @ '': '' @ e)
         (Some ''Check the path is writable and is not on a filesystem without file locking (some network mounts break SQLite).'')
     | Inr ((ok, detail), lo, hi) \<Rightarrow>
         (let ledger = (\<lambda>l. case l of None \<Rightarrow> ''-'' | Some n \<Rightarrow> show_int n) in
          if \<not> ok then check ''Database'' Fail detail
            (Some (''Expected schema v'' @ show_nat latest @ ''. Delete '' @ path @ '' to rebuild from scratch, or run the migration.''))
          else check ''Database'' Pass (path @ '': '' @ detail @ '', ledgers '' @ ledger lo @ ''..'' @ ledger hi) None))"

definition checkRpc :: "lens_config \<Rightarrow> (string, string \<times> int \<times> int) result \<Rightarrow> check_result" where
  "checkRpc cfg answer = (case answer of
       Inr (status, latest, oldest) \<Rightarrow>
         check ''Soroban RPC'' Pass
           (net_name (lc_network cfg) @ '' '' @ net_rpcUrl (lc_network cfg) @ [CHR '' '', CHR 0xE2, CHR 0x80, CHR 0x94, CHR '' ''] @ status
             @ '', ledger '' @ show_int latest @ '', retains '' @ show_int (latest - oldest) @ '' ledgers (~''
             @ show_int (js_round (of_int ((latest - oldest) * 5) / 86400)) @ ''d)'') None
     | Inl e \<Rightarrow> check ''Soroban RPC'' Fail (net_rpcUrl (lc_network cfg) @ '': '' @ e)
         (Some (if net_name (lc_network cfg) = ''mainnet''
           then ''There is no free public mainnet RPC with useful retention. Set LENS_RPC_URL to your own node or a provider.''
           else ''Check network access and that LENS_RPC_URL is correct. The public testnet endpoint is https://soroban-testnet.stellar.org.'')))"

definition checkArchive :: "lens_config \<Rightarrow> (string, int \<times> int) result \<Rightarrow> check_result" where
  "checkArchive cfg covered_range =
     (if \<not> truthy (lc_archiveUrl cfg)
      then check ''History archive'' Warn ''not configured'' (Some ''Set LENS_ARCHIVE_URL to backfill ledgers older than RPC retention.'')
      else (case covered_range of
          Inr (lo, hi) \<Rightarrow> check ''History archive'' Pass (the (lc_archiveUrl cfg) @ '' covers ledgers '' @ show_int lo @ ''..'' @ show_int hi) None
        | Inl e \<Rightarrow> check ''History archive'' Fail (the (lc_archiveUrl cfg) @ '': '' @ e)
            (Some ''Check the archive root and that .well-known/stellar-history.json is reachable.'')))"

definition checkRpcHeaders :: "(string \<times> string) list \<Rightarrow> check_result" where
  "checkRpcHeaders hs = check ''RPC headers'' Pass (if map fst hs = [] then ''none configured'' else redactHeaders hs) None"

definition CONTRACT_ID_HINT :: string where
  "CONTRACT_ID_HINT = ''A contract id is 'C' followed by 55 characters (A-Z, 2-7). Account ids start with 'G' and are not contracts. If an id has the right shape but fails its checksum, a character was probably mistyped.''"

definition checkContractIds :: "(string \<Rightarrow> bool) \<Rightarrow> string list \<Rightarrow> check_result" where
  "checkContractIds valid_contract ids =
     (if ids = [] then check ''Contract IDs'' Warn
          (''none configured '' @ [CHR 0xE2, CHR 0x80, CHR 0x94] @ '' the indexer will watch every contract on the network'')
          (Some ''Set LENS_CONTRACT_IDS to narrow it down. On a busy network, watching everything fills the database fast.'')
      else if filter (\<lambda>i. \<not> isContractId valid_contract i) ids \<noteq> []
      then check ''Contract IDs'' Fail (''not contract StrKeys: '' @ js_join '', '' (filter (\<lambda>i. \<not> isContractId valid_contract i) ids)) (Some CONTRACT_ID_HINT)
      else check ''Contract IDs'' Pass
          (show_nat (length ids) @ '' configured'' @ (if length ids > 5 then '' (split across multiple RPC filters, 5 per filter)'' else [])) None)"

section \<open>The report\<close>

definition padEnd :: "nat \<Rightarrow> string \<Rightarrow> string" where
  "padEnd n s = s @ replicate (n - length s) (CHR '' '')"

fun status_icon :: "check_status \<Rightarrow> string" where
  "status_icon Pass = [CHR 0xE2, CHR 0x9C, CHR 0x94]"
| "status_icon Warn = ''!''"
| "status_icon Fail = [CHR 0xE2, CHR 0x9C, CHR 0x98]"

definition report_lines :: "check_result \<Rightarrow> string list" where
  "report_lines r = (''  '' @ status_icon (ck_status r) @ ''  '' @ padEnd 16 (ck_name r) @ '' '' @ ck_detail r) #
     (if truthy (ck_fix r) then [''     '' @ [CHR 0xE2, CHR 0x86, CHR 0xB3, CHR '' ''] @ the (ck_fix r)] else [])"

definition formatReport :: "check_result list \<Rightarrow> string \<times> nat" where
  "formatReport results =
     (let failed = length (filter (\<lambda>r. ck_status r = Fail) results);
          warned = length (filter (\<lambda>r. ck_status r = Warn) results)
      in (js_join [CHR 0x0A] (['''', ''lens doctor'', ''''] @ concat (map report_lines results) @ ['''',
           (if failed > 0 then ''  '' @ show_nat failed @ '' check(s) failed. Fix the above, then run lens doctor again.''
            else if warned > 0 then ''  All checks passed, with '' @ show_nat warned @ '' warning(s).''
            else ''  All checks passed. Run `lens index` to start indexing.''), '''']),
          if failed > 0 then 1 else 0))"

section \<open>What the report says\<close>

text \<open>The exit code is one exactly when a check failed, and every failing check says what to do.\<close>

lemma report_exit: "snd (formatReport rs) = (if \<exists>r \<in> set rs. ck_status r = Fail then 1 else 0)"
  by (auto simp: formatReport_def Let_def filter_empty_conv)

lemma failing_checks_have_fixes:
  "ck_status (checkContractIds valid_contract ids) = Fail \<Longrightarrow> ck_fix (checkContractIds valid_contract ids) \<noteq> None"
  "ck_status (checkRpc cfg h) = Fail \<Longrightarrow> ck_fix (checkRpc cfg h) \<noteq> None"
  "ck_status (checkDatabase path v p) = Fail \<Longrightarrow> ck_fix (checkDatabase path v p) \<noteq> None"
  "ck_status (checkDiskSpace gb dir free) = Fail \<Longrightarrow> ck_fix (checkDiskSpace gb dir free) \<noteq> None"
  by (auto simp: checkContractIds_def checkRpc_def checkDatabase_def checkDiskSpace_def check_def Let_def
    split: sum.splits option.splits if_splits)

text \<open>The report names the headers and never shows a value.\<close>

lemma headers_redacted: "map fst hs = map fst hs' \<Longrightarrow> checkRpcHeaders hs = checkRpcHeaders hs'"
  by (simp add: checkRpcHeaders_def redactHeaders_def)

end
