(* ===== verification/Web_Diff.thy ===== *)
theory Web_Diff
  imports Js_Values
begin

text \<open>
  The structural comparison of two decoded payloads (\<open>apps/web/src/diff.ts\<close>). Payloads are JSON
  values; \<open>in\<close> and a read of a property also find the members every object inherits, of which
  \<open>__proto__\<close> is an object without keys of its own and the others are functions.
\<close>

section \<open>Equality\<close>

definition prop_value :: "(string \<times> json) list \<Rightarrow> string \<Rightarrow> json option" where
  "prop_value m k = (case map_of m k of Some v \<Rightarrow> Some v | None \<Rightarrow> if k = ''__proto__'' then Some (JObj []) else None)"

fun deepEqual :: "json \<Rightarrow> json \<Rightarrow> bool"
  and deep_items :: "json list \<Rightarrow> json list \<Rightarrow> bool"
  and deep_keys :: "(string \<times> json) list \<Rightarrow> (string \<times> json) list \<Rightarrow> bool"
where
  "deepEqual (JArr xs) r = (case r of JArr ys \<Rightarrow> length xs = length ys \<and> deep_items xs ys | _ \<Rightarrow> False)"
| "deepEqual (JObj m) r = (case r of JObj m' \<Rightarrow> length m = length m' \<and> deep_keys m m' | _ \<Rightarrow> False)"
| "deepEqual l r = (l = r)"
| "deep_items (x # xs) (y # ys) = (deepEqual x y \<and> deep_items xs ys)"
| "deep_items _ _ = True"
| "deep_keys [] m = True"
| "deep_keys ((k, v) # kvs) m = ((case prop_value m k of None \<Rightarrow> False | Some w \<Rightarrow> deepEqual v w) \<and> deep_keys kvs m)"

section \<open>The diff\<close>

datatype diff_status = Same | Changed | Added | Removed

text \<open>One side of a leaf: nothing, a value, or the inherited member of a name.\<close>

datatype diff_side = Absent | Value json | Inherited string

datatype diff_node = DiffNode (dn_path: string) (dn_status: diff_status) (dn_left: diff_side) (dn_right: diff_side)
    (dn_children: "diff_node list option")

definition item_path :: "string \<Rightarrow> nat \<Rightarrow> string" where
  "item_path path i = path @ ''['' @ show_nat i @ '']''"

definition key_path :: "string \<Rightarrow> string \<Rightarrow> string" where
  "key_path path k = path @ ''.'' @ k"

definition added :: "string \<Rightarrow> json \<Rightarrow> diff_node" where
  "added path v = DiffNode path Added Absent (Value v) None"

definition removed :: "string \<Rightarrow> json \<Rightarrow> diff_node" where
  "removed path v = DiffNode path Removed (Value v) Absent None"

fun added_items :: "string \<Rightarrow> nat \<Rightarrow> json list \<Rightarrow> diff_node list" where
  "added_items path i [] = []"
| "added_items path i (y # ys) = added (item_path path i) y # added_items path (Suc i) ys"

fun diffValues :: "json \<Rightarrow> json \<Rightarrow> string \<Rightarrow> diff_node"
  and diff_items :: "string \<Rightarrow> nat \<Rightarrow> json list \<Rightarrow> json list \<Rightarrow> diff_node list"
  and diff_keys :: "string \<Rightarrow> (string \<times> json) list \<Rightarrow> (string \<times> json) list \<Rightarrow> diff_node list"
where
  "diffValues l r path =
     (if deepEqual l r then DiffNode path Same (Value l) (Value r) None
      else case l of
          JArr xs \<Rightarrow> (case r of JArr ys \<Rightarrow> DiffNode path Changed Absent Absent (Some (diff_items path 0 xs ys))
             | _ \<Rightarrow> DiffNode path Changed (Value l) (Value r) None)
        | JObj m \<Rightarrow> (case r of
               JObj m' \<Rightarrow> DiffNode path Changed Absent Absent (Some (diff_keys path m m' @
                 map (\<lambda>(k, w). added (key_path path k) w) (filter (\<lambda>(k, w). \<not> in_record k m) m')))
             | _ \<Rightarrow> DiffNode path Changed (Value l) (Value r) None)
        | _ \<Rightarrow> DiffNode path Changed (Value l) (Value r) None)"
| "diff_items path i [] ys = added_items path i ys"
| "diff_items path i (x # xs) [] = removed (item_path path i) x # diff_items path (Suc i) xs []"
| "diff_items path i (x # xs) (y # ys) = diffValues x y (item_path path i) # diff_items path (Suc i) xs ys"
| "diff_keys path [] m = []"
| "diff_keys path ((k, v) # kvs) m =
     (if \<not> in_record k m then removed (key_path path k) v
      else case prop_value m k of
          None \<Rightarrow> DiffNode (key_path path k) Changed (Value v) (Inherited k) None
        | Some w \<Rightarrow> diffValues v w (key_path path k)) # diff_keys path kvs m"

declare diffValues.simps [simp del]

section \<open>Two events\<close>

text \<open>A decoded value is its type and value; a typed event its name and its fields (name, type, value).\<close>

definition topic_path :: "nat \<Rightarrow> string" where
  "topic_path i = ''topic['' @ show_nat i @ '']''"

definition decoded_pair :: "string \<times> json \<Rightarrow> json" where
  "decoded_pair d = JObj [(''type'', JStr (fst d)), (''value'', snd d)]"

fun diff_topics_from :: "nat \<Rightarrow> (string \<times> json) list \<Rightarrow> (string \<times> json) list \<Rightarrow> diff_node list" where
  "diff_topics_from i [] [] = []"
| "diff_topics_from i [] (r # rs) = added (topic_path i) (decoded_pair r) # diff_topics_from (Suc i) [] rs"
| "diff_topics_from i (l # ls) [] = removed (topic_path i) (decoded_pair l) # diff_topics_from (Suc i) ls []"
| "diff_topics_from i (l # ls) (r # rs) =
     (if fst l \<noteq> fst r then DiffNode (topic_path i) Changed (Value (decoded_pair l)) (Value (decoded_pair r)) None
      else diffValues (snd l) (snd r) (topic_path i)) # diff_topics_from (Suc i) ls rs"

definition diffTopics :: "(string \<times> json) list \<Rightarrow> (string \<times> json) list \<Rightarrow> diff_node list" where
  "diffTopics l r = diff_topics_from 0 l r"

definition diff_field :: "(string \<times> string \<times> json) list \<Rightarrow> string \<times> string \<times> json \<Rightarrow> diff_node" where
  "diff_field others f =
     (let path = ''field.'' @ fst f; v = snd (snd f) in
      case map_of (rev others) (fst f) of
        None \<Rightarrow> removed path v
      | Some (t, w) \<Rightarrow> if t \<noteq> fst (snd f) then DiffNode path Changed (Value v) (Value w) None else diffValues v w path)"

definition diffTypedFields ::
    "string \<times> (string \<times> string \<times> json) list \<Rightarrow> string \<times> (string \<times> string \<times> json) list \<Rightarrow> diff_node list" where
  "diffTypedFields l r =
     (if fst l \<noteq> fst r then [DiffNode ''event'' Changed (Value (JStr (fst l))) (Value (JStr (fst r))) None] else []) @
     map (diff_field (snd r)) (snd l) @
     map (\<lambda>f. added (''field.'' @ fst f) (snd (snd f))) (filter (\<lambda>f. fst f \<notin> fst ` set (snd l)) (snd r))"

record shown_event =
  sv_topics :: "(string \<times> json) list"
  sv_value :: "string \<times> json"
  sv_typed :: "(string \<times> (string \<times> string \<times> json) list) option"

record event_diff =
  ed_topics :: "diff_node list"
  ed_value :: diff_node
  ed_typedFields :: "diff_node list option"

definition diffEvents :: "shown_event \<Rightarrow> shown_event \<Rightarrow> event_diff" where
  "diffEvents l r = \<lparr>ed_topics = diffTopics (sv_topics l) (sv_topics r),
     ed_value = diffValues (snd (sv_value l)) (snd (sv_value r)) ''value'',
     ed_typedFields = (case sv_typed l of None \<Rightarrow> None
       | Some a \<Rightarrow> map_option (diffTypedFields a) (sv_typed r))\<rparr>"

section \<open>What a diff says of its two sides\<close>

text \<open>\<open>side_of False\<close> and \<open>side_of True\<close> read the left and the right payload off a diff.\<close>

fun side_value :: "diff_side \<Rightarrow> json" where
  "side_value (Value v) = v"
| "side_value _ = JNull"

fun side_of :: "bool \<Rightarrow> diff_node \<Rightarrow> json"
  and side_list :: "bool \<Rightarrow> nat \<Rightarrow> diff_node list \<Rightarrow> (string \<times> json) list"
where
  "side_of right (DiffNode path st l r None) = side_value (if right then r else l)"
| "side_of right (DiffNode path st l r (Some ns)) =
     (if ns \<noteq> [] \<and> starts_with (path @ ''['') (dn_path (hd ns)) then JArr (map snd (side_list right (length path) ns))
      else JObj (side_list right (length path) ns))"
| "side_list right n [] = []"
| "side_list right n (c # cs) =
     (if dn_status c = (if right then Removed else Added) then side_list right n cs
      else (drop (Suc n) (dn_path c), side_of right c) # side_list right n cs)"

text \<open>Objects with distinct keys, none of them the name of an inherited member.\<close>

fun plain_json :: "json \<Rightarrow> bool" where
  "plain_json (JArr xs) = list_all plain_json xs"
| "plain_json (JObj m) = (distinct (map fst m) \<and> list_all (\<lambda>(k, v). k \<notin> set PROTO_NAMES \<and> plain_json v) m)"
| "plain_json j = True"

lemma diff_head: "dn_path (diffValues l r path) = path" "dn_status (diffValues l r path) = (if deepEqual l r then Same else Changed)"
  by (simp_all add: diffValues.simps split: json.splits)

lemma paths_distinguish:
  "starts_with (path @ ''['') (item_path path i)" "\<not> starts_with (path @ ''['') (key_path path k)"
  "drop (Suc (length path)) (key_path path k) = k"
  by (simp_all add: starts_with_def item_path_def key_path_def)

lemma plain_key: "plain_json (JObj m) \<Longrightarrow> k \<in> fst ` set m \<Longrightarrow> k \<notin> set PROTO_NAMES"
  by (auto simp: list_all_iff)

lemma plain_member: "plain_json (JObj m) \<Longrightarrow> (k, v) \<in> set m \<Longrightarrow> prop_value m k = Some v \<and> plain_json v"
  by (auto simp: prop_value_def list_all_iff)

lemma prop_value_plain: "plain_json (JObj m) \<Longrightarrow> k \<notin> set PROTO_NAMES \<Longrightarrow> prop_value m k = map_of m k"
  by (auto simp: prop_value_def PROTO_NAMES_def split: option.splits)

lemma deep_keys_all: "deep_keys kvs m \<longleftrightarrow> (\<forall>(k, v) \<in> set kvs. \<exists>w. prop_value m k = Some w \<and> deepEqual v w)"
  by (induction kvs) (auto split: option.splits)

lemma deep_items_same: "list_all (\<lambda>x. deepEqual x x) xs \<Longrightarrow> deep_items xs xs"
  by (induction xs) auto

lemma deep_refl: "plain_json j \<Longrightarrow> deepEqual j j"
proof (induction j)
  case (JArr xs)
  then have "list_all (\<lambda>x. deepEqual x x) xs" by (auto simp: list_all_iff)
  then show ?case using deep_items_same by simp
next
  case (JObj m)
  have "deepEqual v v" if "(k, v) \<in> set m" for k v
    using JObj.IH [OF that] plain_member [OF JObj.prems that] by simp
  then show ?case using plain_member [OF JObj.prems] by (auto simp: deep_keys_all)
qed simp_all

lemma added_items_sides:
  "side_list False n (added_items path i ys) = [] \<and> map snd (side_list True n (added_items path i ys)) = ys"
  by (induction path i ys rule: added_items.induct) (simp_all add: added_def)

lemma added_keys_sides:
  "side_list False (length path) (map (\<lambda>(k, w). added (key_path path k) w) kvs) = [] \<and>
   side_list True (length path) (map (\<lambda>(k, w). added (key_path path k) w) kvs) = kvs"
  by (induction kvs) (auto simp: added_def paths_distinguish)

lemma side_list_append: "side_list right n (a @ b) = side_list right n a @ side_list right n b"
  by (induction a) simp_all

lemma items_paths: "diff_items path i xs ys \<noteq> [] \<Longrightarrow> starts_with (path @ ''['') (dn_path (hd (diff_items path i xs ys)))"
  by (cases xs; cases ys) (simp_all add: added_def removed_def paths_distinguish diff_head)

lemma keys_paths: "n \<in> set (diff_keys path kvs m) \<Longrightarrow> \<not> starts_with (path @ ''['') (dn_path n)"
  by (induction kvs) (auto simp: removed_def paths_distinguish diff_head split: if_splits option.splits)

text \<open>An object's children: its keys in order on the left, those of both on the right.\<close>

lemma object_sides:
  assumes m: "plain_json (JObj m)" and m': "plain_json (JObj m')"
    and l: "side_list False (length path) (diff_keys path m m') = m"
    and r: "map fst (side_list True (length path) (diff_keys path m m')) = filter (\<lambda>k. k \<in> fst ` set m') (map fst m)"
      "deep_keys (side_list True (length path) (diff_keys path m m')) m'"
    and d: "\<not> deepEqual (JObj m) (JObj m')"
  shows "side_of False (diffValues (JObj m) (JObj m') path) = JObj m \<and> deepEqual (side_of True (diffValues (JObj m) (JObj m') path)) (JObj m')"
proof -
  let ?new = "filter (\<lambda>(k, w). \<not> in_record k m) m'"
  let ?R = "side_list True (length path) (diff_keys path m m') @ ?new"
  let ?ns = "diff_keys path m m' @ map (\<lambda>(k, w). added (key_path path k) w) ?new"
  have "\<not> starts_with (path @ ''['') (dn_path n)" if "n \<in> set ?ns" for n
    using that keys_paths by (auto simp: added_def paths_distinguish)
  then have c: "\<not> (?ns \<noteq> [] \<and> starts_with (path @ ''['') (dn_path (hd ?ns)))" using hd_in_set by blast
  have e: "diffValues (JObj m) (JObj m') path = DiffNode path Changed Absent Absent (Some ?ns)"
    unfolding diffValues.simps if_not_P [OF d] by simp
  have obj: "side_of right (diffValues (JObj m) (JObj m') path) = JObj (side_list right (length path) ?ns)" for right
    unfolding e side_of.simps if_not_P [OF c] by (rule refl)
  have own: "in_record k m \<longleftrightarrow> k \<in> fst ` set m" if "k \<in> fst ` set m'" for k
    using plain_key [OF m' that] by (simp add: in_record_def)
  have "?new = filter (\<lambda>p. fst p \<notin> fst ` set m) m'" by (rule filter_cong) (use own in \<open>simp_all add: case_prod_beta\<close>)
  then have new: "map fst ?new = filter (\<lambda>k. k \<notin> fst ` set m) (map fst m')" by (simp add: filter_map o_def)
  have keys: "map fst ?R = filter (\<lambda>k. k \<in> fst ` set m') (map fst m) @ filter (\<lambda>k. k \<notin> fst ` set m) (map fst m')"
    by (simp only: map_append r(1) new)
  have dist: "distinct (map fst ?R)" using m m' unfolding keys by auto
  have set: "set (map fst ?R) = set (map fst m')" unfolding keys by auto
  have len: "length ?R = length m'"
    using distinct_card [OF dist] distinct_card [of "map fst m'"] m' set by (simp only: plain_json.simps length_map)
  have "deep_keys ?new m'" using plain_member [OF m'] deep_refl by (fastforce simp: deep_keys_all)
  then have "deep_keys ?R m'" using r(2) by (auto simp: deep_keys_all)
  then show ?thesis using obj len l added_keys_sides [of path ?new] by (simp add: side_list_append)
qed

text \<open>An array's children: its items in order on the left, as many and equal ones on the right.\<close>

lemma array_sides:
  assumes d: "\<not> deepEqual (JArr xs) (JArr ys)"
    and i: "map snd (side_list False (length path) (diff_items path 0 xs ys)) = xs"
      "length (side_list True (length path) (diff_items path 0 xs ys)) = length ys"
      "deep_items (map snd (side_list True (length path) (diff_items path 0 xs ys))) ys"
  shows "side_of False (diffValues (JArr xs) (JArr ys) path) = JArr xs \<and> deepEqual (side_of True (diffValues (JArr xs) (JArr ys) path)) (JArr ys)"
proof -
  let ?ns = "diff_items path 0 xs ys"
  have "?ns \<noteq> []" using d by (cases xs; cases ys) auto
  with items_paths have c: "?ns \<noteq> [] \<and> starts_with (path @ ''['') (dn_path (hd ?ns))" by blast
  have e: "diffValues (JArr xs) (JArr ys) path = DiffNode path Changed Absent Absent (Some ?ns)"
    unfolding diffValues.simps if_not_P [OF d] by simp
  have a: "side_of right (diffValues (JArr xs) (JArr ys) path) = JArr (map snd (side_list right (length path) ?ns))" for right
    unfolding e side_of.simps if_P [OF c] by (rule refl)
  show ?thesis using a i by simp
qed

lemma leaf_sides:
  assumes "\<not> deepEqual l r" "\<And>xs ys. \<not> (l = JArr xs \<and> r = JArr ys)" "\<And>m m'. \<not> (l = JObj m \<and> r = JObj m')" "plain_json r"
  shows "side_of False (diffValues l r path) = l \<and> deepEqual (side_of True (diffValues l r path)) r"
proof -
  have "diffValues l r path = DiffNode path Changed (Value l) (Value r) None"
    unfolding diffValues.simps if_not_P [OF assms(1)] using assms(2,3) by (cases l; cases r) auto
  then show ?thesis using deep_refl [OF assms(4)] by simp
qed

lemma diff_sides:
  "plain_json l \<Longrightarrow> plain_json r \<Longrightarrow> side_of False (diffValues l r path) = l \<and> deepEqual (side_of True (diffValues l r path)) r"
  "list_all plain_json xs \<Longrightarrow> list_all plain_json ys \<Longrightarrow> map snd (side_list False n (diff_items path' i xs ys)) = xs \<and>
     length (side_list True n (diff_items path' i xs ys)) = length ys \<and> deep_items (map snd (side_list True n (diff_items path' i xs ys))) ys"
  "plain_json (JObj kvs) \<Longrightarrow> plain_json (JObj m) \<Longrightarrow> side_list False (length path'') (diff_keys path'' kvs m) = kvs \<and>
     map fst (side_list True (length path'') (diff_keys path'' kvs m)) = filter (\<lambda>k. k \<in> fst ` set m) (map fst kvs) \<and>
     deep_keys (side_list True (length path'') (diff_keys path'' kvs m)) m"
proof (induction l r path and path' i xs ys and path'' kvs m arbitrary: and n and rule: diffValues_diff_items_diff_keys.induct)
  case (1 l r path)
  show ?case
  proof (cases "deepEqual l r")
    case True
    then have "diffValues l r path = DiffNode path Same (Value l) (Value r) None" by (simp add: diffValues.simps)
    then show ?thesis using deep_refl [OF 1(4)] by simp
  next
    case False
    consider (arrays) xs ys where "l = JArr xs" "r = JArr ys" | (objects) m m' where "l = JObj m" "r = JObj m'"
      | (leaf) "\<And>xs ys. \<not> (l = JArr xs \<and> r = JArr ys)" "\<And>m m'. \<not> (l = JObj m \<and> r = JObj m')" by blast
    then show ?thesis
    proof cases
      case arrays
      have "list_all plain_json xs" "list_all plain_json ys" using 1(3,4) arrays by simp_all
      from 1(1) [OF False arrays this, of "length path"] False show ?thesis unfolding arrays by (intro array_sides) simp_all
    next
      case objects
      have p: "plain_json (JObj m)" "plain_json (JObj m')" using 1(3,4) objects by simp_all
      from 1(2) [OF False objects p] False show ?thesis unfolding objects by (intro object_sides [OF p]) simp_all
    next
      case leaf
      then show ?thesis using leaf_sides [OF False _ _ 1(4)] by blast
    qed
  qed
next
  case (2 path i ys)
  then have "deep_items ys ys" by (intro deep_items_same) (auto simp: list_all_iff deep_refl)
  moreover have "length (side_list True n (added_items path i ys)) = length ys"
    using added_items_sides [of n path i ys] by (metis length_map)
  ultimately show ?case using added_items_sides [of n path i ys] by simp
next
  case (3 path i x xs)
  then show ?case by (simp add: removed_def)
next
  case (4 path i x xs y ys)
  then show ?case by (simp add: diff_head)
next
  case (5 path m)
  then show ?case by simp
next
  case (6 path k v kvs m)
  have kv: "plain_json (JObj kvs)" "plain_json v" "k \<notin> set PROTO_NAMES" "k \<notin> fst ` set kvs" using 6(3) by auto
  note rest = 6(2) [OF kv(1) 6(4)]
  show ?case
  proof (cases "k \<in> fst ` set m")
    case False
    then have "\<not> in_record k m" using kv(3) by (simp add: in_record_def)
    then show ?thesis using rest False by (simp add: removed_def paths_distinguish)
  next
    case True
    then obtain w where w: "(k, w) \<in> set m" by force
    note pw = plain_member [OF 6(4) w]
    have i: "in_record k m" using True by (simp add: in_record_def)
    from 6(1) [OF _ _ kv(2)] i pw have "side_of False (diffValues v w (key_path path k)) = v \<and> deepEqual (side_of True (diffValues v w (key_path path k))) w"
      by simp
    then show ?thesis using rest True i pw by (simp add: diff_head paths_distinguish)
  qed
qed

end
