(* ===== verification/Web_Route.thy ===== *)
theory Web_Route
  imports Server_Http
begin

text \<open>
  The explorer's view state in its URL (\<open>apps/web/src/route.ts\<close>) and in the browser's history
  (\<open>useUrlState\<close> of \<open>hooks.ts\<close>). Text is a list of the characters U+0000 to U+00FF; \<open>repair\<close> is
  what the URL standard makes of escaped bytes that are not UTF-8.
\<close>

section \<open>Encoding\<close>

definition utf8_bytes :: "char \<Rightarrow> nat list" where
  "utf8_bytes c = (let n = of_char c in if n < 0x80 then [n] else [0xC0 + n div 64, 0x80 + n mod 64])"

definition upper_digit :: "nat \<Rightarrow> char" where
  "upper_digit d = (if d < 10 then char_of (48 + d) else char_of (55 + d))"

definition percent_escape :: "nat \<Rightarrow> string" where
  "percent_escape n = [CHR 0x25, upper_digit (n div 16), upper_digit (n mod 16)]"

definition alnum :: "char \<Rightarrow> bool" where
  "alnum c = (is_digit c \<or> is_upper c \<or> is_lower c)"

definition uri_kept :: "char \<Rightarrow> bool" where
  "uri_kept c = (alnum c \<or> c \<in> set [CHR ''-'', CHR ''_'', CHR ''.'', CHR ''!'', CHR ''~'', CHR ''*'', CHR 0x27, CHR ''('', CHR '')''])"

definition encodeURIComponent :: "string \<Rightarrow> string" where
  "encodeURIComponent s = concat (map (\<lambda>c. if uri_kept c then [c] else concat (map percent_escape (utf8_bytes c))) s)"

definition form_kept :: "char \<Rightarrow> bool" where
  "form_kept c = (alnum c \<or> c \<in> set [CHR ''*'', CHR ''-'', CHR ''.'', CHR ''_''])"

definition form_encode :: "string \<Rightarrow> string" where
  "form_encode s = concat (map (\<lambda>c. if c = CHR '' '' then ''+'' else if form_kept c then [c]
     else concat (map percent_escape (utf8_bytes c))) s)"

fun form_bytes :: "string \<Rightarrow> string" where
  "form_bytes [] = []"
| "form_bytes (c # cs) =
     (if c = CHR ''+'' then CHR '' '' # form_bytes cs
      else if c = CHR 0x25
      then (case cs of
          a # b # r \<Rightarrow> if is_hex a \<and> is_hex b then char_of (16 * digit_val a + digit_val b) # form_bytes r else c # form_bytes cs
        | _ \<Rightarrow> c # form_bytes cs)
      else map char_of (utf8_bytes c) @ form_bytes cs)"

definition form_decode :: "(string \<Rightarrow> string) \<Rightarrow> string \<Rightarrow> string" where
  "form_decode repair s = (case utf8_text (form_bytes s) of Some t \<Rightarrow> t | None \<Rightarrow> repair (form_bytes s))"

definition search_pair :: "(string \<Rightarrow> string) \<Rightarrow> string \<Rightarrow> string \<times> string" where
  "search_pair repair x = (form_decode repair (takeWhile (\<lambda>c. c \<noteq> CHR ''='') x),
     form_decode repair (drop 1 (dropWhile (\<lambda>c. c \<noteq> CHR ''='') x)))"

definition search_params :: "(string \<Rightarrow> string) \<Rightarrow> string \<Rightarrow> url_params" where
  "search_params repair search = map (search_pair repair) (filter (\<lambda>x. x \<noteq> [])
     (split_on (CHR ''&'') (if starts_with ''?'' search then drop 1 search else search)))"

definition search_text :: "url_params \<Rightarrow> string" where
  "search_text ps = js_join ''&'' (map (\<lambda>(k, v). form_encode k @ ''='' @ form_encode v) ps)"

section \<open>View state and URLs\<close>

record filter_state =
  fl_contractId :: string
  fl_topic :: string
  fl_successfulOnly :: bool
  fl_live :: bool
  fl_fromLedger :: string
  fl_toLedger :: string

record url_state =
  us_filters :: filter_state
  us_network :: string
  us_expanded :: "string option"

text \<open>The path is one of a URL: it holds no line break. \<open>Inl\<close>: the escapes of the id are malformed.\<close>

definition event_match :: "string \<Rightarrow> string option" where
  "event_match pathname =
     (let path = (if length pathname > 1 \<and> last pathname = SLASH then butlast pathname else pathname) in
      if starts_with ''/events/'' path \<and> length path > 8 then Some (drop 8 path) else None)"

definition parseUrl :: "(string \<Rightarrow> string) \<Rightarrow> string \<Rightarrow> string \<Rightarrow> (string, url_state option) result" where
  "parseUrl repair pathname search =
     (let ps = search_params repair search; get = (\<lambda>k. or_else (params_get ps k) []);
          view = (\<lambda>expanded. \<lparr>us_filters = \<lparr>fl_contractId = get ''contract'', fl_topic = get ''topic'',
              fl_successfulOnly = (params_get ps ''successfulOnly'' = Some ''true''),
              fl_live = (params_get ps ''live'' \<noteq> Some ''false''),
              fl_fromLedger = get ''fromLedger'', fl_toLedger = get ''toLedger''\<rparr>,
            us_network = get ''network'', us_expanded = expanded\<rparr>)
      in case event_match pathname of
           None \<Rightarrow> if ps = [] then Inr None else Inr (Some (view None))
         | Some i \<Rightarrow> (case decodeURIComponent i of None \<Rightarrow> Inl ''URI malformed'' | Some e \<Rightarrow> Inr (Some (view (Some e)))))"

definition set_param :: "bool \<Rightarrow> string \<Rightarrow> string \<Rightarrow> url_params" where
  "set_param wanted k v = (if wanted then [(k, v)] else [])"

definition view_params :: "url_state \<Rightarrow> url_params" where
  "view_params st = (let f = us_filters st in
     set_param (fl_contractId f \<noteq> []) ''contract'' (fl_contractId f) @
     set_param (fl_topic f \<noteq> []) ''topic'' (fl_topic f) @
     set_param (fl_successfulOnly f) ''successfulOnly'' ''true'' @
     set_param (\<not> fl_live f) ''live'' ''false'' @
     set_param (fl_fromLedger f \<noteq> []) ''fromLedger'' (fl_fromLedger f) @
     set_param (fl_toLedger f \<noteq> []) ''toLedger'' (fl_toLedger f) @
     set_param (us_network st \<noteq> []) ''network'' (us_network st))"

text \<open>The path and the query of the URL the code concatenates.\<close>

definition url_path :: "url_state \<Rightarrow> string" where
  "url_path st = (if truthy (us_expanded st) then ''/events/'' @ encodeURIComponent (the (us_expanded st)) else ''/'')"

definition url_query :: "url_state \<Rightarrow> string" where
  "url_query st = (let q = search_text (view_params st) in if q = [] then [] else ''?'' @ q)"

definition stringifyUrl :: "url_state \<Rightarrow> string" where
  "stringifyUrl st = url_path st @ url_query st"

definition sameFilterView :: "url_state \<Rightarrow> url_state \<Rightarrow> bool" where
  "sameFilterView a b =
     (fl_contractId (us_filters a) = fl_contractId (us_filters b) \<and> fl_topic (us_filters a) = fl_topic (us_filters b) \<and>
      fl_successfulOnly (us_filters a) = fl_successfulOnly (us_filters b) \<and> fl_live (us_filters a) = fl_live (us_filters b) \<and>
      fl_fromLedger (us_filters a) = fl_fromLedger (us_filters b) \<and> fl_toLedger (us_filters a) = fl_toLedger (us_filters b) \<and>
      us_network a = us_network b)"

text \<open>What a browser takes apart again: the path up to the query.\<close>

definition location_of :: "string \<Rightarrow> string \<times> string" where
  "location_of url = (takeWhile (\<lambda>c. c \<noteq> CHR ''?'') url, dropWhile (\<lambda>c. c \<noteq> CHR ''?'') url)"

section \<open>Decoding undoes encoding\<close>

lemma upper_digit_facts: "d < 16 \<Longrightarrow> is_hex (upper_digit d) \<and> digit_val (upper_digit d) = d"
  by (auto simp: upper_digit_def is_hex_def digit_val_def is_digit_def is_lower_def ch_range_def)

lemma percent_escape_byte: "n < 256 \<Longrightarrow> is_hex (upper_digit (n div 16)) \<and> is_hex (upper_digit (n mod 16)) \<and>
    16 * digit_val (upper_digit (n div 16)) + digit_val (upper_digit (n mod 16)) = n"
  using upper_digit_facts [of "n div 16"] upper_digit_facts [of "n mod 16"] by auto

lemma utf8_bytes_bound: "n \<in> set (utf8_bytes c) \<Longrightarrow> n < 256"
proof -
  have "(of_char c :: nat) < 256" by simp
  then have "(of_char c :: nat) div 64 < 4" using less_mult_imp_div_less [of "of_char c" 4 64] by simp
  then show "n \<in> set (utf8_bytes c) \<Longrightarrow> n < 256" by (auto simp: utf8_bytes_def Let_def split: if_splits)
qed

lemma utf8_bytes_ascii: "(of_char c :: nat) < 0x80 \<Longrightarrow> map char_of (utf8_bytes c) = [c]"
  by (simp add: utf8_bytes_def)

lemma utf8_text_bytes: "utf8_text (map char_of (utf8_bytes c) @ r) = push_opt c (utf8_text r)"
proof (cases "(of_char c :: nat) < 0x80")
  case True
  then have "map char_of (utf8_bytes c) = [c]" by (simp add: utf8_bytes_def)
  with True show ?thesis by (simp add: byte_in_def)
next
  case False
  let ?n = "of_char c :: nat"
  have n: "?n < 256" "2 \<le> ?n div 64" "?n div 64 \<le> 3"
    using False less_mult_imp_div_less [of ?n 4 64] div_le_mono [of 128 ?n 64] by simp_all
  have m: "map char_of (utf8_bytes c) = [char_of (0xC0 + ?n div 64), char_of (0x80 + ?n mod 64)]"
    using False by (simp add: utf8_bytes_def Let_def)
  have a: "(of_char (char_of (0xC0 + ?n div 64) :: char) :: nat) = 0xC0 + ?n div 64"
    and b: "(of_char (char_of (0x80 + ?n mod 64) :: char) :: nat) = 0x80 + ?n mod 64" using n by simp_all
  have c: "(char_of (?n div 64 * 64 + ?n mod 64) :: char) = c" by simp
  have d: "?n mod 64 \<le> 63" using pos_mod_bound [of 64 "?n"] by simp
  show ?thesis unfolding m using n a b c d by (simp add: byte_in_def continuation_def)
qed

lemma encode_step: "encodeURIComponent (c # s) = (if uri_kept c then [c] else concat (map percent_escape (utf8_bytes c))) @ encodeURIComponent s"
  by (simp add: encodeURIComponent_def)

lemma percent_bytes_escape:
  "(\<And>n. n \<in> set ns \<Longrightarrow> n < 256) \<Longrightarrow> percent_bytes (concat (map percent_escape ns) @ r) = map_option ((@) (map char_of ns)) (percent_bytes r)"
proof (induction ns)
  case Nil
  then show ?case by (simp add: option.map_ident)
next
  case (Cons n ns)
  then show ?case using percent_escape_byte [of n]
    by (simp add: percent_escape_def push_opt_def option.map_comp o_def)
qed

lemma percent_bytes_encode:
  "percent_bytes (encodeURIComponent s) = Some (concat (map (\<lambda>c. map char_of (utf8_bytes c)) s))"
proof (induction s)
  case (Cons c s)
  show ?case
  proof (cases "uri_kept c")
    case True
    then have "(of_char c :: nat) < 0x80" "c \<noteq> CHR 0x25"
      by (auto simp: uri_kept_def alnum_def is_digit_def is_upper_def is_lower_def ch_range_def)
    then show ?thesis using True Cons by (simp add: encode_step push_opt_def utf8_bytes_def)
  next
    case False
    then show ?thesis using Cons utf8_bytes_bound [of _ c] by (simp add: encode_step percent_bytes_escape)
  qed
qed (simp add: encodeURIComponent_def)

lemma utf8_text_all: "utf8_text (concat (map (\<lambda>c. map char_of (utf8_bytes c)) s)) = Some s"
  by (induction s) (simp_all add: utf8_text_bytes push_opt_def)

lemma decode_encode: "decodeURIComponent (encodeURIComponent s) = Some s"
  by (simp add: decodeURIComponent_def percent_bytes_encode utf8_text_all)

lemma form_step: "form_encode (c # s) = (if c = CHR '' '' then ''+'' else if form_kept c then [c]
     else concat (map percent_escape (utf8_bytes c))) @ form_encode s"
  by (simp add: form_encode_def)

lemma form_bytes_escape:
  "(\<And>n. n \<in> set ns \<Longrightarrow> n < 256) \<Longrightarrow> form_bytes (concat (map percent_escape ns) @ r) = map char_of ns @ form_bytes r"
proof (induction ns)
  case (Cons n ns)
  then show ?case using percent_escape_byte [of n] by (simp add: percent_escape_def)
qed simp

lemma form_bytes_encode: "form_bytes (form_encode s) = concat (map (\<lambda>c. map char_of (utf8_bytes c)) s)"
proof (induction s)
  case (Cons c s)
  consider "c = CHR '' ''" | "c \<noteq> CHR '' ''" "form_kept c" | "c \<noteq> CHR '' ''" "\<not> form_kept c" by blast
  then show ?case
  proof cases
    case 1
    have "map char_of (utf8_bytes (CHR '' '')) = [CHR '' '']" by (rule utf8_bytes_ascii) simp
    with 1 show ?thesis using Cons by (simp add: form_step)
  next
    case 2
    then have "(of_char c :: nat) < 0x80" "c \<noteq> CHR 0x25" "c \<noteq> CHR ''+''"
      by (auto simp: form_kept_def alnum_def is_digit_def is_upper_def is_lower_def ch_range_def)
    with 2 show ?thesis using Cons by (simp add: form_step)
  next
    case 3
    then show ?thesis using Cons utf8_bytes_bound [of _ c] by (simp add: form_step form_bytes_escape)
  qed
qed (simp add: form_encode_def)

lemma form_decode_encode: "form_decode repair (form_encode s) = s"
  by (simp add: form_decode_def form_bytes_encode utf8_text_all)

section \<open>The URL of a view reads back as the view\<close>

text \<open>An encoded text holds no character that a URL gives a meaning.\<close>

lemma escape_chars: "n < 256 \<Longrightarrow> c \<in> set (percent_escape n) \<Longrightarrow> c = CHR 0x25 \<or> is_hex c"
  using percent_escape_byte [of n] by (auto simp: percent_escape_def)

lemma form_encode_chars: "c \<in> set (form_encode s) \<Longrightarrow> c = CHR ''+'' \<or> form_kept c \<or> c = CHR 0x25 \<or> is_hex c"
proof (induction s)
  case (Cons a s)
  then show ?case
    using escape_chars utf8_bytes_bound [of _ a] by (fastforce simp: form_step split: if_splits)
qed (simp add: form_encode_def)

lemma form_encode_plain: "c \<in> {CHR ''&'', CHR ''='', CHR ''?''} \<Longrightarrow> c \<notin> set (form_encode s)"
  using form_encode_chars [of c s]
  by (auto simp: form_kept_def alnum_def is_hex_def is_digit_def is_upper_def is_lower_def ch_range_def)

lemma uri_encode_plain: "CHR ''?'' \<notin> set (encodeURIComponent s) \<and> SLASH \<notin> set (encodeURIComponent s)"
proof (induction s)
  case (Cons a s)
  have "c \<noteq> CHR ''?'' \<and> c \<noteq> SLASH" if "c \<in> set (concat (map percent_escape (utf8_bytes a)))" for c
    using that escape_chars utf8_bytes_bound [of _ a]
    by (fastforce simp: is_hex_def is_digit_def ch_range_def SLASH_def)
  then show ?case using Cons by (auto simp: encode_step uri_kept_def alnum_def is_digit_def is_upper_def is_lower_def ch_range_def SLASH_def)
qed (simp add: encodeURIComponent_def)

lemma encode_empty: "encodeURIComponent s = [] \<longleftrightarrow> s = []"
  by (cases s) (auto simp: encodeURIComponent_def percent_escape_def utf8_bytes_def Let_def)

lemma search_pair_text: "search_pair repair (form_encode k @ ''='' @ form_encode v) = (k, v)"
proof -
  have k: "\<forall>c \<in> set (form_encode k). c \<noteq> CHR ''=''" using form_encode_plain by auto
  then have "takeWhile (\<lambda>c. c \<noteq> CHR ''='') (form_encode k @ ''='' @ form_encode v) = form_encode k"
    "dropWhile (\<lambda>c. c \<noteq> CHR ''='') (form_encode k @ ''='' @ form_encode v) = ''='' @ form_encode v"
    by (simp_all add: takeWhile_append dropWhile_append)
  then show ?thesis by (simp add: search_pair_def form_decode_encode)
qed

lemma split_search_text:
  "ps \<noteq> [] \<Longrightarrow> split_on (CHR ''&'') (search_text ps) = map (\<lambda>(k, v). form_encode k @ ''='' @ form_encode v) ps"
proof (induction ps rule: induct_list012)
  case (2 p)
  have "CHR ''&'' \<notin> set (form_encode (fst p) @ ''='' @ form_encode (snd p))" using form_encode_plain by auto
  then show ?case by (simp add: search_text_def split_on_none case_prod_beta)
next
  case (3 p q ps)
  have "CHR ''&'' \<notin> set (form_encode (fst p) @ ''='' @ form_encode (snd p))" using form_encode_plain by auto
  from split_on_first [OF this] 3 show ?case by (simp add: search_text_def case_prod_beta)
qed simp

lemma search_text_empty: "search_text ps = [] \<longleftrightarrow> ps = []"
  by (cases ps rule: remdups_adj.cases) (auto simp: search_text_def)

lemma search_params_text: "search_params repair (if search_text ps = [] then [] else ''?'' @ search_text ps) = ps"
proof (cases "ps = []")
  case False
  have k: "filter (\<lambda>x. x \<noteq> []) (map (\<lambda>(k, v). form_encode k @ ''='' @ form_encode v) ps) = map (\<lambda>(k, v). form_encode k @ ''='' @ form_encode v) ps"
    by (simp add: case_prod_beta filter_id_conv)
  have "map (search_pair repair) (map (\<lambda>(k, v). form_encode k @ ''='' @ form_encode v) ps) = ps"
    using search_pair_text by (simp add: case_prod_beta o_def)
  with k show ?thesis using False by (simp add: search_params_def search_text_empty starts_with_def split_search_text)
qed (simp add: search_params_def search_text_def starts_with_def)

lemma url_query_parts: "search_params repair (url_query st) = view_params st"
  unfolding url_query_def Let_def by (rule search_params_text)

lemma location_stringify: "location_of (stringifyUrl st) = (url_path st, url_query st)"
proof -
  have p: "\<forall>c \<in> set (url_path st). c \<noteq> CHR ''?''" using uri_encode_plain by (auto simp: url_path_def)
  show ?thesis
    using p by (cases "search_text (view_params st) = []")
      (simp_all add: location_of_def stringifyUrl_def url_query_def takeWhile_append dropWhile_append takeWhile_all dropWhile_all list_all_iff)
qed

lemma event_match_path: "event_match (url_path st) = (if truthy (us_expanded st) then Some (encodeURIComponent (the (us_expanded st))) else None)"
proof (cases "truthy (us_expanded st)")
  case True
  let ?e = "encodeURIComponent (the (us_expanded st))"
  have e: "?e \<noteq> []" using True by (auto simp: truthy_def encode_empty split: option.splits)
  then have "last ?e \<noteq> SLASH" using uri_encode_plain by (metis last_in_set)
  then show ?thesis using True e by (simp add: url_path_def event_match_def starts_with_def Let_def)
qed (simp add: url_path_def event_match_def starts_with_def)

lemma view_params_get:
  "params_get (view_params st) ''contract'' = (if fl_contractId (us_filters st) = [] then None else Some (fl_contractId (us_filters st)))"
  "params_get (view_params st) ''topic'' = (if fl_topic (us_filters st) = [] then None else Some (fl_topic (us_filters st)))"
  "params_get (view_params st) ''successfulOnly'' = (if fl_successfulOnly (us_filters st) then Some ''true'' else None)"
  "params_get (view_params st) ''live'' = (if fl_live (us_filters st) then None else Some ''false'')"
  "params_get (view_params st) ''fromLedger'' = (if fl_fromLedger (us_filters st) = [] then None else Some (fl_fromLedger (us_filters st)))"
  "params_get (view_params st) ''toLedger'' = (if fl_toLedger (us_filters st) = [] then None else Some (fl_toLedger (us_filters st)))"
  "params_get (view_params st) ''network'' = (if us_network st = [] then None else Some (us_network st))"
  by (simp_all add: view_params_def set_param_def params_get_def Let_def)

definition default_view :: url_state where
  "default_view = \<lparr>us_filters = \<lparr>fl_contractId = [], fl_topic = [], fl_successfulOnly = False, fl_live = True,
     fl_fromLedger = [], fl_toLedger = []\<rparr>, us_network = [], us_expanded = None\<rparr>"

lemma view_params_empty: "us_expanded st = None \<Longrightarrow> view_params st = [] \<longleftrightarrow> st = default_view"
  by (auto simp: view_params_def set_param_def Let_def default_view_def intro!: url_state.equality filter_state.equality)

lemma or_else_same: "or_else (if x = [] then None else Some x) [] = x"
  by (simp add: or_else_def)

lemma parse_stringify:
  assumes "us_expanded st \<noteq> Some []"
  shows "parseUrl repair (fst (location_of (stringifyUrl st))) (snd (location_of (stringifyUrl st))) =
    Inr (if st = default_view then None else Some st)"
proof -
  have v: "\<lparr>us_filters = \<lparr>fl_contractId = or_else (params_get (view_params st) ''contract'') [], fl_topic = or_else (params_get (view_params st) ''topic'') [],
              fl_successfulOnly = (params_get (view_params st) ''successfulOnly'' = Some ''true''),
              fl_live = (params_get (view_params st) ''live'' \<noteq> Some ''false''),
              fl_fromLedger = or_else (params_get (view_params st) ''fromLedger'') [], fl_toLedger = or_else (params_get (view_params st) ''toLedger'') []\<rparr>,
            us_network = or_else (params_get (view_params st) ''network'') [], us_expanded = us_expanded st\<rparr> = st"
    unfolding view_params_get or_else_same by (intro url_state.equality filter_state.equality) simp_all
  show ?thesis
  proof (cases "us_expanded st")
    case None
    then show ?thesis using v view_params_empty [OF None]
      by (simp add: location_stringify parseUrl_def url_query_parts event_match_path truthy_def)
  next
    case (Some e)
    then have "truthy (us_expanded st)" "st \<noteq> default_view" using assms by (auto simp: truthy_def default_view_def)
    then show ?thesis using v Some
      by (simp add: location_stringify parseUrl_def url_query_parts event_match_path decode_encode)
  qed
qed

section \<open>useUrlState\<close>

text \<open>
  \<open>hs_stored\<close> is what \<open>localStorage\<close> holds: the fields of the filters that were saved, and the
  network. \<open>hs_back\<close> and \<open>hs_forward\<close> are the other entries of the history, nearest first.
\<close>

record stored_filters =
  sl_contractId :: "string option"
  sl_topic :: "string option"
  sl_successfulOnly :: "bool option"
  sl_live :: "bool option"
  sl_fromLedger :: "string option"
  sl_toLedger :: "string option"

record view_history =
  hs_back :: "string list"
  hs_url :: string
  hs_forward :: "string list"
  hs_view :: url_state
  hs_stored :: "stored_filters option \<times> string option"

definition merge_filters :: "filter_state \<Rightarrow> stored_filters \<Rightarrow> filter_state" where
  "merge_filters f s = \<lparr>fl_contractId = or_else (sl_contractId s) (fl_contractId f), fl_topic = or_else (sl_topic s) (fl_topic f),
     fl_successfulOnly = or_else (sl_successfulOnly s) (fl_successfulOnly f), fl_live = or_else (sl_live s) (fl_live f),
     fl_fromLedger = or_else (sl_fromLedger s) (fl_fromLedger f), fl_toLedger = or_else (sl_toLedger s) (fl_toLedger f)\<rparr>"

definition saved_filters :: "filter_state \<Rightarrow> stored_filters" where
  "saved_filters f = \<lparr>sl_contractId = Some (fl_contractId f), sl_topic = Some (fl_topic f),
     sl_successfulOnly = Some (fl_successfulOnly f), sl_live = Some (fl_live f), sl_fromLedger = Some (fl_fromLedger f),
     sl_toLedger = Some (fl_toLedger f)\<rparr>"

text \<open>The first view: the URL's, or for a bare visit what was saved. A malformed id throws.\<close>

definition initial_view :: "(string \<Rightarrow> string) \<Rightarrow> url_state \<Rightarrow> string \<Rightarrow> stored_filters option \<times> string option \<Rightarrow> (string, url_state) result" where
  "initial_view repair initial url stored =
     (case parseUrl repair (fst (location_of url)) (snd (location_of url)) of
        Inl e \<Rightarrow> Inl e
      | Inr (Some st) \<Rightarrow> Inr (st\<lparr>us_network := if us_network st \<noteq> [] then us_network st else us_network initial\<rparr>)
      | Inr None \<Rightarrow>
          (case stored of
             (None, None) \<Rightarrow> Inr initial
           | (f, n) \<Rightarrow> Inr \<lparr>us_filters = (case f of None \<Rightarrow> us_filters initial | Some f \<Rightarrow> merge_filters (us_filters initial) f),
               us_network = or_else n (us_network initial), us_expanded = None\<rparr>))"

definition mount :: "(string \<Rightarrow> string) \<Rightarrow> url_state \<Rightarrow> string \<Rightarrow> stored_filters option \<times> string option \<Rightarrow> (string, view_history) result" where
  "mount repair initial url stored = res_bind (initial_view repair initial url stored) (\<lambda>st.
     Inr \<lparr>hs_back = [], hs_url = stringifyUrl st, hs_forward = [], hs_view = st, hs_stored = stored\<rparr>)"

definition update_view :: "url_state \<Rightarrow> view_history \<Rightarrow> view_history" where
  "update_view nxt h =
     (if sameFilterView (hs_view h) nxt then h\<lparr>hs_url := stringifyUrl nxt, hs_view := nxt\<rparr>
      else h\<lparr>hs_back := hs_url h # hs_back h, hs_url := stringifyUrl nxt, hs_forward := [], hs_view := nxt,
             hs_stored := (Some (saved_filters (us_filters nxt)), Some (us_network nxt))\<rparr>)"

definition pop_state :: "(string \<Rightarrow> string) \<Rightarrow> view_history \<Rightarrow> view_history" where
  "pop_state repair h =
     (case parseUrl repair (fst (location_of (hs_url h))) (snd (location_of (hs_url h))) of
        Inl e \<Rightarrow> h
      | Inr st \<Rightarrow> (let nxt = or_else st default_view
                   in h\<lparr>hs_view := (if us_network nxt = [] then nxt\<lparr>us_network := us_network (hs_view h)\<rparr> else nxt)\<rparr>))"

definition go_back :: "(string \<Rightarrow> string) \<Rightarrow> view_history \<Rightarrow> view_history" where
  "go_back repair h = (case hs_back h of [] \<Rightarrow> h
     | u # us \<Rightarrow> pop_state repair (h\<lparr>hs_back := us, hs_url := u, hs_forward := hs_url h # hs_forward h\<rparr>))"

definition go_forward :: "(string \<Rightarrow> string) \<Rightarrow> view_history \<Rightarrow> view_history" where
  "go_forward repair h = (case hs_forward h of [] \<Rightarrow> h
     | u # us \<Rightarrow> pop_state repair (h\<lparr>hs_forward := us, hs_url := u, hs_back := hs_url h # hs_back h\<rparr>))"

text \<open>The address bar shows the view, which names its network.\<close>

definition shown :: "view_history \<Rightarrow> bool" where
  "shown h = (hs_url h = stringifyUrl (hs_view h) \<and> us_expanded (hs_view h) \<noteq> Some [] \<and> us_network (hs_view h) \<noteq> [])"

lemma parse_shown:
  assumes "us_expanded st \<noteq> Some []" "us_network st \<noteq> []"
  shows "parseUrl repair (fst (location_of (stringifyUrl st))) (snd (location_of (stringifyUrl st))) = Inr (Some st)"
  using parse_stringify [OF assms(1), of repair] assms(2) by (auto simp: default_view_def)

lemma pop_state_shown:
  "hs_url h = stringifyUrl st \<Longrightarrow> us_expanded st \<noteq> Some [] \<Longrightarrow> us_network st \<noteq> [] \<Longrightarrow> pop_state repair h = h\<lparr>hs_view := st\<rparr>"
  by (simp add: pop_state_def parse_shown or_else_def)

lemma go_back_update:
  "shown h \<Longrightarrow> \<not> sameFilterView (hs_view h) nxt \<Longrightarrow>
     hs_view (go_back repair (update_view nxt h)) = hs_view h \<and> hs_url (go_back repair (update_view nxt h)) = hs_url h \<and>
     hs_back (go_back repair (update_view nxt h)) = hs_back h"
  by (simp add: update_view_def go_back_def shown_def pop_state_shown [where st = "hs_view h"])

lemma reload_shown: "shown h \<Longrightarrow> initial_view repair initial (hs_url h) stored = Inr (hs_view h)"
  by (simp add: initial_view_def shown_def parse_shown)

lemma decode_nonempty: "decodeURIComponent i = Some e \<Longrightarrow> i \<noteq> [] \<Longrightarrow> e \<noteq> []"
proof -
  assume a: "decodeURIComponent i = Some e" "i \<noteq> []"
  then obtain b where b: "percent_bytes i = Some b" "utf8_text b = Some e" by (auto simp: decodeURIComponent_def bind_eq_Some_conv)
  have "percent_bytes (c # r) \<noteq> Some []" for c r unfolding percent_bytes.simps
    by (auto simp: push_opt_def simp del: percent_bytes.simps split: list.splits if_splits)
  then have "b \<noteq> []" using a(2) b(1) by (cases i) auto
  then obtain c r where c: "b = c # r" by (cases b) auto
  show "e \<noteq> []"
  proof
    assume "e = []"
    then have "utf8_text (c # r) = Some []" using b(2) c by simp
    then show False unfolding utf8_text.simps
      by (auto simp: push_opt_def simp del: utf8_text.simps split: list.splits if_splits)
  qed
qed

lemma parse_expanded: "parseUrl repair p q = Inr (Some st) \<Longrightarrow> us_expanded st \<noteq> Some []"
proof -
  assume a: "parseUrl repair p q = Inr (Some st)"
  have m: "event_match p = Some i \<Longrightarrow> i \<noteq> []" for i by (auto simp: event_match_def Let_def split: if_splits)
  show "us_expanded st \<noteq> Some []"
  proof (cases "event_match p")
    case None
    then show ?thesis using a by (auto simp: parseUrl_def Let_def split: if_splits)
  next
    case (Some i)
    then show ?thesis using a m decode_nonempty [of i] by (auto simp: parseUrl_def Let_def split: option.splits)
  qed
qed

lemma mount_shown:
  assumes "mount repair initial url stored = Inr h" "us_network initial \<noteq> []" "us_expanded initial = None" "snd stored \<noteq> Some []"
  shows "shown h"
proof -
  obtain st where st: "initial_view repair initial url stored = Inr st" "h = \<lparr>hs_back = [], hs_url = stringifyUrl st, hs_forward = [], hs_view = st, hs_stored = stored\<rparr>"
    using assms(1) by (auto simp: mount_def result_simps)
  obtain p where p: "parseUrl repair (fst (location_of url)) (snd (location_of url)) = Inr p"
    using st(1) by (auto simp: initial_view_def split: sum.splits)
  have "us_network st \<noteq> [] \<and> us_expanded st \<noteq> Some []"
  proof (cases p)
    case None
    then show ?thesis using st(1) assms(2-4) p
      by (auto simp: initial_view_def or_else_def split: option.splits prod.splits)
  next
    case (Some v)
    then show ?thesis using st(1) assms(2) p parse_expanded [OF p [unfolded Some]] by (auto simp: initial_view_def split: if_splits)
  qed
  then show ?thesis using st(2) by (simp add: shown_def)
qed

end
