(* ===== verification/Web_View.thy ===== *)
theory Web_View
  imports Web_Route Typed_Spec Csv "HOL-Library.AList"
begin

text \<open>
  What the explorer's components print: outbound links (\<open>apps/web/src/explorer.ts\<close>), one-line
  summaries and times (\<open>format.ts\<close>), translations (\<open>i18n/translate.ts\<close>) and the networks to choose
  from (\<open>configuredNetworks\<close> of \<open>api.ts\<close>). \<open>dots\<close> is the character U+2026, \<open>fracs\<close> the text of a
  number that is no integer, \<open>parse\<close> is \<open>JSON.parse\<close> with None for a text that is not JSON; labels are ASCII.
\<close>

section \<open>Explorer links\<close>

datatype explorer_entity = LinkTx | LinkContract | LinkAccount

definition entity_name :: "explorer_entity \<Rightarrow> string" where
  "entity_name e = (case e of LinkTx \<Rightarrow> ''tx'' | LinkContract \<Rightarrow> ''contract'' | LinkAccount \<Rightarrow> ''account'')"

type_synonym explorer_map = "(string \<times> json) list"

definition DEFAULT_EXPLORERS :: explorer_map where
  "DEFAULT_EXPLORERS = [(''testnet'', JStr ''https://stellar.expert/explorer/testnet''),
     (''futurenet'', JStr ''https://stellar.expert/explorer/futurenet''),
     (''mainnet'', JStr ''https://stellar.expert/explorer/public''),
     (''public'', JStr ''https://stellar.expert/explorer/public'')]"

definition isWellFormed :: "explorer_entity \<Rightarrow> string \<Rightarrow> bool" where
  "isWellFormed e v = (case e of LinkTx \<Rightarrow> TX_HASH v | LinkContract \<Rightarrow> strkey_shape (CHR ''C'') v | LinkAccount \<Rightarrow> strkey_shape (CHR ''G'') v)"

definition explorer_lookup :: "explorer_map \<Rightarrow> string \<Rightarrow> json option" where
  "explorer_lookup m network = map_option snd (find (\<lambda>(label, entry). js_lower label = js_lower network) m)"

definition configuredExplorers :: "(string \<Rightarrow> json option) \<Rightarrow> string option \<Rightarrow> explorer_map" where
  "configuredExplorers parse raw =
     (if \<not> truthy raw then DEFAULT_EXPLORERS
      else (case parse (the raw) of
          Some (JObj m) \<Rightarrow> fold (\<lambda>(k, v). AList.update k v) m DEFAULT_EXPLORERS
        | _ \<Rightarrow> DEFAULT_EXPLORERS))"

text \<open>\<open>replace\<close> with a string pattern: the first place only.\<close>

fun replace_first :: "string \<Rightarrow> string \<Rightarrow> string \<Rightarrow> string" where
  "replace_first pat new [] = (if pat = [] then new else [])"
| "replace_first pat new (c # cs) = (if starts_with pat (c # cs) then new @ drop (length pat) (c # cs) else c # replace_first pat new cs)"

text \<open>The entries are what the environment holds: \<open>Inl\<close> where reading or replacing throws.\<close>

definition resolveExplorerUrl :: "explorer_map \<Rightarrow> string \<Rightarrow> explorer_entity \<Rightarrow> string \<Rightarrow> (string, string option) result" where
  "resolveExplorerUrl m network entity v =
     (if \<not> isWellFormed entity v then Inr None
      else (case explorer_lookup m network of
          None \<Rightarrow> Inr None
        | Some (JStr base) \<Rightarrow> if base = [] then Inr None
            else Inr (Some (strip_slashes base @ ''/'' @ entity_name entity @ ''/'' @ encodeURIComponent v))
        | Some JNull \<Rightarrow> Inl ''TypeError''
        | Some (JObj r) \<Rightarrow> (case map_of r (entity_name entity) of
              None \<Rightarrow> Inr None
            | Some (JStr t) \<Rightarrow> Inr (Some (replace_first ''{value}'' (encodeURIComponent v) t))
            | Some _ \<Rightarrow> Inl ''TypeError'')
        | Some _ \<Rightarrow> Inr None))"

definition explorerUrl :: "(string \<Rightarrow> json option) \<Rightarrow> string option \<Rightarrow> string \<Rightarrow> explorer_entity \<Rightarrow> string \<Rightarrow> (string, string option) result" where
  "explorerUrl parse raw network entity v = resolveExplorerUrl (configuredExplorers parse raw) network entity v"

section \<open>Summaries\<close>

definition truncate_text :: "char \<Rightarrow> nat \<Rightarrow> nat \<Rightarrow> string \<Rightarrow> string" where
  "truncate_text dots h t v = (if length v \<le> h + t + 1 then v
     else take h v @ [dots] @ (if t = 0 then v else drop (length v - t) v))"

definition cut_at :: "char \<Rightarrow> nat \<Rightarrow> string \<Rightarrow> string" where
  "cut_at dots n s = (if length s > n then take (n - 3) s @ [dots] else s)"

definition summarise :: "char \<Rightarrow> (rat \<Rightarrow> string) \<Rightarrow> string \<Rightarrow> json \<Rightarrow> string" where
  "summarise dots fracs ty v = (case v of
       JNull \<Rightarrow> ''null''
     | JArr xs \<Rightarrow> ty @ ''['' @ show_nat (length xs) @ '']''
     | JObj m \<Rightarrow> ty @ ''{'' @ show_nat (length m) @ ''}''
     | JStr s \<Rightarrow> cut_at dots 60 s
     | JNum r \<Rightarrow> cut_at dots 60 (num_text fracs r)
     | JBool b \<Rightarrow> cut_at dots 60 (bool_text b))"

definition summariseTyped :: "char \<Rightarrow> (rat \<Rightarrow> string) \<Rightarrow> typed_event \<Rightarrow> string" where
  "summariseTyped dots fracs e =
     (let data = filter (\<lambda>f. tf_location f = ''data'') (te_fields e);
          shown_fields = (if length data > 0 then data else te_fields e)
      in cut_at dots 80 (js_join '', '' (map (\<lambda>f. tf_name f @ ''='' @ summarise dots fracs (tf_type f) (tf_value f)) shown_fields)))"

definition topicPath :: "char \<Rightarrow> (rat \<Rightarrow> string) \<Rightarrow> decoded_value list \<Rightarrow> string" where
  "topicPath dots fracs ts = js_join '' / '' (map (\<lambda>t. summarise dots fracs (dv_type t) (dv_value t)) ts)"

section \<open>Times\<close>

definition relativeTime :: "(string \<Rightarrow> int option) \<Rightarrow> string \<Rightarrow> int \<Rightarrow> string" where
  "relativeTime date_parse instant now = (case date_parse instant of
       None \<Rightarrow> instant
     | Some t \<Rightarrow>
         (let seconds = max 0 (js_round (of_int (now - t) / 1000)); minutes = js_round (of_int seconds / 60);
              hours = js_round (of_int minutes / 60)
          in if seconds < 60 then show_int seconds @ ''s ago''
             else if minutes < 60 then show_int minutes @ ''m ago''
             else if hours < 24 then show_int hours @ ''h ago''
             else show_int (js_round (of_int hours / 24)) @ ''d ago''))"

definition exactTime :: "(string \<Rightarrow> int option) \<Rightarrow> (int \<Rightarrow> string) \<Rightarrow> string \<Rightarrow> string" where
  "exactTime date_parse iso_of instant = (case date_parse instant of None \<Rightarrow> instant | Some t \<Rightarrow> iso_of t)"

definition absoluteTime :: "(string \<Rightarrow> int option) \<Rightarrow> (int \<Rightarrow> string) \<Rightarrow> string \<Rightarrow> string" where
  "absoluteTime date_parse iso_of instant =
     (case date_parse instant of None \<Rightarrow> instant | Some t \<Rightarrow> replace_first ''T'' '' '' (take 19 (iso_of t)) @ '' UTC'')"

section \<open>Translations\<close>

definition name_char :: "char \<Rightarrow> bool" where
  "name_char c = (alnum c \<or> c = CHR ''_'')"

text \<open>\<open>vars\<close> reads a variable: None where it is not given.\<close>

function interpolate :: "(string \<Rightarrow> string option) \<Rightarrow> string \<Rightarrow> string" where
  "interpolate vars [] = []"
| "interpolate vars (c # cs) =
     (let name = takeWhile name_char cs; rest = dropWhile name_char cs in
      if c = CHR ''{'' \<and> name \<noteq> [] \<and> rest \<noteq> [] \<and> hd rest = CHR ''}''
      then or_else (vars name) (''{'' @ name @ ''}'') @ interpolate vars (tl rest)
      else c # interpolate vars cs)"
  by pat_completeness auto
termination
proof (relation "measure (length \<circ> snd)")
  show "wf (measure (length \<circ> snd :: (string \<Rightarrow> string option) \<times> string \<Rightarrow> nat))" by simp
next
  fix vars :: "string \<Rightarrow> string option" and c cs name rest
  assume "rest = dropWhile name_char cs"
  then have "length (tl rest) \<le> length cs" using length_dropWhile_le [of name_char cs] by simp
  then show "((vars, tl rest), (vars, c # cs)) \<in> measure (length \<circ> snd)" by simp
qed simp

definition translate :: "(string \<Rightarrow> string option) \<Rightarrow> (string \<Rightarrow> string) \<Rightarrow> string \<Rightarrow> (string \<Rightarrow> string option) option \<Rightarrow> string" where
  "translate catalogue en key vars =
     (let template = or_else (catalogue key) (en key) in case vars of None \<Rightarrow> template | Some vs \<Rightarrow> interpolate vs template)"

section \<open>Networks\<close>

record network_option =
  no_label :: string
  no_baseUrl :: json

definition DEFAULT_NETWORKS :: "network_option list" where
  "DEFAULT_NETWORKS = [\<lparr>no_label = ''testnet'', no_baseUrl = JStr ''http://localhost:8080''\<rparr>]"

text \<open>What \<open>Object.entries\<close> lists of a parsed value; \<open>null\<close> throws, and is caught.\<close>

definition object_entries :: "json \<Rightarrow> (string \<times> json) list option" where
  "object_entries j = (case j of
       JNull \<Rightarrow> None
     | JObj m \<Rightarrow> Some m
     | JArr xs \<Rightarrow> Some (zip (map show_nat [0..<length xs]) xs)
     | JStr s \<Rightarrow> Some (zip (map show_nat [0..<length s]) (map (\<lambda>c. JStr [c]) s))
     | _ \<Rightarrow> Some [])"

definition configuredNetworks :: "(string \<Rightarrow> json option) \<Rightarrow> string option \<Rightarrow> string option \<Rightarrow> network_option list" where
  "configuredNetworks parse raw single =
     (if \<not> truthy raw then (if truthy single then [\<lparr>no_label = ''testnet'', no_baseUrl = JStr (the single)\<rparr>] else DEFAULT_NETWORKS)
      else (case Option.bind (parse (the raw)) object_entries of
          None \<Rightarrow> DEFAULT_NETWORKS
        | Some m \<Rightarrow> if length m > 0 then map (\<lambda>(label, u). \<lparr>no_label = label, no_baseUrl = u\<rparr>) m else DEFAULT_NETWORKS))"

section \<open>Lemmas\<close>

lemma encode_kept: "list_all uri_kept s \<Longrightarrow> encodeURIComponent s = s"
  by (induction s) (simp_all add: encodeURIComponent_def)

lemma well_formed_kept: "isWellFormed e v \<Longrightarrow> encodeURIComponent v = v"
  by (rule encode_kept) (auto simp: isWellFormed_def TX_HASH_def strkey_shape_def list_all_iff uri_kept_def alnum_def is_hex_def
    is_base32_def is_digit_def is_upper_def is_lower_def ch_range_def split: explorer_entity.splits list.splits)

text \<open>A link is only made of an id the route can take, which it holds unchanged.\<close>

lemma explorer_link:
  assumes "resolveExplorerUrl m network e v = Inr (Some url)"
  shows "isWellFormed e v" "explorer_lookup m network = Some (JStr base) \<Longrightarrow> url = strip_slashes base @ ''/'' @ entity_name e @ ''/'' @ v"
  using assms well_formed_kept [of e v]
  by (auto simp: resolveExplorerUrl_def split: if_splits option.splits json.splits)

text \<open>The labels of the defaults come first, and labels are compared in lower case: an entry that differs from
  a default only in its case is never found.\<close>

lemma cased_label_ignored:
  "explorer_lookup (configuredExplorers (\<lambda>_. Some (JObj [(''Testnet'', JStr [])])) (Some ''{}'')) ''Testnet'' =
     Some (JStr ''https://stellar.expert/explorer/testnet'')"
  by (simp add: explorer_lookup_def configuredExplorers_def truthy_def DEFAULT_EXPLORERS_def) code_simp

text \<open>A summary fits one line of a row.\<close>

lemma cut_at_length: "3 \<le> n \<Longrightarrow> length (cut_at dots n s) \<le> n"
  by (auto simp: cut_at_def)

lemma summariseTyped_length: "length (summariseTyped dots fracs e) \<le> 80"
  by (simp add: summariseTyped_def Let_def cut_at_length)

lemma interpolate_placeholder:
  "name \<noteq> [] \<Longrightarrow> list_all name_char name \<Longrightarrow>
     interpolate vars (''{'' @ name @ ''}'' @ rest) = or_else (vars name) (''{'' @ name @ ''}'') @ interpolate vars rest"
proof -
  assume a: "name \<noteq> []" "list_all name_char name"
  have "\<not> name_char (CHR ''}'')" by (simp add: name_char_def alnum_def is_digit_def is_upper_def is_lower_def ch_range_def)
  then have "takeWhile name_char (name @ ''}'' @ rest) = name" "dropWhile name_char (name @ ''}'' @ rest) = ''}'' @ rest"
    using a(2) by (simp_all add: list_all_iff takeWhile_append dropWhile_append takeWhile_eq_all_conv)
  then show ?thesis using a(1) by simp
qed

end
