(* ===== verification/Web_Api.thy ===== *)
theory Web_Api
  imports Web_Route Server_Gate
begin

text \<open>
  The requests of the web client (\<open>apps/web/src/api.ts\<close>), and what the server of
  \<open>packages/api\<close> makes of them: its routes and its event query.
\<close>

record event_params =
  ep_contractId :: "string option"
  ep_topics :: "string option list"
  ep_fromLedger :: "int option"
  ep_toLedger :: "int option"
  ep_fromTime :: "string option"
  ep_toTime :: "string option"
  ep_successfulOnly :: bool
  ep_limit :: "int option"
  ep_cursor :: "string option"

definition number_param :: "string \<Rightarrow> int option \<Rightarrow> url_params" where
  "number_param k v = (case v of None \<Rightarrow> [] | Some n \<Rightarrow> [(k, show_int n)])"

definition given_param :: "string \<Rightarrow> string option \<Rightarrow> url_params" where
  "given_param k v = (case v of None \<Rightarrow> [] | Some s \<Rightarrow> [(k, s)])"

definition topic_params :: "string option list \<Rightarrow> url_params" where
  "topic_params ts = map (\<lambda>t. (''topic'', or_else t ''*'')) ts"

definition event_search :: "event_params \<Rightarrow> url_params" where
  "event_search p = number_param ''limit'' (ep_limit p) @ given_param ''cursor'' (if truthy (ep_cursor p) then ep_cursor p else None) @
     number_param ''fromLedger'' (ep_fromLedger p) @ number_param ''toLedger'' (ep_toLedger p) @
     given_param ''fromTime'' (ep_fromTime p) @ given_param ''toTime'' (ep_toTime p) @
     given_param ''successfulOnly'' (if ep_successfulOnly p then Some ''true'' else None) @ topic_params (ep_topics p)"

definition event_base :: "event_params \<Rightarrow> string" where
  "event_base p = (if truthy (ep_contractId p) then ''/contracts/'' @ encodeURIComponent (the (ep_contractId p)) @ ''/events'' else ''/events'')"

definition with_query :: "string \<Rightarrow> url_params \<Rightarrow> string" where
  "with_query base ps = (let q = search_text ps in if q = [] then base else base @ ''?'' @ q)"

definition buildEventPath :: "event_params \<Rightarrow> string" where
  "buildEventPath p = with_query (event_base p) (event_search p)"

definition stream_search :: "event_params \<Rightarrow> url_params" where
  "stream_search p = given_param ''contractId'' (if truthy (ep_contractId p) then ep_contractId p else None) @
     number_param ''fromLedger'' (ep_fromLedger p) @ number_param ''toLedger'' (ep_toLedger p) @
     given_param ''successfulOnly'' (if ep_successfulOnly p then Some ''true'' else None) @ topic_params (ep_topics p)"

definition buildStreamPath :: "event_params \<Rightarrow> string" where
  "buildStreamPath p = with_query ''/events/stream'' (stream_search p)"

record activity_params =
  av_bucket :: string
  av_from :: int
  av_to :: int
  av_topics :: "string list"
  av_successfulOnly :: bool

definition activity_search :: "activity_params \<Rightarrow> url_params" where
  "activity_search p = [(''bucket'', av_bucket p), (''from'', show_int (av_from p)), (''to'', show_int (av_to p))] @
     given_param ''successfulOnly'' (if av_successfulOnly p then Some ''true'' else None) @ map (\<lambda>t. (''topic'', t)) (av_topics p)"

definition activityPath :: "string \<Rightarrow> activity_params \<Rightarrow> string" where
  "activityPath contractId p = ''/contracts/'' @ encodeURIComponent contractId @ ''/activity?'' @ search_text (activity_search p)"

definition eventPath :: "string \<Rightarrow> string" where
  "eventPath i = ''/events/'' @ encodeURIComponent i"

definition topicsPath :: "string \<Rightarrow> string" where
  "topicsPath contractId = ''/contracts/'' @ encodeURIComponent contractId @ ''/topics''"

section \<open>Answers\<close>

text \<open>A property read by optional chaining: \<open>null\<close> and a missing property are the same.\<close>

definition chained :: "string \<Rightarrow> json option \<Rightarrow> json option" where
  "chained k j = (case j of None \<Rightarrow> None | Some v \<Rightarrow> (case json_get v k of Some JNull \<Rightarrow> None | r \<Rightarrow> r))"

record request_error =
  rx_status :: nat
  rx_message :: json
  rx_code :: json
  rx_parameter :: "json option"

definition ApiRequestError :: "nat \<Rightarrow> json option \<Rightarrow> string \<Rightarrow> request_error" where
  "ApiRequestError status body fallback = (let e = chained ''error'' body in
     \<lparr>rx_status = status, rx_message = or_else (chained ''message'' e) (JStr fallback), rx_code = or_else (chained ''code'' e) (JStr ''unknown''),
      rx_parameter = (case e of None \<Rightarrow> None | Some v \<Rightarrow> json_get v ''parameter'')\<rparr>)"

text \<open>What \<open>fetch\<close> came to: the body is None where it is not JSON.\<close>

datatype fetched = Aborted | Unreachable | Answered nat "json option"

datatype request_failure = Abort | Refused_by_api request_error | Not_json

definition request :: "string \<Rightarrow> fetched \<Rightarrow> (request_failure, json) result" where
  "request baseUrl r = (case r of
       Aborted \<Rightarrow> Inl Abort
     | Unreachable \<Rightarrow> Inl (Refused_by_api (ApiRequestError 0 None (''Cannot reach the API at '' @ baseUrl @ ''. Is it running?'')))
     | Answered status body \<Rightarrow>
         if \<not> (200 \<le> status \<and> status \<le> 299)
         then Inl (Refused_by_api (ApiRequestError status body (''Request failed with '' @ show_nat status @ ''.'')))
         else (case body of None \<Rightarrow> Inl Not_json | Some j \<Rightarrow> Inr j))"

text \<open>The client reports the very code and text of a refusal of the server.\<close>

lemma request_reports_refusal:
  assumes "\<not> (200 \<le> ae_status e \<and> ae_status e \<le> 299)"
  shows "request baseUrl (Answered (ae_status e) (Some (toBody i e))) =
    Inl (Refused_by_api \<lparr>rx_status = ae_status e, rx_message = JStr (ae_message e), rx_code = JStr (ae_code e),
      rx_parameter = map_option JStr (non_empty (ae_parameter e))\<rparr>)"
  using assms by (auto simp: request_def ApiRequestError_def chained_def toBody_def optional_field_def non_empty_def truthy_def or_else_def
    split: option.splits)

section \<open>What the server reads\<close>

lemma location_with_query:
  assumes "CHR ''?'' \<notin> set base"
  shows "fst (location_of (with_query base ps)) = base" "search_params repair (snd (location_of (with_query base ps))) = ps"
proof -
  have b: "\<forall>c \<in> set base. c \<noteq> CHR ''?''" using assms by auto
  have l: "location_of (with_query base ps) = (base, if search_text ps = [] then [] else ''?'' @ search_text ps)"
    using b by (simp add: with_query_def location_of_def Let_def takeWhile_append dropWhile_append takeWhile_all dropWhile_all list_all_iff)
  show "fst (location_of (with_query base ps)) = base" by (simp add: l)
  show "search_params repair (snd (location_of (with_query base ps))) = ps"
    using search_params_text [of repair ps] by (simp only: l snd_conv)
qed

lemma event_base_plain: "CHR ''?'' \<notin> set (event_base p)"
  using uri_encode_plain by (auto simp: event_base_def)

text \<open>The path is that of one route, and its capture is the contract.\<close>

lemma event_base_route:
  assumes "truthy (ep_contractId p)"
  shows "map rt_id (candidates (event_base p)) = [R_contract_events]"
    "route_match [Fixed ''contracts'', Capture, Fixed ''events''] (event_base p) = Some [encodeURIComponent (the (ep_contractId p))]"
proof -
  let ?c = "encodeURIComponent (the (ep_contractId p))"
  have c: "?c \<noteq> []" using assms by (auto simp: truthy_def encode_empty split: option.splits)
  have s: "SLASH \<notin> set ?c" using uri_encode_plain by blast
  have b: "event_base p = SLASH # ''contracts'' @ SLASH # ?c @ SLASH # ''events''"
    using assms by (simp add: event_base_def SLASH_def)
  have "split_on SLASH (''contracts'' @ SLASH # ?c @ SLASH # ''events'') = [''contracts'', ?c, ''events'']"
    using split_on_first [of SLASH "''contracts''"] split_on_first [OF s] split_on_none [of SLASH "''events''"]
    by (simp add: SLASH_def)
  then have m: "route_match pat (event_base p) = match_segments pat [''contracts'', ?c, ''events'']" for pat
    unfolding b route_match_def by simp
  show "route_match [Fixed ''contracts'', Capture, Fixed ''events''] (event_base p) = Some [?c]" using c by (simp add: m)
  show "map rt_id (candidates (event_base p)) = [R_contract_events]"
    using c by (simp add: candidates_def routes_def m data_route_def list_route_def open_route_def)
qed

text \<open>Each parameter, as the server looks it up.\<close>

lemma params_get_append:
  "params_get xs k = None \<Longrightarrow> params_get (xs @ ys) k = params_get ys k"
  "params_get ys k = None \<Longrightarrow> params_get (xs @ ys) k = params_get xs k"
  by (simp_all add: params_get_def map_add_def split: option.splits)

lemma params_get_number: "params_get (number_param k v) k' = (if k = k' then map_option show_int v else None)"
  by (cases v) (simp_all add: params_get_def number_param_def)

lemma params_get_given: "params_get (given_param k v) k' = (if k = k' then v else None)"
  by (cases v) (simp_all add: params_get_def given_param_def)

lemma params_get_topics: "k \<noteq> ''topic'' \<Longrightarrow> params_get (topic_params ts) k = None"
  by (auto simp: params_get_def topic_params_def map_of_eq_None_iff)

lemmas event_search_get = event_search_def params_get_append params_get_number params_get_given params_get_topics

lemma params_getAll_topics: "params_getAll (event_search p) ''topic'' = map (\<lambda>t. or_else t ''*'') (ep_topics p)"
  by (simp add: params_getAll_def event_search_def number_param_def given_param_def topic_params_def filter_map o_def split: option.split)

lemma show_int_given: "show_int n \<noteq> []"
  by (simp add: show_int_def)

lemma intParam_number: "params_get ps k = map_option show_int v \<Longrightarrow> intParam ps k = Inr v"
  by (cases v) (simp_all add: intParam_def show_int_given js_Number_show_int)

text \<open>What the server can take: the bounds it checks, and no topic that means the wildcard.\<close>

definition params_valid :: "event_params \<Rightarrow> bool" where
  "params_valid p = ((case ep_limit p of None \<Rightarrow> True | Some l \<Rightarrow> 1 \<le> l \<and> l \<le> int MAX_QUERY_LIMIT) \<and>
     \<not> crossed (ep_fromLedger p) (ep_toLedger p) \<and> length (ep_topics p) \<le> 4 \<and>
     list_all (\<lambda>t. t \<noteq> Some ''*'' \<and> t \<noteq> Some []) (ep_topics p))"

definition asked_query :: "event_params \<Rightarrow> int option \<times> int option \<Rightarrow> event_query" where
  "asked_query p period = \<lparr>q_contractId = None, q_topics = ep_topics p, q_fromLedger = ep_fromLedger p,
     q_toLedger = ep_toLedger p, q_fromTime = fst period, q_toTime = snd period, q_txHash = None, q_address = None,
     q_search = None, q_transactionIndex = None, q_operationIndex = None, q_successfulOnly = ep_successfulOnly p,
     q_limit = map_option of_int (ep_limit p), q_cursor = non_empty (ep_cursor p), q_direction = None,
     q_skipTotal = False, q_order = None\<rparr>"

lemma event_search_fields:
  "params_valid p \<Longrightarrow> limitParam (event_search p) = Inr (ep_limit p)"
  "params_valid p \<Longrightarrow> ledgerRange (event_search p) = Inr (ep_fromLedger p, ep_toLedger p)"
  "boolParam (event_search p) ''successfulOnly'' = Inr (if ep_successfulOnly p then Some True else None)"
  "orderParam (event_search p) = Inr None" "directionParam (event_search p) = Inr None"
  "txHashParam (event_search p) = Inr None" "addressParam (event_search p) = Inr None"
  "indexParam (event_search p) ''transactionIndex'' = Inr None" "indexParam (event_search p) ''operationIndex'' = Inr None"
  "params_get (event_search p) ''search'' = None" "non_empty (params_get (event_search p) ''cursor'') = non_empty (ep_cursor p)"
proof -
  have n: "intParam (event_search p) ''limit'' = Inr (ep_limit p)"
    "intParam (event_search p) ''fromLedger'' = Inr (ep_fromLedger p)" "intParam (event_search p) ''toLedger'' = Inr (ep_toLedger p)"
    by (rule intParam_number, simp add: event_search_get split: option.split)+
  show "params_valid p \<Longrightarrow> limitParam (event_search p) = Inr (ep_limit p)"
    by (auto simp: limitParam_def n params_valid_def split: option.splits)
  show "params_valid p \<Longrightarrow> ledgerRange (event_search p) = Inr (ep_fromLedger p, ep_toLedger p)"
    by (simp add: ledgerRange_def n params_valid_def)
qed (simp_all add: boolParam_def orderParam_def directionParam_def txHashParam_def addressParam_def indexParam_def intParam_def
  non_empty_def event_search_get)

lemma parseTopics_event_search:
  assumes "params_valid p" shows "parseTopics (event_search p) = Inr (if ep_topics p = [] then None else Some (ep_topics p))"
proof -
  have "(if or_else t ''*'' = ''*'' \<or> or_else t ''*'' = [] then None else Some (or_else t ''*'')) = t" if "t \<in> set (ep_topics p)" for t
    using assms that by (cases t) (auto simp: params_valid_def list_all_iff)
  then have t: "map ((\<lambda>t. if t = ''*'' \<or> t = [] then None else Some t) \<circ> (\<lambda>t. or_else t ''*'')) (ep_topics p) = ep_topics p"
    by (intro map_idI) simp
  show ?thesis using assms t by (simp add: parseTopics_def params_getAll_topics params_valid_def)
qed

lemma non_empty_None: "non_empty None = None"
  by (simp add: non_empty_def)

lemma parseEventQuery_event_search:
  assumes "params_valid p" "timeRange dp (event_search p) ''fromTime'' ''toTime'' = Inr period"
  shows "parseEventQuery dp (event_search p) = Inr (asked_query p period)"
  using assms by (cases period) (simp add: parseEventQuery_def event_search_fields parseTopics_event_search asked_query_def non_empty_None)

end
