(* ===== verification/Web_App.thy ===== *)
theory Web_App
  imports Web_Api
begin

text \<open>
  The state of the explorer's page (\<open>AppInner\<close> of \<open>apps/web/src/App.tsx\<close>): the query it asks for,
  the rows it shows, the requests it has in flight, whose answers arrive in any order, and the
  live stream. A step is one callback of the component, run with the state of the last render;
  the parts of a render that only draw are not modelled.
\<close>

section \<open>The query\<close>

definition PAGE_SIZE :: int where
  "PAGE_SIZE = 50"

definition SECONDS_PER_DAY :: int where
  "SECONDS_PER_DAY = 24 * 60 * 60"

definition ACTIVITY_DAYS :: int where
  "ACTIVITY_DAYS = 30"

record activity_range =
  ar_fromTime :: string
  ar_toTime :: string
  ar_fromLedger :: int
  ar_toLedger :: int

definition contract_id_valid :: "string \<Rightarrow> bool" where
  "contract_id_valid c = (c = [] \<or> strkey_shape (CHR ''C'') c)"

definition ledger_bound :: "string \<Rightarrow> int option" where
  "ledger_bound s = (if s \<noteq> [] \<and> list_all is_digit s then Some (int (read_base 10 s)) else None)"

definition ledger_range_valid :: "filter_state \<Rightarrow> bool" where
  "ledger_range_valid f = (\<not> crossed (ledger_bound (fl_fromLedger f)) (ledger_bound (fl_toLedger f)))"

text \<open>\<open>contract\<close> and \<open>topic\<close> are the debounced fields.\<close>

definition page_query :: "string \<Rightarrow> string \<Rightarrow> filter_state \<Rightarrow> activity_range option \<Rightarrow> event_params" where
  "page_query contract topic f ar =
     \<lparr>ep_contractId = (if contract_id_valid contract \<and> contract \<noteq> [] then Some contract else None),
      ep_topics = (if topic \<noteq> [] then [Some topic] else []),
      ep_fromLedger = (case ar of Some r \<Rightarrow> Some (ar_fromLedger r) | None \<Rightarrow> ledger_bound (fl_fromLedger f)),
      ep_toLedger = (case ar of Some r \<Rightarrow> Some (ar_toLedger r) | None \<Rightarrow> ledger_bound (fl_toLedger f)),
      ep_fromTime = map_option ar_fromTime ar, ep_toTime = map_option ar_toTime ar,
      ep_successfulOnly = fl_successfulOnly f, ep_limit = Some PAGE_SIZE, ep_cursor = None\<rparr>"

definition stream_url :: "string \<Rightarrow> string \<Rightarrow> string \<Rightarrow> filter_state \<Rightarrow> activity_range option \<Rightarrow> string option" where
  "stream_url base contract topic f ar =
     (if fl_live f \<and> contract_id_valid contract \<and> ar = None
      then Some (base @ buildStreamPath (page_query contract topic f ar)) else None)"

definition activity_window :: "(string \<Rightarrow> int option) \<Rightarrow> string option \<Rightarrow> (int \<times> int) option" where
  "activity_window date_parse lastSeenAt = (case Option.bind lastSeenAt date_parse of
       None \<Rightarrow> None
     | Some t \<Rightarrow> (let finalDay = t div (SECONDS_PER_DAY * 1000) * SECONDS_PER_DAY
                  in Some (finalDay - (ACTIVITY_DAYS - 1) * SECONDS_PER_DAY, finalDay + SECONDS_PER_DAY - 1)))"

definition filterActivityBucket :: "(int \<Rightarrow> string) \<Rightarrow> int \<Rightarrow> int \<Rightarrow> int \<Rightarrow> activity_range option \<Rightarrow> activity_range option" where
  "filterActivityBucket instant start firstLedger lastLedger current =
     (let fromTime = instant (start * 1000)
      in if map_option ar_fromTime current = Some fromTime then None
         else Some \<lparr>ar_fromTime = fromTime, ar_toTime = instant ((start + SECONDS_PER_DAY - 1) * 1000),
           ar_fromLedger = firstLedger, ar_toLedger = lastLedger\<rparr>)"

definition range_after_filters :: "filter_state \<Rightarrow> filter_state \<Rightarrow> activity_range option \<Rightarrow> activity_range option" where
  "range_after_filters f nxt ar =
     (if fl_contractId nxt \<noteq> fl_contractId f \<or> fl_topic nxt \<noteq> fl_topic f \<or> fl_successfulOnly nxt \<noteq> fl_successfulOnly f
      then None else ar)"

text \<open>What the page asks for is within the server's bounds, whatever the fields hold.\<close>

lemma page_query_valid: "ledger_range_valid f \<Longrightarrow> topic \<noteq> ''*'' \<Longrightarrow> params_valid (page_query contract topic f None)"
  by (simp add: params_valid_def page_query_def ledger_range_valid_def PAGE_SIZE_def MAX_QUERY_LIMIT_def)

section \<open>The comparison's selection\<close>

definition last_two :: "'a list \<Rightarrow> 'a list" where
  "last_two xs = drop (length xs - 2) xs"

definition toggleSelect :: "string \<Rightarrow> string list \<Rightarrow> string list" where
  "toggleSelect i current = (if i \<in> set current then filter (\<lambda>x. x \<noteq> i) current else last_two (current @ [i]))"

definition readCompareParam :: "url_params \<Rightarrow> string list" where
  "readCompareParam ps = (case params_get ps ''compare'' of
       None \<Rightarrow> []
     | Some raw \<Rightarrow> if raw = [] then [] else take 2 (comma_items raw))"

section \<open>The rows and the requests\<close>

type_synonym table_query = "string \<times> event_params"

record web_page =
  wp_events :: "lens_event list"
  wp_total :: int
  wp_nextCursor :: "string option"
  wp_noMatch :: bool

text \<open>An error: the status of an \<open>ApiRequestError\<close>, None for any other, and its text.\<close>

datatype page_answer = Page web_page | Failed "nat option" string

record table =
  tb_query :: table_query
  tb_valid :: bool
  tb_events :: "lens_event list"
  tb_total :: int
  tb_nextCursor :: "string option"
  tb_unknown :: bool
  tb_noMatch :: bool
  tb_error :: "string option"
  tb_loading :: bool
  tb_loadingMore :: bool
  tb_request :: nat
  tb_first :: "(nat \<times> table_query) list"
  tb_more :: "table_query list"

definition new_table :: "table_query \<Rightarrow> table" where
  "new_table q = \<lparr>tb_query = q, tb_valid = False, tb_events = [], tb_total = 0, tb_nextCursor = None, tb_unknown = False, tb_noMatch = False,
     tb_error = None, tb_loading = True, tb_loadingMore = False, tb_request = 0, tb_first = [], tb_more = []\<rparr>"

definition loadFirstPage :: "table \<Rightarrow> table" where
  "loadFirstPage t = (if \<not> tb_valid t then t
     else t\<lparr>tb_request := Suc (tb_request t), tb_first := (Suc (tb_request t), tb_query t) # tb_first t\<rparr>)"

definition first_answer :: "nat \<Rightarrow> table_query \<Rightarrow> page_answer \<Rightarrow> table \<Rightarrow> table" where
  "first_answer i q a t0 =
     (let t = t0\<lparr>tb_first := removeAll (i, q) (tb_first t0)\<rparr>
      in if i \<noteq> tb_request t then t
         else (case a of
             Page p \<Rightarrow> t\<lparr>tb_events := wp_events p, tb_total := wp_total p, tb_nextCursor := wp_nextCursor p, tb_unknown := False,
               tb_noMatch := wp_noMatch p, tb_error := None, tb_loading := False\<rparr>
           | Failed status text \<Rightarrow>
               if status = Some 404 \<and> truthy (ep_contractId (snd q))
               then t\<lparr>tb_events := [], tb_total := 0, tb_nextCursor := None, tb_unknown := True, tb_noMatch := False,
                 tb_error := None, tb_loading := False\<rparr>
               else t\<lparr>tb_error := Some text, tb_loading := False\<rparr>))"

definition loadMore :: "table \<Rightarrow> table" where
  "loadMore t = (if \<not> truthy (tb_nextCursor t) \<or> tb_loadingMore t then t
     else t\<lparr>tb_loadingMore := True, tb_more := (fst (tb_query t), (snd (tb_query t))\<lparr>ep_cursor := tb_nextCursor t\<rparr>) # tb_more t\<rparr>)"

definition append_new :: "lens_event list \<Rightarrow> lens_event list \<Rightarrow> lens_event list" where
  "append_new current es = current @ filter (\<lambda>e. le_id e \<notin> le_id ` set current) es"

definition more_answer :: "table_query \<Rightarrow> page_answer \<Rightarrow> table \<Rightarrow> table" where
  "more_answer q a t0 =
     (let t = t0\<lparr>tb_more := remove1 q (tb_more t0)\<rparr>
      in (case a of
            Page p \<Rightarrow> t\<lparr>tb_events := append_new (tb_events t) (wp_events p), tb_nextCursor := wp_nextCursor p, tb_total := wp_total p\<rparr>
          | Failed status text \<Rightarrow> t\<lparr>tb_error := Some text\<rparr>)\<lparr>tb_loadingMore := False\<rparr>)"

definition prepend_new :: "lens_event \<Rightarrow> lens_event list \<Rightarrow> lens_event list" where
  "prepend_new e current = (if le_id e \<in> le_id ` set current then current else e # current)"

text \<open>None: the message is not JSON.\<close>

definition stream_message :: "lens_event option \<Rightarrow> table \<Rightarrow> table" where
  "stream_message m t = (case m of None \<Rightarrow> t
     | Some e \<Rightarrow> t\<lparr>tb_events := prepend_new e (tb_events t), tb_total := tb_total t + 1\<rparr>)"

text \<open>None: the event of the address bar could not be fetched.\<close>

definition deep_link_answer :: "lens_event option \<Rightarrow> table \<Rightarrow> table" where
  "deep_link_answer m t = (case m of None \<Rightarrow> t | Some e \<Rightarrow> t\<lparr>tb_events := prepend_new e (tb_events t)\<rparr>)"

text \<open>The query, the network or its validity has changed: the effect that fetches again.\<close>

definition query_changed :: "table_query \<Rightarrow> bool \<Rightarrow> table \<Rightarrow> table" where
  "query_changed q valid t0 =
     (let t = t0\<lparr>tb_query := q, tb_valid := valid\<rparr>
      in if \<not> valid then t\<lparr>tb_loading := False\<rparr> else loadFirstPage (t\<lparr>tb_loading := True, tb_nextCursor := None\<rparr>))"

text \<open>\<open>answers\<close> says what the API may answer. Polling and an opened stream load the first page.\<close>

inductive app_step :: "(table_query \<Rightarrow> page_answer \<Rightarrow> bool) \<Rightarrow> table \<Rightarrow> table \<Rightarrow> bool" for answers where
  change: "app_step answers t (query_changed q valid t)"
| refresh: "app_step answers t (loadFirstPage t)"
| first: "(i, q) \<in> set (tb_first t) \<Longrightarrow> answers q a \<Longrightarrow> app_step answers t (first_answer i q a t)"
| ask_more: "app_step answers t (loadMore t)"
| more: "q \<in> set (tb_more t) \<Longrightarrow> answers q a \<Longrightarrow> app_step answers t (more_answer q a t)"
| message: "app_step answers t (stream_message m t)"
| deep_link: "app_step answers t (deep_link_answer m t)"

section \<open>What the rows are\<close>

definition distinct_rows :: "lens_event list \<Rightarrow> bool" where
  "distinct_rows es = distinct (map le_id es)"

lemma distinct_append_new: "distinct_rows xs \<Longrightarrow> distinct_rows ys \<Longrightarrow> distinct_rows (append_new xs ys)"
  by (auto simp: distinct_rows_def append_new_def intro: distinct_map_filter) (metis imageI)

lemma distinct_prepend_new: "distinct_rows xs \<Longrightarrow> distinct_rows (prepend_new e xs)"
  by (auto simp: distinct_rows_def prepend_new_def)

text \<open>The request in flight that may still set the rows is the one for the query on screen.\<close>

definition table_ok :: "table \<Rightarrow> bool" where
  "table_ok t = (distinct_rows (tb_events t) \<and> (\<forall>(i, q) \<in> set (tb_first t). i \<le> tb_request t) \<and>
     (tb_valid t \<longrightarrow> (\<forall>(i, q) \<in> set (tb_first t). i = tb_request t \<longrightarrow> q = tb_query t)))"

definition distinct_pages :: "(table_query \<Rightarrow> page_answer \<Rightarrow> bool) \<Rightarrow> bool" where
  "distinct_pages answers = (\<forall>q p. answers q (Page p) \<longrightarrow> distinct_rows (wp_events p))"

lemma table_ok_load: "distinct_rows (tb_events t) \<Longrightarrow> \<forall>(i, q) \<in> set (tb_first t). i \<le> tb_request t \<Longrightarrow> tb_valid t \<Longrightarrow> table_ok (loadFirstPage t)"
  by (fastforce simp: table_ok_def loadFirstPage_def)

lemma table_ok_step:
  assumes "distinct_pages answers" "app_step answers t t'" "table_ok t"
  shows "table_ok t'"
  using assms(2,3)
proof cases
  case (change q valid)
  show ?thesis
  proof (cases valid)
    case True
    then show ?thesis using assms(3) unfolding change query_changed_def
      by (simp, intro table_ok_load) (auto simp: table_ok_def)
  next
    case False
    then show ?thesis using assms(3) by (auto simp: change query_changed_def table_ok_def)
  qed
next
  case refresh
  show ?thesis
  proof (cases "tb_valid t")
    case True
    then show ?thesis using assms(3) unfolding refresh by (intro table_ok_load) (simp_all add: table_ok_def)
  next
    case False
    then show ?thesis using assms(3) by (simp add: refresh loadFirstPage_def)
  qed
next
  case (first i q a)
  then have "distinct_rows (wp_events p)" if "a = Page p" for p using assms(1) that by (cases q) (auto simp: distinct_pages_def)
  moreover have "distinct_rows []" by (simp add: distinct_rows_def)
  ultimately show ?thesis using assms(3) unfolding first(1)
    by (auto simp: first_answer_def table_ok_def Let_def split: page_answer.splits)
next
  case ask_more
  then show ?thesis using assms(3) by (simp add: loadMore_def table_ok_def)
next
  case (more q a)
  then have "distinct_rows (wp_events p)" if "a = Page p" for p using assms(1) that by (cases q) (auto simp: distinct_pages_def)
  then show ?thesis using assms(3) unfolding more(1)
    by (auto simp: more_answer_def table_ok_def Let_def distinct_append_new split: page_answer.splits)
next
  case (message m)
  then show ?thesis using assms(3) by (auto simp: stream_message_def table_ok_def distinct_prepend_new split: option.splits)
next
  case (deep_link m)
  then show ?thesis using assms(3) by (auto simp: deep_link_answer_def table_ok_def distinct_prepend_new split: option.splits)
qed

lemma table_ok_reachable: "(app_step answers)\<^sup>*\<^sup>* (new_table q) t \<Longrightarrow> distinct_pages answers \<Longrightarrow> table_ok t"
proof (induction rule: rtranclp_induct)
  case base
  then show ?case by (simp add: table_ok_def new_table_def distinct_rows_def)
qed (simp add: table_ok_step)

text \<open>The answer to a request for more rows is not checked against the query on screen.\<close>

lemma stale_more_mixes:
  assumes "tb_query t = (base, q)" "tb_valid t" "tb_nextCursor t = Some (c # cs)" "\<not> tb_loadingMore t" "q' \<noteq> (base, q)"
    "le_id ` set (wp_events p') \<inter> le_id ` set (wp_events p) = {}"
  shows "tb_events (more_answer (base, q\<lparr>ep_cursor := tb_nextCursor t\<rparr>) (Page p)
      (first_answer (Suc (tb_request t)) q' (Page p') (query_changed q' True (loadMore t)))) = wp_events p' @ wp_events p"
proof -
  have "filter (\<lambda>e. le_id e \<notin> le_id ` set (wp_events p')) (wp_events p) = wp_events p"
    using assms(6) by (auto simp: filter_id_conv)
  then show ?thesis using assms(1-5)
    by (simp add: more_answer_def first_answer_def query_changed_def loadFirstPage_def loadMore_def append_new_def Let_def truthy_def)
qed

text \<open>A message about an event already shown is counted again.\<close>

lemma known_message_counted:
  "e \<in> set (tb_events t) \<Longrightarrow> tb_events (stream_message (Some e) t) = tb_events t \<and> tb_total (stream_message (Some e) t) = tb_total t + 1"
  by (simp add: stream_message_def prepend_new_def)

end
