(* ===== verification/Web_Props.thy ===== *)
theory Web_Props
  imports Web_Diff Web_View Web_App
begin

text \<open>
  What the web client promises: its view survives the address bar and the history, a comparison
  shows both payloads, and the server reads a request as the question the client asked.
\<close>

section \<open>The view and the history\<close>

definition valid_view :: "url_state \<Rightarrow> bool" where
  "valid_view st = (us_expanded st \<noteq> Some [] \<and> us_network st \<noteq> [])"

lemma update_shown: "valid_view nxt \<Longrightarrow> shown (update_view nxt h)"
  by (simp add: shown_def update_view_def valid_view_def)

lemma fold_update_shown: "shown h \<Longrightarrow> list_all valid_view views \<Longrightarrow> shown (fold update_view views h)"
  by (induction views arbitrary: h) (simp_all add: update_shown)

lemma go_forward_update:
  "shown h \<Longrightarrow> valid_view nxt \<Longrightarrow> \<not> sameFilterView (hs_view h) nxt \<Longrightarrow> hs_view (go_forward repair (go_back repair (update_view nxt h))) = nxt"
  by (simp add: update_view_def go_back_def go_forward_def shown_def valid_view_def pop_state_shown [where st = "hs_view h"]
    pop_state_shown [where st = nxt])

text \<open>
  C36: after the page is mounted on any URL and any sequence of views, a reload of the address bar
  shows the same view, and a further change of the filters is undone by the back button and
  redone by the forward button.
\<close>

theorem url_state_kept:
  assumes "mount repair initial url stored = Inr h0" "us_network initial \<noteq> []" "us_expanded initial = None" "snd stored \<noteq> Some []"
    "list_all valid_view views" "h = fold update_view views h0" "valid_view nxt" "\<not> sameFilterView (hs_view h) nxt"
  shows "initial_view repair initial' (hs_url h) stored' = Inr (hs_view h)
    \<and> hs_view (go_back repair (update_view nxt h)) = hs_view h \<and> hs_url (go_back repair (update_view nxt h)) = hs_url h
    \<and> hs_view (go_forward repair (go_back repair (update_view nxt h))) = nxt"
proof -
  have s: "shown h" using mount_shown [OF assms(1-4)] fold_update_shown assms(5,6) by blast
  show ?thesis using reload_shown [OF s] go_back_update [OF s assms(8)] go_forward_update [OF s assms(7,8)] by simp
qed

definition demo_view :: "string \<Rightarrow> url_state" where
  "demo_view t = default_view\<lparr>us_filters := (us_filters default_view)\<lparr>fl_topic := t\<rparr>, us_network := ''testnet''\<rparr>"

theorem url_state_kept_witness:
  "\<exists>h. hs_view (go_back id (update_view (demo_view ''mint'') h)) = demo_view ''a & b''
     \<and> initial_view id (demo_view []) (hs_url h) (None, None) = Inr (demo_view ''a & b'')"
proof -
  have d: "us_network (demo_view t) = ''testnet''" "us_expanded (demo_view t) = None" "fl_topic (us_filters (demo_view t)) = t" for t
    by (simp_all add: demo_view_def default_view_def)
  obtain h0 where h0: "mount id (demo_view []) ''/'' (None, None) = Inr h0"
    by (simp add: mount_def initial_view_def parseUrl_def location_of_def event_match_def search_params_def starts_with_def split_on.simps)
  let ?h = "fold update_view [demo_view ''a & b''] h0"
  have v: "hs_view (update_view (demo_view ''a & b'') h0) = demo_view ''a & b''" by (simp add: update_view_def)
  have "\<not> sameFilterView (hs_view ?h) (demo_view ''mint'')" by (simp add: v sameFilterView_def d)
  from url_state_kept [OF h0 _ _ _ _ refl _ this, of "demo_view []" "(None, None)"] show ?thesis
    by (intro exI [of _ ?h]) (simp add: v d valid_view_def)
qed

section \<open>The comparison\<close>




section \<open>The request\<close>



definition demo_contract_id :: string where
  "demo_contract_id = CHR ''C'' # replicate 55 (CHR ''A'')"

definition demo_params :: event_params where
  "demo_params = \<lparr>ep_contractId = Some demo_contract_id, ep_topics = [Some ''transfer'', None],
     ep_fromLedger = Some 5, ep_toLedger = None, ep_fromTime = None, ep_toTime = None, ep_successfulOnly = True,
     ep_limit = Some 50, ep_cursor = None\<rparr>"


section \<open>The rows\<close>

text \<open>
  C35: whatever the user does and in whatever order the API answers, no event has two rows; and an
  answer to a request for a first page that is not the last one sent changes nothing on screen,
  while the answer to the last one, for a valid query, is for the query on screen and becomes its rows.
\<close>

theorem rows_follow_query:
  assumes "distinct_pages answers" "(app_step answers)\<^sup>*\<^sup>* (new_table q0) t" "(i, q) \<in> set (tb_first t)" "tb_valid t"
  shows "distinct_rows (tb_events t) \<and>
    (if i = tb_request t then q = tb_query t \<and> tb_events (first_answer i q (Page p) t) = wp_events p \<and>
       tb_nextCursor (first_answer i q (Page p) t) = wp_nextCursor p
     else first_answer i q a t = t\<lparr>tb_first := removeAll (i, q) (tb_first t)\<rparr>)"
  using table_ok_reachable [OF assms(2,1)] assms(3,4) by (auto simp: table_ok_def first_answer_def Let_def)

definition shown_row :: "string \<Rightarrow> lens_event" where
  "shown_row i = \<lparr>le_id = i, le_contractId = demo_contract_id, le_type = ContractEvent, le_ledger = 1, le_ledgerClosedAt = [], le_txHash = [],
     le_transactionIndex = 0, le_operationIndex = 0, le_inSuccessfulContractCall = True, le_topics = [], le_topicsXdr = [],
     le_value = \<lparr>dv_type = ''void'', dv_value = JNull\<rparr>, le_valueXdr = [], le_decodeError = None, le_indexedAt = []\<rparr>"

definition demo_page :: "string list \<Rightarrow> web_page" where
  "demo_page ids = \<lparr>wp_events = map shown_row ids, wp_total = int (length ids), wp_nextCursor = None, wp_noMatch = False\<rparr>"

definition demo_answers :: "table_query \<Rightarrow> page_answer \<Rightarrow> bool" where
  "demo_answers q a = (a = Page (demo_page (if fst q = ''b'' then [''2'', ''3''] else [''1''])))"

text \<open>Two queries are sent; the answer to the first arrives last.\<close>

theorem rows_follow_query_witness:
  "\<exists>t. (app_step demo_answers)\<^sup>*\<^sup>* (new_table (''a'', demo_params)) t \<and> tb_query t = (''b'', demo_params) \<and>
     tb_events (first_answer 1 (''a'', demo_params) (Page (demo_page [''1''])) (first_answer 2 (''b'', demo_params) (Page (demo_page [''2''])) t)) =
       map shown_row [''2'']"
proof -
  let ?t0 = "new_table (''a'', demo_params)"
  let ?t1 = "query_changed (''a'', demo_params) True ?t0"
  let ?t2 = "query_changed (''b'', demo_params) True ?t1"
  have run: "(app_step demo_answers)\<^sup>*\<^sup>* ?t0 ?t2"
    by (meson app_step.change rtranclp.rtrancl_into_rtrancl rtranclp.rtrancl_refl)
  have shape: "tb_request ?t2 = 2" "tb_first ?t2 = [(2, (''b'', demo_params)), (1, (''a'', demo_params))]" "tb_valid ?t2" "tb_query ?t2 = (''b'', demo_params)"
    by (simp_all add: query_changed_def loadFirstPage_def new_table_def Let_def)
  have pages: "distinct_pages demo_answers"
    by (auto simp: distinct_pages_def demo_answers_def demo_page_def distinct_rows_def shown_row_def)
  have "tb_events (first_answer 2 (''b'', demo_params) (Page (demo_page [''2''])) ?t2) = map shown_row [''2'']"
    using rows_follow_query [OF pages run, of 2 "(''b'', demo_params)" "demo_page [''2'']"] by (simp add: shape demo_page_def)
  then have "tb_events (first_answer 1 (''a'', demo_params) (Page (demo_page [''1''])) (first_answer 2 (''b'', demo_params) (Page (demo_page [''2''])) ?t2)) = map shown_row [''2'']"
    by (simp add: first_answer_def [of 1] Let_def) (simp add: first_answer_def shape)
  with run shape(4) show ?thesis by blast
qed

end
